(* ===== verification/Voting_Prelude.thy ===== *)
theory Voting_Prelude
  imports Main "HOL-Library.Word" "HOL-Library.Multiset"
begin

text \<open>
  Shared vocabulary of the development: the collections its proofs draw on, the machine
  integer types of the C headers and of Java, decimal rendering, and the generic list and
  word lemmas the component theories use.
\<close>

unbundle bit_operations_syntax

named_theorems io_nonexp \<open>no step of the program puts input back, and it throws at the end of the input only\<close>
named_theorems io_rel_intros \<open>composition rules for relations between database states\<close>
named_theorems tbl_simps \<open>unfolding of table operations\<close>

type_synonym uchar = "8 word"
type_synonym uint16 = "16 word"
type_synonym uint32 = "32 word"
type_synonym uint = "32 word"
type_synonym ulonglong = "64 word"
type_synonym size_t = "64 word"

section \<open>Decimal rendering\<close>

definition digit_char :: "nat \<Rightarrow> char" where
  "digit_char d = char_of (48 + d)"

fun show_nat :: "nat \<Rightarrow> string" where
  "show_nat n = (if n < 10 then [digit_char n] else show_nat (n div 10) @ [digit_char (n mod 10)])"

declare show_nat.simps [simp del]

definition show_int :: "int \<Rightarrow> string" where
  "show_int i = (if i < 0 then CHR ''-'' # show_nat (nat (- i)) else show_nat (nat i))"

lemma of_char_digit_char [simp]: "d < 10 \<Longrightarrow> of_char (digit_char d) = 48 + d"
  by (simp add: digit_char_def)

lemma show_nat_not_Nil [simp]: "show_nat n \<noteq> []"
  by (subst show_nat.simps) simp

lemma show_nat_digits: "c \<in> set (show_nat n) \<Longrightarrow> 48 \<le> (of_char c :: nat) \<and> (of_char c :: nat) \<le> 57"
proof (induction n rule: show_nat.induct)
  case (1 n)
  show ?case
  proof (cases "n < 10")
    case True
    with "1.prems" show ?thesis by (simp add: show_nat.simps [of n])
  next
    case False
    with "1.prems" have "c \<in> set (show_nat (n div 10)) \<or> c = digit_char (n mod 10)"
      by (auto simp: show_nat.simps [of n])
    with False "1.IH" show ?thesis by auto
  qed
qed

section \<open>Lists\<close>

lemma filter_unique_length:
  "distinct (map f xs) \<Longrightarrow> length (filter (\<lambda>x. f x = k) xs) \<le> 1"
proof (induction xs)
  case Nil
  then show ?case by simp
next
  case (Cons x xs)
  then show ?case by (cases "f x = k") (auto simp: filter_empty_conv image_iff)
qed

lemma distinct_map_filter_eq:
  assumes "distinct (map f xs)" "x \<in> set xs" "f x = k"
  shows "filter (\<lambda>y. f y = k) xs = [x]"
  using assms
proof (induction xs)
  case Nil
  then show ?case by simp
next
  case (Cons a xs)
  then show ?case by (cases "f a = k") (auto simp: filter_empty_conv image_iff)
qed

lemma sum_list_map_filter_count:
  "sum_list (map (\<lambda>k. length (filter (\<lambda>v. g v = k) vs)) ks)
     = length (filter (\<lambda>v. g v \<in> set ks) vs)" if "distinct ks"
  using that
proof (induction ks)
  case Nil
  then show ?case by simp
next
  case (Cons k ks)
  have "length (filter (\<lambda>v. g v = k) vs) + length (filter (\<lambda>v. g v \<in> set ks) vs)
      = length (filter (\<lambda>v. g v = k \<or> g v \<in> set ks) vs)"
    using Cons.prems by (induction vs) auto
  with Cons show ?case by simp
qed

text \<open>Grouping a concatenation of non-empty groups by a key gives the groups back.\<close>

lemma filter_concat_group:
  assumes "distinct (map k xs)" "\<And>x y. x \<in> set xs \<Longrightarrow> y \<in> set (f x) \<Longrightarrow> key y = k x" "x \<in> set xs"
  shows "filter (\<lambda>y. key y = k x) (concat (map f xs)) = f x"
  using assms
proof (induction xs)
  case Nil
  then show ?case by simp
next
  case (Cons a xs)
  have other: "filter (\<lambda>y. key y = k z) (f b) = []" if "b \<in> set (a # xs)" "k b \<noteq> k z" for b z
    using that Cons.prems(2) by (auto simp: filter_empty_conv)
  have same: "filter (\<lambda>y. key y = k b) (f b) = f b" if "b \<in> set (a # xs)" for b
    using that Cons.prems(2) by (auto intro: filter_True)
  show ?case
  proof (cases "x = a")
    case True
    have "key y \<noteq> k a" if "b \<in> set xs" "y \<in> set (f b)" for b y
    proof -
      have "key y = k b" using Cons.prems(2) [of b y] that by simp
      moreover have "k b \<noteq> k a" using Cons.prems(1) imageI [OF that(1), of k] by auto
      ultimately show ?thesis by simp
    qed
    then have "filter (\<lambda>y. key y = k a) (concat (map f xs)) = []"
      by (auto simp: filter_empty_conv)
    with True same [of a] show ?thesis by simp
  next
    case False
    with Cons.prems have x: "x \<in> set xs" "k a \<noteq> k x" by auto
    with Cons have "filter (\<lambda>y. key y = k x) (concat (map f xs)) = f x" by simp
    with other [of a x] x show ?thesis by simp
  qed
qed

lemma remdups_append_same:
  assumes "ys \<noteq> []" "\<And>y. y \<in> set ys \<Longrightarrow> y = a" "a \<notin> set zs"
  shows "remdups (ys @ zs) = a # remdups zs"
  using assms
proof (induction ys)
  case Nil
  then show ?case by simp
next
  case (Cons y ys)
  then show ?case by (cases "ys = []") (auto dest: hd_in_set)
qed

lemma remdups_concat_group:
  assumes "distinct (map k xs)" "\<And>x. x \<in> set xs \<Longrightarrow> f x \<noteq> []"
    "\<And>x y. x \<in> set xs \<Longrightarrow> y \<in> set (f x) \<Longrightarrow> key y = k x"
  shows "remdups (map key (concat (map f xs))) = map k xs"
  using assms
proof (induction xs)
  case Nil
  then show ?case by simp
next
  case (Cons a xs)
  have IH: "remdups (map key (concat (map f xs))) = map k xs"
    using Cons by simp
  have "set (map key (concat (map f xs))) = set (map k xs)"
    by (metis IH set_remdups)
  with Cons.prems(1) have "k a \<notin> set (map key (concat (map f xs)))" by auto
  moreover have "map key (f a) \<noteq> []" "\<And>y. y \<in> set (map key (f a)) \<Longrightarrow> y = k a"
    using Cons.prems(2,3) by auto
  ultimately have "remdups (map key (f a) @ map key (concat (map f xs))) = k a # map k xs"
    using remdups_append_same [of "map key (f a)" "k a" "map key (concat (map f xs))"] IH
    by (simp only: simp_thms)
  then show ?case by simp
qed

section \<open>Results of fallible operations\<close>

definition is_Inr :: "'a + 'b \<Rightarrow> bool" where
  "is_Inr x = (case x of Inl _ \<Rightarrow> False | Inr _ \<Rightarrow> True)"

lemma is_Inr_simps [simp]: "\<not> is_Inr (Inl e)" "is_Inr (Inr v)"
  by (simp_all add: is_Inr_def)

end
