(* ===== verification/Java_Text.thy ===== *)
theory Java_Text
  imports Voting_Prelude
begin

text \<open>
  The parts of the Java library the application uses on text: \<open>String.trim\<close>,
  \<open>String.toUpperCase\<close>, \<open>Integer.parseInt\<close>, the \<open>%d\<close>, \<open>%-20s\<close> and \<open>%02x\<close> conversions of
  \<open>printf\<close>/\<open>String.format\<close> and \<open>getBytes("UTF-8")\<close>. A Java string is a list of
  characters with code points below 256, which are exactly the characters the application's
  latin1 tables can store (\<open>data/online_voting/db.opt\<close>).
\<close>

abbreviation nl :: string where
  "nl \<equiv> [CHR 0x0A]"

section \<open>Trimming and upper case\<close>

definition is_trim_char :: "char \<Rightarrow> bool" where
  "is_trim_char c \<longleftrightarrow> (of_char c :: nat) \<le> 32"

definition trim :: "string \<Rightarrow> string" where
  "trim s = rev (dropWhile is_trim_char (rev (dropWhile is_trim_char s)))"

text \<open>
  \<open>toUpperCase\<close> on Latin-1: the ASCII letters, the accented letters (except the division
  sign) and the sharp s, which becomes two letters. The micro sign and y with diaeresis, whose
  capitals lie outside Latin-1, are left as they are: no string that contains one equals a role
  or an action either way.
\<close>

definition upper_char :: "char \<Rightarrow> string" where
  "upper_char c = (let n = (of_char c :: nat) in
     if 97 \<le> n \<and> n \<le> 122 then [char_of (n - 32)]
     else if 224 \<le> n \<and> n \<le> 254 \<and> n \<noteq> 247 then [char_of (n - 32)]
     else if n = 223 then ''SS''
     else [c])"

definition toUpperCase :: "string \<Rightarrow> string" where
  "toUpperCase s = concat (map upper_char s)"

section \<open>Integer.parseInt\<close>

definition INT_MAX :: int where
  "INT_MAX = 2147483647"

definition INT_MIN :: int where
  "INT_MIN = -2147483648"

definition is_digit :: "char \<Rightarrow> bool" where
  "is_digit c \<longleftrightarrow> 48 \<le> (of_char c :: nat) \<and> (of_char c :: nat) \<le> 57"

fun digits_val :: "nat \<Rightarrow> string \<Rightarrow> nat option" where
  "digits_val acc [] = Some acc"
| "digits_val acc (c # cs) =
     (if is_digit c then digits_val (10 * acc + (of_char c - 48)) cs else None)"

text \<open>\<^const>\<open>None\<close> stands for the \<open>NumberFormatException\<close>.\<close>

definition parseInt :: "string \<Rightarrow> int option" where
  "parseInt s =
     (let neg = (s \<noteq> [] \<and> hd s = CHR ''-'');
          ds = (if s \<noteq> [] \<and> (hd s = CHR ''-'' \<or> hd s = CHR ''+'') then tl s else s)
      in if ds = [] then None
         else case digits_val 0 ds of
                None \<Rightarrow> None
              | Some n \<Rightarrow>
                  (let v = (if neg then - int n else int n)
                   in if INT_MIN \<le> v \<and> v \<le> INT_MAX then Some v else None))"

text \<open>The message of the exception \<open>parseInt\<close> throws.\<close>

definition nfe_message :: "string \<Rightarrow> string" where
  "nfe_message s = ''For input string: '' @ [CHR 0x22] @ s @ [CHR 0x22]"

section \<open>Formatting\<close>

definition pad20 :: "string \<Rightarrow> string" where
  "pad20 s = s @ replicate (20 - length s) (CHR '' '')"

definition hex_digit :: "nat \<Rightarrow> char" where
  "hex_digit d = (if d < 10 then char_of (48 + d) else char_of (87 + d))"

definition hex2 :: "8 word \<Rightarrow> string" where
  "hex2 b = [hex_digit (unat b div 16), hex_digit (unat b mod 16)]"

definition utf8_char :: "char \<Rightarrow> 8 word list" where
  "utf8_char c = (let n = (of_char c :: nat) in
     if n < 128 then [of_nat n]
     else [of_nat (192 + n div 64), of_nat (128 + n mod 64)])"

definition utf8_bytes :: "string \<Rightarrow> 8 word list" where
  "utf8_bytes s = concat (map utf8_char s)"

section \<open>Lemmas\<close>

lemma dropWhile_idem [simp]: "dropWhile P (dropWhile P xs) = dropWhile P xs"
  by (induction xs) auto

lemma last_dropWhile: "dropWhile P xs \<noteq> [] \<Longrightarrow> last (dropWhile P xs) = last xs"
  by (induction xs) (auto split: if_splits)

lemma dropWhile_hd: "dropWhile P xs \<noteq> [] \<Longrightarrow> \<not> P (hd (dropWhile P xs))"
  by (induction xs) (auto split: if_splits)

lemma trim_last: "trim s \<noteq> [] \<Longrightarrow> \<not> is_trim_char (last (trim s))"
  using dropWhile_hd [of is_trim_char "rev (dropWhile is_trim_char s)"]
  by (simp add: trim_def last_rev)

lemma trim_hd:
  assumes "trim s \<noteq> []"
  shows "\<not> is_trim_char (hd (trim s))"
proof -
  let ?d = "dropWhile is_trim_char s"
  have ne: "dropWhile is_trim_char (rev ?d) \<noteq> []"
    using assms by (simp add: trim_def)
  then have d: "?d \<noteq> []" by (metis dropWhile.simps(1) rev.simps(1))
  have "hd (trim s) = last (dropWhile is_trim_char (rev ?d))"
    using ne by (simp add: trim_def hd_rev)
  also have "\<dots> = last (rev ?d)" by (rule last_dropWhile [OF ne])
  also have "\<dots> = hd ?d" using d by (simp add: last_rev)
  finally show ?thesis using dropWhile_hd [OF d] by simp
qed

lemma dropWhile_noop: "(xs \<noteq> [] \<Longrightarrow> \<not> P (hd xs)) \<Longrightarrow> dropWhile P xs = xs"
  by (cases xs) auto

lemma trim_idem [simp]: "trim (trim s) = trim s"
proof -
  have 1: "dropWhile is_trim_char (trim s) = trim s"
    by (rule dropWhile_noop) (rule trim_hd)
  have 2: "dropWhile is_trim_char (rev (trim s)) = rev (trim s)"
    by (rule dropWhile_noop) (simp add: hd_rev trim_last)
  show ?thesis by (subst trim_def) (simp add: 1 2)
qed

lemma set_trim: "set (trim s) \<subseteq> set s"
proof
  fix x
  assume "x \<in> set (trim s)"
  then have "x \<in> set (dropWhile is_trim_char (rev (dropWhile is_trim_char s)))"
    by (simp add: trim_def)
  from set_dropWhileD [OF this] have "x \<in> set (dropWhile is_trim_char s)" by simp
  from set_dropWhileD [OF this] show "x \<in> set s" .
qed

lemma length_trim: "length (trim s) \<le> length s"
  using length_dropWhile_le [of is_trim_char s]
    length_dropWhile_le [of is_trim_char "rev (dropWhile is_trim_char s)"]
  by (simp add: trim_def)

lemma length_hex2 [simp]: "length (hex2 b) = 2"
  by (simp add: hex2_def)

lemma digits_val_append:
  "digits_val acc (xs @ ys) = Option.bind (digits_val acc xs) (\<lambda>a. digits_val a ys)"
  by (induction acc xs rule: digits_val.induct) auto

lemma is_digit_digit_char [simp]: "d < 10 \<Longrightarrow> is_digit (digit_char d)"
  by (simp add: is_digit_def)

lemma digits_val_show_nat: "digits_val 0 (show_nat n) = Some n"
proof (induction n rule: show_nat.induct)
  case (1 n)
  show ?case
  proof (cases "n < 10")
    case True
    then show ?thesis by (simp add: show_nat.simps [of n])
  next
    case False
    with 1 have "digits_val 0 (show_nat (n div 10)) = Some (n div 10)" by simp
    with False show ?thesis
      by (simp add: show_nat.simps [of n] digits_val_append)
  qed
qed

lemma show_nat_hd_digit: "hd (show_nat n) \<noteq> CHR ''-'' \<and> hd (show_nat n) \<noteq> CHR ''+''"
proof -
  have "hd (show_nat n) \<in> set (show_nat n)" by simp
  from show_nat_digits [OF this] show ?thesis by auto
qed

lemma parseInt_show_int:
  assumes "INT_MIN \<le> i" "i \<le> INT_MAX"
  shows "parseInt (show_int i) = Some i"
  using assms show_nat_hd_digit [of "nat i"]
  by (auto simp: parseInt_def show_int_def digits_val_show_nat Let_def)

lemma parseInt_range: "parseInt s = Some i \<Longrightarrow> INT_MIN \<le> i \<and> i \<le> INT_MAX"
  by (auto simp: parseInt_def Let_def split: option.splits if_splits)

end
