(* ===== verification/Latin1_Collation.thy ===== *)
theory Latin1_Collation
  imports Java_Text
begin

text \<open>
  Comparison of text columns. The schema is created with the server's defaults, recorded in
  \<open>data/online_voting/db.opt\<close>: character set latin1, collation \<open>latin1_swedish_ci\<close>. The
  collation maps every byte to a weight (\<open>share/charsets/latin1.xml\<close>) and pads the shorter
  operand with spaces, so \<open>=\<close>, UNIQUE and ENUM matching ignore case, most accents and trailing
  spaces.
\<close>

definition sort_order_latin1 :: "nat list" where
  "sort_order_latin1 =
    [0, 1, 2, 3, 4, 5, 6, 7, 8, 9, 10, 11, 12, 13, 14, 15,
     16, 17, 18, 19, 20, 21, 22, 23, 24, 25, 26, 27, 28, 29, 30, 31,
     32, 33, 34, 35, 36, 37, 38, 39, 40, 41, 42, 43, 44, 45, 46, 47,
     48, 49, 50, 51, 52, 53, 54, 55, 56, 57, 58, 59, 60, 61, 62, 63,
     64, 65, 66, 67, 68, 69, 70, 71, 72, 73, 74, 75, 76, 77, 78, 79,
     80, 81, 82, 83, 84, 85, 86, 87, 88, 89, 90, 91, 92, 93, 94, 95,
     96, 65, 66, 67, 68, 69, 70, 71, 72, 73, 74, 75, 76, 77, 78, 79,
     80, 81, 82, 83, 84, 85, 86, 87, 88, 89, 90, 123, 124, 125, 126, 127,
     128, 129, 130, 131, 132, 133, 134, 135, 136, 137, 138, 139, 140, 141, 142, 143,
     144, 145, 146, 147, 148, 149, 150, 151, 152, 153, 154, 155, 156, 157, 158, 159,
     160, 161, 162, 163, 164, 165, 166, 167, 168, 169, 170, 171, 172, 173, 174, 175,
     176, 177, 178, 179, 180, 181, 182, 183, 184, 185, 186, 187, 188, 189, 190, 191,
     65, 65, 65, 65, 92, 91, 92, 67, 69, 69, 69, 69, 73, 73, 73, 73,
     68, 78, 79, 79, 79, 79, 93, 215, 216, 85, 85, 85, 89, 89, 222, 223,
     65, 65, 65, 65, 92, 91, 92, 67, 69, 69, 69, 69, 73, 73, 73, 73,
     68, 78, 79, 79, 79, 79, 93, 247, 216, 85, 85, 85, 89, 89, 222, 255]"

definition coll_weight :: "char \<Rightarrow> nat" where
  "coll_weight c = sort_order_latin1 ! of_char c"

definition coll_key :: "string \<Rightarrow> nat list" where
  "coll_key s = rev (dropWhile (\<lambda>w. w = 32) (rev (map coll_weight s)))"

definition coll_eq :: "string \<Rightarrow> string \<Rightarrow> bool" where
  "coll_eq a b \<longleftrightarrow> coll_key a = coll_key b"

lemma coll_eq_refl [simp]: "coll_eq a a"
  by (simp add: coll_eq_def)

lemma coll_eq_sym: "coll_eq a b \<Longrightarrow> coll_eq b a"
  by (simp add: coll_eq_def)

lemma coll_eq_trans [trans]: "coll_eq a b \<Longrightarrow> coll_eq b c \<Longrightarrow> coll_eq a c"
  by (simp add: coll_eq_def)

lemma length_sort_order_latin1 [simp]: "length sort_order_latin1 = 256"
  by (simp add: sort_order_latin1_def)

text \<open>Case does not matter on ASCII text: the weights of a letter and of its capital agree.\<close>

lemma ascii_weights:
  "take 128 sort_order_latin1 = map (\<lambda>n. if 97 \<le> n \<and> n \<le> 122 then n - 32 else n) [0..<128]"
  by (simp add: sort_order_latin1_def upt_conv_Cons)

lemma ascii_weight:
  assumes "n < 128"
  shows "sort_order_latin1 ! n = (if 97 \<le> n \<and> n \<le> 122 then n - 32 else n)"
proof -
  have "sort_order_latin1 ! n = take 128 sort_order_latin1 ! n"
    using assms by simp
  then show ?thesis using assms by (simp add: ascii_weights)
qed

lemma coll_weight_ascii:
  "(of_char c :: nat) < 128 \<Longrightarrow>
   coll_weight c = (if 97 \<le> (of_char c :: nat) \<and> (of_char c :: nat) \<le> 122
                    then of_char c - 32 else of_char c)"
  by (simp add: coll_weight_def ascii_weight)

lemma coll_weight_upper_char:
  assumes "(of_char c :: nat) < 128"
  shows "map coll_weight (upper_char c) = [coll_weight c]"
  using assms
  by (cases "97 \<le> (of_char c :: nat) \<and> (of_char c :: nat) \<le> 122")
    (auto simp: upper_char_def Let_def coll_weight_ascii)

lemma coll_eq_toUpperCase:
  assumes "\<forall>c \<in> set s. (of_char c :: nat) < 128"
  shows "coll_eq (toUpperCase s) s"
proof -
  have "map coll_weight (toUpperCase s) = map coll_weight s"
    using assms
    by (induction s) (auto simp: toUpperCase_def coll_weight_upper_char)
  then show ?thesis by (simp add: coll_eq_def coll_key_def)
qed

lemma coll_eq_pad_space: "coll_eq (s @ replicate n (CHR '' '')) s"
proof -
  have w: "coll_weight (CHR '' '') = 32" by (simp add: coll_weight_ascii)
  have "dropWhile (\<lambda>w. w = 32) (replicate n 32 @ xs) = dropWhile (\<lambda>w. w = 32) xs" for xs :: "nat list"
    by (induction n) auto
  then show ?thesis by (simp add: coll_eq_def coll_key_def w rev_map)
qed

end
