(* ===== verification/Voting_Schema.thy ===== *)
theory Voting_Schema
  imports Latin1_Collation
begin

text \<open>
  The relational side of the application: the five tables that \<open>setupDatabase\<close> declares, and
  what an INSERT into a table with an AUTO\_INCREMENT key, UNIQUE keys and foreign keys does.
  The server's SQL mode is strict (the server's default, and Connector/J asks for it), so text
  that does not fit its column and values outside an ENUM are errors. A failed INSERT that got
  as far as the key checks has used up its AUTO\_INCREMENT value, as in InnoDB.
\<close>

section \<open>Errors a statement can report\<close>

datatype sql_error =
    ER_DUP_ENTRY string string
  | ER_DATA_TOO_LONG string
  | WARN_DATA_TRUNCATED string
  | ER_NO_REFERENCED_ROW_2 string
  | HA_ERR_AUTOINC_ERANGE
  | SQL_FAILURE string

abbreviation quoted :: "string \<Rightarrow> string" where
  "quoted s \<equiv> [CHR 0x27] @ s @ [CHR 0x27]"

text \<open>\<open>SQLException.getMessage\<close>, after the server's message formats.\<close>

fun getMessage :: "sql_error \<Rightarrow> string" where
  "getMessage (ER_DUP_ENTRY v key) =
     ''Duplicate entry '' @ quoted (take 64 v) @ '' for key '' @ quoted key"
| "getMessage (ER_DATA_TOO_LONG col) =
     ''Data truncation: Data too long for column '' @ quoted col @ '' at row 1''"
| "getMessage (WARN_DATA_TRUNCATED col) =
     ''Data truncated for column '' @ quoted col @ '' at row 1''"
| "getMessage (ER_NO_REFERENCED_ROW_2 c) =
     ''Cannot add or update a child row: a foreign key constraint fails ('' @ c @ '')''"
| "getMessage HA_ERR_AUTOINC_ERANGE = ''Failed to set row auto increment value''"
| "getMessage (SQL_FAILURE m) = m"

text \<open>\<open>String.contains\<close>.\<close>

fun contains_str :: "string \<Rightarrow> string \<Rightarrow> bool" where
  "contains_str [] p = (p = [])"
| "contains_str (c # cs) p = (take (length p) (c # cs) = p \<or> contains_str cs p)"

section \<open>ENUM columns\<close>

datatype role = VOTER | CANDIDATE | FIELD_OFFICER | ADMIN

datatype status = PENDING | APPROVED | REJECTED

fun role_name :: "role \<Rightarrow> string" where
  "role_name VOTER = ''VOTER''"
| "role_name CANDIDATE = ''CANDIDATE''"
| "role_name FIELD_OFFICER = ''FIELD_OFFICER''"
| "role_name ADMIN = ''ADMIN''"

fun status_name :: "status \<Rightarrow> string" where
  "status_name PENDING = ''PENDING''"
| "status_name APPROVED = ''APPROVED''"
| "status_name REJECTED = ''REJECTED''"

definition enum_role :: "string \<Rightarrow> role option" where
  "enum_role s = find (\<lambda>r. coll_eq (role_name r) s) [VOTER, CANDIDATE, FIELD_OFFICER, ADMIN]"

definition enum_status :: "string \<Rightarrow> status option" where
  "enum_status s = find (\<lambda>r. coll_eq (status_name r) s) [PENDING, APPROVED, REJECTED]"

section \<open>Rows and tables\<close>

record users_row =
  u_id :: int
  u_username :: string
  u_password_hash :: string
  u_name :: string
  u_role :: role

record voter_profiles_row =
  vp_id :: int
  vp_user_id :: int
  vp_constituency :: string
  vp_address :: string
  vp_status :: status

record candidate_profiles_row =
  cp_id :: int
  cp_user_id :: int
  cp_party :: string
  cp_constituency :: string
  cp_manifesto :: string
  cp_status :: status

record votes_row =
  v_id :: int
  v_voter_id :: int
  v_candidate_id :: int
  v_voted_at :: nat

record forum_posts_row =
  f_id :: int
  f_user_id :: int
  f_content :: string
  f_posted_at :: nat

record 'r tbl =
  rows :: "'r list"
  auto_inc :: int

definition empty_tbl :: "'r tbl" where
  "empty_tbl = \<lparr>rows = [], auto_inc = 1\<rparr>"

record db =
  users :: "users_row tbl"
  voter_profiles :: "voter_profiles_row tbl"
  candidate_profiles :: "candidate_profiles_row tbl"
  votes :: "votes_row tbl"
  forum_posts :: "forum_posts_row tbl"

definition empty_db :: db where
  "empty_db = \<lparr>users = empty_tbl, voter_profiles = empty_tbl, candidate_profiles = empty_tbl,
               votes = empty_tbl, forum_posts = empty_tbl\<rparr>"

section \<open>Inserting a row\<close>

text \<open>
  The row gets the next AUTO\_INCREMENT value; the key checks see the finished row. The result
  is the number of rows \<open>executeUpdate\<close> reports, or the error.
\<close>

definition tbl_insert ::
    "(int \<Rightarrow> 'r) \<Rightarrow> ('r \<Rightarrow> sql_error option) \<Rightarrow> 'r tbl \<Rightarrow> (sql_error + nat) \<times> 'r tbl" where
  "tbl_insert mk check t =
     (if INT_MAX < auto_inc t then (Inl HA_ERR_AUTOINC_ERANGE, t)
      else let r = mk (auto_inc t); t' = t\<lparr>auto_inc := auto_inc t + 1\<rparr>
           in case check r of
                Some e \<Rightarrow> (Inl e, t')
              | None \<Rightarrow> (Inr 1, t'\<lparr>rows := rows t @ [r]\<rparr>))"

text \<open>The first column, in statement order, whose text does not fit.\<close>

fun too_long :: "(string \<times> nat \<times> string) list \<Rightarrow> sql_error option" where
  "too_long [] = None"
| "too_long ((col, n, s) # cs) = (if n < length s then Some (ER_DATA_TOO_LONG col) else too_long cs)"

definition TEXT_MAX :: nat where
  "TEXT_MAX = 65535"

text \<open>A UNIQUE key violation: the value's text and the key's name.\<close>

definition unique_check :: "('r \<Rightarrow> 'k) \<Rightarrow> ('r \<Rightarrow> string) \<Rightarrow> string \<Rightarrow> 'r list \<Rightarrow> 'r \<Rightarrow> sql_error option" where
  "unique_check key val name rs r =
     (if key r \<in> set (map key rs) then Some (ER_DUP_ENTRY (val r) name) else None)"

definition fk_check :: "string \<Rightarrow> ('r \<Rightarrow> int) \<Rightarrow> users_row list \<Rightarrow> 'r \<Rightarrow> sql_error option" where
  "fk_check name col us r =
     (if col r \<in> set (map u_id us) then None else Some (ER_NO_REFERENCED_ROW_2 name))"

fun check_all :: "('r \<Rightarrow> sql_error option) list \<Rightarrow> 'r \<Rightarrow> sql_error option" where
  "check_all [] r = None"
| "check_all (c # cs) r = (case c r of Some e \<Rightarrow> Some e | None \<Rightarrow> check_all cs r)"

section \<open>Well-formed tables\<close>

definition tbl_ok :: "('r \<Rightarrow> int) \<Rightarrow> 'r tbl \<Rightarrow> bool" where
  "tbl_ok ident t \<longleftrightarrow> distinct (map ident (rows t)) \<and> 1 \<le> auto_inc t \<and>
     (\<forall>r \<in> set (rows t). 0 < ident r \<and> ident r < auto_inc t \<and> ident r \<le> INT_MAX)"

definition fk_ok :: "('r \<Rightarrow> int) \<Rightarrow> users_row tbl \<Rightarrow> 'r tbl \<Rightarrow> bool" where
  "fk_ok col us t \<longleftrightarrow> (\<forall>r \<in> set (rows t). col r \<in> set (map u_id (rows us)))"

lemma tbl_ok_empty [simp]: "tbl_ok ident empty_tbl"
  by (simp add: tbl_ok_def empty_tbl_def)

lemma fk_ok_empty [simp]: "fk_ok col us empty_tbl"
  by (simp add: fk_ok_def empty_tbl_def)

lemma check_all_None: "check_all cs r = None \<longleftrightarrow> (\<forall>c \<in> set cs. c r = None)"
  by (induction cs) (auto split: option.splits)

declare check_all.simps [simp del] too_long.simps [simp del]

lemma unique_check_None [simp]:
  "unique_check key val name rs r = None \<longleftrightarrow> key r \<notin> set (map key rs)"
  by (simp add: unique_check_def)

lemma fk_check_None [simp]: "fk_check name col us r = None \<longleftrightarrow> col r \<in> set (map u_id us)"
  by (simp add: fk_check_def)

text \<open>An INSERT either changes nothing but the counter or appends the one row that passed.\<close>

lemma tbl_insert_cases:
  obtains (failed) e t' where "tbl_insert mk check t = (Inl e, t')" "rows t' = rows t"
      "auto_inc t \<le> auto_inc t'"
  | (inserted) t' where "tbl_insert mk check t = (Inr 1, t')"
      "rows t' = rows t @ [mk (auto_inc t)]" "auto_inc t' = auto_inc t + 1"
      "check (mk (auto_inc t)) = None" "auto_inc t \<le> INT_MAX"
proof (cases "INT_MAX < auto_inc t")
  case True
  then have "tbl_insert mk check t = (Inl HA_ERR_AUTOINC_ERANGE, t)" by (simp add: tbl_insert_def)
  then show ?thesis by (rule failed) simp_all
next
  case False
  show ?thesis
  proof (cases "check (mk (auto_inc t))")
    case None
    with False have "tbl_insert mk check t =
        (Inr 1, t\<lparr>auto_inc := auto_inc t + 1, rows := rows t @ [mk (auto_inc t)]\<rparr>)"
      by (simp add: tbl_insert_def Let_def)
    then show ?thesis by (rule inserted) (use None False in simp_all)
  next
    case (Some e)
    with False have "tbl_insert mk check t = (Inl e, t\<lparr>auto_inc := auto_inc t + 1\<rparr>)"
      by (simp add: tbl_insert_def Let_def)
    then show ?thesis by (rule failed) simp_all
  qed
qed

lemma tbl_insert_rows_prefix: "\<exists>rs. rows (snd (tbl_insert mk check t)) = rows t @ rs"
  by (rule tbl_insert_cases [of mk check t]) auto

section \<open>The contract of a table\<close>

text \<open>
  What the statements below rely on: the key column of a new row is the value the counter
  handed out. Under it a table keeps distinct, positive keys below its counter.
\<close>

locale auto_table =
  fixes ident :: "'r \<Rightarrow> int" and mk :: "'v \<Rightarrow> int \<Rightarrow> 'r"
  assumes ident_mk: "ident (mk v i) = i"
begin

lemma insert_ok:
  assumes "tbl_ok ident t"
  shows "tbl_ok ident (snd (tbl_insert (mk v) check t))"
proof (rule tbl_insert_cases [of "mk v" check t])
  fix e t'
  assume "tbl_insert (mk v) check t = (Inl e, t')" "rows t' = rows t" "auto_inc t \<le> auto_inc t'"
  then show ?thesis using assms by (force simp: tbl_ok_def)
next
  fix t'
  assume "tbl_insert (mk v) check t = (Inr 1, t')" "rows t' = rows t @ [mk v (auto_inc t)]"
    "auto_inc t' = auto_inc t + 1" "auto_inc t \<le> INT_MAX"
  then show ?thesis using assms by (force simp: tbl_ok_def ident_mk)
qed

text \<open>The row an INSERT adds is the only one with its key.\<close>

lemma insert_lookup:
  assumes "tbl_ok ident t" "tbl_insert (mk v) check t = (Inr n, t')"
  shows "filter (\<lambda>r. ident r = auto_inc t) (rows t') = [mk v (auto_inc t)]"
proof (rule tbl_insert_cases [of "mk v" check t])
  fix e t''
  assume "tbl_insert (mk v) check t = (Inl e, t'')"
  with assms show ?thesis by simp
next
  fix t''
  assume "tbl_insert (mk v) check t = (Inr 1, t'')" "rows t'' = rows t @ [mk v (auto_inc t)]"
  with assms show ?thesis by (force simp: tbl_ok_def ident_mk filter_empty_conv)
qed

end

text \<open>A table with a UNIQUE column besides its key.\<close>

locale unique_table = auto_table ident mk for ident :: "'r \<Rightarrow> int" and mk :: "'v \<Rightarrow> int \<Rightarrow> 'r" +
  fixes key :: "'r \<Rightarrow> 'k"
  assumes key_mk: "key (mk v i) = key (mk v j)"
begin

lemma insert_unique:
  assumes "distinct (map key (rows t))"
    and "\<And>r. check r = None \<Longrightarrow> key r \<notin> set (map key (rows t))"
  shows "distinct (map key (rows (snd (tbl_insert (mk v) check t))))"
  by (rule tbl_insert_cases [of "mk v" check t]) (use assms in auto)

text \<open>A second row with the same value of the column is refused.\<close>

lemma insert_duplicate:
  assumes "r0 \<in> set (rows t)" "key r0 = key (mk v 0)"
    and "\<And>r. check r = None \<Longrightarrow> key r \<notin> set (map key (rows t))"
  shows "\<exists>e t'. tbl_insert (mk v) check t = (Inl e, t') \<and> rows t' = rows t"
proof (rule tbl_insert_cases [of "mk v" check t])
  fix e t'
  assume "tbl_insert (mk v) check t = (Inl e, t')" "rows t' = rows t"
  then show ?thesis by blast
next
  fix t'
  assume "check (mk v (auto_inc t)) = None"
  with assms(3) have "key (mk v (auto_inc t)) \<notin> set (map key (rows t))" .
  moreover have "key (mk v (auto_inc t)) = key r0" using assms(2) key_mk by metis
  ultimately show ?thesis using assms(1) by auto
qed

end

end
