(* ===== verification/Sha256.thy ===== *)
theory Sha256
  imports Java_Text
begin

text \<open>
  Password hashing. \<open>sha256\<close> of the application encodes the password in UTF-8, digests it with
  \<open>MessageDigest.getInstance("SHA-256")\<close> and prints the digest in hexadecimal. The digest is
  the SHA-256 of the Java library: padding, message schedule and compression on 32-bit words.
\<close>

definition round_constants :: "32 word list" where
  "round_constants =
    [1116352408, 1899447441, 3049323471, 3921009573, 961987163, 1508970993,
     2453635748, 2870763221, 3624381080, 310598401, 607225278, 1426881987,
     1925078388, 2162078206, 2614888103, 3248222580, 3835390401, 4022224774,
     264347078, 604807628, 770255983, 1249150122, 1555081692, 1996064986,
     2554220882, 2821834349, 2952996808, 3210313671, 3336571891, 3584528711,
     113926993, 338241895, 666307205, 773529912, 1294757372, 1396182291,
     1695183700, 1986661051, 2177026350, 2456956037, 2730485921, 2820302411,
     3259730800, 3345764771, 3516065817, 3600352804, 4094571909, 275423344,
     430227734, 506948616, 659060556, 883997877, 958139571, 1322822218,
     1537002063, 1747873779, 1955562222, 2024104815, 2227730452, 2361852424,
     2428436474, 2756734187, 3204031479, 3329325298]"

definition initial_hash :: "32 word list" where
  "initial_hash = [1779033703, 3144134277, 1013904242, 2773480762, 1359893119, 2600822924, 528734635, 1541459225]"

definition rotr32 :: "nat \<Rightarrow> 32 word \<Rightarrow> 32 word" where
  "rotr32 n x = drop_bit n x OR push_bit (32 - n) x"

definition ssig0 :: "32 word \<Rightarrow> 32 word" where
  "ssig0 x = rotr32 7 x XOR rotr32 18 x XOR drop_bit 3 x"

definition ssig1 :: "32 word \<Rightarrow> 32 word" where
  "ssig1 x = rotr32 17 x XOR rotr32 19 x XOR drop_bit 10 x"

definition bsig0 :: "32 word \<Rightarrow> 32 word" where
  "bsig0 x = rotr32 2 x XOR rotr32 13 x XOR rotr32 22 x"

definition bsig1 :: "32 word \<Rightarrow> 32 word" where
  "bsig1 x = rotr32 6 x XOR rotr32 11 x XOR rotr32 25 x"

text \<open>The message schedule is built newest word first.\<close>

fun extend_schedule :: "nat \<Rightarrow> 32 word list \<Rightarrow> 32 word list" where
  "extend_schedule 0 r = r"
| "extend_schedule (Suc n) r =
     extend_schedule n ((ssig1 (r ! 1) + r ! 6 + ssig0 (r ! 14) + r ! 15) # r)"

fun word_of_bytes :: "8 word list \<Rightarrow> 32 word" where
  "word_of_bytes bs = fold (\<lambda>b w. push_bit 8 w OR ucast b) bs 0"

fun split_every :: "nat \<Rightarrow> 'a list \<Rightarrow> 'a list list" where
  "split_every n xs =
     (if xs = [] \<or> n = 0 then [] else take n xs # split_every n (drop n xs))"

declare split_every.simps [simp del]

definition schedule :: "8 word list \<Rightarrow> 32 word list" where
  "schedule block = rev (extend_schedule 48 (rev (map word_of_bytes (split_every 4 block))))"

fun sha_round :: "32 word \<times> 32 word \<Rightarrow> 32 word list \<Rightarrow> 32 word list" where
  "sha_round (k, w) [a, b, c, d, e, f, g, h] =
     (let t1 = h + bsig1 e + ((e AND f) XOR (NOT e AND g)) + k + w;
          t2 = bsig0 a + ((a AND b) XOR (a AND c) XOR (b AND c))
      in [t1 + t2, a, b, c, d + t1, e, f, g])"
| "sha_round kw s = s"

definition compress :: "32 word list \<Rightarrow> 8 word list \<Rightarrow> 32 word list" where
  "compress hs block = map2 (+) hs (fold sha_round (zip round_constants (schedule block)) hs)"

definition bytes_be :: "nat list \<Rightarrow> 'a::len word \<Rightarrow> 8 word list" where
  "bytes_be shifts w = map (\<lambda>i. ucast (drop_bit i w)) shifts"

definition sha_pad :: "8 word list \<Rightarrow> 8 word list" where
  "sha_pad m = m @ [128] @ replicate ((119 - length m mod 64) mod 64) 0 
     @ bytes_be [56, 48, 40, 32, 24, 16, 8, 0] (of_nat (8 * length m) :: 64 word)"

definition digest :: "8 word list \<Rightarrow> 8 word list" where
  "digest m = concat (map (\<lambda>w. bytes_be [24, 16, 8, 0] w)
                (fold (\<lambda>b h. compress h b) (split_every 64 (sha_pad m)) initial_hash))"

definition sha256 :: "string \<Rightarrow> string" where
  "sha256 input = concat (map hex2 (digest (utf8_bytes input)))"

section \<open>The digest is 32 bytes, its rendering 64 hexadecimal digits\<close>

lemma length_sha_round [simp]: "length (sha_round kw s) = length s"
  by (induction kw s rule: sha_round.induct) (auto simp: Let_def)

lemma length_fold_sha_round [simp]: "length (fold sha_round kws s) = length s"
  by (induction kws arbitrary: s) auto

lemma length_compress [simp]: "length (compress hs b) = length hs"
  by (simp add: compress_def)

lemma length_fold_compress [simp]: "length (fold (\<lambda>b h. compress h b) bs hs) = length hs"
  by (induction bs arbitrary: hs) auto

lemma length_bytes_be [simp]: "length (bytes_be shifts w) = length shifts"
  by (simp add: bytes_be_def)

lemma length_digest [simp]: "length (digest m) = 32"
  by (simp add: digest_def length_concat o_def initial_hash_def sum_list_triv)

lemma length_sha256 [simp]: "length (sha256 s) = 64"
  by (simp add: sha256_def length_concat o_def sum_list_triv)

text \<open>Padding fills a whole number of 64-byte blocks.\<close>

lemma length_sha_pad_eq:
  "length (sha_pad m) = (9 + length m) + (119 - length m mod 64) mod 64"
  by (simp add: sha_pad_def)

lemma length_sha_pad: "64 dvd length (sha_pad m)"
proof -
  define r where "r = length m mod 64"
  obtain q where l: "length m = 64 * q + r"
    using mult_div_mod_eq [of 64 "length m"] r_def by metis
  have r: "r < 64" by (simp add: r_def)
  have "(119 - r) mod 64 = (if r < 56 then 55 - r else 119 - r)"
    using r by (auto simp: mod_if)
  then have "length (sha_pad m) = 64 * q + (if r < 56 then 64 else 128)"
    using l r r_def [symmetric] by (simp add: length_sha_pad_eq)
  then show ?thesis by (simp add: dvd_add)
qed

definition is_hex_char :: "char \<Rightarrow> bool" where
  "is_hex_char c \<longleftrightarrow> c \<in> set ''0123456789abcdef''"

lemma hex_digit_is_hex:
  assumes "d < 16"
  shows "is_hex_char (hex_digit d)"
proof -
  have "list_all (\<lambda>d. is_hex_char (hex_digit d)) [0..<16]" by code_simp
  moreover from assms have "d \<in> set [0..<16]" by simp
  ultimately show ?thesis by (simp only: list_all_iff)
qed

lemma hex2_is_hex: "c \<in> set (hex2 b) \<Longrightarrow> is_hex_char c"
proof -
  have "unat b < 256" using unsigned_less [of b] by simp
  then show "c \<in> set (hex2 b) \<Longrightarrow> is_hex_char c"
    by (auto simp: hex2_def intro!: hex_digit_is_hex)
qed

lemma sha256_is_hex: "c \<in> set (sha256 s) \<Longrightarrow> is_hex_char c"
  by (auto simp: sha256_def dest: hex2_is_hex)

end
