(* ===== verification/Voting_Sql.thy ===== *)
theory Voting_Sql
  imports Voting_Schema Sha256
begin

text \<open>
  The SQL statements of the application, one definition per statement text in
  \<open>OnlineVotingApp.java\<close>. A query maps the database to its result rows; a statement that
  writes returns what \<open>executeUpdate\<close> returns (or the error) and the new database. Rows come
  in insertion order where the statement has no ORDER BY; SQL leaves that order open, and no
  property below depends on it. Connector/J asks the server for found rows, so an UPDATE
  reports the rows its WHERE clause matched.
\<close>

section \<open>Accounts\<close>

definition select_login :: "string \<Rightarrow> string \<Rightarrow> db \<Rightarrow> (int \<times> string \<times> string) list" where
  "select_login username password_hash d =
     [(u_id u, u_name u, role_name (u_role u)).
        u \<leftarrow> rows (users d),
        coll_eq (u_username u) username \<and> coll_eq (u_password_hash u) password_hash]"

definition mk_user :: "string \<times> string \<times> string \<times> role \<Rightarrow> int \<Rightarrow> users_row" where
  "mk_user = (\<lambda>(username, password_hash, name, role) i.
     \<lparr>u_id = i, u_username = username, u_password_hash = password_hash, u_name = name,
      u_role = role\<rparr>)"

definition user_key :: "users_row \<Rightarrow> nat list" where
  "user_key u = coll_key (u_username u)"

definition insert_user :: "string \<Rightarrow> string \<Rightarrow> string \<Rightarrow> string \<Rightarrow> db \<Rightarrow> (sql_error + nat) \<times> db" where
  "insert_user username password_hash name role d =
     (case too_long [(''username'', 100, username), (''password_hash'', 64, password_hash),
                     (''name'', 200, name)] of
        Some e \<Rightarrow> (Inl e, d)
      | None \<Rightarrow>
          (case enum_role role of
             None \<Rightarrow> (Inl (WARN_DATA_TRUNCATED ''role''), d)
           | Some r \<Rightarrow>
               (case tbl_insert (mk_user (username, password_hash, name, r))
                       (check_all [unique_check user_key u_username ''username'' (rows (users d))])
                       (users d) of
                  (res, t) \<Rightarrow> (res, d\<lparr>users := t\<rparr>))))"

text \<open>INSERT IGNORE turns the duplicate into a warning and reports no row.\<close>

definition insert_ignore_user :: "string \<Rightarrow> string \<Rightarrow> string \<Rightarrow> string \<Rightarrow> db \<Rightarrow> (sql_error + nat) \<times> db" where
  "insert_ignore_user username password_hash name role d =
     (case insert_user username password_hash name role d of
        (Inl (ER_DUP_ENTRY v k), d') \<Rightarrow> (Inr 0, d')
      | r \<Rightarrow> r)"

section \<open>Voter and candidate applications\<close>

definition select_voter_profile :: "int \<Rightarrow> db \<Rightarrow> voter_profiles_row list" where
  "select_voter_profile uid d = filter (\<lambda>r. vp_user_id r = uid) (rows (voter_profiles d))"

definition mk_voter_profile :: "int \<times> string \<times> string \<times> status \<Rightarrow> int \<Rightarrow> voter_profiles_row" where
  "mk_voter_profile = (\<lambda>(uid, constituency, address, st) i.
     \<lparr>vp_id = i, vp_user_id = uid, vp_constituency = constituency, vp_address = address,
      vp_status = st\<rparr>)"

definition insert_voter_profile :: "int \<Rightarrow> string \<Rightarrow> string \<Rightarrow> db \<Rightarrow> (sql_error + nat) \<times> db" where
  "insert_voter_profile uid constituency address d =
     (case too_long [(''constituency'', 200, constituency), (''address'', TEXT_MAX, address)] of
        Some e \<Rightarrow> (Inl e, d)
      | None \<Rightarrow>
          (case tbl_insert (mk_voter_profile (uid, constituency, address, PENDING))
                  (check_all [unique_check vp_user_id (show_int \<circ> vp_user_id) ''user_id''
                                (rows (voter_profiles d)),
                              fk_check ''voter_profiles'' vp_user_id (rows (users d))])
                  (voter_profiles d) of
             (res, t) \<Rightarrow> (res, d\<lparr>voter_profiles := t\<rparr>)))"

definition select_candidate_profile :: "int \<Rightarrow> db \<Rightarrow> candidate_profiles_row list" where
  "select_candidate_profile uid d = filter (\<lambda>r. cp_user_id r = uid) (rows (candidate_profiles d))"

definition mk_candidate_profile ::
    "int \<times> string \<times> string \<times> string \<times> status \<Rightarrow> int \<Rightarrow> candidate_profiles_row" where
  "mk_candidate_profile = (\<lambda>(uid, party, constituency, manifesto, st) i.
     \<lparr>cp_id = i, cp_user_id = uid, cp_party = party, cp_constituency = constituency,
      cp_manifesto = manifesto, cp_status = st\<rparr>)"

definition insert_candidate_profile ::
    "int \<Rightarrow> string \<Rightarrow> string \<Rightarrow> string \<Rightarrow> db \<Rightarrow> (sql_error + nat) \<times> db" where
  "insert_candidate_profile uid party constituency manifesto d =
     (case too_long [(''party'', 200, party), (''constituency'', 200, constituency),
                     (''manifesto'', TEXT_MAX, manifesto)] of
        Some e \<Rightarrow> (Inl e, d)
      | None \<Rightarrow>
          (case tbl_insert (mk_candidate_profile (uid, party, constituency, manifesto, PENDING))
                  (check_all [unique_check cp_user_id (show_int \<circ> cp_user_id) ''user_id''
                                (rows (candidate_profiles d)),
                              fk_check ''candidate_profiles'' cp_user_id (rows (users d))])
                  (candidate_profiles d) of
             (res, t) \<Rightarrow> (res, d\<lparr>candidate_profiles := t\<rparr>)))"

definition select_pending_voters :: "db \<Rightarrow> (int \<times> string \<times> string \<times> string \<times> string) list" where
  "select_pending_voters d =
     [(vp_id vp, u_name u, u_username u, vp_constituency vp, vp_address vp).
        vp \<leftarrow> rows (voter_profiles d), u \<leftarrow> rows (users d),
        u_id u = vp_user_id vp \<and> vp_status vp = PENDING]"

definition select_pending_candidates ::
    "db \<Rightarrow> (int \<times> string \<times> string \<times> string \<times> string \<times> string) list" where
  "select_pending_candidates d =
     [(cp_id cp, u_name u, u_username u, cp_party cp, cp_constituency cp, cp_manifesto cp).
        cp \<leftarrow> rows (candidate_profiles d), u \<leftarrow> rows (users d),
        u_id u = cp_user_id cp \<and> cp_status cp = PENDING]"

text \<open>The two tables whose name the menus pass to \<open>approveReject\<close>.\<close>

datatype profile_table = Voter_profiles | Candidate_profiles

definition update_status :: "profile_table \<Rightarrow> string \<Rightarrow> int \<Rightarrow> db \<Rightarrow> (sql_error + nat) \<times> db" where
  "update_status table st aid d =
     (case enum_status st of
        None \<Rightarrow> (Inl (WARN_DATA_TRUNCATED ''status''), d)
      | Some s \<Rightarrow>
          (case table of
             Voter_profiles \<Rightarrow>
               (Inr (length (filter (\<lambda>r. vp_id r = aid) (rows (voter_profiles d)))),
                d\<lparr>voter_profiles := (voter_profiles d)\<lparr>rows :=
                    map (\<lambda>r. if vp_id r = aid then r\<lparr>vp_status := s\<rparr> else r)
                      (rows (voter_profiles d))\<rparr>\<rparr>)
           | Candidate_profiles \<Rightarrow>
               (Inr (length (filter (\<lambda>r. cp_id r = aid) (rows (candidate_profiles d)))),
                d\<lparr>candidate_profiles := (candidate_profiles d)\<lparr>rows :=
                    map (\<lambda>r. if cp_id r = aid then r\<lparr>cp_status := s\<rparr> else r)
                      (rows (candidate_profiles d))\<rparr>\<rparr>)))"

definition select_approved_candidates ::
    "db \<Rightarrow> (int \<times> string \<times> string \<times> string \<times> string) list" where
  "select_approved_candidates d =
     [(cp_id cp, u_name u, cp_party cp, cp_constituency cp, cp_manifesto cp).
        cp \<leftarrow> rows (candidate_profiles d), u \<leftarrow> rows (users d),
        u_id u = cp_user_id cp \<and> cp_status cp = APPROVED]"

section \<open>Votes and results\<close>

definition select_vote :: "int \<Rightarrow> db \<Rightarrow> int list" where
  "select_vote voter d = [v_id v. v \<leftarrow> rows (votes d), v_voter_id v = voter]"

definition select_candidate_user :: "int \<Rightarrow> db \<Rightarrow> int list" where
  "select_candidate_user cid d =
     [cp_user_id cp. cp \<leftarrow> rows (candidate_profiles d), cp_id cp = cid \<and> cp_status cp = APPROVED]"

definition mk_vote :: "int \<times> int \<times> nat \<Rightarrow> int \<Rightarrow> votes_row" where
  "mk_vote = (\<lambda>(voter, candidate, now) i.
     \<lparr>v_id = i, v_voter_id = voter, v_candidate_id = candidate, v_voted_at = now\<rparr>)"

definition insert_vote :: "int \<Rightarrow> int \<Rightarrow> nat \<Rightarrow> db \<Rightarrow> (sql_error + nat) \<times> db" where
  "insert_vote voter candidate now d =
     (case tbl_insert (mk_vote (voter, candidate, now))
             (check_all [unique_check v_voter_id (show_int \<circ> v_voter_id) ''voter_id'' (rows (votes d)),
                         fk_check ''votes.voter_id'' v_voter_id (rows (users d)),
                         fk_check ''votes.candidate_id'' v_candidate_id (rows (users d))])
             (votes d) of
        (res, t) \<Rightarrow> (res, d\<lparr>votes := t\<rparr>))"

text \<open>
  The results query as SQL evaluates it: the joined rows (a candidate without votes keeps one
  row whose vote is NULL), grouped by candidacy, each group counted by its non-NULL vote ids.
\<close>

definition left_join_votes :: "candidate_profiles_row \<Rightarrow> db \<Rightarrow> votes_row option list" where
  "left_join_votes cp d =
     (let vs = filter (\<lambda>v. v_candidate_id v = cp_user_id cp) (rows (votes d))
      in if vs = [] then [None] else map Some vs)"

definition results_join ::
    "db \<Rightarrow> (candidate_profiles_row \<times> users_row \<times> votes_row option) list" where
  "results_join d =
     [(cp, u, v). cp \<leftarrow> rows (candidate_profiles d), u \<leftarrow> rows (users d),
        u_id u = cp_user_id cp, v \<leftarrow> left_join_votes cp d, cp_status cp = APPROVED]"

definition results_group ::
    "(candidate_profiles_row \<times> users_row \<times> votes_row option) list \<Rightarrow> int
       \<Rightarrow> string \<times> string \<times> string \<times> nat" where
  "results_group js cid =
     (let g = filter (\<lambda>(cp, u, v). cp_id cp = cid) js
      in case hd g of (cp, u, v) \<Rightarrow>
           (u_name u, cp_party cp, cp_constituency cp, length (filter (\<lambda>(cp, u, v). v \<noteq> None) g)))"

definition select_results :: "db \<Rightarrow> (string \<times> string \<times> string \<times> nat) list" where
  "select_results d =
     (let js = results_join d
      in sort_key (\<lambda>(n, p, c, k). - int k)
           (map (results_group js) (remdups (map (\<lambda>(cp, u, v). cp_id cp) js))))"

section \<open>Forum\<close>

definition mk_forum_post :: "int \<times> string \<times> nat \<Rightarrow> int \<Rightarrow> forum_posts_row" where
  "mk_forum_post = (\<lambda>(uid, content, now) i.
     \<lparr>f_id = i, f_user_id = uid, f_content = content, f_posted_at = now\<rparr>)"

definition insert_forum_post :: "int \<Rightarrow> string \<Rightarrow> nat \<Rightarrow> db \<Rightarrow> (sql_error + nat) \<times> db" where
  "insert_forum_post uid content now d =
     (case too_long [(''content'', TEXT_MAX, content)] of
        Some e \<Rightarrow> (Inl e, d)
      | None \<Rightarrow>
          (case tbl_insert (mk_forum_post (uid, content, now))
                  (check_all [fk_check ''forum_posts'' f_user_id (rows (users d))])
                  (forum_posts d) of
             (res, t) \<Rightarrow> (res, d\<lparr>forum_posts := t\<rparr>)))"

definition select_forum :: "db \<Rightarrow> (string \<times> string \<times> nat) list" where
  "select_forum d =
     take 20 (sort_key (\<lambda>(n, c, t). - int t)
       [(u_name u, f_content f, f_posted_at f).
          f \<leftarrow> rows (forum_posts d), u \<leftarrow> rows (users d), u_id u = f_user_id f])"

section \<open>Statements that write, as data\<close>

text \<open>Every writing statement of the application, for sequences of statements of other clients.\<close>

datatype dml =
    Ins_user string string string string
  | Ins_voter_profile int string string
  | Ins_candidate_profile int string string string
  | Upd_status profile_table string int
  | Ins_vote int int
  | Ins_forum_post int string

fun run_dml :: "nat \<Rightarrow> dml \<Rightarrow> db \<Rightarrow> (sql_error + nat) \<times> db" where
  "run_dml now (Ins_user a b c e) d = insert_user a b c e d"
| "run_dml now (Ins_voter_profile a b c) d = insert_voter_profile a b c d"
| "run_dml now (Ins_candidate_profile a b c e) d = insert_candidate_profile a b c e d"
| "run_dml now (Upd_status a b c) d = update_status a b c d"
| "run_dml now (Ins_vote a b) d = insert_vote a b now d"
| "run_dml now (Ins_forum_post a b) d = insert_forum_post a b now d"

end
