(* ===== verification/Voting_Results.thy ===== *)
theory Voting_Results
  imports Voting_Invariant
begin

text \<open>
  What \<open>viewResults\<close> counts. In a well-formed database the joined and grouped query gives one
  line per approved candidacy, with the number of ballots cast for that candidate, highest first.
\<close>

section \<open>Reference definitions\<close>

definition votes_for :: "int \<Rightarrow> db \<Rightarrow> nat" where
  "votes_for uid d = length (filter (\<lambda>v. v_candidate_id v = uid) (rows (votes d)))"

definition approved_profiles :: "db \<Rightarrow> candidate_profiles_row list" where
  "approved_profiles d = filter (\<lambda>cp. cp_status cp = APPROVED) (rows (candidate_profiles d))"

definition user_of :: "db \<Rightarrow> int \<Rightarrow> users_row" where
  "user_of d uid = hd (filter (\<lambda>u. u_id u = uid) (rows (users d)))"

definition tally_line :: "db \<Rightarrow> candidate_profiles_row \<Rightarrow> string \<times> string \<times> string \<times> nat" where
  "tally_line d cp =
     (u_name (user_of d (cp_user_id cp)), cp_party cp, cp_constituency cp, votes_for (cp_user_id cp) d)"

definition tally :: "db \<Rightarrow> (string \<times> string \<times> string \<times> nat) list" where
  "tally d = sort_key (\<lambda>(n, p, c, k). - int k) (map (tally_line d) (approved_profiles d))"

section \<open>The query computes the tally\<close>

lemma users_with_id:
  assumes "db_ok d" "uid \<in> set (map u_id (rows (users d)))"
  shows "filter (\<lambda>u. u_id u = uid) (rows (users d)) = [user_of d uid]"
proof -
  from assms(2) obtain u where u: "u \<in> set (rows (users d))" "u_id u = uid" by auto
  with assms(1) have "filter (\<lambda>u. u_id u = uid) (rows (users d)) = [u]"
    by (intro distinct_map_filter_eq) (auto simp: db_ok_def tbl_ok_def)
  then show ?thesis by (simp add: user_of_def)
qed

definition join_block :: "db \<Rightarrow> candidate_profiles_row
    \<Rightarrow> (candidate_profiles_row \<times> users_row \<times> votes_row option) list" where
  "join_block d cp = map (\<lambda>v. (cp, user_of d (cp_user_id cp), v)) (left_join_votes cp d)"

lemma concat_map_if_filter:
  "concat (map (\<lambda>x. if P x then f x else []) xs) = concat (map f (filter P xs))"
  by (induction xs) auto

lemma results_join_blocks:
  assumes "db_ok d"
  shows "results_join d = concat (map (join_block d) (approved_profiles d))"
proof -
  have "concat (map (\<lambda>u. if u_id u = cp_user_id cp
            then concat (map (\<lambda>v. if cp_status cp = APPROVED then [(cp, u, v)] else []) (left_join_votes cp d))
            else []) (rows (users d)))
      = (if cp_status cp = APPROVED then join_block d cp else [])"
    if "cp \<in> set (rows (candidate_profiles d))" for cp
  proof -
    from assms that have "cp_user_id cp \<in> set (map u_id (rows (users d)))"
      by (auto simp: db_ok_def fk_ok_def)
    with assms have "filter (\<lambda>u. u_id u = cp_user_id cp) (rows (users d)) = [user_of d (cp_user_id cp)]"
      by (rule users_with_id)
    then show ?thesis by (simp add: concat_map_if_filter join_block_def)
  qed
  then have "results_join d = concat (map (\<lambda>cp. if cp_status cp = APPROVED then join_block d cp else [])
      (rows (candidate_profiles d)))"
    unfolding results_join_def by (intro arg_cong [of _ _ concat] map_cong) auto
  then show ?thesis by (simp add: concat_map_if_filter approved_profiles_def)
qed

lemma join_block_not_Nil: "join_block d cp \<noteq> []"
  by (simp add: join_block_def left_join_votes_def Let_def)

lemma join_block_key: "y \<in> set (join_block d cp) \<Longrightarrow> (case y of (c, u, v) \<Rightarrow> cp_id c) = cp_id cp"
  by (auto simp: join_block_def)

lemma count_block:
  "length (filter (\<lambda>(cp, u, v). v \<noteq> None) (join_block d cp)) = votes_for (cp_user_id cp) d"
  by (simp add: join_block_def left_join_votes_def votes_for_def Let_def filter_map comp_def)

lemma hd_join_block: "hd (join_block d cp) = (cp, user_of d (cp_user_id cp), hd (left_join_votes cp d))"
  by (simp add: join_block_def hd_map left_join_votes_def Let_def)

lemma approved_profiles_distinct: "db_ok d \<Longrightarrow> distinct (map cp_id (approved_profiles d))"
  by (auto simp: approved_profiles_def db_ok_def tbl_ok_def distinct_map intro: inj_on_subset)

lemma results_group_eq:
  assumes "db_ok d" "cp \<in> set (approved_profiles d)"
  shows "results_group (results_join d) (cp_id cp) = tally_line d cp"
proof -
  have "filter (\<lambda>y. (case y of (c, u, v) \<Rightarrow> cp_id c) = cp_id cp) (results_join d) = join_block d cp"
    unfolding results_join_blocks [OF assms(1)]
    using approved_profiles_distinct [OF assms(1)] join_block_key assms(2)
    by (rule filter_concat_group)
  then have "filter (\<lambda>(c, u, v). cp_id c = cp_id cp) (results_join d) = join_block d cp"
    by (simp add: split_def)
  then show ?thesis
    by (simp add: results_group_def hd_join_block count_block tally_line_def del: not_None_eq)
qed

lemma results_ids:
  assumes "db_ok d"
  shows "remdups (map (\<lambda>(cp, u, v). cp_id cp) (results_join d)) = map cp_id (approved_profiles d)"
  unfolding results_join_blocks [OF assms]
  by (rule remdups_concat_group [OF approved_profiles_distinct [OF assms] join_block_not_Nil join_block_key])

lemma select_results_tally:
  assumes "db_ok d"
  shows "select_results d = tally d"
proof -
  have "map (results_group (results_join d)) (map cp_id (approved_profiles d))
      = map (tally_line d) (approved_profiles d)"
    using results_group_eq [OF assms] by simp
  then show ?thesis
    by (simp only: select_results_def tally_def Let_def results_ids [OF assms])
qed

section \<open>Order and completeness of the count\<close>

lemma tally_descending: "sorted_wrt (\<ge>) (map (\<lambda>(n, p, c, k). k) (tally d))"
proof -
  let ?k = "\<lambda>(n, p, c, k). - int k"
  have "sorted (map ?k (tally d))" unfolding tally_def by (rule sorted_sort_key)
  then have "sorted_wrt (\<lambda>x y. ?k x \<le> ?k y) (tally d)" by (simp add: sorted_map)
  then have "sorted_wrt (\<lambda>x y. (case x of (n, p, c, k) \<Rightarrow> k) \<ge> (case y of (n, p, c, k) \<Rightarrow> k)) (tally d)"
    by (rule sorted_wrt_mono_rel [rotated]) auto
  then show ?thesis by (simp add: sorted_wrt_map)
qed

lemma sum_tally:
  assumes "db_ok d"
  shows "sum_list (map (\<lambda>(n, p, c, k). k) (tally d))
    = length (filter (\<lambda>v. v_candidate_id v \<in> set (map cp_user_id (approved_profiles d))) (rows (votes d)))"
proof -
  have dist: "distinct (map cp_user_id (approved_profiles d))"
    using assms by (auto simp: approved_profiles_def db_ok_def distinct_map intro: inj_on_subset)
  have "mset (map (\<lambda>(n, p, c, k). k) (tally d))
      = mset (map (\<lambda>(n, p, c, k). k) (map (tally_line d) (approved_profiles d)))"
    unfolding tally_def by (simp only: mset_map mset_sort)
  then have "sum_list (map (\<lambda>(n, p, c, k). k) (tally d))
      = sum_list (map (\<lambda>(n, p, c, k). k) (map (tally_line d) (approved_profiles d)))"
    by (simp only: sum_mset_sum_list [symmetric])
  also have "\<dots> = sum_list (map (\<lambda>uid. votes_for uid d) (map cp_user_id (approved_profiles d)))"
    by (simp add: tally_line_def comp_def)
  also have "\<dots> = length (filter (\<lambda>v. v_candidate_id v \<in> set (map cp_user_id (approved_profiles d)))
      (rows (votes d)))"
    unfolding votes_for_def using dist by (rule sum_list_map_filter_count)
  finally show ?thesis .
qed

end
