(* ===== verification/Voting_Console.thy ===== *)
theory Voting_Console
  imports Voting_Results
begin

text \<open>
  The world a session of the program runs in: the lines typed at the terminal, what has been
  printed, the database server, and the events of the connection. Every statement sent over
  JDBC consumes one event, which says which statements of other clients the server ran first,
  how much time passed, and whether this statement fails (a lost connection, a lock timeout):
  a failed statement has no effect on the data. With no events left, statements run undisturbed.
  Reading past the end of the input throws \<open>NoSuchElementException\<close>, which no method catches.
\<close>

datatype exn = NoSuchElementException

datatype 'a outcome = Normal 'a | Throw exn

record jdbc_event =
  ev_others :: "dml list"
  ev_elapsed :: nat
  ev_fault :: "sql_error option"

record world =
  stdin :: "string list"
  stdout :: "string list"
  schema_exists :: bool
  tables :: "string list"
  database :: db
  events :: "jdbc_event list"
  clock :: nat
  ts_text :: "nat \<Rightarrow> string"

type_synonym 'a io = "world \<Rightarrow> 'a outcome \<times> world"

definition ret :: "'a \<Rightarrow> 'a io" where
  "ret a = (\<lambda>w. (Normal a, w))"

definition andthen :: "'a io \<Rightarrow> ('a \<Rightarrow> 'b io) \<Rightarrow> 'b io" where
  "andthen m f = (\<lambda>w. case m w of (Normal a, w') \<Rightarrow> f a w' | (Throw e, w') \<Rightarrow> (Throw e, w'))"

definition print :: "string \<Rightarrow> unit io" where
  "print s = (\<lambda>w. (Normal (), w\<lparr>stdout := stdout w @ [s]\<rparr>))"

definition println :: "string \<Rightarrow> unit io" where
  "println s = print (s @ nl)"

fun println_all :: "string list \<Rightarrow> unit io" where
  "println_all [] = ret ()"
| "println_all (l # ls) = andthen (println l) (\<lambda>_. println_all ls)"

definition nextLine :: "string io" where
  "nextLine = (\<lambda>w. case stdin w of
     [] \<Rightarrow> (Throw NoSuchElementException, w)
   | l # ls \<Rightarrow> (Normal l, w\<lparr>stdin := ls\<rparr>))"

definition prompt :: "string \<Rightarrow> string io" where
  "prompt s = andthen (print s) (\<lambda>_. andthen nextLine (\<lambda>l. ret (trim l)))"

section \<open>Statements over JDBC\<close>

definition run_others :: "nat \<Rightarrow> dml list \<Rightarrow> db \<Rightarrow> db" where
  "run_others now xs d = fold (\<lambda>x d. snd (run_dml now x d)) xs d"

definition all_tables :: "string list" where
  "all_tables = [''users'', ''voter_profiles'', ''candidate_profiles'', ''votes'', ''forum_posts'']"

text \<open>Other clients issue statements only once the tables exist.\<close>

definition take_event :: "jdbc_event \<Rightarrow> world \<Rightarrow> world" where
  "take_event e w =
     w\<lparr>events := tl (events w),
       clock := clock w + ev_elapsed e,
       database := (if set all_tables \<subseteq> set (tables w)
                    then run_others (clock w) (ev_others e) (database w) else database w)\<rparr>"

definition statement :: "(world \<Rightarrow> (sql_error + 'a) \<times> world) \<Rightarrow> (sql_error + 'a) io" where
  "statement f = (\<lambda>w. case events w of
     [] \<Rightarrow> (case f w of (r, w') \<Rightarrow> (Normal r, w'))
   | e # _ \<Rightarrow> (let w1 = take_event e w in
       case ev_fault e of
         Some x \<Rightarrow> (Normal (Inl x), w1)
       | None \<Rightarrow> (case f w1 of (r, w') \<Rightarrow> (Normal r, w'))))"

definition executeQuery :: "(db \<Rightarrow> 'a) \<Rightarrow> (sql_error + 'a) io" where
  "executeQuery q = statement (\<lambda>w. (Inr (q (database w)), w))"

definition executeUpdate :: "(nat \<Rightarrow> db \<Rightarrow> (sql_error + nat) \<times> db) \<Rightarrow> (sql_error + nat) io" where
  "executeUpdate st = statement (\<lambda>w. case st (clock w) (database w) of
     (r, d) \<Rightarrow> (r, w\<lparr>database := d\<rparr>))"

section \<open>Input is only consumed, and only its end throws\<close>

definition nonexp :: "'a io \<Rightarrow> bool" where
  "nonexp m \<longleftrightarrow> (\<forall>w. length (stdin (snd (m w))) \<le> length (stdin w) \<and>
     (\<forall>e. fst (m w) = Throw e \<longrightarrow> stdin (snd (m w)) = []))"

lemma nonexpD: "nonexp m \<Longrightarrow> m w = (r, w') \<Longrightarrow> length (stdin w') \<le> length (stdin w)"
  by (metis nonexp_def snd_conv)

lemma nonexp_Throw: "nonexp m \<Longrightarrow> m w = (Throw e, w') \<Longrightarrow> stdin w' = []"
  by (metis nonexp_def fst_conv snd_conv)

lemma nonexpI:
  "(\<And>w r w'. m w = (r, w') \<Longrightarrow> length (stdin w') \<le> length (stdin w) \<and> (\<forall>e. r = Throw e \<longrightarrow> stdin w' = []))
    \<Longrightarrow> nonexp m"
  unfolding nonexp_def by (metis prod.collapse)

lemma nonexp_ret [io_nonexp]: "nonexp (ret a)"
  by (simp add: nonexp_def ret_def)

lemma nonexp_andthen [io_nonexp]:
  assumes "nonexp m" "\<And>a. nonexp (f a)"
  shows "nonexp (andthen m f)"
proof (rule nonexpI)
  fix w r w'
  assume run: "andthen m f w = (r, w')"
  obtain r1 w1 where m: "m w = (r1, w1)" by (cases "m w") auto
  show "length (stdin w') \<le> length (stdin w) \<and> (\<forall>e. r = Throw e \<longrightarrow> stdin w' = [])"
  proof (cases r1)
    case (Normal a)
    with run m have "f a w1 = (r, w')" by (simp add: andthen_def)
    then show ?thesis
      using nonexpD [OF assms(1) m] nonexpD [OF assms(2)] nonexp_Throw [OF assms(2)] by fastforce
  next
    case (Throw e)
    with run m show ?thesis
      using nonexpD [OF assms(1) m] nonexp_Throw [OF assms(1), of w e w1] by (auto simp: andthen_def)
  qed
qed

lemma nonexp_print [io_nonexp]: "nonexp (print s)"
  by (simp add: nonexp_def print_def)

lemma nonexp_println [io_nonexp]: "nonexp (println s)"
  by (simp add: println_def nonexp_print)

lemma nonexp_println_all [io_nonexp]: "nonexp (println_all ls)"
  by (induction ls) (auto intro: io_nonexp)

lemma nonexp_nextLine [io_nonexp]: "nonexp nextLine"
  by (auto simp: nonexp_def nextLine_def split: list.splits)

lemma nonexp_prompt [io_nonexp]: "nonexp (prompt s)"
  by (simp add: prompt_def io_nonexp)

lemma nonexp_statement:
  assumes "\<And>w. stdin (snd (f w)) = stdin w"
  shows "nonexp (statement f)"
proof (rule nonexpI)
  fix w :: world and r w'
  have 1: "stdin (take_event e w) = stdin w" for e by (simp add: take_event_def)
  assume "statement f w = (r, w')"
  with 1 assms show "length (stdin w') \<le> length (stdin w) \<and> (\<forall>e. r = Throw e \<longrightarrow> stdin w' = [])"
    by (cases "events w") (auto simp: statement_def Let_def split_beta split: option.splits)
qed

lemma nonexp_executeQuery [io_nonexp]: "nonexp (executeQuery q)"
  by (simp add: executeQuery_def nonexp_statement)

lemma nonexp_executeUpdate [io_nonexp]: "nonexp (executeUpdate st)"
  by (simp add: executeUpdate_def nonexp_statement split: prod.split)

text \<open>A prompt that returns has used up a line.\<close>

lemma prompt_Normal: "prompt s w = (Normal l, w') \<Longrightarrow> length (stdin w') < length (stdin w)"
  by (auto simp: prompt_def andthen_def print_def nextLine_def ret_def split: list.splits)

section \<open>Relations between database states over a session\<close>

text \<open>
  \<open>io_rel P R m\<close>: along every run of \<open>m\<close> whose events all satisfy \<open>P\<close>, the database moves by
  \<open>R\<close>, and the events still to come satisfy \<open>P\<close>.
\<close>

definition io_rel :: "(jdbc_event \<Rightarrow> bool) \<Rightarrow> (db \<Rightarrow> db \<Rightarrow> bool) \<Rightarrow> 'a io \<Rightarrow> bool" where
  "io_rel P R m \<longleftrightarrow> (\<forall>w. list_all P (events w) \<longrightarrow>
     R (database w) (database (snd (m w))) \<and> list_all P (events (snd (m w))))"

locale session_rel =
  fixes P :: "jdbc_event \<Rightarrow> bool" and R :: "db \<Rightarrow> db \<Rightarrow> bool"
  assumes rel_refl: "R d d"
    and rel_trans: "R a b \<Longrightarrow> R b c \<Longrightarrow> R a c"
    and rel_others: "P e \<Longrightarrow> R d (run_others now (ev_others e) d)"
begin

lemma rel_ret: "io_rel P R (ret a)"
  by (simp add: io_rel_def ret_def rel_refl)

lemma rel_print: "io_rel P R (print s)"
  by (simp add: io_rel_def print_def rel_refl)

lemma rel_println: "io_rel P R (println s)"
  by (simp add: println_def rel_print)

lemma rel_nextLine: "io_rel P R nextLine"
  by (simp add: io_rel_def nextLine_def rel_refl split: list.split)

lemma rel_andthen:
  assumes "io_rel P R m" "\<And>a. io_rel P R (f a)"
  shows "io_rel P R (andthen m f)"
  unfolding io_rel_def
proof (intro allI impI)
  fix w :: world
  assume w: "list_all P (events w)"
  obtain r w' where m: "m w = (r, w')" by (cases "m w") auto
  with assms(1) w have 1: "R (database w) (database w')" "list_all P (events w')"
    by (auto simp: io_rel_def)
  show "R (database w) (database (snd (andthen m f w))) \<and> list_all P (events (snd (andthen m f w)))"
  proof (cases r)
    case (Normal a)
    from assms(2) [of a] 1(2) have "R (database w') (database (snd (f a w')))"
      "list_all P (events (snd (f a w')))" by (auto simp: io_rel_def)
    with 1 m Normal show ?thesis by (auto simp: andthen_def intro: rel_trans)
  next
    case (Throw e)
    with 1 m show ?thesis by (simp add: andthen_def)
  qed
qed

lemma rel_println_all: "io_rel P R (println_all ls)"
  by (induction ls) (simp_all add: rel_ret rel_andthen rel_println)

lemma rel_prompt: "io_rel P R (prompt s)"
  by (simp add: prompt_def rel_andthen rel_print rel_nextLine rel_ret)

lemma rel_take_event: "P e \<Longrightarrow> R (database w) (database (take_event e w))"
  by (simp add: take_event_def rel_refl rel_others)

lemma rel_statement:
  assumes "\<And>w. R (database w) (database (snd (f w)))" "\<And>w. events (snd (f w)) = events w"
  shows "io_rel P R (statement f)"
  unfolding io_rel_def
proof (intro allI impI)
  fix w :: world
  assume w: "list_all P (events w)"
  show "R (database w) (database (snd (statement f w))) \<and> list_all P (events (snd (statement f w)))"
  proof (cases "events w")
    case Nil
    then show ?thesis
      using assms [of w] by (simp add: statement_def split_beta)
  next
    case (Cons e es)
    let ?w = "take_event e w"
    have "R (database w) (database ?w)" "events ?w = es"
      using w Cons by (simp_all add: rel_take_event) (simp add: take_event_def)
    moreover have "R (database w) (database (snd (f ?w)))"
      using rel_trans [OF \<open>R (database w) (database ?w)\<close> assms(1) [of ?w]] .
    ultimately show ?thesis
      using w Cons assms(2) [of ?w]
      by (auto simp: statement_def Let_def split_beta split: option.split)
  qed
qed

lemma rel_executeQuery: "io_rel P R (executeQuery q)"
  unfolding executeQuery_def by (rule rel_statement) (simp_all add: rel_refl)

lemma rel_executeUpdate:
  assumes "\<And>now d. R d (snd (st now d))"
  shows "io_rel P R (executeUpdate st)"
  unfolding executeUpdate_def by (rule rel_statement) (simp_all add: assms split_beta)

lemmas rel_rules = rel_ret rel_print rel_println rel_nextLine rel_andthen rel_println_all
  rel_prompt rel_executeQuery rel_executeUpdate

end

end
