(* ===== verification/Voting_App.thy ===== *)
theory Voting_App
  imports Voting_Console
begin

text \<open>
  The methods of \<open>OnlineVotingApp.java\<close>, in the order of the file: login and registration, the
  role menus, the application, ballot, results and forum features, and the database setup.
  Menu loops recurse on the input they consume, which is why they end: on Logout or when the
  input runs out.
\<close>

text \<open>Box-drawing characters are written as their UTF-8 bytes.\<close>

definition hbar :: string where
  "hbar = [CHR 0xE2, CHR 0x94, CHR 0x80]"

definition hbars :: "nat \<Rightarrow> string" where
  "hbars n = concat (replicate n hbar)"

definition db_error :: "sql_error \<Rightarrow> string" where
  "db_error e = ''[DB ERROR] '' @ getMessage e"

definition error_line :: "string \<Rightarrow> string" where
  "error_line m = ''[ERROR] '' @ m"

section \<open>Registration\<close>

text \<open>\<open>role.matches("VOTER|CANDIDATE|FIELD_OFFICER|ADMIN")\<close>: the whole string matches.\<close>

definition valid_role :: "string \<Rightarrow> bool" where
  "valid_role s \<longleftrightarrow> s \<in> set [''VOTER'', ''CANDIDATE'', ''FIELD_OFFICER'', ''ADMIN'']"

definition register :: "unit io" where
  "register =
     andthen (prompt ''Full Name: '') (\<lambda>name.
     andthen (prompt ''Username: '') (\<lambda>username.
     andthen (prompt ''Password: '') (\<lambda>password.
     andthen (println ''Role (VOTER / CANDIDATE / FIELD_OFFICER / ADMIN): '') (\<lambda>_.
     andthen (prompt ''> '') (\<lambda>r.
       let role = toUpperCase r in
       if \<not> valid_role role then println (''Invalid role.'' @ nl)
       else andthen (executeUpdate (\<lambda>_. insert_user username (sha256 password) name role)) (\<lambda>res.
         case res of
           Inr _ \<Rightarrow> println (''Registered successfully! You can now log in.'' @ nl)
         | Inl e \<Rightarrow>
             if contains_str (getMessage e) ''Duplicate''
             then println (''Username already taken. Try another.'' @ nl)
             else println (db_error e)))))))"

section \<open>Applications\<close>

definition applyVoterID :: "int \<Rightarrow> unit io" where
  "applyVoterID userId =
     andthen (executeQuery (select_voter_profile userId)) (\<lambda>r.
       case r of
         Inl e \<Rightarrow> println (db_error e)
       | Inr (_ # _) \<Rightarrow> println (''You have already submitted a Voter ID application.'' @ nl)
       | Inr [] \<Rightarrow>
           andthen (prompt ''Enter your Constituency: '') (\<lambda>constituency.
           andthen (prompt ''Enter your Address: '') (\<lambda>address.
           andthen (executeUpdate (\<lambda>_. insert_voter_profile userId constituency address)) (\<lambda>res.
             case res of
               Inr _ \<Rightarrow> println (''Voter ID application submitted! Status: PENDING.'' @ nl)
             | Inl e \<Rightarrow> println (db_error e)))))"

definition viewMyVoterStatus :: "int \<Rightarrow> unit io" where
  "viewMyVoterStatus userId =
     andthen (executeQuery (select_voter_profile userId)) (\<lambda>r.
       case r of
         Inl e \<Rightarrow> println (db_error e)
       | Inr (vp # _) \<Rightarrow>
           andthen (println (''Constituency: '' @ vp_constituency vp)) (\<lambda>_.
             println (''Status      : '' @ status_name (vp_status vp) @ nl))
       | Inr [] \<Rightarrow> println (''No application found. Please apply first.'' @ nl))"

definition applyCandidate :: "int \<Rightarrow> unit io" where
  "applyCandidate userId =
     andthen (executeQuery (select_candidate_profile userId)) (\<lambda>r.
       case r of
         Inl e \<Rightarrow> println (db_error e)
       | Inr (_ # _) \<Rightarrow> println (''You have already submitted a candidacy application.'' @ nl)
       | Inr [] \<Rightarrow>
           andthen (prompt ''Party Name: '') (\<lambda>party.
           andthen (prompt ''Constituency: '') (\<lambda>constituency.
           andthen (prompt ''Manifesto (brief): '') (\<lambda>manifesto.
           andthen (executeUpdate (\<lambda>_. insert_candidate_profile userId party constituency manifesto)) (\<lambda>res.
             case res of
               Inr _ \<Rightarrow> println (''Candidacy application submitted! Status: PENDING.'' @ nl)
             | Inl e \<Rightarrow> println (db_error e))))))"

definition viewMyCandidateStatus :: "int \<Rightarrow> unit io" where
  "viewMyCandidateStatus userId =
     andthen (executeQuery (select_candidate_profile userId)) (\<lambda>r.
       case r of
         Inl e \<Rightarrow> println (db_error e)
       | Inr (cp # _) \<Rightarrow>
           andthen (println (''Party       : '' @ cp_party cp)) (\<lambda>_.
           andthen (println (''Constituency: '' @ cp_constituency cp)) (\<lambda>_.
             println (''Status      : '' @ status_name (cp_status cp) @ nl)))
       | Inr [] \<Rightarrow> println (''No candidacy application found.'' @ nl))"

text \<open>A query that prints one block of lines per row, a line when there is none, and a blank line.\<close>

definition view_rows :: "string \<Rightarrow> (db \<Rightarrow> 'r list) \<Rightarrow> ('r list \<Rightarrow> string list) \<Rightarrow> string \<Rightarrow> unit io" where
  "view_rows header q render none_line =
     andthen (println header) (\<lambda>_.
     andthen (executeQuery q) (\<lambda>r.
     andthen (case r of
                Inl e \<Rightarrow> println (db_error e)
              | Inr [] \<Rightarrow> println none_line
              | Inr rs \<Rightarrow> println_all (render rs)) (\<lambda>_.
       println [])))"

definition id_tag :: "int \<Rightarrow> string" where
  "id_tag i = ''[ID:'' @ show_int i @ ''] ''"

definition viewPendingVoters :: "unit io" where
  "viewPendingVoters =
     view_rows (nl @ hbars 2 @ '' Pending Voter Applications '' @ hbars 2) select_pending_voters
       (map (\<lambda>(i, name, username, constituency, address).
          id_tag i @ pad20 name @ '' (@'' @ username @ '') | '' @ constituency @ '' | '' @ address))
       ''No pending applications.''"

definition viewPendingCandidates :: "unit io" where
  "viewPendingCandidates =
     view_rows (nl @ hbars 2 @ '' Pending Candidate Applications '' @ hbars 2) select_pending_candidates
       (\<lambda>rs. concat (map (\<lambda>(i, name, username, party, constituency, manifesto).
          [id_tag i @ pad20 name @ '' (@'' @ username @ '') | '' @ party @ '' | '' @ constituency,
           ''       Manifesto: '' @ manifesto]) rs))
       ''No pending applications.''"

definition status_of_action :: "string \<Rightarrow> string option" where
  "status_of_action action =
     (if action = ''APPROVE'' then Some ''APPROVED''
      else if action = ''REJECT'' then Some ''REJECTED'' else None)"

definition approveReject :: "profile_table \<Rightarrow> unit io" where
  "approveReject table =
     andthen (prompt ''Enter Application ID: '') (\<lambda>idStr.
     andthen (prompt ''Action (APPROVE / REJECT): '') (\<lambda>a.
       case status_of_action (toUpperCase a) of
         None \<Rightarrow> println (''Invalid action.'' @ nl)
       | Some st \<Rightarrow>
           (case parseInt idStr of
              None \<Rightarrow> println (error_line (nfe_message idStr))
            | Some aid \<Rightarrow>
                andthen (executeUpdate (\<lambda>_. update_status table st aid)) (\<lambda>res.
                  case res of
                    Inr n \<Rightarrow> println (if 0 < n then ''Done! Status set to '' @ st @ ''.'' @ nl
                                      else ''ID not found.'' @ nl)
                  | Inl e \<Rightarrow> println (error_line (getMessage e))))))"

definition viewApprovedCandidates :: "unit io" where
  "viewApprovedCandidates =
     view_rows (nl @ hbars 2 @ '' Approved Candidates '' @ hbars 2) select_approved_candidates
       (\<lambda>rs. concat (map (\<lambda>(i, name, party, constituency, manifesto).
          [id_tag i @ pad20 name @ '' | '' @ party @ '' | '' @ constituency,
           ''       Manifesto: '' @ manifesto]) rs))
       ''No approved candidates yet.''"

section \<open>Casting a vote\<close>

text \<open>The INSERT of the ballot, then the whole last try block, then the method.\<close>

definition recordBallot :: "int \<Rightarrow> int \<Rightarrow> unit io" where
  "recordBallot voterId candidateUserId =
     andthen (executeUpdate (insert_vote voterId candidateUserId)) (\<lambda>res.
       case res of
         Inr _ \<Rightarrow> println (''Vote cast successfully! Thank you.'' @ nl)
       | Inl e \<Rightarrow> println (error_line (getMessage e)))"

definition submitChoice :: "int \<Rightarrow> string \<Rightarrow> unit io" where
  "submitChoice voterId idStr =
     (case parseInt idStr of
        None \<Rightarrow> println (error_line (nfe_message idStr))
      | Some cid \<Rightarrow>
          andthen (executeQuery (select_candidate_user cid)) (\<lambda>r.
            case r of
              Inl e \<Rightarrow> println (error_line (getMessage e))
            | Inr [] \<Rightarrow> println (''Invalid candidate ID.'' @ nl)
            | Inr (candidateUserId # _) \<Rightarrow> recordBallot voterId candidateUserId))"

definition castVote :: "int \<Rightarrow> unit io" where
  "castVote voterId =
     andthen (executeQuery (\<lambda>d. map vp_status (select_voter_profile voterId d))) (\<lambda>r.
       case r of
         Inl e \<Rightarrow> println (db_error e)
       | Inr [] \<Rightarrow> println (''You need to apply for a Voter ID first.'' @ nl)
       | Inr (st # _) \<Rightarrow>
           if st \<noteq> APPROVED then println (''Your Voter ID is not approved yet.'' @ nl)
           else
             andthen (executeQuery (select_vote voterId)) (\<lambda>r.
               case r of
                 Inl e \<Rightarrow> println (db_error e)
               | Inr (_ # _) \<Rightarrow> println (''You have already cast your vote!'' @ nl)
               | Inr [] \<Rightarrow>
                   andthen viewApprovedCandidates (\<lambda>_.
                   andthen (prompt ''Enter Candidate ID to vote for: '') (submitChoice voterId))))"

definition result_line :: "nat \<times> string \<times> string \<times> string \<times> nat \<Rightarrow> string" where
  "result_line = (\<lambda>(rank, name, party, constituency, n).
     ''#'' @ show_nat rank @ ''  '' @ pad20 name @ '' | '' @ party @ '' | '' @ constituency
       @ '' | Votes: '' @ show_nat n)"

definition viewResults :: "unit io" where
  "viewResults =
     view_rows (nl @ hbars 4 @ '' LIVE ELECTION RESULTS '' @ hbars 4) select_results
       (\<lambda>rs. map result_line (zip [1..<Suc (length rs)] rs))
       ''No approved candidates yet.''"

section \<open>Forum\<close>

definition postForum :: "int \<Rightarrow> unit io" where
  "postForum userId =
     andthen (prompt ''Your message: '') (\<lambda>content.
       if content = [] then println (''Empty message.'' @ nl)
       else andthen (executeUpdate (insert_forum_post userId content)) (\<lambda>res.
         case res of
           Inr _ \<Rightarrow> println (''Posted!'' @ nl)
         | Inl e \<Rightarrow> println (db_error e)))"

definition viewForum :: "unit io" where
  "viewForum = (\<lambda>w.
     view_rows (nl @ hbars 4 @ '' DISCUSSION FORUM '' @ hbars 4) select_forum
       (map (\<lambda>(name, content, posted_at). ''['' @ ts_text w posted_at @ ''] '' @ name @ '': '' @ content))
       ''No posts yet. Be the first!'' w)"

section \<open>Database setup\<close>

definition create_table :: "string \<Rightarrow> (sql_error + nat) io" where
  "create_table name = statement (\<lambda>w.
     (Inr 0, if name \<in> set (tables w) then w else w\<lparr>tables := tables w @ [name]\<rparr>))"

text \<open>\<open>throws SQLException\<close>: the first failing statement ends the method.\<close>

definition or_throw :: "(sql_error + 'a) io \<Rightarrow> ('a \<Rightarrow> (sql_error + 'b) io) \<Rightarrow> (sql_error + 'b) io" where
  "or_throw m f = andthen m (\<lambda>r. case r of Inl e \<Rightarrow> ret (Inl e) | Inr a \<Rightarrow> f a)"

definition setupDatabase :: "(sql_error + nat) io" where
  "setupDatabase =
     or_throw (create_table ''users'') (\<lambda>_.
     or_throw (create_table ''voter_profiles'') (\<lambda>_.
     or_throw (create_table ''candidate_profiles'') (\<lambda>_.
     or_throw (create_table ''votes'') (\<lambda>_.
     or_throw (create_table ''forum_posts'') (\<lambda>_.
       executeUpdate (\<lambda>_. insert_ignore_user ''admin'' (sha256 ''admin123'')
                            ''System Administrator'' ''ADMIN''))))))"

end
