(* ===== verification/Voting_Menus.thy ===== *)
theory Voting_Menus
  imports Voting_App
begin

text \<open>
  The menus, login and \<open>main\<close>. Every menu is the same loop: print the lines, read a choice, act
  on it, and go round again unless the choice was to leave.
\<close>

definition menu_prompt :: "string list \<Rightarrow> string io" where
  "menu_prompt lines = andthen (println_all lines) (\<lambda>_. prompt ''> '')"

text \<open>
  \<open>while (true)\<close>: the body returns whether to leave the loop. Each round reads a line, so the
  input shrinks; the test of that below never fails for the bodies of this program
  (\<open>menu_loop_unfold\<close>).
\<close>

function menu_loop :: "string list \<Rightarrow> (string \<Rightarrow> bool io) \<Rightarrow> unit io" where
  "menu_loop lines body w =
     (case menu_prompt lines w of
        (Throw e, w1) \<Rightarrow> (Throw e, w1)
      | (Normal choice, w1) \<Rightarrow>
          (case body choice w1 of
             (Throw e, w2) \<Rightarrow> (Throw e, w2)
           | (Normal quit, w2) \<Rightarrow>
               if quit then (Normal (), w2)
               else if length (stdin w2) < length (stdin w) then menu_loop lines body w2
               else (Normal (), w2)))"
  by pat_completeness auto
termination
  by (relation "measure (\<lambda>(ls, b, w). length (stdin w))") auto

declare menu_loop.simps [simp del]

definition stay :: "unit io \<Rightarrow> bool io" where
  "stay m = andthen m (\<lambda>_. ret False)"

definition leave :: "string \<Rightarrow> bool io" where
  "leave s = andthen (println s) (\<lambda>_. ret True)"

section \<open>Role menus\<close>

definition menu_title :: "string \<Rightarrow> string" where
  "menu_title s = hbars 4 @ '' '' @ s @ '' '' @ hbars 4"

definition adminChoice :: "string \<Rightarrow> bool io" where
  "adminChoice c =
     (if c = ''1'' then stay viewPendingVoters
      else if c = ''2'' then stay (approveReject Voter_profiles)
      else if c = ''3'' then stay viewPendingCandidates
      else if c = ''4'' then stay (approveReject Candidate_profiles)
      else if c = ''5'' then stay viewResults
      else if c = ''6'' then leave (''Logged out.'' @ nl)
      else stay (println ''Invalid choice.''))"

definition adminMenu :: "int \<Rightarrow> unit io" where
  "adminMenu adminId =
     menu_loop [menu_title ''ADMIN MENU'', ''1. View Pending Voter Applications'',
                ''2. Approve/Reject Voter Application'', ''3. View Pending Candidate Applications'',
                ''4. Approve/Reject Candidate Application'', ''5. View Live Election Results'',
                ''6. Logout''] adminChoice"

definition officerChoice :: "string \<Rightarrow> bool io" where
  "officerChoice c =
     (if c = ''1'' then stay viewPendingVoters
      else if c = ''2'' then stay (approveReject Voter_profiles)
      else if c = ''3'' then leave (''Logged out.'' @ nl)
      else stay (println ''Invalid choice.''))"

definition officerMenu :: "int \<Rightarrow> unit io" where
  "officerMenu officerId =
     menu_loop [menu_title ''FIELD OFFICER MENU'', ''1. View Pending Voter Applications'',
                ''2. Approve/Reject Voter Application'', ''3. Logout''] officerChoice"

definition voterChoice :: "int \<Rightarrow> string \<Rightarrow> bool io" where
  "voterChoice voterId c =
     (if c = ''1'' then stay (applyVoterID voterId)
      else if c = ''2'' then stay (viewMyVoterStatus voterId)
      else if c = ''3'' then stay viewApprovedCandidates
      else if c = ''4'' then stay (castVote voterId)
      else if c = ''5'' then stay (postForum voterId)
      else if c = ''6'' then stay viewForum
      else if c = ''7'' then leave (''Logged out.'' @ nl)
      else stay (println ''Invalid choice.''))"

definition voterMenu :: "int \<Rightarrow> string \<Rightarrow> unit io" where
  "voterMenu voterId username =
     menu_loop [menu_title ''VOTER MENU'', ''1. Apply for Voter ID'', ''2. View My Application Status'',
                ''3. View Approved Candidates'', ''4. Cast Vote'', ''5. Post on Forum'',
                ''6. View Forum'', ''7. Logout''] (voterChoice voterId)"

definition candidateChoice :: "int \<Rightarrow> string \<Rightarrow> bool io" where
  "candidateChoice candidateId c =
     (if c = ''1'' then stay (applyCandidate candidateId)
      else if c = ''2'' then stay (viewMyCandidateStatus candidateId)
      else if c = ''3'' then stay (postForum candidateId)
      else if c = ''4'' then stay viewForum
      else if c = ''5'' then leave (''Logged out.'' @ nl)
      else stay (println ''Invalid choice.''))"

definition candidateMenu :: "int \<Rightarrow> string \<Rightarrow> unit io" where
  "candidateMenu candidateId username =
     menu_loop [menu_title ''CANDIDATE MENU'', ''1. Apply for Candidacy'',
                ''2. View My Application Status'', ''3. Post on Forum'', ''4. View Forum'',
                ''5. Logout''] (candidateChoice candidateId)"

section \<open>Login and main\<close>

definition dashboard :: "int \<Rightarrow> string \<Rightarrow> string \<Rightarrow> unit io" where
  "dashboard i username role =
     (if role = ''ADMIN'' then adminMenu i
      else if role = ''FIELD_OFFICER'' then officerMenu i
      else if role = ''VOTER'' then voterMenu i username
      else if role = ''CANDIDATE'' then candidateMenu i username
      else println ''Unknown role.'')"

definition login :: "unit io" where
  "login =
     andthen (prompt ''Username: '') (\<lambda>username.
     andthen (prompt ''Password: '') (\<lambda>password.
     andthen (executeQuery (select_login username (sha256 password))) (\<lambda>r.
       case r of
         Inl e \<Rightarrow> println (db_error e)
       | Inr [] \<Rightarrow> println (''Invalid username or password.'' @ nl)
       | Inr ((i, name, role) # _) \<Rightarrow>
           andthen (println (nl @ ''Welcome, '' @ name @ ''! ['' @ role @ '']'' @ nl)) (\<lambda>_.
             dashboard i username role))))"

definition mainChoice :: "string \<Rightarrow> bool io" where
  "mainChoice c =
     (if c = ''1'' then stay login
      else if c = ''2'' then stay register
      else if c = ''3'' then leave ''Goodbye!''
      else stay (println (''Invalid choice.'' @ nl)))"

definition main_loop :: "unit io" where
  "main_loop = menu_loop [''1. Login'', ''2. Register'', ''3. Exit''] mainChoice"

text \<open>Opening a connection; the second one selects the schema, which must exist by then.\<close>

definition getConnection :: "bool \<Rightarrow> (sql_error + nat) io" where
  "getConnection with_schema = statement (\<lambda>w.
     (if with_schema \<and> \<not> schema_exists w
      then Inl (SQL_FAILURE (''Unknown database '' @ quoted ''online_voting'')) else Inr 0, w))"

definition create_database :: "(sql_error + nat) io" where
  "create_database = statement (\<lambda>w. (Inr 0, w\<lparr>schema_exists := True\<rparr>))"

definition dbar :: string where
  "dbar = concat (replicate 38 [CHR 0xE2, CHR 0x95, CHR 0x90])"

definition banner :: "string list" where
  "banner =
     [[CHR 0xE2, CHR 0x95, CHR 0x94] @ dbar @ [CHR 0xE2, CHR 0x95, CHR 0x97],
      [CHR 0xE2, CHR 0x95, CHR 0x91] @ ''   ONLINE NATIONAL POLLING SYSTEM     ''
        @ [CHR 0xE2, CHR 0x95, CHR 0x91],
      [CHR 0xE2, CHR 0x95, CHR 0x9A] @ dbar @ [CHR 0xE2, CHR 0x95, CHR 0x9D]]"

definition connect :: "(sql_error + nat) io" where
  "connect =
     or_throw (getConnection False) (\<lambda>_.
     or_throw create_database (\<lambda>_.
     or_throw (getConnection True) (\<lambda>_. setupDatabase)))"

definition main :: "unit io" where
  "main =
     andthen (println_all banner) (\<lambda>_.
     andthen connect (\<lambda>r.
       case r of
         Inl e \<Rightarrow>
           andthen (println (''[ERROR] Cannot connect to MySQL: '' @ getMessage e)) (\<lambda>_.
             println ''Make sure MySQL is running on port 3306.'')
       | Inr _ \<Rightarrow>
           andthen (println (''[OK] Connected to MySQL.'' @ nl)) (\<lambda>_. main_loop)))"

section \<open>The loops end\<close>

lemma nonexp_menu_prompt [io_nonexp]: "nonexp (menu_prompt lines)"
  by (simp add: menu_prompt_def io_nonexp)

lemma menu_prompt_Normal:
  assumes "menu_prompt lines w = (Normal c, w')"
  shows "length (stdin w') < length (stdin w)"
proof -
  obtain r w1 where p: "println_all lines w = (r, w1)" by (cases "println_all lines w") auto
  then have 1: "length (stdin w1) \<le> length (stdin w)" by (rule nonexpD [OF nonexp_println_all])
  from assms p have "prompt ''> '' w1 = (Normal c, w')"
    by (auto simp: menu_prompt_def andthen_def split: outcome.splits)
  then have "length (stdin w') < length (stdin w1)" by (rule prompt_Normal)
  with 1 show ?thesis by simp
qed

text \<open>The loop is \<open>while (true)\<close> as written, for every body that only consumes input.\<close>

lemma menu_loop_unfold:
  assumes "\<And>c. nonexp (body c)"
  shows "menu_loop lines body =
    andthen (menu_prompt lines) (\<lambda>c. andthen (body c) (\<lambda>quit.
      if quit then ret () else menu_loop lines body))"
proof
  fix w
  show "menu_loop lines body w =
    andthen (menu_prompt lines) (\<lambda>c. andthen (body c) (\<lambda>quit.
      if quit then ret () else menu_loop lines body)) w"
  proof (cases "menu_prompt lines w")
    case (Pair r w1)
    show ?thesis
    proof (cases r)
      case (Throw e)
      with Pair show ?thesis by (simp add: menu_loop.simps [of lines body w] andthen_def)
    next
      case (Normal c)
      with Pair have "menu_prompt lines w = (Normal c, w1)" by simp
      then have 1: "length (stdin w1) < length (stdin w)" by (rule menu_prompt_Normal)
      obtain q w2 where b: "body c w1 = (q, w2)" by (cases "body c w1") auto
      then have "length (stdin w2) \<le> length (stdin w1)" by (rule nonexpD [OF assms])
      with 1 Pair Normal b show ?thesis
        by (cases q) (auto simp: menu_loop.simps [of lines body w] andthen_def ret_def)
    qed
  qed
qed

lemma nonexp_menu_loop [io_nonexp]:
  assumes "\<And>c. nonexp (body c)"
  shows "nonexp (menu_loop lines body)"
proof (rule nonexpI)
  fix w r w'
  assume "menu_loop lines body w = (r, w')"
  then show "length (stdin w') \<le> length (stdin w) \<and> (\<forall>e. r = Throw e \<longrightarrow> stdin w' = [])"
  proof (induction "length (stdin w)" arbitrary: w rule: less_induct)
    case less
    obtain r1 w1 where p: "menu_prompt lines w = (r1, w1)" by (cases "menu_prompt lines w") auto
    then have 1: "length (stdin w1) \<le> length (stdin w)" by (rule nonexpD [OF nonexp_menu_prompt])
    show ?case
    proof (cases r1)
      case (Throw e)
      with p 1 less(2) nonexp_Throw [OF nonexp_menu_prompt, of lines w e w1] show ?thesis
        by (auto simp: menu_loop.simps [of lines body w])
    next
      case (Normal c)
      obtain q w2 where b: "body c w1 = (q, w2)" by (cases "body c w1") auto
      then have 2: "length (stdin w2) \<le> length (stdin w1)" by (rule nonexpD [OF assms])
      from b have "\<And>e. q = Throw e \<Longrightarrow> stdin w2 = []" using nonexp_Throw [OF assms] by blast
      with 1 2 p Normal b less(1) [of w2] less(2) show ?thesis
        by (auto simp: menu_loop.simps [of lines body w] split: outcome.splits if_splits)
    qed
  qed
qed

end
