(* ===== verification/Voting_Sessions.thy ===== *)
theory Voting_Sessions
  imports Voting_Menus
begin

text \<open>
  What a session can do to the database. A relation between database states that is reflexive,
  transitive and kept by other clients is kept by a whole menu as soon as the statements of
  that menu keep it; the locales below list those statements per role. The interpretations give
  the integrity of the data, the permanence of ballots and the confinement of each role.
\<close>

section \<open>Every method only consumes input, and throws at its end only\<close>

lemmas io_splits = sum.split list.split option.split prod.split

lemma nonexp_view_rows [io_nonexp]: "nonexp (view_rows h q f n)"
  unfolding view_rows_def by (intro nonexp_andthen io_nonexp) (auto intro: io_nonexp split: io_splits)

lemma nonexp_views [io_nonexp]:
  "nonexp viewPendingVoters" "nonexp viewPendingCandidates" "nonexp viewApprovedCandidates"
  "nonexp viewResults"
  by (simp_all add: viewPendingVoters_def viewPendingCandidates_def viewApprovedCandidates_def
      viewResults_def nonexp_view_rows)

lemma nonexp_viewForum [io_nonexp]: "nonexp viewForum"
  unfolding viewForum_def nonexp_def using nonexp_view_rows [unfolded nonexp_def] by blast

lemma nonexp_register [io_nonexp]: "nonexp register"
  unfolding register_def Let_def
  by (intro nonexp_andthen io_nonexp) (auto intro!: io_nonexp split: io_splits)

lemma nonexp_applyVoterID [io_nonexp]: "nonexp (applyVoterID u)"
  unfolding applyVoterID_def
  by (intro nonexp_andthen io_nonexp) (auto intro!: io_nonexp split: io_splits)

lemma nonexp_applyCandidate [io_nonexp]: "nonexp (applyCandidate u)"
  unfolding applyCandidate_def
  by (intro nonexp_andthen io_nonexp) (auto intro!: io_nonexp split: io_splits)

lemma nonexp_status [io_nonexp]: "nonexp (viewMyVoterStatus u)" "nonexp (viewMyCandidateStatus u)"
  unfolding viewMyVoterStatus_def viewMyCandidateStatus_def
  by (auto intro!: io_nonexp split: io_splits)

lemma nonexp_approveReject [io_nonexp]: "nonexp (approveReject t)"
  unfolding approveReject_def
  by (intro nonexp_andthen io_nonexp) (auto intro!: io_nonexp split: io_splits)

lemma nonexp_submitChoice [io_nonexp]: "nonexp (submitChoice v s)"
  unfolding submitChoice_def recordBallot_def
  by (auto intro!: io_nonexp split: io_splits)

lemma nonexp_castVote [io_nonexp]: "nonexp (castVote v)"
  unfolding castVote_def
  by (intro nonexp_andthen io_nonexp) (auto intro!: io_nonexp split: io_splits)

lemma nonexp_postForum [io_nonexp]: "nonexp (postForum u)"
  unfolding postForum_def
  by (intro nonexp_andthen io_nonexp) (auto intro!: io_nonexp split: io_splits)

lemma nonexp_choices [io_nonexp]:
  "nonexp (adminChoice c)" "nonexp (officerChoice c)" "nonexp (voterChoice v c)"
  "nonexp (candidateChoice v c)"
  by (simp_all add: adminChoice_def officerChoice_def voterChoice_def candidateChoice_def stay_def
      leave_def io_nonexp)

lemma nonexp_dashboard [io_nonexp]: "nonexp (dashboard i u r)"
  by (simp add: dashboard_def adminMenu_def officerMenu_def voterMenu_def candidateMenu_def io_nonexp)

lemma nonexp_login [io_nonexp]: "nonexp login"
  unfolding login_def
  by (intro nonexp_andthen io_nonexp) (auto intro!: io_nonexp split: io_splits)

lemma nonexp_mainChoice [io_nonexp]: "nonexp (mainChoice c)"
  by (simp add: mainChoice_def stay_def leave_def io_nonexp)

section \<open>Relations along menus\<close>

context session_rel
begin

lemma rel_stay: "io_rel P R m \<Longrightarrow> io_rel P R (stay m)"
  by (simp add: stay_def rel_andthen rel_ret)

lemma rel_leave: "io_rel P R (leave s)"
  by (simp add: leave_def rel_andthen rel_println rel_ret)

lemma rel_view_rows: "io_rel P R (view_rows h q f n)"
  unfolding view_rows_def by (intro rel_andthen) (auto intro: rel_rules split: io_splits)

lemma rel_views:
  "io_rel P R viewPendingVoters" "io_rel P R viewPendingCandidates"
  "io_rel P R viewApprovedCandidates" "io_rel P R viewResults"
  by (simp_all add: viewPendingVoters_def viewPendingCandidates_def viewApprovedCandidates_def
      viewResults_def rel_view_rows)

lemma rel_viewForum: "io_rel P R viewForum"
  unfolding viewForum_def io_rel_def using rel_view_rows [unfolded io_rel_def] by blast

lemma rel_status: "io_rel P R (viewMyVoterStatus u)" "io_rel P R (viewMyCandidateStatus u)"
  unfolding viewMyVoterStatus_def viewMyCandidateStatus_def
  by (intro rel_andthen; auto intro: rel_rules split: io_splits)+

lemma rel_menu_loop:
  assumes "\<And>c. io_rel P R (body c)"
  shows "io_rel P R (menu_loop lines body)"
  unfolding io_rel_def
proof
  fix w :: world
  show "list_all P (events w) \<longrightarrow> R (database w) (database (snd (menu_loop lines body w))) \<and>
      list_all P (events (snd (menu_loop lines body w)))"
  proof (induction "length (stdin w)" arbitrary: w rule: less_induct)
    case less
    show ?case
    proof
      assume w: "list_all P (events w)"
      obtain r w1 where p: "menu_prompt lines w = (r, w1)" by (cases "menu_prompt lines w") auto
      have "io_rel P R (menu_prompt lines)" by (simp add: menu_prompt_def rel_rules)
      with w p have 1: "R (database w) (database w1)" "list_all P (events w1)"
        by (force simp: io_rel_def)+
      show "R (database w) (database (snd (menu_loop lines body w))) \<and>
        list_all P (events (snd (menu_loop lines body w)))"
      proof (cases r)
        case (Throw e)
        with p 1 show ?thesis by (simp add: menu_loop.simps [of lines body w])
      next
        case (Normal c)
        obtain q w2 where b: "body c w1 = (q, w2)" by (cases "body c w1") auto
        with assms [of c] 1(2) have 2: "R (database w1) (database w2)" "list_all P (events w2)"
          by (force simp: io_rel_def)+
        have "R (database w) (database w2)" using rel_trans [OF 1(1) 2(1)] .
        with 2 p Normal b less [of w2] show ?thesis
          by (cases q) (auto simp: menu_loop.simps [of lines body w] intro: rel_trans)
      qed
    qed
  qed
qed

lemma rel_postForum:
  assumes "\<And>c now d. R d (snd (insert_forum_post u c now d))"
  shows "io_rel P R (postForum u)"
  unfolding postForum_def
  by (intro rel_andthen) (auto intro!: rel_rules assms split: io_splits)

lemma rel_approveReject:
  assumes "\<And>st i d. R d (snd (update_status t st i d))"
  shows "io_rel P R (approveReject t)"
  unfolding approveReject_def
  by (intro rel_andthen) (auto intro!: rel_rules assms split: io_splits)

end

section \<open>The roles\<close>

locale officer_session = session_rel +
  assumes rel_voter_status: "R d (snd (update_status Voter_profiles st i d))"
begin

lemma rel_officerMenu: "io_rel P R (officerMenu oid)"
  unfolding officerMenu_def officerChoice_def
  by (rule rel_menu_loop) (simp add: rel_stay rel_leave rel_views rel_rules rel_approveReject rel_voter_status)

end

locale admin_session = officer_session +
  assumes rel_candidate_status: "R d (snd (update_status Candidate_profiles st i d))"
begin

lemma rel_adminMenu: "io_rel P R (adminMenu aid)"
  unfolding adminMenu_def adminChoice_def
  by (rule rel_menu_loop) (simp add: rel_stay rel_leave rel_views rel_rules rel_approveReject
      rel_voter_status rel_candidate_status)

end

locale voter_session = session_rel P R for P R +
  fixes uid :: int
  assumes rel_insert_voter_profile: "R d (snd (insert_voter_profile uid c a d))"
    and rel_insert_vote: "R d (snd (insert_vote uid cand now d))"
    and rel_insert_post: "R d (snd (insert_forum_post uid txt now d))"
begin

lemma rel_applyVoterID: "io_rel P R (applyVoterID uid)"
  unfolding applyVoterID_def
  by (intro rel_andthen) (auto intro!: rel_rules rel_insert_voter_profile split: io_splits)

lemma rel_castVote: "io_rel P R (castVote uid)"
  unfolding castVote_def submitChoice_def recordBallot_def
  by (intro rel_andthen) (auto intro!: rel_rules rel_views rel_insert_vote split: io_splits)

lemma rel_voterMenu: "io_rel P R (voterMenu uid name)"
  unfolding voterMenu_def voterChoice_def
  by (rule rel_menu_loop) (simp add: rel_stay rel_leave rel_views rel_rules rel_applyVoterID
      rel_castVote rel_status rel_viewForum rel_postForum rel_insert_post)

end

locale candidate_session = session_rel P R for P R +
  fixes uid :: int
  assumes rel_insert_candidate_profile: "R d (snd (insert_candidate_profile uid p c m d))"
    and rel_insert_candidate_post: "R d (snd (insert_forum_post uid txt now d))"
begin

lemma rel_applyCandidate: "io_rel P R (applyCandidate uid)"
  unfolding applyCandidate_def
  by (intro rel_andthen) (auto intro!: rel_rules rel_insert_candidate_profile split: io_splits)

lemma rel_candidateMenu: "io_rel P R (candidateMenu uid name)"
  unfolding candidateMenu_def candidateChoice_def
  by (rule rel_menu_loop) (simp add: rel_stay rel_leave rel_rules rel_applyCandidate
      rel_status rel_viewForum rel_postForum rel_insert_candidate_post)

end

text \<open>A relation every writing statement keeps is kept by the whole program.\<close>

locale any_session = session_rel +
  assumes rel_run_dml: "R d (snd (run_dml now x d))"
begin

lemma rel_stmts:
  "R d (snd (insert_user a b c e d))" "R d (snd (insert_voter_profile i a b d))"
  "R d (snd (insert_candidate_profile i a b c d))" "R d (snd (update_status t a i d))"
  "R d (snd (insert_vote i j now d))" "R d (snd (insert_forum_post i a now d))"
  using rel_run_dml [of d undefined "Ins_user a b c e"] rel_run_dml [of d undefined "Ins_voter_profile i a b"]
    rel_run_dml [of d undefined "Ins_candidate_profile i a b c"] rel_run_dml [of d undefined "Upd_status t a i"]
    rel_run_dml [of d now "Ins_vote i j"] rel_run_dml [of d now "Ins_forum_post i a"]
  by simp_all

end

sublocale any_session \<subseteq> adm: admin_session P R
  by unfold_locales (rule rel_stmts)+

sublocale any_session \<subseteq> vot: voter_session P R uid for uid
  by unfold_locales (rule rel_stmts)+

sublocale any_session \<subseteq> can: candidate_session P R uid for uid
  by unfold_locales (rule rel_stmts)+

context any_session
begin

lemma rel_dashboard: "io_rel P R (dashboard i u r)"
  by (simp add: dashboard_def adm.rel_adminMenu adm.rel_officerMenu vot.rel_voterMenu
      can.rel_candidateMenu rel_println)

lemma rel_login: "io_rel P R login"
  unfolding login_def
  by (intro rel_andthen) (auto intro!: rel_rules rel_dashboard split: io_splits)

lemma rel_register: "io_rel P R register"
  unfolding register_def Let_def
  by (intro rel_andthen) (auto intro!: rel_rules rel_stmts split: io_splits)

lemma rel_main_loop: "io_rel P R main_loop"
  unfolding main_loop_def mainChoice_def
  by (rule rel_menu_loop) (simp add: rel_stay rel_leave rel_rules rel_login rel_register)

lemma rel_or_throw:
  "io_rel P R m \<Longrightarrow> (\<And>a. io_rel P R (f a)) \<Longrightarrow> io_rel P R (or_throw m f)"
  unfolding or_throw_def by (intro rel_andthen) (auto intro: rel_ret split: sum.split)

lemma rel_schema_statements:
  "io_rel P R (create_table n)" "io_rel P R (getConnection b)" "io_rel P R create_database"
  unfolding create_table_def getConnection_def create_database_def
  by (rule rel_statement; simp add: rel_refl)+

lemma rel_setupDatabase: "io_rel P R setupDatabase"
  unfolding setupDatabase_def
  by (intro rel_or_throw rel_schema_statements rel_executeUpdate) (simp add: insert_ignore_user_snd rel_stmts)

lemma rel_main: "io_rel P R main"
  unfolding main_def connect_def
  by (intro rel_andthen rel_or_throw)
    (auto intro!: rel_rules rel_main_loop rel_schema_statements rel_setupDatabase split: sum.split)

end

end
