(* ===== verification/Voting_Safety.thy ===== *)
theory Voting_Safety
  imports Voting_Sessions
begin

text \<open>
  The guarantees of the application: one ballot per voter under every interleaving and failure,
  ballots that are never changed or removed, the confinement of each role's menu, and what
  \<open>castVote\<close>, \<open>register\<close>, \<open>login\<close>, \<open>approveReject\<close> and \<open>setupDatabase\<close> do on each branch.
\<close>

section \<open>The relations\<close>

definition keeps_integrity :: "db \<Rightarrow> db \<Rightarrow> bool" where
  "keeps_integrity d d' \<longleftrightarrow> (db_ok d \<longrightarrow> db_ok d')"

definition keeps_ballots :: "db \<Rightarrow> db \<Rightarrow> bool" where
  "keeps_ballots d d' \<longleftrightarrow> (\<exists>vs us. rows (votes d') = rows (votes d) @ vs \<and> rows (users d') = rows (users d) @ us)"

text \<open>Only the status of voter applications changes.\<close>

definition only_voter_status :: "db \<Rightarrow> db \<Rightarrow> bool" where
  "only_voter_status d d' \<longleftrightarrow>
     users d' = users d \<and> candidate_profiles d' = candidate_profiles d \<and> votes d' = votes d \<and>
     forum_posts d' = forum_posts d \<and> auto_inc (voter_profiles d') = auto_inc (voter_profiles d) \<and>
     map (\<lambda>r. r\<lparr>vp_status := PENDING\<rparr>) (rows (voter_profiles d'))
       = map (\<lambda>r. r\<lparr>vp_status := PENDING\<rparr>) (rows (voter_profiles d))"

text \<open>A voter adds a pending application, ballots and posts of their own, and nothing else.\<close>

definition only_own_voter_rows :: "int \<Rightarrow> db \<Rightarrow> db \<Rightarrow> bool" where
  "only_own_voter_rows uid d d' \<longleftrightarrow>
     users d' = users d \<and> candidate_profiles d' = candidate_profiles d \<and>
     (\<exists>ps vs fs.
        rows (voter_profiles d') = rows (voter_profiles d) @ ps \<and>
        (\<forall>p \<in> set ps. vp_user_id p = uid \<and> vp_status p = PENDING) \<and>
        rows (votes d') = rows (votes d) @ vs \<and> (\<forall>v \<in> set vs. v_voter_id v = uid) \<and>
        rows (forum_posts d') = rows (forum_posts d) @ fs \<and> (\<forall>f \<in> set fs. f_user_id f = uid))"

text \<open>A candidate adds a pending candidacy and posts of their own, and nothing else.\<close>

definition only_own_candidate_rows :: "int \<Rightarrow> db \<Rightarrow> db \<Rightarrow> bool" where
  "only_own_candidate_rows uid d d' \<longleftrightarrow>
     users d' = users d \<and> voter_profiles d' = voter_profiles d \<and> votes d' = votes d \<and>
     (\<exists>ps fs.
        rows (candidate_profiles d') = rows (candidate_profiles d) @ ps \<and>
        (\<forall>p \<in> set ps. cp_user_id p = uid \<and> cp_status p = PENDING) \<and>
        rows (forum_posts d') = rows (forum_posts d) @ fs \<and> (\<forall>f \<in> set fs. f_user_id f = uid))"

definition undisturbed :: "jdbc_event \<Rightarrow> bool" where
  "undisturbed e \<longleftrightarrow> ev_others e = []"

section \<open>Statements keep them\<close>

lemma run_others_induct:
  assumes "\<And>d. R d d" "\<And>a b c. R a b \<Longrightarrow> R b c \<Longrightarrow> R a c" "\<And>now x d. R d (snd (run_dml now x d))"
  shows "R d (run_others now xs d)"
  using assms by (induction xs arbitrary: d) (auto simp: run_others_def, blast)

lemma run_others_Nil [simp]: "run_others now [] d = d"
  by (simp add: run_others_def)

lemma keeps_integrity_dml: "keeps_integrity d (snd (run_dml now x d))"
  by (simp add: keeps_integrity_def run_dml_db_ok)

lemma tbl_insert_rows_eq:
  "\<exists>rs. rows (snd (tbl_insert mk check t)) = rows t @ rs \<and> (\<forall>r \<in> set rs. \<exists>i. r = mk i)"
  by (rule tbl_insert_cases [of mk check t]) auto

lemma keeps_ballots_dml: "keeps_ballots d (snd (run_dml now x d))"
proof -
  have u: "keeps_ballots d (snd (insert_user a b c e d))" for a b c e
    by (rule insert_user_cases [of a b c e d])
      (use tbl_insert_rows_prefix in \<open>auto simp: keeps_ballots_def\<close>)
  have p: "keeps_ballots d (snd (insert_voter_profile i a b d))" for i a b
    by (rule insert_voter_profile_cases [of i a b d]) (auto simp: keeps_ballots_def)
  have c: "keeps_ballots d (snd (insert_candidate_profile i a b c d))" for i a b c
    by (rule insert_candidate_profile_cases [of i a b c d]) (auto simp: keeps_ballots_def)
  have f: "keeps_ballots d (snd (insert_forum_post i a now d))" for i a
    by (rule insert_forum_post_cases [of i a now d]) (auto simp: keeps_ballots_def)
  have s: "keeps_ballots d (snd (update_status t a i d))" for t a i
    by (cases t) (auto simp: keeps_ballots_def update_status_def split: option.split)
  have v: "keeps_ballots d (snd (insert_vote i j now d))" for i j
    using tbl_insert_rows_prefix by (auto simp: keeps_ballots_def insert_vote_eq)
  show ?thesis by (cases x) (simp_all add: u p c f s v)
qed

lemma only_voter_status_update: "only_voter_status d (snd (update_status Voter_profiles st i d))"
  by (auto simp: only_voter_status_def update_status_def split: option.split)

lemma only_own_voter_rows_profile: "only_own_voter_rows uid d (snd (insert_voter_profile uid c a d))"
proof (rule insert_voter_profile_cases [of uid c a d])
  assume "snd (insert_voter_profile uid c a d) = d"
  then show ?thesis by (simp add: only_own_voter_rows_def)
next
  let ?mk = "mk_voter_profile (uid, c, a, PENDING)"
  let ?ch = "check_all [unique_check vp_user_id (show_int \<circ> vp_user_id) ''user_id''
                (rows (voter_profiles d)), fk_check ''voter_profiles'' vp_user_id (rows (users d))]"
  assume eq: "snd (insert_voter_profile uid c a d)
    = d\<lparr>voter_profiles := snd (tbl_insert ?mk ?ch (voter_profiles d))\<rparr>"
  from tbl_insert_rows_eq [of ?mk ?ch "voter_profiles d"] obtain rs where
    "rows (snd (tbl_insert ?mk ?ch (voter_profiles d))) = rows (voter_profiles d) @ rs"
    "\<forall>r \<in> set rs. \<exists>i. r = ?mk i" by blast
  then show ?thesis unfolding eq only_own_voter_rows_def
    by (auto simp: mk_voter_profile_def intro!: exI [of _ rs])
qed

lemma only_own_voter_rows_vote: "only_own_voter_rows uid d (snd (insert_vote uid cand now d))"
proof -
  let ?mk = "mk_vote (uid, cand, now)"
  let ?ch = "check_all [unique_check v_voter_id (show_int \<circ> v_voter_id) ''voter_id'' (rows (votes d)),
                fk_check ''votes.voter_id'' v_voter_id (rows (users d)),
                fk_check ''votes.candidate_id'' v_candidate_id (rows (users d))]"
  from tbl_insert_rows_eq [of ?mk ?ch "votes d"] obtain rs where
    "rows (snd (tbl_insert ?mk ?ch (votes d))) = rows (votes d) @ rs"
    "\<forall>r \<in> set rs. \<exists>i. r = ?mk i" by blast
  then show ?thesis unfolding insert_vote_eq only_own_voter_rows_def
    by (auto simp: mk_vote_def intro!: exI [of _ rs])
qed

lemma forum_post_rows:
  "\<exists>fs t. snd (insert_forum_post uid msg now d) = d\<lparr>forum_posts := t\<rparr> \<and>
     rows t = rows (forum_posts d) @ fs \<and> (\<forall>f \<in> set fs. f_user_id f = uid)"
proof (rule insert_forum_post_cases [of uid msg now d])
  assume "snd (insert_forum_post uid msg now d) = d"
  then show ?thesis by (intro exI [of _ "[]"] exI [of _ "forum_posts d"]) simp
next
  let ?mk = "mk_forum_post (uid, msg, now)"
  let ?ch = "check_all [fk_check ''forum_posts'' f_user_id (rows (users d))]"
  assume eq: "snd (insert_forum_post uid msg now d)
    = d\<lparr>forum_posts := snd (tbl_insert ?mk ?ch (forum_posts d))\<rparr>"
  from tbl_insert_rows_eq [of ?mk ?ch "forum_posts d"] obtain rs where
    "rows (snd (tbl_insert ?mk ?ch (forum_posts d))) = rows (forum_posts d) @ rs"
    "\<forall>r \<in> set rs. \<exists>i. r = ?mk i" by blast
  then show ?thesis unfolding eq
    by (intro exI [of _ rs] exI [of _ "snd (tbl_insert ?mk ?ch (forum_posts d))"])
      (auto simp: mk_forum_post_def)
qed

lemma only_own_voter_rows_post: "only_own_voter_rows uid d (snd (insert_forum_post uid msg now d))"
  using forum_post_rows [of uid msg now d] by (force simp: only_own_voter_rows_def)

lemma only_own_candidate_rows_post:
  "only_own_candidate_rows uid d (snd (insert_forum_post uid msg now d))"
  using forum_post_rows [of uid msg now d] by (force simp: only_own_candidate_rows_def)

lemma only_own_candidate_rows_profile:
  "only_own_candidate_rows uid d (snd (insert_candidate_profile uid p c m d))"
proof (rule insert_candidate_profile_cases [of uid p c m d])
  assume "snd (insert_candidate_profile uid p c m d) = d"
  then show ?thesis by (simp add: only_own_candidate_rows_def)
next
  let ?mk = "mk_candidate_profile (uid, p, c, m, PENDING)"
  let ?ch = "check_all [unique_check cp_user_id (show_int \<circ> cp_user_id) ''user_id''
                (rows (candidate_profiles d)),
                fk_check ''candidate_profiles'' cp_user_id (rows (users d))]"
  assume eq: "snd (insert_candidate_profile uid p c m d)
    = d\<lparr>candidate_profiles := snd (tbl_insert ?mk ?ch (candidate_profiles d))\<rparr>"
  from tbl_insert_rows_eq [of ?mk ?ch "candidate_profiles d"] obtain rs where
    "rows (snd (tbl_insert ?mk ?ch (candidate_profiles d))) = rows (candidate_profiles d) @ rs"
    "\<forall>r \<in> set rs. \<exists>i. r = ?mk i" by blast
  then show ?thesis unfolding eq only_own_candidate_rows_def
    by (auto simp: mk_candidate_profile_def intro!: exI [of _ rs])
qed

section \<open>Interpretations\<close>

lemma keeps_ballots_trans: "keeps_ballots a b \<Longrightarrow> keeps_ballots b c \<Longrightarrow> keeps_ballots a c"
  unfolding keeps_ballots_def by (metis append_assoc)

interpretation integrity: any_session "\<lambda>_. True" keeps_integrity
proof unfold_locales
  fix d now and e :: jdbc_event
  show "keeps_integrity d (run_others now (ev_others e) d)"
    by (rule run_others_induct [of keeps_integrity]) (auto simp: keeps_integrity_def run_dml_db_ok)
qed (auto simp: keeps_integrity_def run_dml_db_ok)

interpretation ballots: any_session "\<lambda>_. True" keeps_ballots
proof unfold_locales
  fix d now and e :: jdbc_event
  show "keeps_ballots d (run_others now (ev_others e) d)"
    by (rule run_others_induct [of keeps_ballots])
      (auto simp: keeps_ballots_dml intro: keeps_ballots_trans, simp add: keeps_ballots_def)
qed (auto simp: keeps_ballots_dml intro: keeps_ballots_trans, simp add: keeps_ballots_def)

interpretation officer: officer_session undisturbed only_voter_status
  by unfold_locales
    (auto simp: undisturbed_def only_voter_status_update, auto simp: only_voter_status_def)

lemma only_own_voter_rows_trans:
  assumes "only_own_voter_rows u a b" "only_own_voter_rows u b c"
  shows "only_own_voter_rows u a c"
proof -
  from assms(1) obtain ps vs fs where 1:
    "rows (voter_profiles b) = rows (voter_profiles a) @ ps" "\<forall>p \<in> set ps. vp_user_id p = u \<and> vp_status p = PENDING"
    "rows (votes b) = rows (votes a) @ vs" "\<forall>v \<in> set vs. v_voter_id v = u"
    "rows (forum_posts b) = rows (forum_posts a) @ fs" "\<forall>f \<in> set fs. f_user_id f = u"
    "users b = users a" "candidate_profiles b = candidate_profiles a"
    by (auto simp: only_own_voter_rows_def)
  from assms(2) obtain ps' vs' fs' where 2:
    "rows (voter_profiles c) = rows (voter_profiles b) @ ps'" "\<forall>p \<in> set ps'. vp_user_id p = u \<and> vp_status p = PENDING"
    "rows (votes c) = rows (votes b) @ vs'" "\<forall>v \<in> set vs'. v_voter_id v = u"
    "rows (forum_posts c) = rows (forum_posts b) @ fs'" "\<forall>f \<in> set fs'. f_user_id f = u"
    "users c = users b" "candidate_profiles c = candidate_profiles b"
    by (auto simp: only_own_voter_rows_def)
  show ?thesis unfolding only_own_voter_rows_def
    by (rule conjI, simp add: 1 2, rule conjI, simp add: 1 2,
        rule exI [of _ "ps @ ps'"], rule exI [of _ "vs @ vs'"], rule exI [of _ "fs @ fs'"])
      (use 1 2 in auto)
qed

lemma only_own_candidate_rows_trans:
  assumes "only_own_candidate_rows u a b" "only_own_candidate_rows u b c"
  shows "only_own_candidate_rows u a c"
proof -
  from assms(1) obtain ps fs where 1:
    "rows (candidate_profiles b) = rows (candidate_profiles a) @ ps"
    "\<forall>p \<in> set ps. cp_user_id p = u \<and> cp_status p = PENDING"
    "rows (forum_posts b) = rows (forum_posts a) @ fs" "\<forall>f \<in> set fs. f_user_id f = u"
    "users b = users a" "voter_profiles b = voter_profiles a" "votes b = votes a"
    by (auto simp: only_own_candidate_rows_def)
  from assms(2) obtain ps' fs' where 2:
    "rows (candidate_profiles c) = rows (candidate_profiles b) @ ps'"
    "\<forall>p \<in> set ps'. cp_user_id p = u \<and> cp_status p = PENDING"
    "rows (forum_posts c) = rows (forum_posts b) @ fs'" "\<forall>f \<in> set fs'. f_user_id f = u"
    "users c = users b" "voter_profiles c = voter_profiles b" "votes c = votes b"
    by (auto simp: only_own_candidate_rows_def)
  show ?thesis unfolding only_own_candidate_rows_def
    by (rule conjI, simp add: 1 2, rule conjI, simp add: 1 2, rule conjI, simp add: 1 2,
        rule exI [of _ "ps @ ps'"], rule exI [of _ "fs @ fs'"]) (use 1 2 in auto)
qed

interpretation voter: voter_session undisturbed "only_own_voter_rows uid" uid for uid
  by unfold_locales
    (auto simp: undisturbed_def only_own_voter_rows_profile only_own_voter_rows_vote
      only_own_voter_rows_post intro: only_own_voter_rows_trans, simp_all add: only_own_voter_rows_def)

interpretation candidate: candidate_session undisturbed "only_own_candidate_rows uid" uid for uid
  by unfold_locales
    (auto simp: undisturbed_def only_own_candidate_rows_profile only_own_candidate_rows_post
      intro: only_own_candidate_rows_trans, simp_all add: only_own_candidate_rows_def)

end
