(* ===== verification/Voting_Properties.thy ===== *)
theory Voting_Properties
  imports Voting_Safety
begin

text \<open>
  The guarantees of the application, stated over its definitions, each with a concrete instance
  where it has hypotheses. The example election below has a voter, a candidate and an officer.
\<close>

section \<open>Undisturbed execution\<close>

lemmas io_cases = prod.case outcome.case sum.case list.case option.case if_True if_False simp_thms

lemma print_run [simp]: "print s w = (Normal (), w\<lparr>stdout := stdout w @ [s]\<rparr>)"
  by (simp add: print_def)

lemma println_run [simp]: "println s w = (Normal (), w\<lparr>stdout := stdout w @ [s @ nl]\<rparr>)"
  by (simp add: println_def)

lemma println_all_run [simp]:
  "println_all ls w = (Normal (), w\<lparr>stdout := stdout w @ map (\<lambda>l. l @ nl) ls\<rparr>)"
  by (induction ls arbitrary: w) (auto simp: ret_def andthen_def)

lemma prompt_run: "stdin w = l # ls \<Longrightarrow>
   prompt s w = (Normal (trim l), w\<lparr>stdin := ls, stdout := stdout w @ [s]\<rparr>)"
  by (simp add: prompt_def andthen_def nextLine_def ret_def)

lemma executeQuery_run: "events w = [] \<Longrightarrow> executeQuery q w = (Normal (Inr (q (database w))), w)"
  by (simp add: executeQuery_def statement_def)

lemma executeUpdate_run: "events w = [] \<Longrightarrow>
   executeUpdate st w = (Normal (fst (st (clock w) (database w))),
     w\<lparr>database := snd (st (clock w) (database w))\<rparr>)"
  by (simp add: executeUpdate_def statement_def split_beta)

lemmas quiet_run = andthen_def ret_def prompt_run executeQuery_run executeUpdate_run

lemma println_after_prompt:
  "println s (w\<lparr>stdout := stdout w @ a, stdin := ls, stdout := stdout (w\<lparr>stdout := stdout w @ a\<rparr>) @ b,
      database := d\<rparr>) =
   (Normal (), w\<lparr>stdin := ls, stdout := stdout w @ (a @ b) @ [s @ nl], database := d\<rparr>)"
  by simp

lemma view_rows_quiet:
  assumes "events w = []"
  shows "\<exists>out. view_rows h q f n w = (Normal (), w\<lparr>stdout := stdout w @ out\<rparr>)"
  using assms by (auto simp: view_rows_def quiet_run split: list.split)

section \<open>The example election\<close>

definition ex_db :: db where
  "ex_db = \<lparr>
     users = \<lparr>rows =
       [\<lparr>u_id = 1, u_username = ''admin'', u_password_hash = sha256 ''admin123'',
         u_name = ''System Administrator'', u_role = ADMIN\<rparr>,
        \<lparr>u_id = 2, u_username = ''vera'', u_password_hash = sha256 ''pw'', u_name = ''Vera'', u_role = VOTER\<rparr>,
        \<lparr>u_id = 3, u_username = ''carl'', u_password_hash = sha256 ''pc'', u_name = ''Carl'', u_role = CANDIDATE\<rparr>],
       auto_inc = 4\<rparr>,
     voter_profiles = \<lparr>rows =
       [\<lparr>vp_id = 1, vp_user_id = 2, vp_constituency = ''North'', vp_address = ''Elm 1'', vp_status = APPROVED\<rparr>],
       auto_inc = 2\<rparr>,
     candidate_profiles = \<lparr>rows =
       [\<lparr>cp_id = 1, cp_user_id = 3, cp_party = ''P'', cp_constituency = ''North'', cp_manifesto = ''M'',
         cp_status = APPROVED\<rparr>], auto_inc = 2\<rparr>,
     votes = empty_tbl, forum_posts = empty_tbl\<rparr>"

definition ex_world :: "string list \<Rightarrow> world" where
  "ex_world inp = \<lparr>stdin = inp, stdout = [], schema_exists = True, tables = all_tables,
     database = ex_db, events = [], clock = 100, ts_text = show_nat\<rparr>"

lemma ex_db_ok: "db_ok ex_db"
proof -
  have "coll_key ''admin'' \<noteq> coll_key ''vera''" "coll_key ''admin'' \<noteq> coll_key ''carl''"
    "coll_key ''vera'' \<noteq> coll_key ''carl''"
    by (simp_all add: coll_key_def coll_weight_ascii)
  then show ?thesis
    by (simp add: db_ok_def ex_db_def tbl_ok_def fk_ok_def INT_MAX_def user_key_def empty_tbl_def)
qed

section \<open>One person, one vote\<close>

text \<open>
  C1. From a well-formed database, however the session goes (whatever is typed, whatever
  other clients do between its statements and whichever statements fail), the database is
  well-formed afterwards and holds at most one ballot of every voter.
\<close>

theorem main_one_person_one_vote:
  assumes "db_ok (database w)"
  shows "db_ok (database (snd (main w))) \<and>
    (\<forall>voter. length (filter (\<lambda>b. v_voter_id b = voter) (rows (votes (database (snd (main w)))))) \<le> 1)"
proof -
  have "keeps_integrity (database w) (database (snd (main w)))"
    using integrity.rel_main by (simp add: io_rel_def list_all_iff)
  with assms have ok: "db_ok (database (snd (main w)))" by (simp add: keeps_integrity_def)
  then have "distinct (map v_voter_id (rows (votes (database (snd (main w))))))"
    by (simp add: db_ok_def)
  with ok show ?thesis by (intro conjI allI filter_unique_length)
qed

theorem main_one_person_one_vote_witness:
  "db_ok (database (ex_world [''1'', ''vera'', ''pw'', ''4'', ''1'', ''4'', ''7'', ''3''])) \<and>
   (\<forall>voter. length (filter (\<lambda>b. v_voter_id b = voter)
      (rows (votes (database (snd (main (ex_world [''1'', ''vera'', ''pw'', ''4'', ''1'', ''4'', ''7'', ''3''])))))))
      \<le> 1)"
  using main_one_person_one_vote [of "ex_world [''1'', ''vera'', ''pw'', ''4'', ''1'', ''4'', ''7'', ''3'']"]
  by (simp add: ex_world_def ex_db_ok)

text \<open>
  C2. No run of the program, under any interference, changes or removes a ballot or an account:
  the old rows stay, in order, and new ones come after them.
\<close>

theorem main_ballots_append_only:
  "\<exists>vs us. rows (votes (database (snd (main w)))) = rows (votes (database w)) @ vs \<and>
     rows (users (database (snd (main w)))) = rows (users (database w)) @ us"
proof -
  have "keeps_ballots (database w) (database (snd (main w)))"
    using ballots.rel_main by (simp add: io_rel_def list_all_iff)
  then show ?thesis by (simp add: keeps_ballots_def)
qed

text \<open>
  The database itself refuses a second ballot, also one that slipped past the check in
  \<open>castVote\<close>: the statement fails with the duplicate-key error and the ballots stay as they are.
\<close>

theorem second_ballot_refused:
  assumes "b \<in> set (rows (votes d))" "v_voter_id b = voter" "auto_inc (votes d) \<le> INT_MAX"
  shows "\<exists>d'. insert_vote voter cand now d = (Inl (ER_DUP_ENTRY (show_int voter) ''voter_id''), d') \<and>
    rows (votes d') = rows (votes d) \<and> users d' = users d"
proof -
  have "voter \<in> v_voter_id ` set (rows (votes d))" using assms(1,2) by auto
  with assms(3) show ?thesis
    by (simp add: insert_vote_def tbl_insert_def check_all.simps unique_check_def mk_vote_def Let_def)
qed

definition ex_ballot :: votes_row where
  "ex_ballot = \<lparr>v_id = 1, v_voter_id = 2, v_candidate_id = 3, v_voted_at = 90\<rparr>"

definition ex_voted :: db where
  "ex_voted = ex_db\<lparr>votes := \<lparr>rows = [ex_ballot], auto_inc = 2\<rparr>\<rparr>"

theorem second_ballot_refused_witness:
  "\<exists>d'. insert_vote 2 3 100 ex_voted = (Inl (ER_DUP_ENTRY (show_int 2) ''voter_id''), d') \<and>
    rows (votes d') = rows (votes ex_voted) \<and> users d' = users ex_voted"
  by (rule second_ballot_refused [of ex_ballot])
    (simp_all add: ex_voted_def ex_ballot_def INT_MAX_def)

section \<open>Casting a vote\<close>

lemma select_voter_profile_eq:
  assumes "db_ok d" "vp \<in> set (rows (voter_profiles d))"
  shows "select_voter_profile (vp_user_id vp) d = [vp]"
  unfolding select_voter_profile_def
  using assms by (intro distinct_map_filter_eq) (auto simp: db_ok_def)

lemma select_candidate_user_eq:
  assumes "db_ok d" "cp \<in> set (rows (candidate_profiles d))" "cp_status cp = APPROVED"
  shows "select_candidate_user (cp_id cp) d = [cp_user_id cp]"
proof -
  have "filter (\<lambda>r. cp_id r = cp_id cp) (rows (candidate_profiles d)) = [cp]"
    using assms by (intro distinct_map_filter_eq) (auto simp: db_ok_def tbl_ok_def)
  then have "filter (\<lambda>r. cp_id r = cp_id cp \<and> cp_status r = APPROVED) (rows (candidate_profiles d)) = [cp]"
    using assms(3) by (simp add: filter_filter [symmetric])
  then show ?thesis by (simp add: select_candidate_user_def concat_map_if_filter)
qed

lemma select_vote_Nil: "select_vote v d = [] \<longleftrightarrow> v \<notin> set (map v_voter_id (rows (votes d)))"
  by (auto simp: select_vote_def)

lemma insert_vote_accepted:
  assumes "v \<notin> set (map v_voter_id (rows (votes d)))" "v \<in> set (map u_id (rows (users d)))"
    "c \<in> set (map u_id (rows (users d)))" "auto_inc (votes d) \<le> INT_MAX"
  shows "insert_vote v c now d = (Inr 1, d\<lparr>votes := \<lparr>rows = rows (votes d) @ [mk_vote (v, c, now) (auto_inc (votes d))],
    auto_inc = auto_inc (votes d) + 1\<rparr>\<rparr>)"
  using assms
  by (simp add: insert_vote_def tbl_insert_def check_all.simps unique_check_def fk_check_def
      Let_def mk_vote_def)

text \<open>
  C3. A voter with an approved application and no ballot yet, who picks an approved candidacy by
  the number shown in the list, gets exactly one ballot for that candidate, stamped with the
  current time, and the success message; nothing else in the database changes.
\<close>

theorem castVote_accepted:
  assumes ok: "db_ok (database w)" and quiet: "events w = []"
    and voter: "vp \<in> set (rows (voter_profiles (database w)))" "vp_user_id vp = voter" "vp_status vp = APPROVED"
    and fresh: "voter \<notin> set (map v_voter_id (rows (votes (database w))))"
    and cand: "cp \<in> set (rows (candidate_profiles (database w)))" "cp_status cp = APPROVED"
    and inp: "stdin w = l # ls" "parseInt (trim l) = Some (cp_id cp)"
    and room: "auto_inc (votes (database w)) \<le> INT_MAX"
  shows "\<exists>out. castVote voter w = (Normal (), w\<lparr>stdin := ls,
      stdout := stdout w @ out @ [(''Vote cast successfully! Thank you.'' @ nl) @ nl],
      database := (database w)\<lparr>votes := \<lparr>rows = rows (votes (database w)) @
        [\<lparr>v_id = auto_inc (votes (database w)), v_voter_id = voter, v_candidate_id = cp_user_id cp,
          v_voted_at = clock w\<rparr>], auto_inc = auto_inc (votes (database w)) + 1\<rparr>\<rparr>\<rparr>)"
proof -
  let ?d = "database w"
  have st: "map vp_status (select_voter_profile voter ?d) = [APPROVED]"
    using select_voter_profile_eq [OF ok voter(1)] voter(2,3) by simp
  have nv: "select_vote voter ?d = []" using fresh by (simp add: select_vote_Nil)
  have cu: "select_candidate_user (cp_id cp) ?d = [cp_user_id cp]"
    using ok cand by (rule select_candidate_user_eq)
  have fk: "voter \<in> set (map u_id (rows (users ?d)))" "cp_user_id cp \<in> set (map u_id (rows (users ?d)))"
    using ok voter cand by (auto simp: db_ok_def fk_ok_def)
  obtain out where va: "viewApprovedCandidates w = (Normal (), w\<lparr>stdout := stdout w @ out\<rparr>)"
    using view_rows_quiet [OF quiet] by (metis viewApprovedCandidates_def)
  let ?w1 = "w\<lparr>stdout := stdout w @ out\<rparr>"
  let ?w2 = "?w1\<lparr>stdin := ls, stdout := stdout ?w1 @ [''Enter Candidate ID to vote for: '']\<rparr>"
  let ?w3 = "?w2\<lparr>database := snd (insert_vote voter (cp_user_id cp) (clock w) ?d)\<rparr>"
  have 1: "executeQuery (\<lambda>d. map vp_status (select_voter_profile voter d)) w = (Normal (Inr [APPROVED]), w)"
    by (simp add: executeQuery_run quiet st)
  have 2: "executeQuery (select_vote voter) w = (Normal (Inr []), w)"
    by (simp add: executeQuery_run quiet nv)
  have 3: "prompt ''Enter Candidate ID to vote for: '' ?w1 = (Normal (trim l), ?w2)"
    by (rule prompt_run) (simp add: inp)
  have 4: "executeQuery (select_candidate_user (cp_id cp)) ?w2 = (Normal (Inr [cp_user_id cp]), ?w2)"
    by (simp add: executeQuery_run quiet cu)
  have 5: "executeUpdate (insert_vote voter (cp_user_id cp)) ?w2 = (Normal (Inr 1), ?w3)"
    by (simp add: executeUpdate_run quiet insert_vote_accepted [OF fresh fk room])
  have "castVote voter w = println (''Vote cast successfully! Thank you.'' @ nl) ?w3"
    by (simp only: castVote_def submitChoice_def recordBallot_def andthen_def 1 2 va 3 inp(2) 4 5 io_cases)
  then have "castVote voter w = (Normal (), w\<lparr>stdin := ls,
      stdout := stdout w @ (out @ [''Enter Candidate ID to vote for: '']) @
        [(''Vote cast successfully! Thank you.'' @ nl) @ nl],
      database := snd (insert_vote voter (cp_user_id cp) (clock w) ?d)\<rparr>)"
    by (simp only: println_after_prompt)
  moreover have "snd (insert_vote voter (cp_user_id cp) (clock w) ?d) = ?d\<lparr>votes := \<lparr>rows = rows (votes ?d) @
        [\<lparr>v_id = auto_inc (votes ?d), v_voter_id = voter, v_candidate_id = cp_user_id cp,
          v_voted_at = clock w\<rparr>], auto_inc = auto_inc (votes ?d) + 1\<rparr>\<rparr>"
    by (simp add: insert_vote_accepted [OF fresh fk room] mk_vote_def)
  ultimately have "castVote voter w = (Normal (), w\<lparr>stdin := ls,
      stdout := stdout w @ (out @ [''Enter Candidate ID to vote for: '']) @
        [(''Vote cast successfully! Thank you.'' @ nl) @ nl],
      database := ?d\<lparr>votes := \<lparr>rows = rows (votes ?d) @
        [\<lparr>v_id = auto_inc (votes ?d), v_voter_id = voter, v_candidate_id = cp_user_id cp,
          v_voted_at = clock w\<rparr>], auto_inc = auto_inc (votes ?d) + 1\<rparr>\<rparr>\<rparr>)"
    by (simp only:)
  then show ?thesis
    by (intro exI [where x = "out @ [''Enter Candidate ID to vote for: '']"])
qed

theorem castVote_accepted_witness:
  "\<exists>out. castVote 2 (ex_world [''1'']) = (Normal (), (ex_world [''1''])\<lparr>stdin := [],
      stdout := stdout (ex_world [''1'']) @ out @ [(''Vote cast successfully! Thank you.'' @ nl) @ nl],
      database := (database (ex_world [''1'']))\<lparr>votes := \<lparr>rows = rows (votes (database (ex_world [''1'']))) @
        [\<lparr>v_id = auto_inc (votes (database (ex_world [''1'']))), v_voter_id = 2,
          v_candidate_id = cp_user_id (hd (rows (candidate_profiles ex_db))),
          v_voted_at = clock (ex_world [''1''])\<rparr>],
        auto_inc = auto_inc (votes (database (ex_world [''1'']))) + 1\<rparr>\<rparr>\<rparr>)"
  by (rule castVote_accepted [where vp = "hd (rows (voter_profiles ex_db))" and l = "''1''"])
    (simp_all add: ex_world_def ex_db_ok, simp_all add: ex_db_def empty_tbl_def INT_MAX_def parseInt_def
      trim_def is_trim_char_def is_digit_def Let_def INT_MIN_def)

section \<open>What a ballot presupposes\<close>

text \<open>
  The server between two statements of the program: what it runs for other clients, and whether
  it then fails to run the statement. \<open>seen k w\<close> is the database the \<open>k\<close>-th statement from the
  world \<open>w\<close> on finds, counted from 1, as long as the program itself has written nothing.
\<close>

definition server_step :: "world \<Rightarrow> world" where
  "server_step w = (case events w of [] \<Rightarrow> w | e # _ \<Rightarrow> take_event e w)"

definition statement_fault :: "world \<Rightarrow> sql_error option" where
  "statement_fault w = (case events w of [] \<Rightarrow> None | e # _ \<Rightarrow> ev_fault e)"

primrec server :: "nat \<Rightarrow> world \<Rightarrow> world" where
  "server 0 w = w"
| "server (Suc k) w = server k (server_step w)"

abbreviation seen :: "nat \<Rightarrow> world \<Rightarrow> db" where
  "seen k w \<equiv> database (server k w)"

lemma server_step_console [simp]:
  "server_step (w\<lparr>stdout := s\<rparr>) = (server_step w)\<lparr>stdout := s\<rparr>"
  "server_step (w\<lparr>stdin := i\<rparr>) = (server_step w)\<lparr>stdin := i\<rparr>"
  "stdin (server_step w) = stdin w" "stdout (server_step w) = stdout w"
  by (simp_all add: server_step_def take_event_def split: list.split)

lemma statement_fault_console [simp]:
  "statement_fault (w\<lparr>stdout := s\<rparr>) = statement_fault w"
  "statement_fault (w\<lparr>stdin := i\<rparr>) = statement_fault w"
  by (simp_all add: statement_fault_def)

lemma server_console [simp]:
  "server k (w\<lparr>stdout := s\<rparr>) = (server k w)\<lparr>stdout := s\<rparr>"
  "server k (w\<lparr>stdin := i\<rparr>) = (server k w)\<lparr>stdin := i\<rparr>"
  by (induction k arbitrary: w) simp_all

lemma executeQuery_seen: "executeQuery q w =
   (Normal (case statement_fault w of Some e \<Rightarrow> Inl e | None \<Rightarrow> Inr (q (database (server_step w)))),
    server_step w)"
  by (simp add: executeQuery_def statement_def server_step_def statement_fault_def Let_def
      split: list.split option.split)

lemma executeUpdate_seen: "executeUpdate st w =
   (case statement_fault w of
      Some e \<Rightarrow> (Normal (Inl e), server_step w)
    | None \<Rightarrow> (Normal (fst (st (clock (server_step w)) (database (server_step w)))),
        (server_step w)\<lparr>database := snd (st (clock (server_step w)) (database (server_step w)))\<rparr>))"
  by (simp add: executeUpdate_def statement_def server_step_def statement_fault_def Let_def split_beta
      split: list.split option.split)

lemma view_rows_seen: "\<exists>out. view_rows h q f n w = (Normal (), (server_step w)\<lparr>stdout := stdout w @ out\<rparr>)"
  by (auto simp: view_rows_def andthen_def executeQuery_seen split: list.split option.split)

text \<open>What the run tells the voter, what it may write, and what it has checked before.\<close>

abbreviation vote_cast_line :: string where
  "vote_cast_line \<equiv> (''Vote cast successfully! Thank you.'' @ nl) @ nl"

definition ballot_recorded :: "int \<Rightarrow> int \<Rightarrow> nat \<Rightarrow> db \<Rightarrow> db \<Rightarrow> bool" where
  "ballot_recorded voter cand now d d' \<longleftrightarrow>
     voter \<notin> v_voter_id ` set (rows (votes d)) \<and>
     d' = d\<lparr>votes := \<lparr>rows = rows (votes d) @
        [\<lparr>v_id = auto_inc (votes d), v_voter_id = voter, v_candidate_id = cand, v_voted_at = now\<rparr>],
        auto_inc = auto_inc (votes d) + 1\<rparr>\<rparr>"

definition no_row_changed :: "db \<Rightarrow> db \<Rightarrow> bool" where
  "no_row_changed d d' \<longleftrightarrow> (\<exists>n. d' = d\<lparr>votes := (votes d)\<lparr>auto_inc := n\<rparr>\<rparr>)"

definition approved_voter :: "int \<Rightarrow> db \<Rightarrow> bool" where
  "approved_voter voter d \<longleftrightarrow>
     (\<exists>vp \<in> set (rows (voter_profiles d)). vp_user_id vp = voter \<and> vp_status vp = APPROVED)"

definition has_ballot :: "int \<Rightarrow> db \<Rightarrow> bool" where
  "has_ballot voter d \<longleftrightarrow> voter \<in> v_voter_id ` set (rows (votes d))"

definition approved_choice :: "string \<Rightarrow> int \<Rightarrow> db \<Rightarrow> bool" where
  "approved_choice s cand d \<longleftrightarrow>
     (\<exists>cp \<in> set (rows (candidate_profiles d)).
        parseInt s = Some (cp_id cp) \<and> cp_user_id cp = cand \<and> cp_status cp = APPROVED)"

lemma no_row_changed_refl [simp]: "no_row_changed d d"
  by (auto simp: no_row_changed_def intro: exI [where x = "auto_inc (votes d)"])

lemma insert_vote_outcome:
  "fst (insert_vote v c now d) = Inr n \<Longrightarrow> ballot_recorded v c now d (snd (insert_vote v c now d))"
  "fst (insert_vote v c now d) = Inl e \<Longrightarrow> no_row_changed d (snd (insert_vote v c now d))"
  by (auto simp: insert_vote_def tbl_insert_def ballot_recorded_def no_row_changed_def Let_def
      check_all.simps unique_check_def fk_check_def mk_vote_def split: if_splits
      intro: exI [where x = "auto_inc (votes d)"])

lemma recordBallot_outcome:
  obtains "last (stdout (snd (recordBallot v c w))) = vote_cast_line"
      "ballot_recorded v c (clock (server 1 w)) (seen 1 w) (database (snd (recordBallot v c w)))"
  | "last (stdout (snd (recordBallot v c w))) \<noteq> vote_cast_line"
      "no_row_changed (seen 1 w) (database (snd (recordBallot v c w)))"
proof (cases "statement_fault w")
  case (Some e)
  then show thesis
    by (intro that(2)) (simp_all add: recordBallot_def andthen_def executeUpdate_seen error_line_def)
next
  case None
  let ?r = "insert_vote v c (clock (server_step w)) (database (server_step w))"
  show thesis
  proof (cases "fst ?r")
    case (Inl e)
    with None insert_vote_outcome(2) [OF Inl] show thesis
      by (intro that(2)) (simp_all add: recordBallot_def andthen_def executeUpdate_seen error_line_def)
  next
    case (Inr n)
    with None insert_vote_outcome(1) [OF Inr] show thesis
      by (intro that(1)) (simp_all add: recordBallot_def andthen_def executeUpdate_seen)
  qed
qed

lemma submitChoice_outcome:
  obtains c where "last (stdout (snd (submitChoice v s w))) = vote_cast_line" "approved_choice s c (seen 1 w)"
      "ballot_recorded v c (clock (server 2 w)) (seen 2 w) (database (snd (submitChoice v s w)))"
  | k where "last (stdout (snd (submitChoice v s w))) \<noteq> vote_cast_line" "k \<le> 2"
      "no_row_changed (seen k w) (database (snd (submitChoice v s w)))"
proof (cases "parseInt s")
  case None
  then show thesis by (intro that(2) [of 0]) (simp_all add: submitChoice_def error_line_def)
next
  case (Some cid)
  note run = submitChoice_def Some andthen_def executeQuery_seen error_line_def
  show thesis
  proof (cases "statement_fault w")
    case (Some e)
    then show thesis by (intro that(2) [of 1]) (simp_all add: run)
  next
    case None
    show thesis
    proof (cases "select_candidate_user cid (database (server_step w))")
      case Nil
      with None show thesis by (intro that(2) [of 1]) (simp_all add: run)
    next
      case (Cons c cs)
      then have "c \<in> set (select_candidate_user cid (database (server_step w)))" by simp
      then have ok: "approved_choice s c (seen 1 w)"
        using Some by (auto simp: approved_choice_def select_candidate_user_def)
      have eq: "submitChoice v s w = recordBallot v c (server_step w)" using None Cons by (simp add: run)
      show thesis
        by (rule recordBallot_outcome [of v c "server_step w"])
          (rule that(1) [OF _ ok] that(2) [of 2], simp_all add: eq numeral_2_eq_2)+
    qed
  qed
qed

text \<open>The two checks before the candidates are listed: they pass, or the run has ended.\<close>

lemma castVote_checks:
  obtains out where "approved_voter v (seen 1 w)" "\<not> has_ballot v (seen 2 w)"
      "castVote v w = andthen (prompt ''Enter Candidate ID to vote for: '') (submitChoice v)
         ((server 3 w)\<lparr>stdout := stdout w @ out\<rparr>)"
  | k where "last (stdout (snd (castVote v w))) \<noteq> vote_cast_line" "k \<le> 2"
      "database (snd (castVote v w)) = seen k w"
proof -
  let ?w1 = "server_step w" let ?w2 = "server_step ?w1"
  note run = castVote_def andthen_def executeQuery_seen db_error_def
  obtain out where view: "viewApprovedCandidates ?w2 = (Normal (), (server_step ?w2)\<lparr>stdout := stdout ?w2 @ out\<rparr>)"
    using view_rows_seen by (metis viewApprovedCandidates_def)
  show thesis
  proof (cases "statement_fault w = None \<and> (\<exists>vp vps. select_voter_profile v (seen 1 w) = vp # vps \<and> vp_status vp = APPROVED)")
    case False
    then show thesis
      by (intro that(2) [of 1])
        (auto simp: run split: option.splits list.splits dest: sym)
  next
    case True
    then obtain vp vps where vp: "select_voter_profile v (database ?w1) = vp # vps" "vp_status vp = APPROVED" by auto
    then have "vp \<in> set (select_voter_profile v (database ?w1))" by simp
    then have ok: "approved_voter v (seen 1 w)"
      using vp(2) by (auto simp: approved_voter_def select_voter_profile_def)
    show thesis
    proof (cases "statement_fault ?w1 = None \<and> select_vote v (database ?w2) = []")
      case False
      with True vp show thesis
        by (intro that(2) [of 2]) (auto simp: run numeral_2_eq_2 split: option.splits list.splits)
    next
      case noballot: True
      then have "\<not> has_ballot v (seen 2 w)"
        using select_vote_Nil [of v "database ?w2"] by (simp add: has_ballot_def numeral_2_eq_2)
      with noballot True vp view show thesis
        by (intro that(1) [OF ok, of out]) (auto simp: run numeral_2_eq_2 numeral_3_eq_3)
    qed
  qed
qed

text \<open>
  C4. Whatever is typed, whatever other clients write between the statements and whichever of them
  fail: the last line \<open>castVote\<close> prints is the success message only if its queries found, in this
  order, an approved application of the voter, no ballot of the voter, and an approved candidacy
  with the number typed, and the INSERT then found no ballot of the voter either and added the one
  ballot, for that candidate; otherwise the database is the one a statement of the call has found,
  with no row added, changed or removed.
\<close>

theorem castVote_requires:
  "(last (stdout (snd (castVote voter w))) = vote_cast_line \<and>
      (\<exists>l ls c. stdin w = l # ls \<and> approved_voter voter (seen 1 w) \<and> \<not> has_ballot voter (seen 2 w) \<and>
        approved_choice (trim l) c (seen 4 w) \<and>
        ballot_recorded voter c (clock (server 5 w)) (seen 5 w) (database (snd (castVote voter w))))) \<or>
   (last (stdout (snd (castVote voter w))) \<noteq> vote_cast_line \<and>
      (\<exists>k \<le> 5. no_row_changed (seen k w) (database (snd (castVote voter w)))))"
proof (rule castVote_checks [of voter w])
  fix k
  assume "last (stdout (snd (castVote voter w))) \<noteq> vote_cast_line" "k \<le> 2"
    "database (snd (castVote voter w)) = seen k w"
  then show ?thesis by (intro disjI2 conjI exI [of _ k]) simp_all
next
  fix out
  assume ok: "approved_voter voter (seen 1 w)" "\<not> has_ballot voter (seen 2 w)"
    and run: "castVote voter w = andthen (prompt ''Enter Candidate ID to vote for: '') (submitChoice voter)
      ((server 3 w)\<lparr>stdout := stdout w @ out\<rparr>)"
  have stdin: "stdin (server 3 w) = stdin w" by (simp add: numeral_3_eq_3)
  show ?thesis
  proof (cases "stdin w")
    case Nil
    then show ?thesis
      by (intro disjI2 conjI exI [of _ 3])
        (simp_all add: run andthen_def prompt_def nextLine_def stdin)
  next
    case (Cons l ls)
    let ?w = "(server 3 w)\<lparr>stdin := ls, stdout := (stdout w @ out) @ [''Enter Candidate ID to vote for: '']\<rparr>"
    have eq: "castVote voter w = submitChoice voter (trim l) ?w"
      using Cons by (simp add: run andthen_def prompt_run stdin)
    have at: "server j ?w = (server (3 + j) w)\<lparr>stdin := ls, stdout := (stdout w @ out) @ [''Enter Candidate ID to vote for: '']\<rparr>" for j
      by (simp add: numeral_3_eq_3)
    show ?thesis
    proof (rule submitChoice_outcome [of voter "trim l" ?w])
      fix c
      assume "last (stdout (snd (submitChoice voter (trim l) ?w))) = vote_cast_line"
        "approved_choice (trim l) c (seen 1 ?w)"
        "ballot_recorded voter c (clock (server 2 ?w)) (seen 2 ?w) (database (snd (submitChoice voter (trim l) ?w)))"
      with ok Cons at [of 1] at [of 2] show "?thesis" unfolding eq by auto
    next
      fix k :: nat
      assume "last (stdout (snd (submitChoice voter (trim l) ?w))) \<noteq> vote_cast_line" "k \<le> 2"
        "no_row_changed (seen k ?w) (database (snd (submitChoice voter (trim l) ?w)))"
      with at [of k] show "?thesis" unfolding eq by (intro disjI2 conjI exI [of _ "3 + k"]) auto
    qed
  qed
qed

text \<open>An officer rejects the voter's application just before the first query of the call.\<close>

definition ex_rejected :: world where
  "ex_rejected = (ex_world [''1''])\<lparr>events :=
     [\<lparr>ev_others = [Upd_status Voter_profiles ''REJECTED'' 1], ev_elapsed = 1, ev_fault = None\<rparr>]\<rparr>"

theorem castVote_requires_witness:
  "last (stdout (snd (castVote 2 ex_rejected))) \<noteq> vote_cast_line \<and>
   (\<exists>k \<le> 5. no_row_changed (seen k ex_rejected) (database (snd (castVote 2 ex_rejected))))"
proof -
  have "enum_status ''REJECTED'' = Some REJECTED" by code_simp
  then have "\<not> approved_voter 2 (seen 1 ex_rejected)"
    by (simp add: approved_voter_def ex_rejected_def ex_world_def ex_db_def server_step_def take_event_def
        run_others_def update_status_def)
  then show ?thesis using castVote_requires [of 2 ex_rejected] by blast
qed

end
