(* ===== verification/Voting_Guarantees.thy ===== *)
theory Voting_Guarantees
  imports Voting_Properties
begin

text \<open>
  Confinement of the roles, accounts, approval, results and setup: the remaining guarantees of
  the application.
\<close>

section \<open>Roles\<close>

text \<open>
  A field officer's session, with no other client writing, changes nothing but the status
  of voter applications: accounts, candidacies, ballots and posts stay as they are.
\<close>

theorem officer_confined:
  assumes "list_all undisturbed (events w)"
  shows "only_voter_status (database w) (database (snd (officerMenu oid w)))"
  using officer.rel_officerMenu assms by (simp add: io_rel_def)

theorem officer_confined_witness:
  "list_all undisturbed (events (ex_world [''2'', ''1'', ''reject'', ''3''])) \<and>
   only_voter_status (database (ex_world [''2'', ''1'', ''reject'', ''3'']))
     (database (snd (officerMenu 5 (ex_world [''2'', ''1'', ''reject'', ''3'']))))"
  using officer_confined [of "ex_world [''2'', ''1'', ''reject'', ''3'']" 5] by (simp add: ex_world_def)

text \<open>
  A voter's session, with no other client writing, only adds rows of that voter: a pending
  application, ballots and posts. In particular a voter cannot approve the application, vote
  for someone else or touch candidacies.
\<close>

theorem voter_confined:
  assumes "list_all undisturbed (events w)"
  shows "only_own_voter_rows uid (database w) (database (snd (voterMenu uid name w)))"
  using voter.rel_voterMenu [of uid name] assms by (simp add: io_rel_def)

theorem voter_confined_witness:
  "list_all undisturbed (events (ex_world [''4'', ''1'', ''7''])) \<and>
   only_own_voter_rows 2 (database (ex_world [''4'', ''1'', ''7'']))
     (database (snd (voterMenu 2 ''vera'' (ex_world [''4'', ''1'', ''7'']))))"
  using voter_confined [of "ex_world [''4'', ''1'', ''7'']" 2 "''vera''"] by (simp add: ex_world_def)

text \<open>
  A candidate's session, with no other client writing, only adds a pending candidacy and
  posts of that candidate; ballots and voter applications are out of reach.
\<close>

theorem candidate_confined:
  assumes "list_all undisturbed (events w)"
  shows "only_own_candidate_rows uid (database w) (database (snd (candidateMenu uid name w)))"
  using candidate.rel_candidateMenu [of uid name] assms by (simp add: io_rel_def)

theorem candidate_confined_witness:
  "list_all undisturbed (events (ex_world [''1'', ''5''])) \<and>
   only_own_candidate_rows 3 (database (ex_world [''1'', ''5'']))
     (database (snd (candidateMenu 3 ''carl'' (ex_world [''1'', ''5'']))))"
  using candidate_confined [of "ex_world [''1'', ''5'']" 3 "''carl''"] by (simp add: ex_world_def)

text \<open>
  C5. Whoever logs in is confined to the rows of the role: with no other client writing, the session of
  a field officer changes nothing but the status of voter applications, the session of a voter and
  that of a candidate add rows that belong to that account only and change no other row.
\<close>

theorem sessions_confined:
  assumes "list_all undisturbed (events w)"
  shows "only_voter_status (database w) (database (snd (officerMenu uid w))) \<and>
    only_own_voter_rows uid (database w) (database (snd (voterMenu uid name w))) \<and>
    only_own_candidate_rows uid (database w) (database (snd (candidateMenu uid name w)))"
  using officer_confined [OF assms, of uid] voter_confined [OF assms, of uid name]
    candidate_confined [OF assms, of uid name] by blast

theorem sessions_confined_witness:
  "list_all undisturbed (events (ex_world [''4'', ''1'', ''7''])) \<and>
   only_own_voter_rows 2 (database (ex_world [''4'', ''1'', ''7'']))
     (database (snd (voterMenu 2 ''vera'' (ex_world [''4'', ''1'', ''7'']))))"
  using sessions_confined [of "ex_world [''4'', ''1'', ''7'']" 2 "''vera''"] by (simp add: ex_world_def)

section \<open>Results\<close>

text \<open>
  C6. On a well-formed database the results query (two joins, a grouping and a count of non-NULL
  ids) gives, for each approved candidacy, the candidate's name and the number of ballots for
  that candidate.
\<close>

theorem results_are_the_tally:
  assumes "db_ok d"
  shows "select_results d = tally d"
  using assms by (rule select_results_tally)

lemma ex_voted_ok: "db_ok ex_voted"
  using ex_db_ok by (simp add: db_ok_def ex_voted_def ex_ballot_def tbl_ok_def fk_ok_def INT_MAX_def)
    (simp add: ex_db_def)

theorem results_are_the_tally_witness:
  "db_ok ex_voted \<and> select_results ex_voted = tally ex_voted \<and> tally ex_voted = [(''Carl'', ''P'', ''North'', 1)]"
  using results_are_the_tally [OF ex_voted_ok] ex_voted_ok
  by (simp add: tally_def tally_line_def approved_profiles_def votes_for_def user_of_def ex_voted_def
      ex_ballot_def ex_db_def)

text \<open>
  C7. The lines of \<open>viewResults\<close> come with the most ballots first, and their counts add up to
  the ballots cast for candidates whose candidacy is approved: none is lost or counted twice.
\<close>

theorem results_sorted_and_complete:
  assumes "db_ok d"
  shows "sorted_wrt (\<ge>) (map (\<lambda>(n, p, c, k). k) (select_results d)) \<and>
    sum_list (map (\<lambda>(n, p, c, k). k) (select_results d)) =
      length (filter (\<lambda>v. v_candidate_id v \<in> set (map cp_user_id (approved_profiles d))) (rows (votes d)))"
  using tally_descending [of d] sum_tally [OF assms] by (simp only: select_results_tally [OF assms] simp_thms)

theorem results_sorted_and_complete_witness:
  "db_ok ex_voted \<and> sorted_wrt (\<ge>) (map (\<lambda>(n, p, c, k). k) (select_results ex_voted)) \<and>
    sum_list (map (\<lambda>(n, p, c, k). k) (select_results ex_voted)) =
      length (filter (\<lambda>v. v_candidate_id v \<in> set (map cp_user_id (approved_profiles ex_voted))) (rows (votes ex_voted)))"
  using results_sorted_and_complete [OF ex_voted_ok] ex_voted_ok by blast

section \<open>Accounts\<close>

lemma enum_role_name [simp]: "enum_role (role_name r) = Some r"
  by (cases r) (simp_all add: enum_role_def coll_eq_def coll_key_def coll_weight_ascii)

lemma enum_status_name [simp]: "enum_status (status_name s) = Some s"
  by (cases s) (simp_all add: enum_status_def coll_eq_def coll_key_def coll_weight_ascii)

lemma valid_role_name: "valid_role s \<longleftrightarrow> (\<exists>r. s = role_name r)"
proof
  assume "valid_role s"
  then show "\<exists>r. s = role_name r"
    unfolding valid_role_def using role_name.simps by (metis empty_iff empty_set set_ConsD)
next
  assume "\<exists>r. s = role_name r"
  then obtain r where "s = role_name r" by blast
  then show "valid_role s" by (cases r) (simp_all add: valid_role_def)
qed

lemma insert_user_accepted:
  assumes "length u \<le> 100" "length h \<le> 64" "length n \<le> 200"
    "\<forall>x \<in> set (rows (users d)). \<not> coll_eq (u_username x) u" "auto_inc (users d) \<le> INT_MAX"
  shows "insert_user u h n (role_name r) d = (Inr 1, d\<lparr>users := \<lparr>rows = rows (users d) @
    [\<lparr>u_id = auto_inc (users d), u_username = u, u_password_hash = h, u_name = n, u_role = r\<rparr>],
    auto_inc = auto_inc (users d) + 1\<rparr>\<rparr>)"
proof -
  have "coll_key u \<notin> user_key ` set (rows (users d))"
    using assms(4) by (auto simp: user_key_def coll_eq_def)
  with assms show ?thesis
    by (simp add: insert_user_def too_long.simps tbl_insert_def check_all.simps unique_check_def
        Let_def mk_user_def user_key_def [of "\<lparr>u_id = _, u_username = _, u_password_hash = _, u_name = _, u_role = _\<rparr>"])
qed

text \<open>Two updates of a world that differ in the printed text only.\<close>

lemma printed_something:
  "\<exists>out. w\<lparr>stdin := ls, database := d, stdout := stdout w @ x\<rparr>
     = w\<lparr>stdin := ls, stdout := stdout w @ out, database := d\<rparr>"
  "\<exists>out. w\<lparr>stdin := ls, database := d, stdout := stdout w @ x\<rparr>
     = w\<lparr>stdin := ls, database := d, stdout := stdout w @ out\<rparr>"
  by (rule exI [of _ x], simp)+

lemma register_run:
  assumes "events w = []" "stdin w = n # u # p # r # ls" "toUpperCase (trim r) = role_name ro"
    "insert_user (trim u) (sha256 (trim p)) (trim n) (role_name ro) (database w) = (res, d')"
  shows "\<exists>out. register w = (Normal (), w\<lparr>stdin := ls, stdout := stdout w @ out, database := d'\<rparr>)"
proof -
  have v: "valid_role (role_name ro)" by (auto simp: valid_role_name)
  show ?thesis
    unfolding register_def
    by (cases res) (simp_all add: quiet_run assms v Let_def printed_something)
qed

text \<open>
  C8. Whoever registers with a free username, fields that fit and a valid role in any case can
  log in afterwards with that password and the username in any case, and gets the dashboard of
  the chosen role.
\<close>

theorem register_then_login:
  assumes quiet: "events w = []" and inp: "stdin w = n # u # p # r # ls"
    and role: "toUpperCase (trim r) = role_name ro"
    and fits: "length (trim u) \<le> 100" "length (trim n) \<le> 200"
    and free: "\<forall>x \<in> set (rows (users (database w))). \<not> coll_eq (u_username x) (trim u)"
    and room: "auto_inc (users (database w)) \<le> INT_MAX"
    and later: "database w2 = database (snd (register w))" "events w2 = []" "stdin w2 = u2 # p # ls2"
      "coll_eq (trim u) (trim u2)"
  shows "\<exists>out. login w2 = dashboard (auto_inc (users (database w))) (trim u2) (role_name ro)
    (w2\<lparr>stdin := ls2, stdout := stdout w2 @ out\<rparr>)"
proof -
  let ?d = "database w"
  let ?new = "\<lparr>u_id = auto_inc (users ?d), u_username = trim u, u_password_hash = sha256 (trim p),
      u_name = trim n, u_role = ro\<rparr>"
  have ins: "insert_user (trim u) (sha256 (trim p)) (trim n) (role_name ro) ?d =
      (Inr 1, ?d\<lparr>users := \<lparr>rows = rows (users ?d) @ [?new], auto_inc = auto_inc (users ?d) + 1\<rparr>\<rparr>)"
    by (rule insert_user_accepted) (use fits free room in simp_all)
  from register_run [OF quiet inp role ins] later(1)
  have d2: "rows (users (database w2)) = rows (users ?d) @ [?new]" by auto
  have old: "\<not> coll_eq (u_username x) (trim u2)" if "x \<in> set (rows (users ?d))" for x
    using free that later(4) by (metis coll_eq_sym coll_eq_trans)
  have old_none: "concat (map (\<lambda>x. if coll_eq (u_username x) (trim u2) \<and>
      coll_eq (u_password_hash x) (sha256 (trim p)) then [(u_id x, u_name x, role_name (u_role x))] else [])
      (rows (users ?d))) = []"
    using old by auto
  have sel: "select_login (trim u2) (sha256 (trim p)) (database w2) =
      [(auto_inc (users ?d), trim n, role_name ro)]"
    unfolding select_login_def d2 map_append concat_append old_none using later(4) by simp
  show ?thesis
    by (simp add: login_def quiet_run later(2,3) sel) (auto simp: append_assoc)
qed

lemma ex_words:
  "trim ''Olga'' = ''Olga''" "trim ''olga'' = ''olga''" "trim ''OLGA'' = ''OLGA''" "trim ''voter'' = ''voter''"
  "trim ''Vera'' = ''Vera''" "trim ''VERA'' = ''VERA''" "trim ''pw'' = ''pw''" "toUpperCase ''voter'' = ''VOTER''"
  by (code_simp+)

lemma ex_new_username:
  "\<forall>x \<in> set (rows (users ex_db)). \<not> coll_eq (u_username x) ''olga''" "coll_eq ''olga'' ''OLGA''"
  by (simp_all add: ex_db_def coll_eq_def coll_key_def coll_weight_ascii)

theorem register_then_login_witness:
  "\<exists>out. login ((snd (register (ex_world [''Olga'', ''olga'', ''pw'', ''voter''])))\<lparr>stdin := [''OLGA'', ''pw'']\<rparr>) =
    dashboard (auto_inc (users (database (ex_world [''Olga'', ''olga'', ''pw'', ''voter''])))) (trim ''OLGA'')
      (role_name VOTER)
      ((snd (register (ex_world [''Olga'', ''olga'', ''pw'', ''voter''])))\<lparr>stdin := [''OLGA'', ''pw'']\<rparr>
        \<lparr>stdin := [], stdout := stdout ((snd (register (ex_world [''Olga'', ''olga'', ''pw'', ''voter''])))
           \<lparr>stdin := [''OLGA'', ''pw'']\<rparr>) @ out\<rparr>)"
proof (rule register_then_login [where n = "''Olga''" and u = "''olga''" and r = "''voter''" and p = "''pw''"])
  let ?w = "ex_world [''Olga'', ''olga'', ''pw'', ''voter'']"
  show r: "toUpperCase (trim ''voter'') = role_name VOTER"
    by (simp add: ex_words)
  show "events ?w = []" by (simp add: ex_world_def)
  show "events ((snd (register ?w))\<lparr>stdin := [''OLGA'', ''pw'']\<rparr>) = []"
    using register_run [of ?w "''Olga''" "''olga''" "''pw''" "''voter''" "[]" VOTER, OF _ _ r surjective_pairing]
    by (auto simp: ex_world_def)
qed (simp_all add: ex_world_def ex_new_username ex_words, simp add: ex_db_def INT_MAX_def)

text \<open>
  A username that differs from an existing one only in case or accents is refused: the
  user is told that it is taken, and no account is added or changed.
\<close>

theorem register_duplicate_refused:
  assumes "events w = []" "stdin w = n # u # p # r # ls" "toUpperCase (trim r) = role_name ro"
    "length (trim u) \<le> 100" "length (trim n) \<le> 200" "auto_inc (users (database w)) \<le> INT_MAX"
    "x \<in> set (rows (users (database w)))" "coll_eq (u_username x) (trim u)"
  shows "\<exists>w'. register w = (Normal (), w') \<and> rows (users (database w')) = rows (users (database w)) \<and>
    last (stdout w') = (''Username already taken. Try another.'' @ nl) @ nl"
proof -
  let ?d = "database w"
  have "coll_key (trim u) \<in> user_key ` set (rows (users ?d))"
    using assms(7,8) by (force simp: user_key_def coll_eq_def)
  then have ins: "insert_user (trim u) (sha256 (trim p)) (trim n) (role_name ro) ?d =
      (Inl (ER_DUP_ENTRY (trim u) ''username''), ?d\<lparr>users := (users ?d)\<lparr>auto_inc := auto_inc (users ?d) + 1\<rparr>\<rparr>)"
    using assms(4-6)
    by (simp add: insert_user_def too_long.simps tbl_insert_def check_all.simps unique_check_def
        Let_def mk_user_def user_key_def [of "\<lparr>u_id = _, u_username = _, u_password_hash = _, u_name = _, u_role = _\<rparr>"])
  have v: "valid_role (role_name ro)" by (auto simp: valid_role_name)
  show ?thesis unfolding register_def
    by (simp add: quiet_run assms(1-3) ins v Let_def)
qed

theorem register_duplicate_refused_witness:
  "\<exists>w'. register (ex_world [''Vera'', ''VERA'', ''pw'', ''voter'']) = (Normal (), w') \<and>
    rows (users (database w')) = rows (users (database (ex_world [''Vera'', ''VERA'', ''pw'', ''voter'']))) \<and>
    last (stdout w') = (''Username already taken. Try another.'' @ nl) @ nl"
proof (rule register_duplicate_refused [where n = "''Vera''" and u = "''VERA''" and r = "''voter''"
      and p = "''pw''" and ls = "[]" and ro = VOTER and x = "rows (users ex_db) ! 1"])
  show "coll_eq (u_username (rows (users ex_db) ! 1)) (trim ''VERA'')"
    by (simp add: ex_db_def coll_eq_def coll_key_def coll_weight_ascii ex_words)
qed (simp_all add: ex_world_def ex_words, simp_all add: ex_db_def INT_MAX_def)

text \<open>
  C9. Without an account that matches the username and the hash of the password, login prints
  the refusal and returns to the main menu: no dashboard is entered and no data changes.
\<close>

theorem login_refused:
  assumes "events w = []" "stdin w = u # p # ls"
    "\<forall>x \<in> set (rows (users (database w))). \<not> (coll_eq (u_username x) (trim u) \<and>
        coll_eq (u_password_hash x) (sha256 (trim p)))"
  shows "login w = (Normal (), w\<lparr>stdin := ls, stdout := stdout w @
    [''Username: '', ''Password: '', (''Invalid username or password.'' @ nl) @ nl]\<rparr>)"
proof -
  have "select_login (trim u) (sha256 (trim p)) (database w) = []"
    using assms(3) by (auto simp: select_login_def)
  then show ?thesis by (simp add: login_def quiet_run assms(1,2))
qed

theorem login_refused_witness:
  "login (ex_world [''olga'', ''pw'']) = (Normal (), (ex_world [''olga'', ''pw''])\<lparr>stdin := [],
    stdout := stdout (ex_world [''olga'', ''pw'']) @
    [''Username: '', ''Password: '', (''Invalid username or password.'' @ nl) @ nl]\<rparr>)"
proof (rule login_refused)
  show "\<forall>x \<in> set (rows (users (database (ex_world [''olga'', ''pw''])))).
    \<not> (coll_eq (u_username x) (trim ''olga'') \<and> coll_eq (u_password_hash x) (sha256 (trim ''pw'')))"
    unfolding ex_words using ex_new_username(1) by (auto simp: ex_world_def)
qed (simp_all add: ex_world_def)

end
