(* ===== verification/Voting_Administration.thy ===== *)
theory Voting_Administration
  imports Voting_Guarantees
begin

text \<open>
  What the officer's and the administrator's decision does to an application, what the setup at
  every start of the program leaves in the database, what the forum shows, and what the
  main menu does with every input.
\<close>

section \<open>Approving and rejecting\<close>

text \<open>The status column of the table an action is for, by application ID.\<close>

definition application_status :: "profile_table \<Rightarrow> db \<Rightarrow> (int \<times> status) list" where
  "application_status table d =
     (case table of
        Voter_profiles \<Rightarrow> map (\<lambda>r. (vp_id r, vp_status r)) (rows (voter_profiles d))
      | Candidate_profiles \<Rightarrow> map (\<lambda>r. (cp_id r, cp_status r)) (rows (candidate_profiles d)))"

lemma update_status_application:
  assumes "enum_status st = Some s" "update_status table st aid d = (r, d')"
  shows "application_status table d' =
      map (\<lambda>(i, s0). (i, if i = aid then s else s0)) (application_status table d)"
    and "r = Inr (length (filter (\<lambda>(i, s0). i = aid) (application_status table d)))"
    and "votes d' = votes d \<and> users d' = users d \<and> forum_posts d' = forum_posts d \<and>
      (table \<noteq> Voter_profiles \<longrightarrow> voter_profiles d' = voter_profiles d) \<and>
      (table \<noteq> Candidate_profiles \<longrightarrow> candidate_profiles d' = candidate_profiles d)"
  using assms
  by (auto simp: update_status_def application_status_def filter_map comp_def split: profile_table.splits)

lemma status_of_action_cases:
  "status_of_action a = Some st \<Longrightarrow> (st = ''APPROVED'' \<and> a = ''APPROVE'') \<or> (st = ''REJECTED'' \<and> a = ''REJECT'')"
  by (auto simp: status_of_action_def split: if_splits)

text \<open>
  C10. A decision typed with the ID as the listing prints it: APPROVE (in any case) sets the status
  of exactly that application to APPROVED and REJECT to REJECTED, and nothing else in the database
  changes, neither the other columns of the row, the other rows and applications nor any other
  table; the message says whether the ID was one of an application. Any other action is refused
  with the database as it was.
\<close>

theorem approveReject_effect:
  assumes "events w = []" "stdin w = idStr # a # ls"
    "trim idStr = show_int aid" "INT_MIN \<le> aid" "aid \<le> INT_MAX"
    "toUpperCase (trim a) = act"
  shows "\<exists>w'. approveReject table w = (Normal (), w') \<and> stdin w' = ls \<and>
    (\<forall>s st. (act, st, s) \<in> {(''APPROVE'', ''APPROVED'', APPROVED), (''REJECT'', ''REJECTED'', REJECTED)} \<longrightarrow>
       application_status table (database w') =
         map (\<lambda>(i, s0). (i, if i = aid then s else s0)) (application_status table (database w)) \<and>
       database w' = (case table of
          Voter_profiles \<Rightarrow> (database w)\<lparr>voter_profiles := (voter_profiles (database w))\<lparr>rows :=
            map (\<lambda>r. if vp_id r = aid then r\<lparr>vp_status := s\<rparr> else r) (rows (voter_profiles (database w)))\<rparr>\<rparr>
        | Candidate_profiles \<Rightarrow> (database w)\<lparr>candidate_profiles := (candidate_profiles (database w))\<lparr>rows :=
            map (\<lambda>r. if cp_id r = aid then r\<lparr>cp_status := s\<rparr> else r) (rows (candidate_profiles (database w)))\<rparr>\<rparr>) \<and>
       last (stdout w') = (if aid \<in> fst ` set (application_status table (database w))
         then ''Done! Status set to '' @ st @ ''.'' @ nl else ''ID not found.'' @ nl) @ nl) \<and>
    (act \<notin> {''APPROVE'', ''REJECT''} \<longrightarrow>
       database w' = database w \<and> last (stdout w') = (''Invalid action.'' @ nl) @ nl)"
proof (cases "status_of_action act")
  case None
  then have no: "act \<notin> {''APPROVE'', ''REJECT''}" by (auto simp: status_of_action_def split: if_splits)
  have "approveReject table w = (Normal (), w\<lparr>stdin := ls, stdout := stdout w @
      [''Enter Application ID: '', ''Action (APPROVE / REJECT): '', (''Invalid action.'' @ nl) @ nl]\<rparr>)"
    using None assms(6) by (simp add: approveReject_def quiet_run assms(1,2))
  with no show ?thesis by auto
next
  case (Some st)
  then have act: "(act = ''APPROVE'' \<and> st = ''APPROVED'') \<or> (act = ''REJECT'' \<and> st = ''REJECTED'')"
    using status_of_action_cases by blast
  have en: "enum_status ''APPROVED'' = Some APPROVED" "enum_status ''REJECTED'' = Some REJECTED" by code_simp+
  obtain s where s: "enum_status st = Some s" and
    pin: "\<And>s' st'. (act, st', s') \<in> {(''APPROVE'', ''APPROVED'', APPROVED), (''REJECT'', ''REJECTED'', REJECTED)}
       \<Longrightarrow> s' = s \<and> st' = st"
    using act en by auto
  obtain r d where u: "update_status table st aid (database w) = (r, d)"
    by (cases "update_status table st aid (database w)") auto
  note upd = update_status_application [OF s u]
  have d: "d = (case table of
          Voter_profiles \<Rightarrow> (database w)\<lparr>voter_profiles := (voter_profiles (database w))\<lparr>rows :=
            map (\<lambda>r. if vp_id r = aid then r\<lparr>vp_status := s\<rparr> else r) (rows (voter_profiles (database w)))\<rparr>\<rparr>
        | Candidate_profiles \<Rightarrow> (database w)\<lparr>candidate_profiles := (candidate_profiles (database w))\<lparr>rows :=
            map (\<lambda>r. if cp_id r = aid then r\<lparr>cp_status := s\<rparr> else r) (rows (candidate_profiles (database w)))\<rparr>\<rparr>)"
    using u s by (auto simp: update_status_def split: profile_table.splits)
  have pos: "filter (\<lambda>(i, s0). i = aid) (application_status table (database w)) = [] \<longleftrightarrow>
      aid \<notin> fst ` set (application_status table (database w))"
    by (force simp: filter_empty_conv)
  have p: "parseInt (show_int aid) = Some aid" using assms(4,5) by (simp add: parseInt_show_int)
  let ?out = "[''Enter Application ID: '', ''Action (APPROVE / REJECT): '',
      (if aid \<in> fst ` set (application_status table (database w))
       then ''Done! Status set to '' @ st @ ''.'' @ nl else ''ID not found.'' @ nl) @ nl]"
  let ?w = "w\<lparr>stdin := ls, stdout := stdout w @ ?out, database := d\<rparr>"
  have run: "approveReject table w = (Normal (), ?w)"
    unfolding approveReject_def
    by (simp add: quiet_run assms(1,2,3,6) Some p u upd(2) pos)
  from act have "act \<in> {''APPROVE'', ''REJECT''}" by auto
  then show ?thesis
    by (intro exI [where x = ?w] conjI allI impI run) (use pin upd(1) d in \<open>auto dest!: pin\<close>)
qed

theorem approveReject_effect_witness:
  "\<exists>w'. approveReject Voter_profiles (ex_world [''1'', ''reject'']) = (Normal (), w') \<and> stdin w' = [] \<and>
    application_status Voter_profiles (database w') = [(1, REJECTED)] \<and>
    votes (database w') = votes ex_db \<and> candidate_profiles (database w') = candidate_profiles ex_db \<and>
    last (stdout w') = (''Done! Status set to REJECTED.'' @ nl) @ nl"
proof -
  have "trim ''1'' = show_int 1" by code_simp
  moreover have "toUpperCase (trim ''reject'') = ''REJECT''" by code_simp
  moreover have "application_status Voter_profiles ex_db = [(1, APPROVED)]"
    by (simp add: application_status_def ex_db_def)
  ultimately show ?thesis
    using approveReject_effect [of "ex_world [''1'', ''reject'']" "''1''" "''reject''" "[]" 1 "''REJECT''" Voter_profiles]
    by (auto simp: ex_world_def INT_MIN_def INT_MAX_def)
qed

section \<open>The setup at every start\<close>

lemma create_table_run:
  "events w = [] \<Longrightarrow> create_table n w =
     (Normal (Inr 0), if n \<in> set (tables w) then w else w\<lparr>tables := tables w @ [n]\<rparr>)"
  by (simp add: create_table_def statement_def)

text \<open>Creating the tables one after the other leaves the world as it was, up to the table list.\<close>

definition with_tables :: "string list \<Rightarrow> world \<Rightarrow> world" where
  "with_tables ns w = w\<lparr>tables := fold (\<lambda>n ts. if n \<in> set ts then ts else ts @ [n]) ns (tables w)\<rparr>"

lemma with_tables_same [simp]:
  "events (with_tables ns w) = events w" "database (with_tables ns w) = database w"
  "clock (with_tables ns w) = clock w"
  by (simp_all add: with_tables_def)

lemma create_table_with: "events w = [] \<Longrightarrow>
   create_table n (with_tables ns w) = (Normal (Inr 0), with_tables (ns @ [n]) w)"
  by (simp add: create_table_run) (simp add: with_tables_def)

lemma set_tables_with [simp]: "set (tables (with_tables ns w)) = set (tables w) \<union> set ns"
proof -
  have "set (fold (\<lambda>n ts. if n \<in> set ts then ts else ts @ [n]) ns ts) = set ts \<union> set ns" for ts :: "string list"
    by (induction ns arbitrary: ts) auto
  then show ?thesis by (simp add: with_tables_def)
qed

abbreviation insert_admin :: "db \<Rightarrow> (sql_error + nat) \<times> db" where
  "insert_admin \<equiv> insert_ignore_user ''admin'' (sha256 ''admin123'') ''System Administrator'' ''ADMIN''"

lemma setupDatabase_run:
  assumes "events w = []"
  shows "setupDatabase w = (Normal (fst (insert_admin (database w))),
    (with_tables all_tables w)\<lparr>database := snd (insert_admin (database w))\<rparr>)"
proof -
  have w: "w = with_tables [] w" by (simp add: with_tables_def)
  show ?thesis
    by (subst (1) w)
      (simp add: setupDatabase_def or_throw_def quiet_run create_table_with assms all_tables_def)
qed

text \<open>The statement adds the account unless the name is taken, and never touches another row.\<close>

lemma insert_admin_cases:
  assumes "auto_inc (users d) \<le> INT_MAX"
  obtains n t where "insert_admin d = (Inr n, d\<lparr>users := t\<rparr>)" "auto_inc t = auto_inc (users d) + 1"
    "\<exists>x \<in> set (rows t). coll_eq (u_username x) ''admin''"
    "rows t = rows (users d) @ (if \<exists>x \<in> set (rows (users d)). coll_eq (u_username x) ''admin'' then []
       else [mk_user (''admin'', sha256 ''admin123'', ''System Administrator'', ADMIN) (auto_inc (users d))])"
proof -
  let ?r = "mk_user (''admin'', sha256 ''admin123'', ''System Administrator'', ADMIN) (auto_inc (users d))"
  let ?t = "\<lparr>rows = rows (users d) @ (if \<exists>x \<in> set (rows (users d)). coll_eq (u_username x) ''admin''
       then [] else [?r]), auto_inc = auto_inc (users d) + 1\<rparr>"
  have r: "enum_role ''ADMIN'' = Some ADMIN" using enum_role_name [of ADMIN] by simp
  have key: "user_key ?r \<in> user_key ` set (rows (users d)) \<longleftrightarrow>
      (\<exists>x \<in> set (rows (users d)). coll_eq (u_username x) ''admin'')"
    by (force simp: user_key_def mk_user_def coll_eq_def)
  have long: "too_long [(''username'', 100, ''admin''), (''password_hash'', 64, sha256 ''admin123''),
       (''name'', 200, ''System Administrator'')] = None"
    by (simp add: too_long.simps length_sha256)
  have "\<exists>n. insert_admin d = (Inr n, d\<lparr>users := ?t\<rparr>)"
    using assms
    by (auto simp add: insert_ignore_user_def insert_user_def long r tbl_insert_def check_all.simps
        unique_check_def Let_def key)
  then show thesis using that [of _ ?t] by (auto simp: mk_user_def coll_eq_def)
qed

text \<open>
  C11. The setup succeeds on a fresh server and on one that has been used before: afterwards the
  five tables exist and an account named admin exists, every row from before is still there, the
  only row that may be new is the administrator's with the documented password, and running the setup again adds no row to any table.
\<close>

theorem setupDatabase_idempotent:
  assumes "events w = []" "auto_inc (users (database w)) < INT_MAX"
  shows "\<exists>n w'. setupDatabase w = (Normal (Inr n), w') \<and> set all_tables \<subseteq> set (tables w') \<and>
    (\<exists>x \<in> set (rows (users (database w'))). coll_eq (u_username x) ''admin'') \<and>
    (\<exists>us. rows (users (database w')) = rows (users (database w)) @ us \<and> length us \<le> 1 \<and>
       (\<forall>x \<in> set us. u_username x = ''admin'' \<and> u_password_hash x = sha256 ''admin123'' \<and> u_role x = ADMIN)) \<and>
    (\<exists>t. database w' = (database w)\<lparr>users := t\<rparr>) \<and>
    (\<exists>m w'' t. setupDatabase w' = (Normal (Inr m), w'') \<and> set (tables w'') = set (tables w') \<and>
       database w'' = (database w')\<lparr>users := t\<rparr> \<and> rows t = rows (users (database w')))"
proof -
  from assms(2) have "auto_inc (users (database w)) \<le> INT_MAX" by simp
  then obtain n t where 1: "insert_admin (database w) = (Inr n, (database w)\<lparr>users := t\<rparr>)"
      "auto_inc t = auto_inc (users (database w)) + 1" "\<exists>x \<in> set (rows t). coll_eq (u_username x) ''admin''"
      "\<exists>us. rows t = rows (users (database w)) @ us \<and> length us \<le> 1 \<and>
        (\<forall>x \<in> set us. u_username x = ''admin'' \<and> u_password_hash x = sha256 ''admin123'' \<and> u_role x = ADMIN)"
    by (rule insert_admin_cases) (auto simp: mk_user_def)
  let ?w = "(with_tables all_tables w)\<lparr>database := (database w)\<lparr>users := t\<rparr>\<rparr>"
  have run1: "setupDatabase w = (Normal (Inr n), ?w)" using setupDatabase_run [OF assms(1)] 1(1) by simp
  from 1(2) assms(2) have "auto_inc (users (database ?w)) \<le> INT_MAX" by simp
  then obtain m t2 where 2: "insert_admin (database ?w) = (Inr m, (database ?w)\<lparr>users := t2\<rparr>)"
      "rows t2 = rows t"
    by (rule insert_admin_cases) (use 1(3) in auto)
  have "setupDatabase ?w = (Normal (Inr m),
      (with_tables all_tables ?w)\<lparr>database := (database ?w)\<lparr>users := t2\<rparr>\<rparr>)"
    using setupDatabase_run [of ?w] assms(1) 2(1) by simp
  with run1 1(3,4) 2(2) show ?thesis by force
qed

theorem setupDatabase_idempotent_witness:
  "\<exists>n w'. setupDatabase (ex_world []) = (Normal (Inr n), w') \<and> set all_tables \<subseteq> set (tables w') \<and>
    (\<exists>x \<in> set (rows (users (database w'))). coll_eq (u_username x) ''admin'') \<and>
    (\<exists>us. rows (users (database w')) = rows (users (database (ex_world []))) @ us \<and> length us \<le> 1 \<and>
       (\<forall>x \<in> set us. u_username x = ''admin'' \<and> u_password_hash x = sha256 ''admin123'' \<and> u_role x = ADMIN)) \<and>
    (\<exists>t. database w' = (database (ex_world []))\<lparr>users := t\<rparr>) \<and>
    (\<exists>m w'' t. setupDatabase w' = (Normal (Inr m), w'') \<and> set (tables w'') = set (tables w') \<and>
       database w'' = (database w')\<lparr>users := t\<rparr> \<and> rows t = rows (users (database w')))"
  by (rule setupDatabase_idempotent) (simp_all add: ex_world_def ex_db_def INT_MAX_def)

section \<open>The forum\<close>

definition forum_entries :: "db \<Rightarrow> (string \<times> string \<times> nat) list" where
  "forum_entries d = [(u_name u, f_content f, f_posted_at f).
     f \<leftarrow> rows (forum_posts d), u \<leftarrow> rows (users d), u_id u = f_user_id f]"

text \<open>
  The forum shows at most twenty posts, the newest first: no post that is left out is newer
  than one that is shown, and with twenty posts or fewer every one is shown.
\<close>

theorem select_forum_newest:
  "length (select_forum d) = min 20 (length (forum_entries d)) \<and>
   sorted_wrt (\<lambda>a b. snd (snd b) \<le> snd (snd a)) (select_forum d) \<and>
   (\<exists>rest. mset (forum_entries d) = mset (select_forum d) + mset rest \<and>
     (\<forall>x \<in> set (select_forum d). \<forall>y \<in> set rest. snd (snd y) \<le> snd (snd x)))"
proof -
  let ?s = "sort_key (\<lambda>(n, c, t). - int t) (forum_entries d)"
  have sel: "select_forum d = take 20 ?s" by (simp add: select_forum_def forum_entries_def)
  have "sorted_wrt (\<lambda>a b. snd (snd b) \<le> snd (snd a)) ?s"
    using sorted_sort_key [of "\<lambda>(n :: string, c :: string, t). - int t" "forum_entries d"]
    by (simp add: sorted_map split_beta)
  then have so: "sorted_wrt (\<lambda>a b. snd (snd b) \<le> snd (snd a)) (take 20 ?s @ drop 20 ?s)" by simp
  have "mset (forum_entries d) = mset (take 20 ?s @ drop 20 ?s)" by simp
  then have "mset (forum_entries d) = mset (take 20 ?s) + mset (drop 20 ?s)" by (simp only: mset_append)
  with so show ?thesis unfolding sel sorted_wrt_append by (auto intro!: exI [where x = "drop 20 ?s"])
qed

definition ex_forum :: db where
  "ex_forum = ex_db\<lparr>forum_posts := \<lparr>rows =
     [\<lparr>f_id = 1, f_user_id = 2, f_content = ''first'', f_posted_at = 50\<rparr>,
      \<lparr>f_id = 2, f_user_id = 3, f_content = ''second'', f_posted_at = 60\<rparr>], auto_inc = 3\<rparr>\<rparr>"

theorem select_forum_newest_witness:
  "length (select_forum ex_forum) = 2 \<and>
   sorted_wrt (\<lambda>a b. snd (snd b) \<le> snd (snd a)) (select_forum ex_forum) \<and>
   (\<exists>rest. mset (forum_entries ex_forum) = mset (select_forum ex_forum) + mset rest \<and>
     (\<forall>x \<in> set (select_forum ex_forum). \<forall>y \<in> set rest. snd (snd y) \<le> snd (snd x)))"
proof -
  have "length (forum_entries ex_forum) = 2" by (simp add: forum_entries_def ex_forum_def ex_db_def)
  then show ?thesis using select_forum_newest [of ex_forum] by simp
qed

section \<open>The main menu\<close>

abbreviation main_menu_lines :: "string list" where
  "main_menu_lines \<equiv> [''1. Login'' @ nl, ''2. Register'' @ nl, ''3. Exit'' @ nl, ''> '']"

text \<open>The world in which the choice typed at the menu is acted on.\<close>

definition at_choice :: "string list \<Rightarrow> world \<Rightarrow> world" where
  "at_choice ls w = w\<lparr>stdin := ls, stdout := stdout w @ main_menu_lines\<rparr>"

text \<open>The next round, from the world the last one left.\<close>

definition again :: "unit outcome \<times> world \<Rightarrow> unit outcome \<times> world" where
  "again res = (case res of (Normal _, w) \<Rightarrow> main_loop w | (Throw e, w) \<Rightarrow> (Throw e, w))"

lemma main_loop_unfold:
  "main_loop = andthen (menu_prompt [''1. Login'', ''2. Register'', ''3. Exit'']) (\<lambda>c.
     andthen (mainChoice c) (\<lambda>quit. if quit then ret () else main_loop))"
  unfolding main_loop_def by (rule menu_loop_unfold) (rule nonexp_mainChoice)

lemma main_loop_end: "stdin w = [] \<Longrightarrow> main_loop w = (Throw NoSuchElementException, at_choice [] w)"
  by (subst main_loop_unfold) (simp add: menu_prompt_def quiet_run prompt_def nextLine_def at_choice_def)

lemma main_loop_round: "stdin w = l # ls \<Longrightarrow> main_loop w =
   andthen (mainChoice (trim l)) (\<lambda>quit. if quit then ret () else main_loop) (at_choice ls w)"
  by (subst main_loop_unfold) (simp add: menu_prompt_def quiet_run at_choice_def)

lemma stay_round: "andthen (stay m) (\<lambda>quit. if quit then ret () else main_loop) w = again (m w)"
  by (simp add: stay_def again_def andthen_def ret_def split: prod.split outcome.split)

lemma main_loop_ends:
  "main_loop w = (r, w') \<Longrightarrow>
     (r = Normal () \<and> last (stdout w') = ''Goodbye!'' @ nl) \<or> (r = Throw NoSuchElementException \<and> stdin w' = [])"
proof (induction "length (stdin w)" arbitrary: w rule: less_induct)
  case less
  show ?case
  proof (cases "stdin w")
    case Nil
    with less(2) show ?thesis by (auto simp: main_loop_end at_choice_def)
  next
    case (Cons l ls)
    obtain q w1 where c: "mainChoice (trim l) (at_choice ls w) = (q, w1)"
      by (cases "mainChoice (trim l) (at_choice ls w)") auto
    have le: "length (stdin w1) \<le> length ls"
      using nonexpD [OF nonexp_mainChoice c] by (simp add: at_choice_def)
    show ?thesis
    proof (cases q)
      case (Throw e)
      with c Cons less(2) nonexp_Throw [OF nonexp_mainChoice, of "trim l" "at_choice ls w" e w1] show ?thesis
        by (cases e) (auto simp: main_loop_round andthen_def)
    next
      case (Normal quit)
      show ?thesis
      proof (cases quit)
        case True
        with c Normal have "last (stdout w1) = ''Goodbye!'' @ nl"
          by (auto simp: mainChoice_def stay_def leave_def andthen_def ret_def split: if_splits prod.splits outcome.splits)
        with True c Normal Cons less(2) show ?thesis by (auto simp: main_loop_round andthen_def ret_def)
      next
        case False
        with c Normal Cons less(2) have "main_loop w1 = (r, w')" by (simp add: main_loop_round andthen_def)
        with less(1) [of w1] le Cons show ?thesis by simp
      qed
    qed
  qed
qed

text \<open>
  C12. The main menu for every input: it prints its three lines and reads a choice; 1 runs \<open>login\<close>
  and 2 \<open>register\<close>, after which, unless they threw, the menu is shown again with at least one
  line less to read; 3 says goodbye and returns; anything else is refused and the menu is shown
  again. So the program's loop ends on every input, either after the choice to exit, or with
  NoSuchElementException and then with the whole input used up.
\<close>

theorem main_loop_while_true:
  "(stdin w = [] \<longrightarrow> main_loop w = (Throw NoSuchElementException, at_choice [] w)) \<and>
   (\<forall>l ls. stdin w = l # ls \<longrightarrow>
      main_loop w =
        (if trim l = ''1'' then again (login (at_choice ls w))
         else if trim l = ''2'' then again (register (at_choice ls w))
         else if trim l = ''3'' then println ''Goodbye!'' (at_choice ls w)
         else again (println (''Invalid choice.'' @ nl) (at_choice ls w))) \<and>
      length (stdin (snd (login (at_choice ls w)))) < length (stdin w) \<and>
      length (stdin (snd (register (at_choice ls w)))) < length (stdin w)) \<and>
   ((fst (main_loop w) = Normal () \<and> last (stdout (snd (main_loop w))) = ''Goodbye!'' @ nl) \<or>
    (fst (main_loop w) = Throw NoSuchElementException \<and> stdin (snd (main_loop w)) = []))"
proof (intro conjI allI impI)
  show "main_loop w = (Throw NoSuchElementException, at_choice [] w)" if "stdin w = []"
    using that by (rule main_loop_end)
  fix l ls
  assume inp: "stdin w = l # ls"
  show "main_loop w =
        (if trim l = ''1'' then again (login (at_choice ls w))
         else if trim l = ''2'' then again (register (at_choice ls w))
         else if trim l = ''3'' then println ''Goodbye!'' (at_choice ls w)
         else again (println (''Invalid choice.'' @ nl) (at_choice ls w)))"
    unfolding main_loop_round [OF inp] mainChoice_def
    by (simp add: stay_round del: println_run) (simp add: leave_def andthen_def ret_def)
  have "stdin (at_choice ls w) = ls" by (simp add: at_choice_def)
  then show "length (stdin (snd (login (at_choice ls w)))) < length (stdin w)"
    "length (stdin (snd (register (at_choice ls w)))) < length (stdin w)"
    using nonexpD [OF nonexp_login prod.collapse [symmetric], of "at_choice ls w"]
      nonexpD [OF nonexp_register prod.collapse [symmetric], of "at_choice ls w"] inp by simp_all
next
  show "(fst (main_loop w) = Normal () \<and> last (stdout (snd (main_loop w))) = ''Goodbye!'' @ nl) \<or>
    (fst (main_loop w) = Throw NoSuchElementException \<and> stdin (snd (main_loop w)) = [])"
    using main_loop_ends [of w] by (cases "main_loop w") auto
qed

theorem main_loop_while_true_witness:
  "main_loop (ex_world [''9'', ''3'']) = println ''Goodbye!''
     (at_choice [] (snd (println (''Invalid choice.'' @ nl) (at_choice [''3''] (ex_world [''9'', ''3''])))))"
proof -
  let ?w = "snd (println (''Invalid choice.'' @ nl) (at_choice [''3''] (ex_world [''9'', ''3''])))"
  have t: "trim ''9'' = ''9''" "trim ''3'' = ''3''" by code_simp+
  have inp: "stdin (ex_world [''9'', ''3'']) = [''9'', ''3'']" "stdin ?w = [''3'']"
    by (simp_all add: ex_world_def at_choice_def)
  have "main_loop (ex_world [''9'', ''3'']) = main_loop ?w"
    using main_loop_while_true [of "ex_world [''9'', ''3'']"] inp(1) t by (simp add: again_def)
  also have "\<dots> = println ''Goodbye!'' (at_choice [] ?w)"
    using main_loop_while_true [of ?w] inp(2) t by simp
  finally show ?thesis .
qed

end
