(* ===== verification/My_Bit.thy ===== *)
theory My_Bit
  imports Voting_Prelude
begin

text \<open>
  The bit functions of \<open>my_bit.h\<close>, on words of the widths the header uses. The table
  \<open>_my_bits_reverse_table\<close> is defined outside the headers: it is an argument of
  \<open>my_reverse_bits\<close>. \<open>my_find_first_bit\<close> is the generic case, which the compiler intrinsics
  of the other branches stand for.
\<close>

unbundle bit_operations_syntax

section \<open>The functions\<close>

definition my_bit_log2_hex_digit :: "8 word \<Rightarrow> uint" where
  "my_bit_log2_hex_digit value =
     (if value AND 0x0C \<noteq> 0 then (if value AND 0x08 \<noteq> 0 then 3 else 2)
      else (if value AND 0x02 \<noteq> 0 then 1 else 0))"

definition my_bit_log2_uint8 :: "8 word \<Rightarrow> uint" where
  "my_bit_log2_uint8 value =
     (if value AND 0xF0 \<noteq> 0 then my_bit_log2_hex_digit (drop_bit 4 value) + 4
      else my_bit_log2_hex_digit value)"

definition my_bit_log2_uint16 :: "16 word \<Rightarrow> uint" where
  "my_bit_log2_uint16 value =
     (if value AND 0xFF00 \<noteq> 0 then my_bit_log2_uint8 (ucast (drop_bit 8 value)) + 8
      else my_bit_log2_uint8 (ucast value))"

definition my_bit_log2_uint32 :: "32 word \<Rightarrow> uint" where
  "my_bit_log2_uint32 value =
     (if value AND 0xFFFF0000 \<noteq> 0 then my_bit_log2_uint16 (ucast (drop_bit 16 value)) + 16
      else my_bit_log2_uint16 (ucast value))"

definition my_bit_log2_uint64 :: "64 word \<Rightarrow> uint" where
  "my_bit_log2_uint64 value =
     (if value AND 0xFFFFFFFF00000000 \<noteq> 0 then my_bit_log2_uint32 (ucast (drop_bit 32 value)) + 32
      else my_bit_log2_uint32 (ucast value))"

definition my_count_bits_uint32 :: "32 word \<Rightarrow> uint" where
  "my_count_bits_uint32 v =
     (let v = v - (drop_bit 1 v AND 0x55555555);
          v = (v AND 0x33333333) + (drop_bit 2 v AND 0x33333333)
      in drop_bit 24 (((v + drop_bit 4 v) AND 0xF0F0F0F) * 0x1010101))"

definition my_count_bits :: "64 word \<Rightarrow> uint" where
  "my_count_bits x = my_count_bits_uint32 (ucast x) + my_count_bits_uint32 (ucast (drop_bit 32 x))"

definition my_round_up_to_next_power :: "32 word \<Rightarrow> 32 word" where
  "my_round_up_to_next_power v =
     (let v = v - 1;
          v = v OR drop_bit 1 v;
          v = v OR drop_bit 2 v;
          v = v OR drop_bit 4 v;
          v = v OR drop_bit 8 v;
          v = v OR drop_bit 16 v
      in v + 1)"

definition my_clear_highest_bit :: "32 word \<Rightarrow> 32 word" where
  "my_clear_highest_bit v =
     (let w = drop_bit 1 v;
          w = w OR drop_bit 1 w;
          w = w OR drop_bit 2 w;
          w = w OR drop_bit 4 w;
          w = w OR drop_bit 8 w;
          w = w OR drop_bit 16 w
      in v AND w)"

definition my_reverse_bits :: "(nat \<Rightarrow> uchar) \<Rightarrow> 32 word \<Rightarrow> 32 word" where
  "my_reverse_bits bits_reverse_table key =
     push_bit 24 (ucast (bits_reverse_table (unat (key AND 255)))) OR
     push_bit 16 (ucast (bits_reverse_table (unat (drop_bit 8 key AND 255)))) OR
     push_bit 8 (ucast (bits_reverse_table (unat (drop_bit 16 key AND 255)))) OR
     ucast (bits_reverse_table (unat (drop_bit 24 key)))"

definition my_set_bits :: "int \<Rightarrow> 64 word" where
  "my_set_bits n = push_bit 1 (push_bit (nat (n - 1)) 1 - 1) OR 1"

definition last_byte_mask :: "uint \<Rightarrow> uchar" where
  "last_byte_mask bits =
     (let used = (bits - 1) AND 7 in ucast (push_bit (unat used) (2 :: uint) - 1))"

definition last_bit :: "nat list" where
  "last_bit = [32, 0, 1, 0,
               2, 0, 1, 0,
               3, 0, 1, 0,
               2, 0, 1, 0]"

text \<open>The loop of the generic case: it runs over the sixteen nibbles of the number.\<close>

function first_bit_loop :: "64 word \<Rightarrow> nat \<Rightarrow> nat" where
  "first_bit_loop n shift =
     (let bit = last_bit ! unat (drop_bit shift n AND 0xF)
      in if bit = 32 then (if shift < 64 then first_bit_loop n (shift + 4) else shift)
         else shift + bit)"
  by pat_completeness auto
termination
  by (relation "measure (\<lambda>(n, shift). 64 - shift)") auto

declare first_bit_loop.simps [simp del]

definition my_find_first_bit :: "64 word \<Rightarrow> nat" where
  "my_find_first_bit n = (if n = 0 then 64 else first_bit_loop n 0)"

section \<open>The highest bit\<close>

text \<open>What the logarithm functions compute, on natural numbers.\<close>

definition log2_of :: "nat \<Rightarrow> nat \<Rightarrow> bool" where
  "log2_of n k \<longleftrightarrow> (if n = 0 then k = 0 else 2 ^ k \<le> n \<and> n < 2 ^ (k + 1))"

lemma log2_of_shift: "n div 2 ^ s \<noteq> 0 \<Longrightarrow> log2_of (n div 2 ^ s) k \<Longrightarrow> log2_of n (k + s)"
proof -
  assume nz: "n div 2 ^ s \<noteq> 0" and "log2_of (n div 2 ^ s) k"
  then have 1: "2 ^ k \<le> n div 2 ^ s" "n div 2 ^ s < 2 ^ (k + 1)" by (simp_all add: log2_of_def)
  from 1(1) have "2 ^ k * 2 ^ s \<le> n"
    by (meson div_times_less_eq_dividend le_trans mult_le_mono1)
  moreover from 1(2) have "n < 2 ^ (k + 1) * 2 ^ s"
    by (simp add: div_less_iff_less_mult)
  moreover from nz have "n \<noteq> 0" by (metis div_0)
  ultimately show ?thesis by (simp add: log2_of_def power_add ac_simps)
qed

lemma and_not_mask_eq_0:
  fixes v :: "'a::len word"
  shows "v AND NOT (mask s) = 0 \<longleftrightarrow> unat v < 2 ^ s"
proof -
  have "v AND NOT (mask s) = 0 \<longleftrightarrow> take_bit s v = v"
    by (auto simp: bit_eq_iff bit_simps)
  also have "\<dots> \<longleftrightarrow> unat v < 2 ^ s"
    by (metis take_bit_nat_eq_self_iff unsigned_take_bit_eq unsigned_word_eqI)
  finally show ?thesis .
qed

lemma high_masks:
  "(0xF0 :: 8 word) = NOT (mask 4)" "(0xFF00 :: 16 word) = NOT (mask 8)"
  "(0xFFFF0000 :: 32 word) = NOT (mask 16)" "(0xFFFFFFFF00000000 :: 64 word) = NOT (mask 32)"
  by (simp_all add: mask_eq_exp_minus_1)

lemma unat_drop_bit: "unat (drop_bit s (v :: 'a::len word)) = unat v div 2 ^ s"
  unfolding unsigned_drop_bit_eq
  by (simp add: drop_bit_eq_div take_bit_nat_eq_self unsigned_less)

lemma nibble_cases:
  assumes "unat v < 16"
  obtains n where "v = word_of_nat n" "n \<in> {0, 1, 2, 3, 4, 5, 6, 7, 8, 9, 10, 11, 12, 13, 14, 15}"
proof
  show "v = word_of_nat (unat v)" by simp
  have "{..<16 :: nat} = {0, 1, 2, 3, 4, 5, 6, 7, 8, 9, 10, 11, 12, 13, 14, 15}"
    by (simp add: lessThan_nat_numeral lessThan_Suc insert_commute)
  with assms show "unat v \<in> {0, 1, 2, 3, 4, 5, 6, 7, 8, 9, 10, 11, 12, 13, 14, 15}" by blast
qed

lemma log2_hex_digit:
  assumes "unat v < 16"
  shows "log2_of (unat v) (unat (my_bit_log2_hex_digit v)) \<and> my_bit_log2_hex_digit v \<le> 3"
  using assms
proof (rule nibble_cases)
  fix n :: nat
  assume "v = word_of_nat n" "n \<in> {0, 1, 2, 3, 4, 5, 6, 7, 8, 9, 10, 11, 12, 13, 14, 15}"
  then show ?thesis by (auto simp: my_bit_log2_hex_digit_def log2_of_def)
qed

text \<open>One halving step of the search, for every width.\<close>

lemma log2_step:
  fixes v :: "'a::len word" and f :: "'b::len word \<Rightarrow> uint"
  assumes f: "\<And>x. log2_of (unat x) (unat (f x)) \<and> unat (f x) < b"
    and len: "LENGTH('a) = 2 * s" "LENGTH('b) = s" and small: "b + s < 2 ^ 32"
    and g: "g = (if v AND NOT (mask s) \<noteq> 0 then f (ucast (drop_bit s v)) + word_of_nat s else f (ucast v))"
  shows "log2_of (unat v) (unat g) \<and> unat g < b + s"
proof (cases "unat v < 2 ^ s")
  case True
  then have "unat (ucast v :: 'b word) = unat v"
    using len by (simp add: unsigned_ucast_eq take_bit_nat_eq_self)
  with True f [of "ucast v"] show ?thesis by (simp add: g and_not_mask_eq_0)
next
  case False
  let ?x = "ucast (drop_bit s v) :: 'b word"
  have "unat v < 2 ^ (s + s)" using unsigned_less [of v, where 'a = nat] len by (simp add: mult_2)
  then have lt: "unat v div 2 ^ s < 2 ^ s" by (simp add: div_less_iff_less_mult power_add)
  then have x: "unat ?x = unat v div 2 ^ s"
    using len by (simp add: unsigned_ucast_eq unat_drop_bit take_bit_nat_eq_self)
  have nz: "unat v div 2 ^ s \<noteq> 0" using False by (simp add: div_eq_0_iff)
  from f [of ?x] have fx: "log2_of (unat v div 2 ^ s) (unat (f ?x))" "unat (f ?x) < b"
    unfolding x by auto
  have "unat g = unat (f ?x) + s"
    using False fx(2) small by (simp add: g and_not_mask_eq_0 unat_word_ariths unsigned_of_nat take_bit_nat_eq_self)
  with fx log2_of_shift [OF nz fx(1)] show ?thesis by simp
qed


lemma log2_uint8: "log2_of (unat v) (unat (my_bit_log2_uint8 v)) \<and> unat (my_bit_log2_uint8 v) < 8"
proof (cases "unat v < 2 ^ 4")
  case True
  with log2_hex_digit [of v] show ?thesis
    by (simp add: my_bit_log2_uint8_def high_masks and_not_mask_eq_0 word_le_nat_alt)
next
  case False
  have "unat v < 256" using unsigned_less [of v, where 'a = nat] by simp
  then have lt: "unat v div 16 < 16" by (simp add: div_less_iff_less_mult)
  have nz: "unat v div 2 ^ 4 \<noteq> 0" using False by (simp add: div_eq_0_iff)
  from log2_hex_digit [of "drop_bit 4 v"] lt
  have d: "log2_of (unat v div 2 ^ 4) (unat (my_bit_log2_hex_digit (drop_bit 4 v)))"
    "unat (my_bit_log2_hex_digit (drop_bit 4 v)) \<le> 3"
    by (simp_all add: unat_drop_bit word_le_nat_alt)
  then have "unat (my_bit_log2_hex_digit (drop_bit 4 v) + 4) = unat (my_bit_log2_hex_digit (drop_bit 4 v)) + 4"
    by (simp add: unat_word_ariths)
  with False d log2_of_shift [OF nz d(1)] show ?thesis
    by (simp add: my_bit_log2_uint8_def high_masks and_not_mask_eq_0)
qed

lemma log2_uint16: "log2_of (unat v) (unat (my_bit_log2_uint16 v)) \<and> unat (my_bit_log2_uint16 v) < 16"
  using log2_step [where f = my_bit_log2_uint8 and s = 8 and b = 8 and v = v, OF log2_uint8 _ _ _ refl]
  by (auto simp: my_bit_log2_uint16_def high_masks split: if_splits)

lemma log2_uint32: "log2_of (unat v) (unat (my_bit_log2_uint32 v)) \<and> unat (my_bit_log2_uint32 v) < 32"
  using log2_step [where f = my_bit_log2_uint16 and s = 16 and b = 16 and v = v, OF log2_uint16 _ _ _ refl]
  by (auto simp: my_bit_log2_uint32_def high_masks split: if_splits)

lemma log2_uint64: "log2_of (unat v) (unat (my_bit_log2_uint64 v)) \<and> unat (my_bit_log2_uint64 v) < 64"
  using log2_step [where f = my_bit_log2_uint32 and s = 32 and b = 32 and v = v, OF log2_uint32 _ _ _ refl]
  by (auto simp: my_bit_log2_uint64_def high_masks split: if_splits)

section \<open>Smearing the highest bit downwards\<close>

text \<open>The bits of \<open>x\<close> say which windows of width \<open>n\<close> of \<open>v\<close> have a bit set.\<close>

definition smeared :: "nat \<Rightarrow> 'a::len word \<Rightarrow> 'a word \<Rightarrow> bool" where
  "smeared n v x \<longleftrightarrow> (\<forall>i. bit x i \<longleftrightarrow> (\<exists>j. i \<le> j \<and> j < i + n \<and> bit v j))"

lemma smeared_double: "smeared n v x \<Longrightarrow> smeared (n + n) v (x OR drop_bit n x)"
  unfolding smeared_def
proof (intro allI)
  fix i
  assume x: "\<forall>i. bit x i = (\<exists>j. i \<le> j \<and> j < i + n \<and> bit v j)"
  have "(\<exists>j. i \<le> j \<and> j < i + (n + n) \<and> bit v j) \<longleftrightarrow>
      (\<exists>j. i \<le> j \<and> j < i + n \<and> bit v j) \<or> (\<exists>j. i + n \<le> j \<and> j < i + n + n \<and> bit v j)"
    (is "?l \<longleftrightarrow> ?a \<or> ?b")
  proof
    assume ?l
    then obtain j where "i \<le> j" "j < i + (n + n)" "bit v j" by blast
    then show "?a \<or> ?b" by (cases "j < i + n") (auto simp: not_less)
  next
    assume "?a \<or> ?b"
    then show ?l
    proof
      assume ?a
      then obtain j where "i \<le> j" "j < i + n" "bit v j" by blast
      then show ?l by (intro exI [of _ j]) simp
    next
      assume ?b
      then obtain j where "i + n \<le> j" "j < i + n + n" "bit v j" by blast
      then show ?l by (intro exI [of _ j]) simp
    qed
  qed
  with x show "bit (x OR drop_bit n x) i = (\<exists>j. i \<le> j \<and> j < i + (n + n) \<and> bit v j)"
    by (simp add: bit_or_iff bit_drop_bit_eq add.commute)
qed

lemma smeared_refl: "smeared 1 v v"
proof -
  have "(\<exists>j. i \<le> j \<and> j < i + 1 \<and> bit v j) \<longleftrightarrow> bit v i" for i
  proof
    assume "\<exists>j. i \<le> j \<and> j < i + 1 \<and> bit v j"
    then obtain j where "i \<le> j" "j < i + 1" "bit v j" by blast
    then show "bit v i" by (simp add: le_less_Suc_eq)
  qed auto
  then show ?thesis by (simp add: smeared_def)
qed

definition smear :: "32 word \<Rightarrow> 32 word" where
  "smear w = (let w = w OR drop_bit 1 w; w = w OR drop_bit 2 w; w = w OR drop_bit 4 w;
                  w = w OR drop_bit 8 w in w OR drop_bit 16 w)"

lemma smeared_smear: "smeared 32 v (smear v)"
proof -
  note d = smeared_double [OF smeared_refl [of v], simplified]
  from smeared_double [OF smeared_double [OF smeared_double [OF smeared_double [OF d]]]]
  show ?thesis by (simp add: smear_def Let_def numeral_eq_Suc)
qed

lemma bit_smear: "bit (smear v) i \<longleftrightarrow> (\<exists>j \<ge> i. bit v j)"
proof -
  have "j < 32" if "bit v j" for j using that bit_imp_le_length by fastforce
  then show ?thesis
    using smeared_smear [of v] by (auto simp: smeared_def) (metis le_add1 trans_less_add2)
qed

text \<open>The highest bit by position, as a logarithm gives it.\<close>

lemma bit_unat: "bit v j \<longleftrightarrow> odd (unat v div 2 ^ j)" for v :: "'a::len word"
  using bit_unsigned_iff [of v j, where 'a = nat] bit_imp_le_length [of v j] by (auto simp: bit_iff_odd)

lemma log2_of_bits:
  fixes v :: "'a::len word"
  assumes "v \<noteq> 0" "log2_of (unat v) k"
  shows "bit v k" "k < j \<Longrightarrow> \<not> bit v j"
proof -
  from assms have b: "2 ^ k \<le> unat v" "unat v < 2 ^ (k + 1)" by (auto simp: log2_of_def unat_eq_0)
  then have "unat v div 2 ^ k = 1"
    by (metis One_nat_def add.right_neutral add_Suc_right div_nat_eqI mult.commute mult_2 nat_mult_1 one_add_one power_Suc mult_1_right Suc_1 plus_1_eq_Suc add.commute)
  then show "bit v k" by (simp add: bit_unat)
  assume "k < j"
  then have "(2::nat) ^ (k + 1) \<le> 2 ^ j" by (intro power_increasing) auto
  with b(2) have "unat v div 2 ^ j = 0" by (simp add: div_eq_0_iff)
  then show "\<not> bit v j" by (simp add: bit_unat)
qed

lemma smear_mask:
  assumes "v \<noteq> 0" "log2_of (unat v) k"
  shows "smear v = mask (k + 1)"
proof -
  have "k < 32" using log2_of_bits(1) [OF assms] bit_imp_le_length by fastforce
  then show ?thesis
    using log2_of_bits [OF assms]
    by (intro bit_word_eqI) (auto simp: bit_smear bit_mask_iff less_Suc_eq_le intro: exI [of _ k] leI)
qed

lemma unat_take_bit: "unat (take_bit k (v :: 'a::len word)) = unat v mod 2 ^ k"
  by (metis unsigned_take_bit_eq take_bit_nat_def)

lemma unat_pow2: "n < LENGTH('a::len) \<Longrightarrow> unat (2 ^ n :: 'a word) = 2 ^ n"
  using unsigned_of_nat [of "2 ^ n", where 'a = nat and 'b = 'a] by (simp add: take_bit_nat_eq_self)

lemma smear_0 [simp]: "smear 0 = 0" by (simp add: smear_def)

lemma round_up_smear: "my_round_up_to_next_power v = smear (v - 1) + 1"
  by (simp add: my_round_up_to_next_power_def smear_def Let_def)

lemma clear_highest_smear: "my_clear_highest_bit v = v AND smear (drop_bit 1 v)"
  by (simp add: my_clear_highest_bit_def smear_def Let_def)

lemma round_up_bounds:
  assumes "0 < v" "v \<le> 2 ^ 31"
  shows "\<exists>k. unat (my_round_up_to_next_power v) = 2 ^ k \<and> unat v \<le> 2 ^ k \<and> 2 ^ k < 2 * unat v"
proof (cases "v = 1")
  case True
  then show ?thesis by (intro exI [of _ 0]) (simp add: round_up_smear)
next
  case False
  let ?k = "unat (my_bit_log2_uint32 (v - 1))"
  have v1: "unat (v - 1) = unat v - 1" using assms(1) by (simp add: unat_sub_if' word_less_nat_alt)
  from False have nz: "v - 1 \<noteq> 0" by simp
  with log2_uint32 [of "v - 1"] have k: "2 ^ ?k \<le> unat v - 1" "unat v - 1 < 2 ^ (?k + 1)"
    unfolding v1 [symmetric] by (auto simp: log2_of_def unat_eq_0)
  have "unat v \<le> 2 ^ 31" using assms(2) by (simp add: word_le_nat_alt)
  with k(1) assms(1) have "(2::nat) ^ ?k < 2 ^ 31" by (simp add: word_less_nat_alt)
  then have "?k < 31" using power_less_imp_less_exp [of 2 ?k 31] by simp
  then have "unat (mask (?k + 1) + 1 :: 32 word) = 2 ^ (?k + 1)"
    using unat_pow2 [of "?k + 1", where 'a = 32] by (simp add: mask_eq_exp_minus_1)
  moreover have "my_round_up_to_next_power v = mask (?k + 1) + 1"
    using smear_mask [OF nz] log2_uint32 [of "v - 1"] by (simp add: round_up_smear)
  ultimately show ?thesis using k assms(1) by (intro exI [of _ "?k + 1"]) (auto simp: word_less_nat_alt)
qed

lemma round_up_wraps: "v = 0 \<or> 2 ^ 31 < v \<Longrightarrow> my_round_up_to_next_power v = 0"
proof -
  assume v: "v = 0 \<or> 2 ^ 31 < v"
  have "2 ^ 31 \<le> unat (v - 1)"
  proof (cases "v = 0")
    case True
    then show ?thesis by (simp add: unsigned_minus_1_eq_mask mask_eq_exp_minus_1)
  next
    case False
    with v have "2 ^ 31 < unat v" by (simp add: word_less_nat_alt)
    then show ?thesis by (simp add: unat_sub_if' word_less_nat_alt)
  qed
  moreover have "unat (v - 1) < 2 ^ 32" using unsigned_less [of "v - 1", where 'a = nat] by simp
  ultimately have "log2_of (unat (v - 1)) 31" "v - 1 \<noteq> 0" by (auto simp: log2_of_def)
  then have "smear (v - 1) = mask 32" by (subst smear_mask [where k = 31]) auto
  then show ?thesis by (simp add: round_up_smear mask_eq_exp_minus_1)
qed

lemma clear_highest_unat:
  assumes "v \<noteq> 0"
  shows "unat (my_clear_highest_bit v) = unat v - 2 ^ unat (my_bit_log2_uint32 v)"
proof -
  let ?k = "unat (my_bit_log2_uint32 v)"
  have k: "log2_of (unat v) ?k" "?k < 32" using log2_uint32 [of v] by auto
  note b = log2_of_bits [OF assms k(1)]
  have "my_clear_highest_bit v = take_bit ?k v"
  proof (rule bit_word_eqI)
    fix n
    show "bit (my_clear_highest_bit v) n \<longleftrightarrow> bit (take_bit ?k v) n"
      using b by (auto simp: clear_highest_smear bit_and_iff bit_smear bit_drop_bit_eq bit_take_bit_iff
          intro: exI [of _ "?k - 1"]) (metis Suc_le_lessD leI le_less_trans not_less_iff_gr_or_eq)+
  qed
  moreover have "unat v mod 2 ^ ?k = unat v - 2 ^ ?k"
  proof -
    from assms k(1) have "2 ^ ?k \<le> unat v" "unat v < 2 ^ ?k + 2 ^ ?k" by (auto simp: log2_of_def unat_eq_0)
    then show ?thesis by (simp add: le_mod_geq)
  qed
  ultimately show ?thesis by (simp only: unat_take_bit)
qed

section \<open>The lowest bit\<close>

lemma last_bit_table:
  "\<forall>m \<in> set [0..<16]. (last_bit ! m = 32 \<longleftrightarrow> m = 0) \<and>
     (m \<noteq> 0 \<longrightarrow> odd (m div 2 ^ (last_bit ! m)) \<and> last_bit ! m < 4 \<and> m mod 2 ^ (last_bit ! m) = 0)"
  by (simp add: last_bit_def upt_conv_Cons)

lemma nibble_of: "unat (drop_bit s n AND 0xF) = unat n div 2 ^ s mod 16" for n :: "64 word"
proof -
  have "drop_bit s n AND 0xF = take_bit 4 (drop_bit s n)"
    by (simp add: take_bit_eq_mask mask_eq_exp_minus_1)
  then have "unat (drop_bit s n AND 0xF) = unat n div 2 ^ s mod 2 ^ 4"
    by (simp only: unat_take_bit unat_drop_bit)
  then show ?thesis by simp
qed

lemma mod_power_add: "(a :: nat) mod 2 ^ s = 0 \<Longrightarrow> a div 2 ^ s mod 2 ^ t = 0 \<Longrightarrow> a mod 2 ^ (s + t) = 0"
  by (simp add: power_add mod_mult2_eq)

text \<open>The loop finds the lowest bit when everything below \<open>shift\<close> is clear.\<close>

lemma first_bit_loop_correct:
  assumes "n \<noteq> 0" "unat n mod 2 ^ shift = 0" "shift < 64"
  shows "bit n (first_bit_loop n shift) \<and> unat n mod 2 ^ first_bit_loop n shift = 0"
  using assms
proof (induction n shift rule: first_bit_loop.induct)
  case (1 n shift)
  let ?m = "unat n div 2 ^ shift mod 16"
  have m: "?m \<in> set [0..<16]" by simp
  note t = bspec [OF last_bit_table m]
  show ?case
  proof (cases "?m = 0")
    case True
    then have z: "unat n mod 2 ^ (shift + 4) = 0" using mod_power_add [OF 1(3), of 4] by simp
    have "unat n < 2 ^ (shift + 4) \<Longrightarrow> unat n = 0" using z by simp
    moreover have "64 \<le> shift + 4 \<Longrightarrow> unat n < 2 ^ (shift + 4)"
      using unsigned_less [of n, where 'a = nat] power_increasing [of 64 "shift + 4" "2::nat"] by simp
    ultimately have "shift + 4 < 64" using 1(2) by (meson not_less unat_eq_0)
    moreover from True t have "first_bit_loop n shift = first_bit_loop n (shift + 4)"
      using 1(4) by (simp add: first_bit_loop.simps [of n shift] nibble_of Let_def)
    ultimately show ?thesis using 1(1) [OF refl _ 1(4) 1(2) z] True t by (simp add: nibble_of)
  next
    case False
    let ?b = "last_bit ! ?m"
    from False t have b: "first_bit_loop n shift = shift + ?b" "odd (?m div 2 ^ ?b)" "?b < 4" "?m mod 2 ^ ?b = 0"
      by (simp_all add: first_bit_loop.simps [of n shift] nibble_of Let_def)
    have "?m mod 2 ^ ?b = unat n div 2 ^ shift mod 2 ^ ?b"
      using b(3) le_imp_power_dvd [of ?b 4 "2::nat"] by (simp add: mod_mod_cancel)
    with b(4) have "unat n mod 2 ^ (shift + ?b) = 0" using mod_power_add [OF 1(3)] by simp
    moreover have "odd (unat n div 2 ^ shift div 2 ^ ?b)"
      using b(2,3) bit_take_bit_iff [of 4 "unat n div 2 ^ shift" ?b]
      by (simp add: bit_iff_odd take_bit_eq_mod)
    ultimately show ?thesis by (simp add: b(1) bit_unat power_add div_mult2_eq)
  qed
qed

lemma no_lower_bit: "unat v mod 2 ^ k = 0 \<Longrightarrow> j < k \<Longrightarrow> \<not> bit v j" for v :: "'a::len word"
proof -
  assume "unat v mod 2 ^ k = 0" "j < k"
  then have "\<not> bit (take_bit k (unat v)) j" by (simp add: take_bit_eq_mod)
  with \<open>j < k\<close> have "\<not> bit (unat v) j" by (simp only: bit_take_bit_iff simp_thms)
  then show ?thesis by (simp add: bit_unat bit_iff_odd)
qed

lemma find_first_bit_least:
  assumes "n \<noteq> 0"
  shows "bit n (my_find_first_bit n)" "j < my_find_first_bit n \<Longrightarrow> \<not> bit n j" "my_find_first_bit n < 64"
proof -
  have c: "bit n (my_find_first_bit n)" "unat n mod 2 ^ my_find_first_bit n = 0"
    using first_bit_loop_correct [OF assms, of 0] assms by (simp_all add: my_find_first_bit_def)
  show "bit n (my_find_first_bit n)" by (rule c(1))
  show "j < my_find_first_bit n \<Longrightarrow> \<not> bit n j" by (rule no_lower_bit [OF c(2)])
  show "my_find_first_bit n < 64" using bit_imp_le_length [OF c(1)] by simp
qed

section \<open>Masks and reversal\<close>

lemma set_bits_mask:
  assumes "1 \<le> n" "n \<le> 64"
  shows "my_set_bits n = mask (nat n)"
proof -
  obtain k where k: "nat n = Suc k" "nat (n - 1) = k" "k < 64"
    using assms by (cases "nat n") auto
  have "push_bit (nat (n - 1)) 1 - 1 = (mask k :: 64 word)" by (simp add: k mask_eq_exp_minus_1)
  then show ?thesis
    unfolding my_set_bits_def by (simp only: k(1) mask_Suc_double push_bit_eq_mult or.commute [of 1]) (simp add: ac_simps)
qed

lemma last_byte_mask_eq:
  assumes "0 < bits"
  shows "unat (last_byte_mask bits) = 2 ^ ((unat bits - 1) mod 8 + 1) - 1"
proof -
  let ?u = "(unat bits - 1) mod 8"
  have "(bits - 1) AND 7 = take_bit 3 (bits - 1)" by (simp add: take_bit_eq_mask mask_eq_exp_minus_1)
  then have used: "unat ((bits - 1) AND 7) = ?u"
    using assms by (simp only: unat_take_bit) (simp add: unat_sub_if' word_less_nat_alt)
  have "push_bit ?u (2 :: uint) - 1 = mask (?u + 1)"
    by (simp add: mask_eq_exp_minus_1 push_bit_eq_mult)
  then have "last_byte_mask bits = mask (?u + 1)"
    by (simp add: last_byte_mask_def used Let_def) (simp add: bit_eq_iff bit_simps)
  moreover have "unat (mask n :: uchar) = 2 ^ min 8 n - 1" for n
    using unsigned_take_bit_eq [of n "-1 :: uchar", where 'a = nat]
    by (simp add: take_bit_minus_one_eq_mask unsigned_minus_1_eq_mask) (simp add: mask_eq_exp_minus_1 min_def)
  moreover have "min 8 (?u + 1) = ?u + 1" using mod_less_divisor [of 8 "unat bits - 1"] by linarith
  ultimately show ?thesis by simp
qed

text \<open>What the name of the table says of its entries.\<close>

definition reverse_table_ok :: "(nat \<Rightarrow> uchar) \<Rightarrow> bool" where
  "reverse_table_ok t \<longleftrightarrow> (\<forall>b < 256. \<forall>i < 8. bit (t b) i \<longleftrightarrow> bit b (7 - i))"

lemma reverse_entry:
  fixes key :: "32 word"
  assumes "reverse_table_ok t" "i < 8"
  shows "bit (t (unat (drop_bit s key AND 255))) i \<longleftrightarrow> bit key (s + (7 - i))"
proof -
  have m: "drop_bit s key AND 255 = take_bit 8 (drop_bit s key)" by (simp add: take_bit_eq_mask mask_eq_exp_minus_1)
  have "unat (drop_bit s key AND 255) < 256"
    unfolding m by (simp only: unat_take_bit) simp
  with assms have "bit (t (unat (drop_bit s key AND 255))) i \<longleftrightarrow> bit (unat (drop_bit s key AND 255)) (7 - i)"
    by (simp add: reverse_table_ok_def)
  also have "\<dots> \<longleftrightarrow> bit (take_bit 8 (drop_bit s key)) (7 - i)"
    unfolding m bit_unat bit_iff_odd [of "unat _"] ..
  also have "\<dots> \<longleftrightarrow> bit key (s + (7 - i))" by (auto simp: bit_take_bit_iff bit_drop_bit_eq)
  finally show ?thesis .
qed

lemma reverse_bits_bit:
  assumes "reverse_table_ok t" "i < 32"
  shows "bit (my_reverse_bits t key) i \<longleftrightarrow> bit key (31 - i)"
proof -
  have top: "drop_bit 24 key = drop_bit 24 key AND 255"
  proof (rule bit_word_eqI)
    fix n
    have m: "(255 :: 32 word) = mask 8" by (simp add: mask_eq_exp_minus_1)
    show "bit (drop_bit 24 key) n = bit (drop_bit 24 key AND 255) n"
      unfolding m by (auto simp: bit_simps dest: bit_imp_le_length)
  qed
  have u: "bit (push_bit p (ucast (t (unat (drop_bit s key AND 255)))) :: 32 word) i \<longleftrightarrow>
      p \<le> i \<and> i < p + 8 \<and> bit key (31 - i)" if "s + p = 24" for s p
  proof -
    have "bit (t b) n \<Longrightarrow> n < 8" for b n using bit_imp_le_length [of "t b" n] by simp
    then have "bit (push_bit p (ucast (t (unat (drop_bit s key AND 255)))) :: 32 word) i \<longleftrightarrow>
        p \<le> i \<and> i - p < 8 \<and> bit (t (unat (drop_bit s key AND 255))) (i - p)"
      using assms(2) by (auto simp: bit_push_bit_iff bit_ucast_iff)
    also have "\<dots> \<longleftrightarrow> p \<le> i \<and> i - p < 8 \<and> bit key (s + (7 - (i - p)))"
      using reverse_entry [OF assms(1), of "i - p" s key] by blast
    also have "\<dots> \<longleftrightarrow> p \<le> i \<and> i < p + 8 \<and> bit key (31 - i)"
    proof (cases "p \<le> i \<and> i < p + 8")
      case True
      then have "s + (7 - (i - p)) = 31 - i" using that by linarith
      with True show ?thesis by auto
    qed auto
    finally show ?thesis .
  qed
  have r: "my_reverse_bits t key = push_bit 24 (ucast (t (unat (drop_bit 0 key AND 255)))) OR
     push_bit 16 (ucast (t (unat (drop_bit 8 key AND 255)))) OR
     push_bit 8 (ucast (t (unat (drop_bit 16 key AND 255)))) OR
     ucast (t (unat (drop_bit 24 key AND 255)))"
    unfolding my_reverse_bits_def by (subst top) simp
  have "push_bit 0 (ucast (t (unat (drop_bit 24 key AND 255)))) = (ucast (t (unat (drop_bit 24 key AND 255))) :: 32 word)"
    by simp
  then show ?thesis
    using u [of 0 24] u [of 8 16] u [of 16 8] u [of 24 0] assms(2) unfolding r bit_or_iff by auto
qed

end
