(* ===== verification/Bit_Count.thy ===== *)
theory Bit_Count
  imports My_Bit
begin

text \<open>
  The parallel bit count of \<open>my_bit.h\<close> against the definition by counting positions, and the
  guarantees of the header's functions.
\<close>

section \<open>Counting bits\<close>

text \<open>Numbers as lists of fields, lowest first.\<close>

primrec fields :: "nat \<Rightarrow> nat list \<Rightarrow> nat" where
  "fields w [] = 0"
| "fields w (d # ds) = d + 2 ^ w * fields w ds"

lemma and_low_high:
  fixes a m r s :: nat
  assumes "a < 2 ^ w" "m < 2 ^ w"
  shows "(a + 2 ^ w * r) AND (m + 2 ^ w * s) = (a AND m) + 2 ^ w * (r AND s)"
proof -
  have split: "(x :: nat) + 2 ^ w * y = x OR push_bit w y" if "x < 2 ^ w" for x y
  proof -
    have "x AND push_bit w y = 0"
      using that by (auto simp: bit_eq_iff bit_simps) (metis bit_take_bit_iff leD take_bit_nat_eq_self)
    then show ?thesis by (simp add: disjunctive_add push_bit_eq_mult ac_simps disjunctive_add_eq_or)
  qed
  have "a AND m < 2 ^ w" using assms(1) by (metis take_bit_and take_bit_nat_eq_self_iff assms(2))
  then show ?thesis
    using assms by (auto simp: split bit_eq_iff bit_simps dest: leD)
      (metis bit_take_bit_iff leD take_bit_nat_eq_self)+
qed

abbreviation pack :: "nat \<Rightarrow> (nat \<times> nat) list \<Rightarrow> nat" where
  "pack k ps \<equiv> fields (2 * k) (map (\<lambda>(a, b). a + 2 ^ k * b) ps)"

abbreviation low_mask :: "nat \<Rightarrow> nat \<Rightarrow> nat" where
  "low_mask k n \<equiv> fields (2 * k) (replicate n (mask k))"

definition narrow :: "nat \<Rightarrow> (nat \<times> nat) list \<Rightarrow> bool" where
  "narrow k ps \<longleftrightarrow> (\<forall>(a, b) \<in> set ps. a < 2 ^ k \<and> b < 2 ^ k)"

lemma pack_digit: "a < 2 ^ k \<Longrightarrow> b < 2 ^ k \<Longrightarrow> a + 2 ^ k * b < (2 :: nat) ^ (2 * k)"
proof -
  assume "a < 2 ^ k" "b < 2 ^ k"
  then have "a + 2 ^ k * b < 2 ^ k * (1 + b)" by simp
  also have "\<dots> \<le> 2 ^ k * 2 ^ k" using \<open>b < 2 ^ k\<close> by (intro mult_left_mono) auto
  finally show ?thesis by (simp add: mult_2 power_add)
qed

lemma low_lt: "mask k < (2 :: nat) ^ (2 * k)"
proof -
  have "(2 :: nat) ^ k \<le> 2 ^ (2 * k)" by (rule power_increasing) auto
  moreover have "mask k < (2 :: nat) ^ k" by (simp add: mask_eq_exp_minus_1)
  ultimately show ?thesis by linarith
qed

lemma shift_pack: "b + 2 ^ k * (m + 2 ^ k * q) = (b + 2 ^ k * m) + 2 ^ (2 * k) * (q :: nat)"
  by (simp add: algebra_simps mult_2 [of k] power_add [symmetric] del: mult_2_right)

lemma and_low: "a < 2 ^ k \<Longrightarrow> (a + 2 ^ k * b) AND mask k = (a :: nat)"
  by (metis mod_less mod_mult_self2 take_bit_eq_mask take_bit_eq_mod)

lemma pack_and_low: "narrow k ps \<Longrightarrow> pack k ps AND low_mask k (length ps) = fields (2 * k) (map fst ps)"
proof (induction ps)
  case (Cons p ps)
  obtain a b where p: "p = (a, b)" by force
  with Cons.prems have ab: "a < 2 ^ k" "b < 2 ^ k" "narrow k ps" by (auto simp: narrow_def)
  then show ?case
    using low_lt [of k] ab Cons.IH by (simp add: p and_low_high pack_digit and_low)
qed simp

lemma pack_and_high:
  "narrow k ps \<Longrightarrow> (pack k ps div 2 ^ k) AND low_mask k (length ps) = fields (2 * k) (map snd ps)"
proof (induction ps)
  case (Cons p ps)
  obtain a b where p: "p = (a, b)" by force
  with Cons.prems have ab: "a < 2 ^ k" "b < 2 ^ k" "narrow k ps" by (auto simp: narrow_def)
  let ?r = "pack k ps"
  have "(a + 2 ^ k * b + 2 ^ (2 * k) * ?r) div 2 ^ k = b + 2 ^ k * ?r"
    using ab by (simp only: shift_pack [of a k b, symmetric] div_mult_self2 div_less)
  also have "\<dots> = (b + 2 ^ k * (?r mod 2 ^ k)) + 2 ^ (2 * k) * (?r div 2 ^ k)"
    by (simp only: shift_pack [symmetric] mod_mult_div_eq)
  finally have d: "pack k (p # ps) div 2 ^ k = (b + 2 ^ k * (?r mod 2 ^ k)) + 2 ^ (2 * k) * (?r div 2 ^ k)"
    by (simp add: p)
  have "b + 2 ^ k * (?r mod 2 ^ k) < 2 ^ (2 * k)" using ab by (intro pack_digit) auto
  then show ?case
    unfolding d using low_lt [of k] ab Cons.IH by (simp add: p and_low_high and_low)
qed simp

lemma fields_add: "length xs = length ys \<Longrightarrow> fields w (map2 (+) xs ys) = fields w xs + fields w ys"
  by (induction xs ys rule: list_induct2) (simp_all add: algebra_simps)

lemma pack_fst_snd: "pack k ps = fields (2 * k) (map fst ps) + 2 ^ k * fields (2 * k) (map snd ps)"
  by (induction ps) (auto simp: algebra_simps)

lemma fields_lt: "\<forall>d \<in> set ds. d < 2 ^ w \<Longrightarrow> fields w ds < 2 ^ (w * length ds)"
proof (induction ds)
  case (Cons d ds)
  then have "d + 2 ^ w * fields w ds < 2 ^ w * (1 + fields w ds)" by simp
  also have "\<dots> \<le> 2 ^ w * 2 ^ (w * length ds)" using Cons by (intro mult_left_mono) auto
  finally show ?case by (simp add: power_add)
qed simp

text \<open>A number below \<open>2^(wn)\<close> is the list of its fields.\<close>

lemma fields_of: "x < 2 ^ (w * n) \<Longrightarrow> x = fields w (map (\<lambda>i. x div 2 ^ (w * i) mod 2 ^ w) [0..<n])"
proof (induction n arbitrary: x)
  case (Suc n)
  have "x div 2 ^ w < 2 ^ (w * n)"
    using Suc.prems by (simp add: div_less_iff_less_mult power_add mult.commute)
  from Suc.IH [OF this] have
    "x div 2 ^ w = fields w (map (\<lambda>i. x div 2 ^ (w * Suc i) mod 2 ^ w) [0..<n])"
    by (simp add: div_mult2_eq [symmetric] power_add)
  then have "fields w (map (\<lambda>i. x div 2 ^ (w * i) mod 2 ^ w) [0..<Suc n]) = x mod 2 ^ w + 2 ^ w * (x div 2 ^ w)"
    by (simp add: upt_conv_Cons map_Suc_upt [symmetric] comp_def del: upt_Suc)
  then show ?case by simp
qed simp

lemma fields_append: "fields w (xs @ ys) = fields w xs + 2 ^ (w * length xs) * fields w ys"
  by (induction xs) (simp_all add: algebra_simps power_add)

abbreviation pairs :: "(nat \<Rightarrow> nat) \<Rightarrow> nat \<Rightarrow> (nat \<times> nat) list" where
  "pairs f n \<equiv> map (\<lambda>i. (f (2 * i), f (2 * i + 1))) [0..<n]"

lemma fields_pairs: "fields k (map f [0..<2 * n]) = pack k (pairs f n)"
proof (induction n)
  case (Suc n)
  have "[0..<2 * Suc n] = [0..<2 * n] @ [2 * n, 2 * n + 1]" by simp
  then show ?case
    using Suc by (simp only: map_append fields_append upt_Suc_append zero_le) (simp add: mult.assoc mult.left_commute)
qed simp

lemma sum_pairs: "(\<Sum>i<2 * n. f i) = (\<Sum>i<n. f (2 * i) + f (2 * i + 1 :: nat))" for f :: "nat \<Rightarrow> nat"
  by (induction n) simp_all

text \<open>One step of the summation in parallel, for fields of any width.\<close>

lemma add_adjacent:
  assumes "\<And>i. f i < 2 ^ k"
  shows "(fields k (map f [0..<2 * n]) AND low_mask k n) + (fields k (map f [0..<2 * n]) div 2 ^ k AND low_mask k n)
    = fields (2 * k) (map (\<lambda>i. f (2 * i) + f (2 * i + 1)) [0..<n])"
proof -
  have "narrow k (pairs f n)" using assms by (auto simp: narrow_def)
  note p = pack_and_low [OF this] pack_and_high [OF this]
  have "map (\<lambda>i. f (2 * i) + f (2 * i + 1)) [0..<n] = map2 (+) (map fst (pairs f n)) (map snd (pairs f n))"
    by (simp add: comp_def zip_map_map zip_same_conv_map)
  then show ?thesis using p by (simp add: fields_pairs fields_add comp_def)
qed

lemma replicate_lits:
  "replicate 16 x = [x, x, x, x, x, x, x, x, x, x, x, x, x, x, x, x]"
  "replicate 8 x = [x, x, x, x, x, x, x, x]" "replicate 4 x = [x, x, x, x]"
  by (simp_all add: numeral_eq_Suc)

lemma count_masks: "low_mask 1 16 = 0x55555555" "low_mask 2 8 = 0x33333333" "low_mask 4 4 = 0xF0F0F0F"
  by (simp_all add: replicate_lits mask_eq_exp_minus_1)

text \<open>The bits of a word as numbers.\<close>

definition bit_nat :: "32 word \<Rightarrow> nat \<Rightarrow> nat" where
  "bit_nat v i = unat v div 2 ^ i mod 2"

lemma bit_nat_le: "bit_nat v i \<le> 1"
  by (simp add: bit_nat_def)

lemma bit_nat_high: "32 \<le> i \<Longrightarrow> bit_nat v i = 0"
proof -
  assume "32 \<le> i"
  then have "(2 :: nat) ^ 32 \<le> 2 ^ i" by (intro power_increasing) auto
  then have "unat v < 2 ^ i" using unsigned_less [of v, where 'a = nat] by simp
  then show ?thesis by (simp add: bit_nat_def)
qed

lemma unat_bits: "unat v = fields 1 (map (bit_nat v) [0..<2 * 16])"
  using fields_of [of "unat v" 1 32] unsigned_less [of v, where 'a = nat] by (simp add: bit_nat_def [abs_def])

abbreviation sum2 :: "(nat \<Rightarrow> nat) \<Rightarrow> nat \<Rightarrow> nat" where
  "sum2 f \<equiv> \<lambda>i. f (2 * i) + f (2 * i + 1)"

lemma count_step1: "unat (v - (drop_bit 1 v AND 0x55555555)) = fields 2 (map (sum2 (bit_nat v)) [0..<2 * 8])"
proof -
  let ?p = "pairs (bit_nat v) 16"
  have nar: "narrow 1 ?p" using bit_nat_le [of v] by (auto simp: narrow_def numeral_2_eq_2 less_Suc_eq_le)
  have v: "unat v = pack 1 ?p" unfolding unat_bits [of v] fields_pairs ..
  have s: "unat (drop_bit 1 v AND 0x55555555) = fields 2 (map snd ?p)"
    using pack_and_high [OF nar] count_masks(1) v
    by (simp add: unsigned_and_eq unat_drop_bit)
  have "map (sum2 (bit_nat v)) [0..<16] = map2 (+) (map fst ?p) (map snd ?p)"
    by (simp add: comp_def zip_map_map zip_same_conv_map)
  then have f: "fields 2 (map (sum2 (bit_nat v)) [0..<2 * 8]) = fields 2 (map fst ?p) + fields 2 (map snd ?p)"
    by (simp add: fields_add)
  from v pack_fst_snd [of 1 ?p] have "unat v = fields 2 (map fst ?p) + 2 * fields 2 (map snd ?p)" by simp
  with s f show ?thesis by (simp add: unat_sub_if')
qed

lemma count_step2:
  fixes v :: "32 word"
  assumes "unat v = fields 2 (map f [0..<2 * 8])" "\<And>i. f i \<le> 2"
  shows "unat ((v AND 0x33333333) + (drop_bit 2 v AND 0x33333333)) = fields 4 (map (sum2 f) [0..<8])"
proof -
  have lt: "f i < 2 ^ 2" for i using assms(2) [of i] by simp
  have eq: "unat (v AND 0x33333333) + unat (drop_bit 2 v AND 0x33333333) = fields 4 (map (sum2 f) [0..<8])"
    using add_adjacent [of f 2 8, OF lt] count_masks(2)
    by (simp add: unsigned_and_eq unat_drop_bit assms(1) del: fields.simps)
  have "sum2 f i < 2 ^ 4" for i using assms(2) [of "2 * i"] assms(2) [of "2 * i + 1"] by simp
  then have "fields 4 (map (sum2 f) [0..<8]) < 2 ^ (4 * length (map (sum2 f) [0..<8]))" by (intro fields_lt) auto
  with eq show ?thesis by (simp add: unat_word_ariths)
qed

lemma count_step3:
  fixes v :: "32 word"
  assumes "unat v = fields 4 (map f [0..<8])" "\<And>i. f i \<le> 4" "f 8 = 0"
  shows "unat ((v + drop_bit 4 v) AND 0xF0F0F0F) = fields 8 (map (sum2 f) [0..<4])"
proof -
  let ?g = "\<lambda>i. f i + f (i + 1)"
  have "map f [0..<8] = f 0 # map (\<lambda>i. f (i + 1)) [0..<7]"
    by (simp add: upt_conv_Cons map_Suc_upt [symmetric] comp_def del: upt_Suc)
  then have "unat v div 2 ^ 4 = fields 4 (map (\<lambda>i. f (i + 1)) [0..<7])"
    using assms(2) [of 0] by (simp add: assms(1))
  also have "\<dots> = fields 4 (map (\<lambda>i. f (i + 1)) [0..<8])"
    using assms(3) upt_Suc_append [of 0 7] by (simp add: fields_append)
  finally have d: "unat v div 2 ^ 4 = fields 4 (map (\<lambda>i. f (i + 1)) [0..<8])" .
  have "map ?g [0..<8] = map2 (+) (map f [0..<8]) (map (\<lambda>i. f (i + 1)) [0..<8])"
    by (simp add: zip_map_map zip_same_conv_map)
  then have sum: "unat v + unat v div 2 ^ 4 = fields 4 (map ?g [0..<2 * 4])"
    by (simp only: mult_2 numeral_plus_numeral add_num_simps fields_add length_map assms(1) [symmetric] d [symmetric])
  have lt: "?g i < 2 ^ 4" for i using assms(2) [of i] assms(2) [of "i + 1"] by simp
  then have "fields 4 (map ?g [0..<2 * 4]) < 2 ^ (4 * length (map ?g [0..<2 * 4]))" by (intro fields_lt) auto
  then have w: "unat (v + drop_bit 4 v) = fields 4 (map ?g [0..<2 * 4])"
    using sum by (simp add: unat_word_ariths unat_drop_bit)
  have "narrow 4 (pairs ?g 4)" using lt by (auto simp: narrow_def)
  from pack_and_low [OF this] have "fields 4 (map ?g [0..<2 * 4]) AND 0xF0F0F0F = fields 8 (map (sum2 f) [0..<4])"
    unfolding fields_pairs using count_masks(3) by (simp add: comp_def)
  then show ?thesis by (simp only: unsigned_and_eq w) simp
qed

lemma upt4: "[0..<4] = [0, 1, 2, 3 :: nat]"
  by (simp add: numeral_eq_Suc)

lemma count_step4:
  fixes v :: "32 word"
  assumes "unat v = fields 8 (map f [0..<4])" "\<And>i. f i \<le> 8"
  shows "unat (drop_bit 24 (v * 0x1010101)) = f 0 + f 1 + f 2 + f 3"
proof -
  let ?r = "f 0 + 2 ^ 8 * (f 0 + f 1) + 2 ^ 16 * (f 0 + f 1 + f 2)"
  let ?s = "f 0 + f 1 + f 2 + f 3"
  have "unat v = f 0 + 2 ^ 8 * f 1 + 2 ^ 16 * f 2 + 2 ^ 24 * f 3"
    by (simp add: assms(1) upt4)
  then have p: "unat v * 0x1010101 = ?r + 2 ^ 24 * ?s + 2 ^ 32 * (f 1 + f 2 + f 3 + 2 ^ 8 * (f 2 + f 3) + 2 ^ 16 * f 3)"
    by simp
  have small: "?r < 2 ^ 24" "?s < 2 ^ 8" using assms(2) [of 0] assms(2) [of 1] assms(2) [of 2] assms(2) [of 3] by simp_all
  then have "(?r + 2 ^ 24 * ?s) < 2 ^ 32" by simp
  then have "unat v * 0x1010101 mod 2 ^ 32 = ?r + 2 ^ 24 * ?s" unfolding p by (simp only: mod_mult_self2 mod_less)
  then have "unat (v * 0x1010101) = ?r + 2 ^ 24 * ?s" by (simp add: unat_word_ariths)
  then have "unat (drop_bit 24 (v * 0x1010101)) = (?r + 2 ^ 24 * ?s) div 2 ^ 24" by (simp only: unat_drop_bit)
  also have "\<dots> = ?s" using small(1) by (simp only: div_mult_self2) simp
  finally show ?thesis .
qed

lemma sum4: "(\<Sum>i<4. g i) = g 0 + g 1 + g 2 + g 3" for g :: "nat \<Rightarrow> nat"
  by (simp add: numeral_eq_Suc)

lemma sum_split_add: "(\<Sum>i<m + n. g i) = (\<Sum>i<m. g i) + (\<Sum>i<n. g (m + i))" for g :: "nat \<Rightarrow> nat"
  by (induction n) simp_all

lemma sum2_le: "(\<And>i. f i \<le> c) \<Longrightarrow> sum2 f i \<le> 2 * c"
  by (simp add: add_mono mult_2)

lemma count_bits_uint32: "unat (my_count_bits_uint32 v) = (\<Sum>i<32. bit_nat v i)"
proof -
  let ?b = "bit_nat v"
  have le: "sum2 ?b i \<le> 2" "sum2 (sum2 ?b) i \<le> 4" "sum2 (sum2 (sum2 ?b)) i \<le> 8" for i
    using sum2_le [of ?b 1] sum2_le [of "sum2 ?b" 2] sum2_le [of "sum2 (sum2 ?b)" 4] bit_nat_le [of v] by simp_all
  note s1 = count_step1 [of v]
  note s2 = count_step2 [OF s1 le(1)]
  have "sum2 (sum2 ?b) 8 = 0" by (simp add: bit_nat_high)
  note s3 = count_step3 [OF s2 le(2) this]
  note s4 = count_step4 [OF s3 le(3)]
  have "(\<Sum>i<32. ?b i) = (\<Sum>i<4. sum2 (sum2 (sum2 ?b)) i)"
    using sum_pairs [of ?b 16] sum_pairs [of "sum2 ?b" 8] sum_pairs [of "sum2 (sum2 ?b)" 4] by simp
  also have "\<dots> = unat (my_count_bits_uint32 v)"
    unfolding my_count_bits_uint32_def Let_def s4 by (rule sum4)
  finally show ?thesis by simp
qed

text \<open>The reference definition of the number of bits set.\<close>

definition pop_count :: "'a::len word \<Rightarrow> nat" where
  "pop_count v = length (filter (bit v) [0..<LENGTH('a)])"

lemma pop_count_sum: "pop_count v = (\<Sum>i<LENGTH('a). of_bool (bit v i))" for v :: "'a::len word"
proof -
  have "length (filter (bit v) [0..<LENGTH('a)]) = card (set (filter (bit v) [0..<LENGTH('a)]))"
    by (rule distinct_card [symmetric]) simp
  also have "set (filter (bit v) [0..<LENGTH('a)]) = {..<LENGTH('a)} \<inter> Collect (bit v)" by auto
  finally show ?thesis by (simp add: pop_count_def)
qed

lemma pop_count_uint32: "unat (my_count_bits_uint32 v) = pop_count v"
proof -
  have "bit_nat v i = of_bool (bit v i)" for i
    by (simp add: bit_nat_def bit_unat mod2_eq_if)
  then show ?thesis by (simp add: count_bits_uint32 pop_count_sum)
qed

lemma pop_count_le: "pop_count (v :: 'a::len word) \<le> LENGTH('a)"
  by (metis length_filter_le length_upt minus_nat.diff_0 pop_count_def)

lemma pop_count_count_bits: "unat (my_count_bits x) = pop_count x"
proof -
  let ?lo = "ucast x :: 32 word" and ?hi = "ucast (drop_bit 32 x) :: 32 word"
  have "(\<Sum>i<64. of_bool (bit x i)) = (\<Sum>i<32. of_bool (bit x i)) + (\<Sum>i<32. of_bool (bit x (32 + i)) :: nat)"
    using sum_split_add [of "\<lambda>i. of_bool (bit x i)" 32 32] by (simp only: numeral_plus_numeral add_num_simps)
  moreover have "pop_count ?lo = (\<Sum>i<32. of_bool (bit x i))" "pop_count ?hi = (\<Sum>i<32. of_bool (bit x (32 + i)))"
    by (simp_all add: pop_count_sum bit_ucast_iff bit_drop_bit_eq)
  ultimately have "pop_count x = pop_count ?lo + pop_count ?hi" by (simp add: pop_count_sum)
  moreover have "pop_count ?lo + pop_count ?hi < 2 ^ 32" using pop_count_le [of ?lo] pop_count_le [of ?hi] by simp
  ultimately show ?thesis
    by (simp add: my_count_bits_def unat_word_ariths pop_count_uint32)
qed

section \<open>Guarantees of the bit functions\<close>

text \<open>
  C13. The branch-free count by adding neighbouring fields in parallel returns the number of
  positions at which the 64-bit number has a bit set.
\<close>

theorem my_count_bits_pop_count: "unat (my_count_bits x) = length (filter (bit x) [0..<64])"
  using pop_count_count_bits [of x] by (simp add: pop_count_def)

text \<open>
  The nested halving search returns the position of the highest bit set, at every width up
  to 64 bits.
\<close>

theorem my_bit_log2_highest:
  assumes "x \<noteq> 0"
  shows "2 ^ unat (my_bit_log2_uint64 x) \<le> unat x \<and> unat x < 2 ^ (unat (my_bit_log2_uint64 x) + 1)"
  using log2_uint64 [of x] assms by (auto simp: log2_of_def unat_eq_0)

theorem my_bit_log2_highest_witness:
  "2 ^ unat (my_bit_log2_uint64 0xABC) \<le> unat (0xABC :: 64 word) \<and>
   unat (0xABC :: 64 word) < 2 ^ (unat (my_bit_log2_uint64 0xABC) + 1)"
  by (rule my_bit_log2_highest) simp

text \<open>
  Rounding up returns the least power of two that is not below its argument: between the
  argument and twice it. The argument 0 and arguments above 2^31 wrap around to 0.
\<close>

theorem my_round_up_to_next_power_least:
  "(0 < v \<and> v \<le> 2 ^ 31 \<longrightarrow>
      (\<exists>k. unat (my_round_up_to_next_power v) = 2 ^ k \<and> unat v \<le> 2 ^ k \<and> 2 ^ k < 2 * unat v)) \<and>
   (v = 0 \<or> 2 ^ 31 < v \<longrightarrow> my_round_up_to_next_power v = 0)"
  using round_up_bounds [of v] round_up_wraps [of v] by blast

theorem my_round_up_to_next_power_least_witness:
  "\<exists>k. unat (my_round_up_to_next_power 100) = 2 ^ k \<and> unat (100 :: 32 word) \<le> 2 ^ k \<and> 2 ^ k < 2 * unat (100 :: 32 word)"
  using my_round_up_to_next_power_least [of 100] by simp

end
