(* ===== verification/Sql_Bitmap.thy ===== *)
theory Sql_Bitmap
  imports Bit_Count
begin

text \<open>
  The bitmaps of \<open>sql_bitmap.h\<close>: \<open>Table_map_iterator\<close> and the class template
  \<open>Bitmap<width>\<close> with its iterator, over an array of 64-bit words. The template argument is a
  field of the record. A bitmap stands for a set of numbers below its width; every operation is
  shown to be the operation on sets its name says. The debug printer is left out: its shift
  count leaves the range the language defines.
\<close>

section \<open>Iterating over the bits of a number\<close>

definition TMI_BITMAP_END :: nat where
  "TMI_BITMAP_END = 64"

definition tmi_next_bit :: "ulonglong \<Rightarrow> nat \<times> ulonglong" where
  "tmi_next_bit bmp =
     (if bmp = 0 then (TMI_BITMAP_END, bmp)
      else let b = my_find_first_bit bmp in (b, bmp AND NOT (push_bit b 1)))"

section \<open>The class\<close>

record Bitmap =
  bm_width :: nat
  bm_buffer :: "ulonglong list"

definition BITS_PER_ELEMENT :: nat where
  "BITS_PER_ELEMENT = 64"

definition ARRAY_ELEMENTS :: "nat \<Rightarrow> nat" where
  "ARRAY_ELEMENTS width = (width + BITS_PER_ELEMENT - 1) div BITS_PER_ELEMENT"

definition ALL_BITS_SET :: ulonglong where
  "ALL_BITS_SET = -1"

definition bit_index :: "nat \<Rightarrow> nat \<Rightarrow> nat" where
  "bit_index width n = (if ARRAY_ELEMENTS width = 1 then 0 else n div BITS_PER_ELEMENT)"

definition bit_mask :: "nat \<Rightarrow> nat \<Rightarrow> ulonglong" where
  "bit_mask width n =
     (if ARRAY_ELEMENTS width = 1 then push_bit n 1 else push_bit (n mod BITS_PER_ELEMENT) 1)"

definition last_element_mask :: "nat \<Rightarrow> nat \<Rightarrow> ulonglong" where
  "last_element_mask width n = bit_mask width n - 1"

definition bm_set_bit :: "Bitmap \<Rightarrow> nat \<Rightarrow> Bitmap" where
  "bm_set_bit m n = (let i = bit_index (bm_width m) n in
     m\<lparr>bm_buffer := (bm_buffer m)[i := bm_buffer m ! i OR bit_mask (bm_width m) n]\<rparr>)"

definition bm_clear_bit :: "Bitmap \<Rightarrow> nat \<Rightarrow> Bitmap" where
  "bm_clear_bit m n = (let i = bit_index (bm_width m) n in
     m\<lparr>bm_buffer := (bm_buffer m)[i := bm_buffer m ! i AND NOT (bit_mask (bm_width m) n)]\<rparr>)"

definition bm_is_set :: "Bitmap \<Rightarrow> nat \<Rightarrow> bool" where
  "bm_is_set m n \<longleftrightarrow> bm_buffer m ! bit_index (bm_width m) n AND bit_mask (bm_width m) n \<noteq> 0"

text \<open>\<open>for (i= from; i < to; i++) buffer[i]= v\<close>.\<close>

definition fill_from_to :: "nat \<Rightarrow> nat \<Rightarrow> ulonglong \<Rightarrow> ulonglong list \<Rightarrow> ulonglong list" where
  "fill_from_to from to v b = fold (\<lambda>i b. b[i := v]) [from..<to] b"

definition bm_set_prefix :: "Bitmap \<Rightarrow> nat \<Rightarrow> Bitmap" where
  "bm_set_prefix m prefix_size =
     (let p = min prefix_size (bm_width m);
          idx = p div BITS_PER_ELEMENT;
          b = fill_from_to 0 idx ALL_BITS_SET (bm_buffer m);
          (b, idx) = (if p mod BITS_PER_ELEMENT \<noteq> 0
                      then (b[idx := last_element_mask (bm_width m) p], idx + 1) else (b, idx))
      in m\<lparr>bm_buffer := fill_from_to idx (ARRAY_ELEMENTS (bm_width m)) 0 b\<rparr>)"

definition bm_is_prefix :: "Bitmap \<Rightarrow> nat \<Rightarrow> bool" where
  "bm_is_prefix m prefix_size =
     (let idx = prefix_size div BITS_PER_ELEMENT; b = bm_buffer m in
      if \<not> list_all (\<lambda>i. b ! i = ALL_BITS_SET) [0..<idx] then False
      else if prefix_size mod BITS_PER_ELEMENT \<noteq> 0
      then (if b ! idx \<noteq> last_element_mask (bm_width m) prefix_size then False
            else list_all (\<lambda>i. b ! i = 0) [idx + 1..<ARRAY_ELEMENTS (bm_width m)])
      else list_all (\<lambda>i. b ! i = 0) [idx..<ARRAY_ELEMENTS (bm_width m)])"

definition bm_set_all :: "Bitmap \<Rightarrow> Bitmap" where
  "bm_set_all m =
     (if bm_width m mod BITS_PER_ELEMENT \<noteq> 0 then bm_set_prefix m (bm_width m)
      else if ARRAY_ELEMENTS (bm_width m) > 1
      then m\<lparr>bm_buffer := fill_from_to 0 (ARRAY_ELEMENTS (bm_width m)) ALL_BITS_SET (bm_buffer m)\<rparr>
      else m\<lparr>bm_buffer := (bm_buffer m)[0 := ALL_BITS_SET]\<rparr>)"

definition bm_clear_all :: "Bitmap \<Rightarrow> Bitmap" where
  "bm_clear_all m =
     (if ARRAY_ELEMENTS (bm_width m) > 1
      then m\<lparr>bm_buffer := fill_from_to 0 (ARRAY_ELEMENTS (bm_width m)) 0 (bm_buffer m)\<rparr>
      else m\<lparr>bm_buffer := (bm_buffer m)[0 := 0]\<rparr>)"

text \<open>The loops that combine two bitmaps element by element.\<close>

definition combine :: "(ulonglong \<Rightarrow> ulonglong \<Rightarrow> ulonglong) \<Rightarrow> Bitmap \<Rightarrow> Bitmap \<Rightarrow> Bitmap" where
  "combine f m m2 = m\<lparr>bm_buffer :=
     fold (\<lambda>i b. b[i := f (b ! i) (bm_buffer m2 ! i)]) [0..<ARRAY_ELEMENTS (bm_width m)] (bm_buffer m)\<rparr>"

definition bm_intersect :: "Bitmap \<Rightarrow> Bitmap \<Rightarrow> Bitmap" where
  "bm_intersect = combine (\<lambda>a b. a AND b)"

definition bm_subtract :: "Bitmap \<Rightarrow> Bitmap \<Rightarrow> Bitmap" where
  "bm_subtract = combine (\<lambda>a b. a AND NOT b)"

definition bm_merge :: "Bitmap \<Rightarrow> Bitmap \<Rightarrow> Bitmap" where
  "bm_merge = combine (\<lambda>a b. a OR b)"

definition intersect_and_pad :: "Bitmap \<Rightarrow> ulonglong \<Rightarrow> bool \<Rightarrow> Bitmap" where
  "intersect_and_pad m map2buff pad_with_ones =
     (let w = bm_width m;
          b = (bm_buffer m)[0 := bm_buffer m ! 0 AND map2buff];
          b = fill_from_to 1 (ARRAY_ELEMENTS w) (if pad_with_ones then ALL_BITS_SET else 0) b
      in m\<lparr>bm_buffer :=
           (if ARRAY_ELEMENTS w > 1 \<and> w mod BITS_PER_ELEMENT \<noteq> 0 \<and> pad_with_ones
            then b[ARRAY_ELEMENTS w - 1 := last_element_mask w w] else b)\<rparr>)"

definition bm_intersect_ulonglong :: "Bitmap \<Rightarrow> ulonglong \<Rightarrow> Bitmap" where
  "bm_intersect_ulonglong m map2buff = intersect_and_pad m map2buff False"

definition bm_intersect_extended :: "Bitmap \<Rightarrow> ulonglong \<Rightarrow> Bitmap" where
  "bm_intersect_extended m map2buff =
     intersect_and_pad m map2buff (map2buff AND push_bit 63 1 \<noteq> 0)"

definition bm_is_clear_all :: "Bitmap \<Rightarrow> bool" where
  "bm_is_clear_all m = list_all (\<lambda>i. bm_buffer m ! i = 0) [0..<ARRAY_ELEMENTS (bm_width m)]"

definition bm_is_subset :: "Bitmap \<Rightarrow> Bitmap \<Rightarrow> bool" where
  "bm_is_subset m m2 =
     list_all (\<lambda>i. bm_buffer m ! i AND NOT (bm_buffer m2 ! i) = 0) [0..<ARRAY_ELEMENTS (bm_width m)]"

definition bm_is_overlapping :: "Bitmap \<Rightarrow> Bitmap \<Rightarrow> bool" where
  "bm_is_overlapping m m2 =
     list_ex (\<lambda>i. bm_buffer m ! i AND bm_buffer m2 ! i \<noteq> 0) [0..<ARRAY_ELEMENTS (bm_width m)]"

definition bm_equal :: "Bitmap \<Rightarrow> Bitmap \<Rightarrow> bool" where
  "bm_equal m m2 =
     (if ARRAY_ELEMENTS (bm_width m) > 1 then bm_buffer m = bm_buffer m2
      else bm_buffer m ! 0 = bm_buffer m2 ! 0)"

definition bm_to_ulonglong :: "Bitmap \<Rightarrow> ulonglong" where
  "bm_to_ulonglong m = bm_buffer m ! 0"

definition bm_bits_set :: "Bitmap \<Rightarrow> uint" where
  "bm_bits_set m = fold (\<lambda>i res. res + my_count_bits (bm_buffer m ! i)) [0..<ARRAY_ELEMENTS (bm_width m)] 0"

record BitmapIterator =
  it_map :: Bitmap
  it_offset :: nat
  it_tmi :: ulonglong

definition it_begin :: "Bitmap \<Rightarrow> BitmapIterator" where
  "it_begin m = \<lparr>it_map = m, it_offset = 0, it_tmi = bm_buffer m ! 0\<rparr>"

function it_next :: "BitmapIterator \<Rightarrow> nat \<times> BitmapIterator" where
  "it_next it =
     (case tmi_next_bit (it_tmi it) of (nextbit, tmi) \<Rightarrow>
        if nextbit \<noteq> TMI_BITMAP_END then (it_offset it + nextbit, it\<lparr>it_tmi := tmi\<rparr>)
        else if it_offset it + BITS_PER_ELEMENT \<ge> bm_width (it_map it) then (bm_width (it_map it), it\<lparr>it_tmi := tmi\<rparr>)
        else let offset = it_offset it + BITS_PER_ELEMENT
             in it_next (it\<lparr>it_offset := offset, it_tmi := bm_buffer (it_map it) ! (offset div BITS_PER_ELEMENT)\<rparr>))"
  by pat_completeness auto
termination
  by (relation "measure (\<lambda>it. bm_width (it_map it) - it_offset it)") (auto simp: BITS_PER_ELEMENT_def)

declare it_next.simps [simp del]

section \<open>The set a bitmap stands for\<close>

definition test_bit :: "ulonglong list \<Rightarrow> nat \<Rightarrow> bool" where
  "test_bit b n \<longleftrightarrow> n < 64 * length b \<and> bit (b ! (n div 64)) (n mod 64)"

definition bm_bits :: "Bitmap \<Rightarrow> nat set" where
  "bm_bits m = {n. test_bit (bm_buffer m) n}"

definition bm_ok :: "Bitmap \<Rightarrow> bool" where
  "bm_ok m \<longleftrightarrow> 0 < bm_width m \<and> length (bm_buffer m) = ARRAY_ELEMENTS (bm_width m) \<and>
     bm_bits m \<subseteq> {..<bm_width m}"

lemma ARRAY_ELEMENTS_bounds:
  assumes "0 < w"
  shows "w \<le> 64 * ARRAY_ELEMENTS w" "1 \<le> ARRAY_ELEMENTS w" "64 * ARRAY_ELEMENTS w < w + 64"
  using assms by (auto simp: ARRAY_ELEMENTS_def BITS_PER_ELEMENT_def)

lemma ARRAY_ELEMENTS_cases:
  "w mod 64 \<noteq> 0 \<Longrightarrow> ARRAY_ELEMENTS w = w div 64 + 1" "w mod 64 = 0 \<Longrightarrow> ARRAY_ELEMENTS w = w div 64"
proof -
  have "ARRAY_ELEMENTS w = (64 * (w div 64) + (w mod 64 + 63)) div 64"
    by (simp add: ARRAY_ELEMENTS_def BITS_PER_ELEMENT_def)
  also have "\<dots> = w div 64 + (w mod 64 + 63) div 64" by (simp only: div_mult_self4 zero_neq_numeral [symmetric] not_False_eq_True)
  finally have 1: "ARRAY_ELEMENTS w = w div 64 + (w mod 64 + 63) div 64" .
  have "(r + 63) div 64 = 1" if "r \<noteq> 0" "r < 64" for r :: nat using that by (intro div_nat_eqI) simp_all
  then show "w mod 64 \<noteq> 0 \<Longrightarrow> ARRAY_ELEMENTS w = w div 64 + 1" using 1 by simp
  show "w mod 64 = 0 \<Longrightarrow> ARRAY_ELEMENTS w = w div 64" using 1 by simp
qed

lemma index_mask:
  assumes "n < 64 * ARRAY_ELEMENTS w"
  shows "bit_index w n = n div 64" "bit_mask w n = push_bit (n mod 64) 1" "n div 64 < ARRAY_ELEMENTS w"
  using assms by (auto simp: bit_index_def bit_mask_def BITS_PER_ELEMENT_def less_mult_imp_div_less mult.commute)

lemma test_bit_update:
  "i < length b \<Longrightarrow> test_bit (b[i := x]) n \<longleftrightarrow>
     (if n div 64 = i then bit x (n mod 64) else test_bit b n)"
  by (auto simp: test_bit_def nth_list_update less_mult_imp_div_less mult.commute)

lemma bit_one_shift: "bit (2 ^ k :: ulonglong) j \<longleftrightarrow> j = k \<and> k < 64"
  by (auto simp: bit_exp_iff possible_bit_def)

lemma div_mod_64: "n div 64 = m div 64 \<and> n mod 64 = m mod 64 \<longleftrightarrow> n = (m :: nat)"
  by (metis div_mult_mod_eq)

lemma bm_okD:
  assumes "bm_ok m"
  shows "length (bm_buffer m) = ARRAY_ELEMENTS (bm_width m)" "0 < bm_width m"
    "n \<in> bm_bits m \<Longrightarrow> n < bm_width m" "n < bm_width m \<Longrightarrow> n < 64 * ARRAY_ELEMENTS (bm_width m)"
  using assms ARRAY_ELEMENTS_bounds [of "bm_width m"] by (auto simp: bm_ok_def)

section \<open>Single bits\<close>

lemma bits_set_bit:
  assumes "bm_ok m" "n < bm_width m"
  shows "bm_bits (bm_set_bit m n) = insert n (bm_bits m)"
proof -
  note ok = bm_okD [OF assms(1)]
  note im = index_mask [OF ok(4) [OF assms(2)]]
  have "test_bit (bm_buffer (bm_set_bit m n)) j \<longleftrightarrow> j = n \<or> test_bit (bm_buffer m) j" for j
    using im ok(1) div_mod_64 [of j n]
    by (auto simp: bm_set_bit_def Let_def test_bit_update bit_or_iff bit_one_shift)
      (auto simp: test_bit_def less_mult_imp_div_less mult.commute)
  then show ?thesis by (auto simp: bm_bits_def)
qed

lemma bits_clear_bit:
  assumes "bm_ok m" "n < bm_width m"
  shows "bm_bits (bm_clear_bit m n) = bm_bits m - {n}"
proof -
  note ok = bm_okD [OF assms(1)]
  note im = index_mask [OF ok(4) [OF assms(2)]]
  have "test_bit (bm_buffer (bm_clear_bit m n)) j \<longleftrightarrow> j \<noteq> n \<and> test_bit (bm_buffer m) j" for j
    using im ok(1) div_mod_64 [of j n]
    by (auto simp: bm_clear_bit_def Let_def test_bit_update bit_and_iff bit_not_iff bit_one_shift)
      (auto simp: test_bit_def less_mult_imp_div_less mult.commute)
  then show ?thesis by (auto simp: bm_bits_def)
qed

lemma is_set_bits:
  assumes "bm_ok m" "n < bm_width m"
  shows "bm_is_set m n \<longleftrightarrow> n \<in> bm_bits m"
proof -
  note ok = bm_okD [OF assms(1)]
  note im = index_mask [OF ok(4) [OF assms(2)]]
  have "x AND push_bit k 1 \<noteq> 0 \<longleftrightarrow> bit x k" if "k < 64" for x :: ulonglong and k
    using that bit_eq_iff [of "x AND push_bit k 1" 0] by (auto simp: bit_and_iff bit_one_shift)
  then show ?thesis
    using im ok(1) ok(4) [OF assms(2)] by (simp add: bm_is_set_def bm_bits_def test_bit_def)
qed

lemma bm_ok_same_shape:
  assumes "bm_ok m" "bm_width m' = bm_width m" "length (bm_buffer m') = length (bm_buffer m)"
    "bm_bits m' \<subseteq> {..<bm_width m}"
  shows "bm_ok m'"
  using assms by (simp add: bm_ok_def)

lemma set_clear_shape [simp]:
  "bm_width (bm_set_bit m n) = bm_width m" "length (bm_buffer (bm_set_bit m n)) = length (bm_buffer m)"
  "bm_width (bm_clear_bit m n) = bm_width m" "length (bm_buffer (bm_clear_bit m n)) = length (bm_buffer m)"
  by (simp_all add: bm_set_bit_def bm_clear_bit_def Let_def)

lemma bm_ok_set_bit: "bm_ok m \<Longrightarrow> n < bm_width m \<Longrightarrow> bm_ok (bm_set_bit m n)"
  by (rule bm_ok_same_shape) (auto simp: bits_set_bit dest: bm_okD)

lemma bm_ok_clear_bit: "bm_ok m \<Longrightarrow> n < bm_width m \<Longrightarrow> bm_ok (bm_clear_bit m n)"
  by (rule bm_ok_same_shape) (auto simp: bits_clear_bit dest: bm_okD)

section \<open>Filling and prefixes\<close>

lemma fill_length [simp]: "length (fill_from_to a c v b) = length b"
proof -
  have "length (fold (\<lambda>i b. b[i := v]) is b) = length b" for "is"
    by (induction "is" arbitrary: b) simp_all
  then show ?thesis by (simp add: fill_from_to_def)
qed

lemma fill_nth: "j < length b \<Longrightarrow> fill_from_to a c v b ! j = (if a \<le> j \<and> j < c then v else b ! j)"
proof -
  have "length (fold (\<lambda>i b. b[i := v]) is b) = length b" for "is"
    by (induction "is" arbitrary: b) simp_all
  moreover have "j < length b \<Longrightarrow> fold (\<lambda>i b. b[i := v]) is b ! j = (if j \<in> set is then v else b ! j)" for "is"
    by (induction "is" arbitrary: b) (auto simp: nth_list_update)
  ultimately show "j < length b \<Longrightarrow> ?thesis" by (auto simp: fill_from_to_def)
qed

lemma bit_all_set: "bit ALL_BITS_SET (n mod 64)"
  by (simp add: ALL_BITS_SET_def)

lemma mask_of_last:
  assumes "n < 64 * ARRAY_ELEMENTS w" "n mod 64 \<noteq> 0"
  shows "bit (last_element_mask w n) j \<longleftrightarrow> j < n mod 64"
proof -
  have "last_element_mask w n = mask (n mod 64)"
    using index_mask [OF assms(1)] by (simp add: last_element_mask_def mask_eq_exp_minus_1 push_bit_eq_mult)
  moreover have "n mod 64 < 64" by simp
  ultimately show ?thesis by (auto simp: bit_mask_iff intro: less_trans)
qed

lemma prefix_element:
  "(n div 64 < p div 64 \<or> (n div 64 = p div 64 \<and> n mod 64 < p mod 64)) \<longleftrightarrow> n < (p :: nat)"
proof -
  have "(q < t \<or> (q = t \<and> r < s)) \<longleftrightarrow> 64 * q + r < 64 * t + s" if "r < 64" "s < 64" for q r s t :: nat
    using that by arith
  from this [of "n mod 64" "p mod 64" "n div 64" "p div 64"] show ?thesis by simp
qed

text \<open>The buffer \<open>set_prefix\<close> leaves.\<close>

definition prefix_buffer :: "nat \<Rightarrow> nat \<Rightarrow> nat \<Rightarrow> ulonglong" where
  "prefix_buffer w p i =
     (if i < p div 64 then ALL_BITS_SET
      else if i = p div 64 \<and> p mod 64 \<noteq> 0 then last_element_mask w p else 0)"

lemma set_prefix_nth:
  assumes "bm_ok m" "i < ARRAY_ELEMENTS (bm_width m)"
  shows "bm_buffer (bm_set_prefix m p) ! i = prefix_buffer (bm_width m) (min p (bm_width m)) i"
    "length (bm_buffer (bm_set_prefix m p)) = length (bm_buffer m)"
  using assms(2) bm_okD(1) [OF assms(1)]
  by (auto simp: bm_set_prefix_def Let_def fill_nth prefix_buffer_def BITS_PER_ELEMENT_def nth_list_update)

lemma bit_prefix_buffer:
  assumes "p \<le> w" "0 < w" "n < 64 * ARRAY_ELEMENTS w"
  shows "bit (prefix_buffer w p (n div 64)) (n mod 64) \<longleftrightarrow> n < p"
proof -
  have "p \<le> 64 * ARRAY_ELEMENTS w" using assms ARRAY_ELEMENTS_bounds(1) [of w] by simp
  then have "p mod 64 \<noteq> 0 \<Longrightarrow> p < 64 * ARRAY_ELEMENTS w" by (cases "p = 64 * ARRAY_ELEMENTS w") auto
  then have "bit (prefix_buffer w p (n div 64)) (n mod 64) \<longleftrightarrow>
      n div 64 < p div 64 \<or> (n div 64 = p div 64 \<and> n mod 64 < p mod 64)"
    using bit_all_set [of n] by (auto simp: prefix_buffer_def mask_of_last)
  then show ?thesis by (simp only: prefix_element)
qed

lemma bits_set_prefix:
  assumes "bm_ok m"
  shows "bm_bits (bm_set_prefix m p) = {..<min p (bm_width m)}"
proof -
  note ok = bm_okD [OF assms]
  note sp = set_prefix_nth [OF assms]
  have AE: "0 < ARRAY_ELEMENTS (bm_width m)" using ARRAY_ELEMENTS_bounds(2) [OF ok(2)] by simp
  have "n \<in> bm_bits (bm_set_prefix m p) \<longleftrightarrow> n < min p (bm_width m)" for n
  proof (cases "n < 64 * ARRAY_ELEMENTS (bm_width m)")
    case True
    then have "n div 64 < ARRAY_ELEMENTS (bm_width m)" by (simp add: less_mult_imp_div_less mult.commute)
    from sp(1) [OF this] sp(2) [OF AE] ok(1) True bit_prefix_buffer [of "min p (bm_width m)" "bm_width m" n] ok(2)
    show ?thesis by (simp add: bm_bits_def test_bit_def)
  next
    case False
    with sp(2) [OF AE] ok(1) ok(4) [of n] show ?thesis by (auto simp: bm_bits_def test_bit_def)
  qed
  then show ?thesis by blast
qed

lemma set_prefix_width [simp]: "bm_width (bm_set_prefix m p) = bm_width m"
  by (simp add: bm_set_prefix_def Let_def split_beta)

lemma bm_ok_set_prefix: "bm_ok m \<Longrightarrow> bm_ok (bm_set_prefix m p)"
  using set_prefix_nth(2) [of m 0] bits_set_prefix [of m p] ARRAY_ELEMENTS_bounds(2) [of "bm_width m"]
  by (auto simp: bm_ok_def)

text \<open>Bitmaps of one width with the same bits are equal.\<close>

lemma buffer_ext:
  fixes b c :: "ulonglong list"
  assumes "length b = length c" "\<And>n. n < 64 * length b \<Longrightarrow> bit (b ! (n div 64)) (n mod 64) = bit (c ! (n div 64)) (n mod 64)"
  shows "b = c"
proof (rule nth_equalityI)
  fix i
  assume i: "i < length b"
  show "b ! i = c ! i"
  proof (rule bit_word_eqI)
    fix j
    assume "j < LENGTH(64)"
    then have "j < 64" by simp
    with i assms(2) [of "64 * i + j"] show "bit (b ! i) j = bit (c ! i) j" by simp
  qed
qed (rule assms(1))

lemma bits_ext:
  assumes "length (bm_buffer m) = length (bm_buffer m')" "bm_bits m = bm_bits m'"
  shows "bm_buffer m = bm_buffer m'"
  using assms by (intro buffer_ext) (auto simp: bm_bits_def test_bit_def set_eq_iff)

lemma is_prefix_loops:
  assumes "p \<le> 64 * AE" "AE = ARRAY_ELEMENTS (bm_width m)"
  shows "bm_is_prefix m p \<longleftrightarrow> (\<forall>i < AE. bm_buffer m ! i = prefix_buffer (bm_width m) p i)"
proof -
  let ?b = "bm_buffer m" and ?k = "p div 64"
  have k: "?k < AE \<or> (?k = AE \<and> p mod 64 = 0)"
    using assms(1) div_le_mono [OF assms(1), of 64] by (cases "?k = AE") (auto, presburger)
  show ?thesis
  proof (cases "p mod 64 = 0")
    case True
    then show ?thesis
      using k unfolding bm_is_prefix_def Let_def list_all_iff prefix_buffer_def BITS_PER_ELEMENT_def assms(2) [symmetric]
      by (auto simp: not_less) (metis not_less)
  next
    case False
    then have "?k < AE" using k by simp
    with False show ?thesis
      unfolding bm_is_prefix_def Let_def list_all_iff prefix_buffer_def BITS_PER_ELEMENT_def assms(2) [symmetric]
      by (auto simp: not_less not_less_eq_eq Suc_le_eq) (metis leD less_irrefl)
  qed
qed

lemma is_prefix_bits:
  assumes "bm_ok m" "p \<le> bm_width m"
  shows "bm_is_prefix m p \<longleftrightarrow> bm_bits m = {..<p}"
proof -
  note ok = bm_okD [OF assms(1)]
  let ?w = "bm_width m"
  have AE: "p \<le> 64 * ARRAY_ELEMENTS ?w" "0 < ARRAY_ELEMENTS ?w"
    using assms(2) ARRAY_ELEMENTS_bounds [OF ok(2)] by simp_all
  have len: "length (bm_buffer (bm_set_prefix m p)) = length (bm_buffer m)" by (rule set_prefix_nth(2) [OF assms(1) AE(2)])
  have "bm_is_prefix m p \<longleftrightarrow> (\<forall>i < ARRAY_ELEMENTS ?w. bm_buffer m ! i = prefix_buffer ?w p i)"
    by (rule is_prefix_loops [OF AE(1) refl])
  also have "\<dots> \<longleftrightarrow> bm_buffer m = bm_buffer (bm_set_prefix m p)"
    using set_prefix_nth(1) [OF assms(1), of _ p] assms(2) ok(1) len
    by (auto simp: list_eq_iff_nth_eq min_absorb1)
  also have "\<dots> \<longleftrightarrow> bm_bits m = bm_bits (bm_set_prefix m p)"
    using bits_ext [of m "bm_set_prefix m p"] len by (auto simp: bm_bits_def)
  finally show ?thesis using bits_set_prefix [OF assms(1), of p] assms(2) by (simp add: min_absorb1)
qed

lemma bits_set_all:
  assumes "bm_ok m"
  shows "bm_bits (bm_set_all m) = {..<bm_width m}" "bm_ok (bm_set_all m)"
proof -
  note ok = bm_okD [OF assms]
  let ?w = "bm_width m" and ?AE = "ARRAY_ELEMENTS (bm_width m)"
  have "bm_bits (bm_set_all m) = {..<?w} \<and> bm_ok (bm_set_all m)"
  proof (cases "?w mod 64 = 0")
    case False
    then show ?thesis using bits_set_prefix [OF assms, of ?w] bm_ok_set_prefix [OF assms, of ?w]
      by (simp add: bm_set_all_def BITS_PER_ELEMENT_def)
  next
    case True
    then have AE: "?w = 64 * ?AE" by (auto simp: ARRAY_ELEMENTS_def BITS_PER_ELEMENT_def elim!: dvdE)
    have "i < ?AE \<Longrightarrow> bm_buffer (bm_set_all m) ! i = ALL_BITS_SET" "length (bm_buffer (bm_set_all m)) = ?AE" for i
      using True ok(1) AE ok(2) by (auto simp: bm_set_all_def BITS_PER_ELEMENT_def fill_nth nth_list_update)
    then have "test_bit (bm_buffer (bm_set_all m)) n \<longleftrightarrow> n < ?w" for n
      using bit_all_set [of n] AE by (auto simp: test_bit_def less_mult_imp_div_less mult.commute)
    moreover have "bm_width (bm_set_all m) = ?w" "length (bm_buffer (bm_set_all m)) = ?AE"
      using ok(1) True by (simp_all add: bm_set_all_def BITS_PER_ELEMENT_def)
    ultimately show ?thesis using ok(2) by (auto simp: bm_bits_def bm_ok_def)
  qed
  then show "bm_bits (bm_set_all m) = {..<bm_width m}" "bm_ok (bm_set_all m)" by simp_all
qed

lemma bits_clear_all:
  assumes "bm_ok m"
  shows "bm_bits (bm_clear_all m) = {}" "bm_ok (bm_clear_all m)"
proof -
  note ok = bm_okD [OF assms]
  let ?AE = "ARRAY_ELEMENTS (bm_width m)"
  have 1: "i < ?AE \<Longrightarrow> bm_buffer (bm_clear_all m) ! i = 0" "length (bm_buffer (bm_clear_all m)) = ?AE"
    "bm_width (bm_clear_all m) = bm_width m" for i
    using ok(1) by (auto simp: bm_clear_all_def fill_nth nth_list_update)
  then show "bm_bits (bm_clear_all m) = {}"
    by (auto simp: bm_bits_def test_bit_def less_mult_imp_div_less mult.commute)
  with 1 ok(2) show "bm_ok (bm_clear_all m)" by (auto simp: bm_ok_def)
qed

section \<open>Operations on two bitmaps\<close>

lemma combine_nth:
  assumes "length (bm_buffer m) = ARRAY_ELEMENTS (bm_width m)"
  shows "length (bm_buffer (combine f m m2)) = length (bm_buffer m)"
    "i < length (bm_buffer m) \<Longrightarrow> bm_buffer (combine f m m2) ! i = f (bm_buffer m ! i) (bm_buffer m2 ! i)"
    "bm_width (combine f m m2) = bm_width m"
proof -
  let ?step = "\<lambda>i b. b[i := f (b ! i) (bm_buffer m2 ! i)]"
  have len: "length (fold ?step is b) = length b" for "is" b by (induction "is" arbitrary: b) simp_all
  have "j < length b \<Longrightarrow> distinct is \<Longrightarrow> fold ?step is b ! j = (if j \<in> set is then f (b ! j) (bm_buffer m2 ! j) else b ! j)"
    for "is" b j
    by (induction "is" arbitrary: b) (auto, metis nth_list_update_neq)
  with len show "length (bm_buffer (combine f m m2)) = length (bm_buffer m)"
    "i < length (bm_buffer m) \<Longrightarrow> bm_buffer (combine f m m2) ! i = f (bm_buffer m ! i) (bm_buffer m2 ! i)"
    "bm_width (combine f m m2) = bm_width m"
    using assms by (auto simp: combine_def)
qed

definition same_width :: "Bitmap \<Rightarrow> Bitmap \<Rightarrow> bool" where
  "same_width m m2 \<longleftrightarrow> bm_ok m \<and> bm_ok m2 \<and> bm_width m = bm_width m2"

text \<open>A bitwise operation on the words is the same operation on membership.\<close>

lemma bits_combine:
  assumes "same_width m m2" "\<And>a b i. i < 64 \<Longrightarrow> bit (f a b) i \<longleftrightarrow> g (bit a i) (bit b i)" "\<not> g False False"
  shows "bm_bits (combine f m m2) = {n. g (n \<in> bm_bits m) (n \<in> bm_bits m2)}" "bm_ok (combine f m m2)"
proof -
  have ok: "bm_ok m" "bm_ok m2" "bm_width m2 = bm_width m" using assms(1) by (simp_all add: same_width_def)
  note c = combine_nth [OF bm_okD(1) [OF ok(1)], where f = f and ?m2.0 = m2]
  have len: "length (bm_buffer m2) = length (bm_buffer m)" using ok by (simp add: bm_ok_def)
  have "test_bit (bm_buffer (combine f m m2)) n \<longleftrightarrow> g (test_bit (bm_buffer m) n) (test_bit (bm_buffer m2) n)" for n
    using assms(2) [of "n mod 64"] assms(3) c len
    by (cases "n < 64 * length (bm_buffer m)") (auto simp: test_bit_def less_mult_imp_div_less mult.commute)
  then show b: "bm_bits (combine f m m2) = {n. g (n \<in> bm_bits m) (n \<in> bm_bits m2)}" by (simp add: bm_bits_def)
  have "n < bm_width m" if "g (n \<in> bm_bits m) (n \<in> bm_bits m2)" for n
    using that assms(3) bm_okD(3) [OF ok(1)] bm_okD(3) [OF ok(2)] ok(3) by (cases "n \<in> bm_bits m"; cases "n \<in> bm_bits m2") auto
  then show "bm_ok (combine f m m2)"
    using c ok(1) b by (auto simp: bm_ok_def)
qed

lemma bits_intersect:
  assumes "same_width m m2"
  shows "bm_bits (bm_intersect m m2) = bm_bits m \<inter> bm_bits m2" "bm_ok (bm_intersect m m2)"
  unfolding bm_intersect_def using bits_combine [OF assms, of "\<lambda>a b. a AND b" "(\<and>)"]
  by (auto simp: bit_and_iff)

lemma bits_subtract:
  assumes "same_width m m2"
  shows "bm_bits (bm_subtract m m2) = bm_bits m - bm_bits m2" "bm_ok (bm_subtract m m2)"
  unfolding bm_subtract_def using bits_combine [OF assms, of "\<lambda>a b. a AND NOT b" "\<lambda>x y. x \<and> \<not> y"]
  by (auto simp: bit_and_iff bit_not_iff)

lemma bits_merge:
  assumes "same_width m m2"
  shows "bm_bits (bm_merge m m2) = bm_bits m \<union> bm_bits m2" "bm_ok (bm_merge m m2)"
  unfolding bm_merge_def using bits_combine [OF assms, of "\<lambda>a b. a OR b" "(\<or>)"]
  by (auto simp: bit_or_iff)

text \<open>A word is empty when none of its 64 bits is set.\<close>

lemma word_empty: "x = 0 \<longleftrightarrow> (\<forall>j < 64. \<not> bit x j)" for x :: ulonglong
  using bit_eq_iff [of x 0] bit_imp_le_length [of x] by auto

lemma all_elements:
  assumes "length b = AE"
  shows "(\<forall>i < AE. \<forall>j < 64. P (b ! i) i j) \<longleftrightarrow> (\<forall>n < 64 * AE. P (b ! (n div 64)) (n div 64) (n mod 64))"
proof
  assume l: "\<forall>i < AE. \<forall>j < 64. P (b ! i) i j"
  show "\<forall>n < 64 * AE. P (b ! (n div 64)) (n div 64) (n mod 64)"
    using l by (simp add: less_mult_imp_div_less mult.commute)
next
  assume r: "\<forall>n < 64 * AE. P (b ! (n div 64)) (n div 64) (n mod 64)"
  have "P (b ! i) i j" if "i < AE" "j < 64" for i j
    using r [rule_format, of "64 * i + j"] that by simp
  then show "\<forall>i < AE. \<forall>j < 64. P (b ! i) i j" by blast
qed

lemma clear_all_bits: "bm_ok m \<Longrightarrow> bm_is_clear_all m \<longleftrightarrow> bm_bits m = {}"
proof -
  assume "bm_ok m"
  note len = bm_okD(1) [OF this]
  have "bm_is_clear_all m \<longleftrightarrow> (\<forall>i < length (bm_buffer m). \<forall>j < 64. \<not> bit (bm_buffer m ! i) j)"
    by (auto simp: bm_is_clear_all_def list_all_iff word_empty len)
  then show ?thesis
    unfolding all_elements [OF refl, where P = "\<lambda>x i j. \<not> bit x j"] by (auto simp: bm_bits_def test_bit_def)
qed

lemma subset_bits:
  assumes "same_width m m2"
  shows "bm_is_subset m m2 \<longleftrightarrow> bm_bits m \<subseteq> bm_bits m2"
proof -
  have len: "length (bm_buffer m) = ARRAY_ELEMENTS (bm_width m)" "length (bm_buffer m2) = ARRAY_ELEMENTS (bm_width m)"
    using assms by (simp_all add: same_width_def bm_ok_def)
  have "bm_is_subset m m2 \<longleftrightarrow>
      (\<forall>i < length (bm_buffer m). \<forall>j < 64. bit (bm_buffer m ! i) j \<longrightarrow> bit (bm_buffer m2 ! i) j)"
    by (simp add: bm_is_subset_def list_all_iff word_empty len bit_and_iff bit_not_iff Ball_def)
  then show ?thesis
    unfolding all_elements [OF refl, where P = "\<lambda>x i j. bit x j \<longrightarrow> bit (bm_buffer m2 ! i) j"]
    by (auto simp: bm_bits_def test_bit_def len)
qed

lemma overlapping_bits:
  assumes "same_width m m2"
  shows "bm_is_overlapping m m2 \<longleftrightarrow> bm_bits m \<inter> bm_bits m2 \<noteq> {}"
proof -
  have len: "length (bm_buffer m) = ARRAY_ELEMENTS (bm_width m)" "length (bm_buffer m2) = ARRAY_ELEMENTS (bm_width m)"
    using assms by (simp_all add: same_width_def bm_ok_def)
  have "\<not> bm_is_overlapping m m2 \<longleftrightarrow>
      (\<forall>i < length (bm_buffer m). \<forall>j < 64. \<not> (bit (bm_buffer m ! i) j \<and> bit (bm_buffer m2 ! i) j))"
    by (auto simp: bm_is_overlapping_def list_ex_iff word_empty len bit_and_iff)
  then show ?thesis
    unfolding all_elements [OF refl, where P = "\<lambda>x i j. \<not> (bit x j \<and> bit (bm_buffer m2 ! i) j)"]
    by (auto simp: bm_bits_def test_bit_def len)
qed

lemma equal_bits:
  assumes "same_width m m2"
  shows "bm_equal m m2 \<longleftrightarrow> bm_bits m = bm_bits m2"
proof -
  have ok: "bm_ok m" "bm_ok m2" "bm_width m2 = bm_width m" using assms by (simp_all add: same_width_def)
  have len: "length (bm_buffer m2) = length (bm_buffer m)" using ok by (simp add: bm_ok_def)
  have "bm_equal m m2 \<longleftrightarrow> bm_buffer m = bm_buffer m2"
  proof (cases "ARRAY_ELEMENTS (bm_width m) > 1")
    case False
    then have "length (bm_buffer m) = 1" using ok ARRAY_ELEMENTS_bounds(2) [of "bm_width m"] by (auto simp: bm_ok_def)
    with len False show ?thesis
      by (auto simp: bm_equal_def list_eq_iff_nth_eq)
  qed (simp add: bm_equal_def)
  then show ?thesis using bits_ext [of m m2] len by (auto simp: bm_bits_def)
qed

section \<open>Intersecting with a number\<close>

lemma intersect_and_pad_nth:
  assumes "bm_ok m" "i < length (bm_buffer m)"
  shows "bm_buffer (intersect_and_pad m x pad) ! i =
    (if i = 0 then bm_buffer m ! 0 AND x else if pad then prefix_buffer (bm_width m) (bm_width m) i else 0)"
    "length (bm_buffer (intersect_and_pad m x pad)) = length (bm_buffer m)"
    "bm_width (intersect_and_pad m x pad) = bm_width m"
proof -
  let ?w = "bm_width m" and ?AE = "ARRAY_ELEMENTS (bm_width m)"
  note ok = bm_okD [OF assms(1)]
  note AE = ARRAY_ELEMENTS_bounds [OF ok(2)]
  note last = ARRAY_ELEMENTS_cases [of ?w]
  show "bm_buffer (intersect_and_pad m x pad) ! i =
    (if i = 0 then bm_buffer m ! 0 AND x else if pad then prefix_buffer (bm_width m) (bm_width m) i else 0)"
    using assms(2) ok(1) AE(2) last
    by (auto simp: intersect_and_pad_def Let_def fill_nth nth_list_update prefix_buffer_def BITS_PER_ELEMENT_def)
  show "length (bm_buffer (intersect_and_pad m x pad)) = length (bm_buffer m)"
    "bm_width (intersect_and_pad m x pad) = bm_width m"
    by (simp_all add: intersect_and_pad_def Let_def)
qed

lemma bits_intersect_and_pad:
  assumes "bm_ok m"
  shows "bm_bits (intersect_and_pad m x pad) =
    {n \<in> bm_bits m. n < 64 \<and> bit x n} \<union> (if pad then {64..<bm_width m} else {})"
proof -
  note ok = bm_okD [OF assms]
  note nth = intersect_and_pad_nth [OF assms, where x = x and pad = pad]
  have AE: "0 < length (bm_buffer m)" using ARRAY_ELEMENTS_bounds(2) [OF ok(2)] ok(1) by simp
  have "test_bit (bm_buffer (intersect_and_pad m x pad)) n \<longleftrightarrow>
      (n < 64 \<and> test_bit (bm_buffer m) n \<and> bit x n) \<or> (pad \<and> 64 \<le> n \<and> n < bm_width m)" for n
  proof (cases "n < 64 * length (bm_buffer m)")
    case True
    then have d: "n div 64 < length (bm_buffer m)" by (simp add: less_mult_imp_div_less mult.commute)
    have "bit (prefix_buffer (bm_width m) (bm_width m) (n div 64)) (n mod 64) \<longleftrightarrow> n < bm_width m"
      using bit_prefix_buffer [OF order_refl ok(2)] True ok(1) by simp
    note pad = this
    show ?thesis
    proof (cases "n < 64")
      case small: True
      with True nth(1) [OF d] nth(2) [OF d] show ?thesis by (simp add: test_bit_def bit_and_iff conj_ac)
    next
      case False
      then have "n div 64 \<noteq> 0" by (simp add: div_eq_0_iff)
      with False True nth(1) [OF d] nth(2) [OF d] pad show ?thesis by (simp add: test_bit_def)
    qed
  next
    case False
    then have "\<not> n < bm_width m" using ok(1) ok(4) [of n] by metis
    with False show ?thesis using nth(2) [OF AE] by (simp add: test_bit_def)
  qed
  then have "bm_bits (intersect_and_pad m x pad) =
      {n. (n < 64 \<and> test_bit (bm_buffer m) n \<and> bit x n) \<or> (pad \<and> 64 \<le> n \<and> n < bm_width m)}"
    by (simp only: bm_bits_def)
  also have "\<dots> = {n \<in> bm_bits m. n < 64 \<and> bit x n} \<union> (if pad then {64..<bm_width m} else {})"
    by (cases pad) (auto simp: bm_bits_def)
  finally show ?thesis .
qed

lemma bits_intersect_ulonglong:
  "bm_ok m \<Longrightarrow> bm_bits (bm_intersect_ulonglong m x) = {n \<in> bm_bits m. n < 64 \<and> bit x n}"
  by (simp add: bm_intersect_ulonglong_def bits_intersect_and_pad)

lemma bits_intersect_extended:
  "bm_ok m \<Longrightarrow> bm_bits (bm_intersect_extended m x) =
     {n \<in> bm_bits m. n < 64 \<and> bit x n} \<union> (if bit x 63 then {64..<bm_width m} else {})"
proof -
  have "x AND push_bit 63 1 \<noteq> 0 \<longleftrightarrow> bit x 63"
    using word_empty [of "x AND 2 ^ 63"] by (simp only: bit_and_iff bit_one_shift push_bit_of_1) auto
  then show "bm_ok m \<Longrightarrow> ?thesis" by (simp add: bm_intersect_extended_def bits_intersect_and_pad)
qed

section \<open>Counting\<close>

lemma bits_by_element:
  "{n. test_bit b n} = (\<Union>i < length b. (\<lambda>j. 64 * i + j) ` {j. j < 64 \<and> bit (b ! i) j})"
proof (intro set_eqI iffI)
  fix n
  assume "n \<in> {n. test_bit b n}"
  then have "n div 64 < length b" "bit (b ! (n div 64)) (n mod 64)" by (auto simp: test_bit_def less_mult_imp_div_less mult.commute)
  moreover have "n = 64 * (n div 64) + n mod 64" by simp
  ultimately show "n \<in> (\<Union>i < length b. (\<lambda>j. 64 * i + j) ` {j. j < 64 \<and> bit (b ! i) j})"
    by (intro UN_I [of "n div 64"] image_eqI [of _ _ "n mod 64"]) auto
qed (auto simp: test_bit_def)

lemma card_word: "card {j. j < 64 \<and> bit x j} = unat (my_count_bits x)" for x :: ulonglong
proof -
  have "{j. j < 64 \<and> bit x j} = set (filter (bit x) [0..<64])" by auto
  also have "card \<dots> = length (filter (bit x) [0..<64])" by (rule distinct_card) simp
  finally show ?thesis using pop_count_count_bits [of x] by (simp add: pop_count_def)
qed

lemma card_test_bit: "card {n. test_bit b n} = (\<Sum>i < length b. unat (my_count_bits (b ! i)))"
  unfolding bits_by_element
proof (subst card_UN_disjoint)
  show "\<forall>i \<in> {..<length b}. \<forall>j \<in> {..<length b}. i \<noteq> j \<longrightarrow>
      (\<lambda>k. 64 * i + k) ` {k. k < 64 \<and> bit (b ! i) k} \<inter> (\<lambda>k. 64 * j + k) ` {k. k < 64 \<and> bit (b ! j) k} = {}"
  proof (intro ballI impI)
    fix i j :: nat
    assume "i \<noteq> j"
    then have "64 * i + k \<noteq> 64 * j + l" if "k < 64" "l < 64" for k l using that by arith
    then show "(\<lambda>k. 64 * i + k) ` {k. k < 64 \<and> bit (b ! i) k} \<inter> (\<lambda>k. 64 * j + k) ` {k. k < 64 \<and> bit (b ! j) k} = {}"
      by blast
  qed
qed (simp_all add: card_image card_word)

lemma bits_set_card:
  assumes "bm_ok m" "64 * length (bm_buffer m) < 2 ^ 32"
  shows "unat (bm_bits_set m) = card (bm_bits m)"
proof -
  let ?c = "\<lambda>i. my_count_bits (bm_buffer m ! i)"
  have le: "unat (?c i) \<le> 64" for i
    using pop_count_count_bits [of "bm_buffer m ! i"] pop_count_le [of "bm_buffer m ! i"] by simp
  have "64 * k < 2 ^ 32 \<Longrightarrow> unat (fold (\<lambda>i res. res + ?c i) [0..<k] 0) = (\<Sum>i<k. unat (?c i)) \<and> (\<Sum>i<k. unat (?c i)) \<le> 64 * k"
    for k
  proof (induction k)
    case (Suc k)
    then have "unat (fold (\<lambda>i res. res + ?c i) [0..<k] 0) = (\<Sum>i<k. unat (?c i))" "(\<Sum>i<k. unat (?c i)) \<le> 64 * k"
      by simp_all
    with Suc.prems le [of k] show ?case by (simp add: unat_word_ariths)
  qed simp
  with assms(2) bm_okD(1) [OF assms(1)] show ?thesis by (simp add: bm_bits_set_def bm_bits_def card_test_bit)
qed

section \<open>Iterating\<close>

lemma tmi_next_bit_some:
  assumes "bmp \<noteq> 0"
  shows "\<exists>b bmp'. tmi_next_bit bmp = (b, bmp') \<and> b < 64 \<and> bit bmp b \<and> (\<forall>j. bit bmp j \<longrightarrow> b \<le> j) \<and>
    (\<forall>j. bit bmp' j \<longleftrightarrow> bit bmp j \<and> j \<noteq> b)"
proof -
  note f = find_first_bit_least [OF assms]
  have "bit (bmp AND NOT (push_bit (my_find_first_bit bmp) 1)) j \<longleftrightarrow> bit bmp j \<and> j \<noteq> my_find_first_bit bmp" for j
    using f(3) bit_imp_le_length [of bmp j] by (auto simp: bit_and_iff bit_not_iff bit_one_shift)
  with f assms show ?thesis
    by (auto simp: tmi_next_bit_def Let_def not_less [symmetric])
qed

definition it_remaining :: "BitmapIterator \<Rightarrow> nat set" where
  "it_remaining it = {it_offset it + j | j. bit (it_tmi it) j} \<union>
     {n \<in> bm_bits (it_map it). it_offset it + 64 \<le> n}"

definition it_ok :: "BitmapIterator \<Rightarrow> bool" where
  "it_ok it \<longleftrightarrow> bm_ok (it_map it) \<and> it_offset it mod 64 = 0 \<and> it_offset it < bm_width (it_map it)"

lemma element_bits:
  assumes "i < length b"
  shows "bit (b ! i) j \<longleftrightarrow> j < 64 \<and> test_bit b (64 * i + j)"
proof (cases "j < 64")
  case True
  then have "64 * i + j < 64 * length b" using assms by linarith
  with True show ?thesis by (simp add: test_bit_def)
next
  case False
  with bit_imp_le_length [of "b ! i" j] show ?thesis by auto
qed

lemma remaining_begin: "bm_ok m \<Longrightarrow> it_remaining (it_begin m) = bm_bits m \<and> it_ok (it_begin m)"
proof -
  assume ok: "bm_ok m"
  then have "0 < length (bm_buffer m)" using ARRAY_ELEMENTS_bounds(2) [of "bm_width m"] by (simp add: bm_ok_def)
  from element_bits [OF this] have e: "bit (bm_buffer m ! 0) j \<longleftrightarrow> j < 64 \<and> test_bit (bm_buffer m) j" for j by simp
  have "{0 + j | j. bit (bm_buffer m ! 0) j} = {n \<in> bm_bits m. n < 64}" unfolding e by (auto simp: bm_bits_def)
  then have "it_remaining (it_begin m) = {n \<in> bm_bits m. n < 64} \<union> {n \<in> bm_bits m. 64 \<le> n}"
    by (simp add: it_remaining_def it_begin_def)
  also have "\<dots> = bm_bits m" by auto
  finally have "it_remaining (it_begin m) = bm_bits m" .
  with ok show ?thesis by (simp add: it_ok_def it_begin_def bm_ok_def)
qed

text \<open>Moving on to the next element keeps what is left, once the current one is used up.\<close>

lemma remaining_skip:
  assumes "it_ok it" "it_tmi it = 0" "it_offset it + 64 < bm_width (it_map it)"
    "it' = it\<lparr>it_offset := it_offset it + 64, it_tmi := bm_buffer (it_map it) ! ((it_offset it + 64) div 64)\<rparr>"
  shows "it_remaining it' = it_remaining it" "it_ok it'"
proof -
  let ?b = "bm_buffer (it_map it)"
  have ok: "bm_ok (it_map it)" "it_offset it mod 64 = 0" using assms(1) by (simp_all add: it_ok_def)
  then obtain k where k: "it_offset it + 64 = 64 * k" by (metis dvd_add_triv_right_iff dvd_def dvd_eq_mod_eq_0)
  have "64 * k < 64 * length ?b" using bm_okD(1,4) [OF ok(1)] assms(3) k by metis
  then have e: "bit (?b ! k) j \<longleftrightarrow> j < 64 \<and> test_bit ?b (64 * k + j)" for j by (intro element_bits) simp
  have it': "it_offset it' = 64 * k" "it_tmi it' = ?b ! k" "it_map it' = it_map it"
    using assms(4) k by simp_all
  have "n \<in> it_remaining it' \<longleftrightarrow> n \<in> bm_bits (it_map it) \<and> 64 * k \<le> n" for n
  proof (cases "n < 64 * k + 64")
    case True
    then show ?thesis
      unfolding it_remaining_def it' e by (auto simp: bm_bits_def intro!: exI [of _ "n - 64 * k"])
  qed (auto simp: it_remaining_def it' e)
  then show "it_remaining it' = it_remaining it" using assms(2) k by (auto simp: it_remaining_def)
  show "it_ok it'" using ok assms(3) k it' by (simp add: it_ok_def)
qed

lemma remaining_finite: "it_ok it \<Longrightarrow> finite (it_remaining it)"
proof -
  assume ok: "it_ok it"
  have "{it_offset it + j | j. bit (it_tmi it) j} \<subseteq> {..<it_offset it + 64}"
  proof
    fix x
    assume "x \<in> {it_offset it + j | j. bit (it_tmi it) j}"
    then obtain j where "x = it_offset it + j" "bit (it_tmi it) j" by blast
    with bit_imp_le_length [of "it_tmi it" j] show "x \<in> {..<it_offset it + 64}" by simp
  qed
  then have "finite {it_offset it + j | j. bit (it_tmi it) j}" by (rule finite_subset) simp
  moreover have "finite (bm_bits (it_map it))"
    by (rule finite_subset [of _ "{..<bm_width (it_map it)}"]) (use ok in \<open>simp_all add: it_ok_def bm_ok_def\<close>)
  ultimately show ?thesis unfolding it_remaining_def by simp
qed

text \<open>Each call returns the least number left, or the end mark when nothing is left.\<close>

lemma it_next_correct:
  assumes "it_ok it"
  shows "(it_remaining it = {} \<longrightarrow> fst (it_next it) = bm_width (it_map it)) \<and>
    (it_remaining it \<noteq> {} \<longrightarrow> fst (it_next it) = Min (it_remaining it) \<and>
       it_remaining (snd (it_next it)) = it_remaining it - {Min (it_remaining it)}) \<and>
    it_ok (snd (it_next it)) \<and> it_map (snd (it_next it)) = it_map it"
  using assms
proof (induction it rule: it_next.induct)
  case (1 it)
  show ?case
  proof (cases "it_tmi it = 0")
    case False
    then obtain b tmi where t: "tmi_next_bit (it_tmi it) = (b, tmi)" "b < 64" "bit (it_tmi it) b"
      "\<forall>j. bit (it_tmi it) j \<longrightarrow> b \<le> j" "\<forall>j. bit tmi j \<longleftrightarrow> bit (it_tmi it) j \<and> j \<noteq> b"
      using tmi_next_bit_some by blast
    have n: "it_next it = (it_offset it + b, it\<lparr>it_tmi := tmi\<rparr>)"
      using t(1,2) by (simp add: it_next.simps [of it] TMI_BITMAP_END_def)
    have m: "Min (it_remaining it) = it_offset it + b"
      using t(2-4) remaining_finite [OF 1(2)] by (intro Min_eqI) (auto simp: it_remaining_def)
    moreover have "it_remaining it \<noteq> {}" using t(3) by (auto simp: it_remaining_def)
    moreover have "it_remaining (it\<lparr>it_tmi := tmi\<rparr>) = it_remaining it - {it_offset it + b}"
    proof -
      have "{it_offset it + j | j. bit tmi j} = {it_offset it + j | j. bit (it_tmi it) j} - {it_offset it + b}"
      proof (rule set_eqI)
        fix n
        show "n \<in> {it_offset it + j | j. bit tmi j} \<longleftrightarrow> n \<in> {it_offset it + j | j. bit (it_tmi it) j} - {it_offset it + b}"
          unfolding t(5) [rule_format] mem_Collect_eq Diff_iff singleton_iff by (metis add_left_cancel)
      qed
      moreover have "it_offset it + b \<notin> {n \<in> bm_bits (it_map it). it_offset it + 64 \<le> n}" using t(2) by simp
      ultimately show ?thesis unfolding it_remaining_def by (simp add: Un_Diff)
    qed
    ultimately show ?thesis using n 1(2) by (simp add: it_ok_def)
  next
    case True
    then have t: "tmi_next_bit (it_tmi it) = (TMI_BITMAP_END, 0)" by (simp add: tmi_next_bit_def)
    show ?thesis
    proof (cases "it_offset it + 64 \<ge> bm_width (it_map it)")
      case end': True
      have "it_next it = (bm_width (it_map it), it\<lparr>it_tmi := 0\<rparr>)"
        using end' by (simp add: it_next.simps [of it] t BITS_PER_ELEMENT_def)
      moreover have "it_remaining it = {}"
        using True end' 1(2) bm_okD(3) [of "it_map it"] by (auto simp: it_remaining_def it_ok_def) (metis leD le_trans)
      ultimately show ?thesis using 1(2) by (simp add: it_ok_def)
    next
      case False
      let ?it = "it\<lparr>it_offset := it_offset it + 64, it_tmi := bm_buffer (it_map it) ! ((it_offset it + 64) div 64)\<rparr>"
      have n: "it_next it = it_next ?it"
        using False by (simp add: it_next.simps [of it] t BITS_PER_ELEMENT_def Let_def)
      have r: "it_remaining ?it = it_remaining it" "it_ok ?it"
        using remaining_skip [OF 1(2) True _ refl] False by simp_all
      have "it_offset it + BITS_PER_ELEMENT < bm_width (it_map it)" using False by (simp add: BITS_PER_ELEMENT_def)
      then show ?thesis using 1(1) [OF t [symmetric] _ _ refl] r by (simp add: n BITS_PER_ELEMENT_def)
    qed
  qed
qed

section \<open>The interface of a set of indexes\<close>

text \<open>What users of a key map rely on, and what follows for a map built up index by index.\<close>

locale index_set =
  fixes add_index :: "'m \<Rightarrow> nat \<Rightarrow> 'm" and drop_index :: "'m \<Rightarrow> nat \<Rightarrow> 'm"
    and has_index :: "'m \<Rightarrow> nat \<Rightarrow> bool"
    and indexes :: "'m \<Rightarrow> nat set" and limit :: "'m \<Rightarrow> nat" and wf :: "'m \<Rightarrow> bool"
  assumes add_spec: "wf m \<Longrightarrow> n < limit m \<Longrightarrow> indexes (add_index m n) = insert n (indexes m)"
    and drop_spec: "wf m \<Longrightarrow> n < limit m \<Longrightarrow> indexes (drop_index m n) = indexes m - {n}"
    and has_spec: "wf m \<Longrightarrow> n < limit m \<Longrightarrow> has_index m n \<longleftrightarrow> n \<in> indexes m"
    and add_wf: "wf m \<Longrightarrow> n < limit m \<Longrightarrow> wf (add_index m n)"
    and drop_wf: "wf m \<Longrightarrow> n < limit m \<Longrightarrow> wf (drop_index m n)"
    and add_limit: "limit (add_index m n) = limit m"
    and drop_limit: "limit (drop_index m n) = limit m"
begin

lemma add_many:
  assumes "wf m" "\<forall>n \<in> set ns. n < limit m"
  shows "indexes (fold (\<lambda>n m. add_index m n) ns m) = indexes m \<union> set ns \<and>
    wf (fold (\<lambda>n m. add_index m n) ns m) \<and> limit (fold (\<lambda>n m. add_index m n) ns m) = limit m"
  using assms by (induction ns arbitrary: m) (auto simp: add_spec add_wf add_limit)

lemma has_after_add:
  assumes "wf m" "n < limit m" "k < limit m"
  shows "has_index (add_index m n) k \<longleftrightarrow> k = n \<or> has_index m k"
  using assms by (simp add: has_spec add_spec add_wf add_limit)

lemma has_after_drop:
  assumes "wf m" "n < limit m" "k < limit m"
  shows "has_index (drop_index m n) k \<longleftrightarrow> k \<noteq> n \<and> has_index m k"
  using assms by (auto simp: has_spec drop_spec drop_wf drop_limit)

end

interpretation key_map: index_set bm_set_bit bm_clear_bit bm_is_set bm_bits bm_width bm_ok
  by unfold_locales
    (simp_all add: bits_set_bit bits_clear_bit is_set_bits bm_ok_set_bit bm_ok_clear_bit)

section \<open>Guarantees of the bitmap class\<close>

text \<open>
  C14. Bitmaps of one width implement the algebra of sets: intersecting, subtracting and merging
  give the bitmap of the intersection, difference and union, setting and clearing a bit inserts and
  removes it, the tests for a bit, emptiness, inclusion, overlap and equality answer as on the sets,
  and results are again well-formed.
\<close>

theorem bitmap_set_algebra:
  assumes "bm_ok a" "bm_ok b" "bm_width a = bm_width b"
  shows "bm_bits (bm_intersect a b) = bm_bits a \<inter> bm_bits b \<and> bm_ok (bm_intersect a b) \<and>
    bm_bits (bm_subtract a b) = bm_bits a - bm_bits b \<and> bm_ok (bm_subtract a b) \<and>
    bm_bits (bm_merge a b) = bm_bits a \<union> bm_bits b \<and> bm_ok (bm_merge a b) \<and>
    (bm_is_subset a b \<longleftrightarrow> bm_bits a \<subseteq> bm_bits b) \<and>
    (bm_is_overlapping a b \<longleftrightarrow> bm_bits a \<inter> bm_bits b \<noteq> {}) \<and>
    (bm_equal a b \<longleftrightarrow> bm_bits a = bm_bits b) \<and>
    (bm_is_clear_all a \<longleftrightarrow> bm_bits a = {}) \<and>
    (\<forall>n < bm_width a. bm_bits (bm_set_bit a n) = insert n (bm_bits a) \<and> bm_ok (bm_set_bit a n) \<and>
       bm_bits (bm_clear_bit a n) = bm_bits a - {n} \<and> bm_ok (bm_clear_bit a n) \<and>
       (bm_is_set a n \<longleftrightarrow> n \<in> bm_bits a))"
proof -
  have "same_width a b" using assms by (simp add: same_width_def)
  then show ?thesis
    using assms(1) by (simp add: bits_intersect bits_subtract bits_merge subset_bits overlapping_bits equal_bits
        clear_all_bits bits_set_bit bits_clear_bit bm_ok_set_bit bm_ok_clear_bit is_set_bits)
qed

definition ex_map :: "nat list \<Rightarrow> Bitmap" where
  "ex_map ns = fold (\<lambda>n m. bm_set_bit m n) ns \<lparr>bm_width = 100, bm_buffer = [0, 0]\<rparr>"

lemma ex_empty_map:
  "bm_ok \<lparr>bm_width = 100, bm_buffer = [0, 0]\<rparr>" "bm_bits \<lparr>bm_width = 100, bm_buffer = [0, 0]\<rparr> = {}"
proof -
  have "[0, 0 :: ulonglong] ! i = 0" if "i < 2" for i using that by (cases i) auto
  then have "\<not> test_bit [0, 0] n" for n by (auto simp: test_bit_def less_mult_imp_div_less)
  then show "bm_bits \<lparr>bm_width = 100, bm_buffer = [0, 0]\<rparr> = {}" by (simp add: bm_bits_def)
  then show "bm_ok \<lparr>bm_width = 100, bm_buffer = [0, 0]\<rparr>"
    by (simp add: bm_ok_def ARRAY_ELEMENTS_def BITS_PER_ELEMENT_def)
qed

lemma ex_map_ok:
  assumes "\<forall>n \<in> set ns. n < 100"
  shows "bm_ok (ex_map ns)" "bm_bits (ex_map ns) = set ns" "bm_width (ex_map ns) = 100"
  using key_map.add_many [OF ex_empty_map(1), of ns] assms ex_empty_map(2) by (simp_all add: ex_map_def)

theorem bitmap_set_algebra_witness:
  "bm_bits (bm_merge (ex_map [3, 70]) (ex_map [70, 99])) = {3, 70, 99} \<and>
   \<not> bm_is_subset (ex_map [3, 70]) (ex_map [70, 99]) \<and> bm_is_overlapping (ex_map [3, 70]) (ex_map [70, 99])"
  using bitmap_set_algebra [of "ex_map [3, 70]" "ex_map [70, 99]"] ex_map_ok [of "[3, 70]"] ex_map_ok [of "[70, 99]"]
  by auto

text \<open>
  Starting an iterator and stepping it returns the members of the set in increasing order:
  every call returns the least number that has not been returned and removes it from what is
  left, and the end mark, the width, once nothing is left.
\<close>

theorem bitmap_iterator_in_order:
  assumes "bm_ok m"
  shows "it_remaining (it_begin m) = bm_bits m \<and> it_ok (it_begin m) \<and>
    (\<forall>it. it_ok it \<longrightarrow>
      it_ok (snd (it_next it)) \<and> it_map (snd (it_next it)) = it_map it \<and>
      (it_remaining it = {} \<longrightarrow> fst (it_next it) = bm_width (it_map it)) \<and>
      (it_remaining it \<noteq> {} \<longrightarrow> fst (it_next it) = Min (it_remaining it) \<and>
         it_remaining (snd (it_next it)) = it_remaining it - {Min (it_remaining it)}))"
  using remaining_begin [OF assms] it_next_correct by blast

theorem bitmap_iterator_in_order_witness:
  "fst (it_next (it_begin (ex_map [70, 99]))) = 70 \<and> it_remaining (snd (it_next (it_begin (ex_map [70, 99])))) = {99}"
proof -
  have m: "bm_ok (ex_map [70, 99])" "bm_bits (ex_map [70, 99]) = {70, 99}" using ex_map_ok [of "[70, 99]"] by auto
  have "Min {70, 99 :: nat} = 70" "{70, 99} - {70 :: nat} = {99}" by auto
  then show ?thesis using bitmap_iterator_in_order [OF m(1)] m(2) by auto
qed

text \<open>
  A prefix of any size is the set of the numbers below it, cut at the width; the prefix test
  recognises exactly that set, also when the size is not a multiple of the element width; and
  the number of bits set is the cardinality.
\<close>

theorem bitmap_prefix_and_count:
  assumes "bm_ok m" "64 * length (bm_buffer m) < 2 ^ 32"
  shows "bm_bits (bm_set_prefix m p) = {..<min p (bm_width m)} \<and> bm_ok (bm_set_prefix m p) \<and>
    (p \<le> bm_width m \<longrightarrow> (bm_is_prefix m p \<longleftrightarrow> bm_bits m = {..<p})) \<and>
    unat (bm_bits_set m) = card (bm_bits m)"
  using bits_set_prefix [OF assms(1)] bm_ok_set_prefix [OF assms(1)] is_prefix_bits [OF assms(1)]
    bits_set_card [OF assms] by auto

theorem bitmap_prefix_and_count_witness:
  "bm_bits (bm_set_prefix (ex_map [70]) 80) = {..<80} \<and> \<not> bm_is_prefix (ex_map [70]) 80 \<and>
   unat (bm_bits_set (ex_map [70])) = 1"
proof -
  have m: "bm_ok (ex_map [70])" "bm_bits (ex_map [70]) = {70}" "bm_width (ex_map [70]) = 100"
    using ex_map_ok [of "[70]"] by auto
  have "length (bm_buffer (ex_map [70])) = 2" using bm_okD(1) [OF m(1)] m(3) by (simp add: ARRAY_ELEMENTS_def BITS_PER_ELEMENT_def)
  moreover have "{70} \<noteq> {..<80 :: nat}" by (metis lessThan_iff singleton_iff zero_less_numeral zero_neq_numeral)
  ultimately show ?thesis using bitmap_prefix_and_count [OF m(1), of 80] m by simp
qed

end
