(* ===== verification/Byte_Memory.thy ===== *)
theory Byte_Memory
  imports My_Bit
begin

text \<open>
  Memory as the byte-order macros of the server headers see it: a map from addresses to bytes,
  with copying, and the decomposition of machine words into bytes. The lemmas here reduce an
  equation between words to one per byte.
\<close>

type_synonym memory = "nat \<Rightarrow> uchar"

definition memcpy :: "memory \<Rightarrow> nat \<Rightarrow> nat \<Rightarrow> nat \<Rightarrow> memory" where
  "memcpy m dst src n = (\<lambda>x. if dst \<le> x \<and> x < dst + n then m (src + (x - dst)) else m x)"

lemma memcpy_0 [simp]: "memcpy m d s 0 = m"
  by (rule ext) (auto simp: memcpy_def)

text \<open>Bytes written one behind another.\<close>

definition write_bytes :: "memory \<Rightarrow> nat \<Rightarrow> uchar list \<Rightarrow> memory" where
  "write_bytes m p bs = (\<lambda>x. if p \<le> x \<and> x < p + length bs then bs ! (x - p) else m x)"

lemma write_bytes_append: "write_bytes (write_bytes m p as) (p + length as) bs = write_bytes m p (as @ bs)"
  by (rule ext) (auto simp: write_bytes_def nth_append)

lemma write_bytes_Nil [simp]: "write_bytes m p [] = m"
  by (rule ext) (auto simp: write_bytes_def)

text \<open>Two memories that agree outside an area.\<close>

definition agree_outside :: "nat \<Rightarrow> nat \<Rightarrow> memory \<Rightarrow> memory \<Rightarrow> bool" where
  "agree_outside p n m m' \<longleftrightarrow> (\<forall>x. x < p \<or> p + n \<le> x \<longrightarrow> m' x = m x)"

definition byte :: "nat \<Rightarrow> 'a::len word \<Rightarrow> uchar" where
  "byte k v = ucast (drop_bit (8 * k) v)"

lemma bit_byte: "bit (byte k v) i \<longleftrightarrow> i < 8 \<and> bit v (8 * k + i)" for v :: "'a::len word"
  by (auto simp: byte_def bit_ucast_iff bit_drop_bit_eq)

text \<open>A word is its bytes.\<close>

lemma bytes_eqI:
  fixes v w :: "'a::len word"
  assumes "LENGTH('a) = 8 * N" "\<And>k. k < N \<Longrightarrow> byte k v = byte k w"
  shows "v = w"
proof (rule bit_word_eqI)
  fix n
  assume "n < LENGTH('a)"
  then have k: "n div 8 < N" using assms(1) by (simp add: less_mult_imp_div_less mult.commute)
  have "bit (byte (n div 8) v) (n mod 8) = bit (byte (n div 8) w) (n mod 8)" using assms(2) [OF k] by simp
  then show "bit v n = bit w n" by (simp add: bit_byte)
qed

lemma bytes_eq16: "byte 0 v = byte 0 w \<Longrightarrow> byte 1 v = byte 1 w \<Longrightarrow> v = w" for v w :: "16 word"
  by (rule bytes_eqI [of 2]) (auto simp: less_Suc_eq numeral_eq_Suc)

lemma bytes_eq32:
  fixes v w :: "32 word"
  assumes "byte 0 v = byte 0 w" "byte 1 v = byte 1 w" "byte 2 v = byte 2 w" "byte 3 v = byte 3 w"
  shows "v = w"
proof (rule bytes_eqI [of 4])
  fix k :: nat
  assume "k < 4"
  then consider "k = 0" | "k = 1" | "k = 2" | "k = 3" by linarith
  then show "byte k v = byte k w" by cases (simp_all only: assms)
qed simp

lemma bytes_eq64:
  fixes v w :: "64 word"
  assumes "byte 0 v = byte 0 w" "byte 1 v = byte 1 w" "byte 2 v = byte 2 w" "byte 3 v = byte 3 w"
    "byte 4 v = byte 4 w" "byte 5 v = byte 5 w" "byte 6 v = byte 6 w" "byte 7 v = byte 7 w"
  shows "v = w"
proof (rule bytes_eqI [of 8])
  fix k :: nat
  assume "k < 8"
  then consider "k = 0" | "k = 1" | "k = 2" | "k = 3" | "k = 4" | "k = 5" | "k = 6" | "k = 7" by linarith
  then show "byte k v = byte k w" by cases (simp_all only: assms)
qed simp

lemma byte_or [simp]: "byte k (v OR w) = byte k v OR byte k w" for v w :: "'a::len word"
  by (rule bit_word_eqI) (auto simp: bit_byte bit_or_iff)

lemma byte_0 [simp]: "byte k (0 :: 'a::len word) = 0"
  by (simp add: byte_def)

lemma byte_self [simp]: "byte 0 (b :: uchar) = b"
  by (simp add: byte_def)

lemma byte_high: "LENGTH('a) \<le> 8 * k \<Longrightarrow> byte k (v :: 'a::len word) = 0"
proof -
  assume "LENGTH('a) \<le> 8 * k"
  then have "\<not> bit v (8 * k + i)" for i using bit_imp_le_length [of v "8 * k + i"] by auto
  then show ?thesis by (intro bit_word_eqI) (simp add: bit_byte)
qed

lemma byte_drop [simp]: "8 dvd s \<Longrightarrow> byte k (drop_bit s v) = byte (k + s div 8) v" for v :: "'a::len word"
  by (auto simp: byte_def algebra_simps elim!: dvdE)

lemma byte_push [simp]:
  fixes v :: "'a::len word"
  assumes "8 dvd s" "8 * k + 8 \<le> LENGTH('a)"
  shows "byte k (push_bit s v) = (if s \<le> 8 * k then byte (k - s div 8) v else 0)"
proof (rule bit_word_eqI)
  fix i
  assume "i < LENGTH(8)"
  then have i: "i < 8" by simp
  obtain j where j: "s = 8 * j" using assms(1) by (elim dvdE)
  have lt: "8 * k + i < LENGTH('a)" using assms(2) i by linarith
  show "bit (byte k (push_bit s v)) i = bit (if s \<le> 8 * k then byte (k - s div 8) v else 0) i"
  proof (cases "j \<le> k")
    case True
    then have "8 * k + i - 8 * j = 8 * (k - j) + i" by (simp add: diff_mult_distrib2)
    with True i lt show ?thesis by (auto simp: bit_byte bit_push_bit_iff j)
  next
    case False
    then have "\<not> 8 * j \<le> 8 * k + i" using i by linarith
    with False i show ?thesis by (simp add: bit_byte bit_push_bit_iff j)
  qed
qed

lemma byte_ucast [simp]: "8 * k + 8 \<le> LENGTH('a) \<Longrightarrow> byte k (ucast v :: 'a::len word) = byte k v"
  for v :: "'b::len word"
proof -
  assume k: "8 * k + 8 \<le> LENGTH('a)"
  show ?thesis
  proof (rule bit_word_eqI)
    fix i
    assume "i < LENGTH(8)"
    then have "8 * k + i < LENGTH('a)" using k by simp
    then show "bit (byte k (ucast v :: 'a word)) i = bit (byte k v) i" by (simp add: bit_byte bit_ucast_iff)
  qed
qed

lemma ucast_byte [simp]: "ucast v = byte 0 v" for v :: "'a::len word"
  by (simp add: byte_def)

lemma byte_take [simp]: "8 dvd s \<Longrightarrow> byte k (take_bit s v) = (if 8 * k < s then byte k v else 0)" for v :: "'a::len word"
proof (rule bit_word_eqI)
  fix i
  assume "8 dvd s" "i < LENGTH(8)"
  then obtain j where j: "s = 8 * j" "i < 8" by (auto elim: dvdE)
  then have "8 * k + i < 8 * j \<longleftrightarrow> k < j" by linarith
  then show "bit (byte k (take_bit s v)) i = bit (if 8 * k < s then byte k v else 0) i"
    using j by (auto simp: bit_byte bit_take_bit_iff)
qed

lemmas byte_simps = byte_high numeral_2_eq_2 [symmetric]

end
