(* ===== verification/Byte_Order.thy ===== *)
theory Byte_Order
  imports Byte_Memory
begin

text \<open>
  The macros that read and write integers and floating-point numbers in a fixed byte order:
  \<open>byte_order_generic.h\<close> and its optimised variants for x86 and x86-64, \<open>little_endian.h\<close>,
  \<open>big_endian.h\<close>, \<open>my_byteorder.h\<close> and the high-byte-first macros of \<open>myisampack.h\<close>. Signed
  results are words read as two's complement. \<open>ulong\<close> has 32 bits, as on the platform of the
  shipped server.
\<close>

section \<open>byte\_order\_generic.h: low byte first, byte by byte\<close>

definition sint2korr :: "memory \<Rightarrow> nat \<Rightarrow> 16 word" where
  "sint2korr m p = (ucast (m p) :: 16 word) OR push_bit 8 (ucast (m (p + 1)) :: 16 word)"

definition sint3korr :: "memory \<Rightarrow> nat \<Rightarrow> 32 word" where
  "sint3korr m p = (if m (p + 2) AND 128 \<noteq> 0 then push_bit 24 255 OR
     push_bit 16 (ucast (m (p + 2)) :: 32 word) OR push_bit 8 (ucast (m (p + 1)) :: 32 word) OR
     (ucast (m p) :: 32 word)
     else push_bit 16 (ucast (m (p + 2)) :: 32 word) OR
     push_bit 8 (ucast (m (p + 1)) :: 32 word) OR (ucast (m p) :: 32 word))"

definition sint4korr :: "memory \<Rightarrow> nat \<Rightarrow> 32 word" where
  "sint4korr m p = (ucast (m p) :: 32 word) OR push_bit 8 (ucast (m (p + 1)) :: 32 word) OR
     push_bit 16 (ucast (m (p + 2)) :: 32 word) OR push_bit 24 (ucast (m (p + 3)) :: 32 word)"

definition uint2korr :: "memory \<Rightarrow> nat \<Rightarrow> 16 word" where
  "uint2korr m p = (ucast (m p) :: 16 word) OR push_bit 8 (ucast (m (p + 1)) :: 16 word)"

definition uint3korr :: "memory \<Rightarrow> nat \<Rightarrow> 32 word" where
  "uint3korr m p = (ucast (m p) :: 32 word) OR push_bit 8 (ucast (m (p + 1)) :: 32 word) OR
     push_bit 16 (ucast (m (p + 2)) :: 32 word)"

definition uint4korr :: "memory \<Rightarrow> nat \<Rightarrow> 32 word" where
  "uint4korr m p = (ucast (m p) :: 32 word) OR push_bit 8 (ucast (m (p + 1)) :: 32 word) OR
     push_bit 16 (ucast (m (p + 2)) :: 32 word) OR push_bit 24 (ucast (m (p + 3)) :: 32 word)"

definition uint5korr :: "memory \<Rightarrow> nat \<Rightarrow> 64 word" where
  "uint5korr m p = ucast ((ucast (m p) :: 32 word) OR push_bit 8 (ucast (m (p + 1)) :: 32 word) OR
     push_bit 16 (ucast (m (p + 2)) :: 32 word) OR
     push_bit 24 (ucast (m (p + 3)) :: 32 word)) OR push_bit 32 (ucast (m (p + 4)) :: 64 word)"

definition uint6korr :: "memory \<Rightarrow> nat \<Rightarrow> 64 word" where
  "uint6korr m p = ucast ((ucast (m p) :: 32 word) OR push_bit 8 (ucast (m (p + 1)) :: 32 word) OR
     push_bit 16 (ucast (m (p + 2)) :: 32 word) OR
     push_bit 24 (ucast (m (p + 3)) :: 32 word)) OR
     push_bit 32 (ucast (m (p + 4)) :: 64 word) OR push_bit 40 (ucast (m (p + 5)) :: 64 word)"

definition uint8korr :: "memory \<Rightarrow> nat \<Rightarrow> 64 word" where
  "uint8korr m p = ucast ((ucast (m p) :: 32 word) OR push_bit 8 (ucast (m (p + 1)) :: 32 word) OR
     push_bit 16 (ucast (m (p + 2)) :: 32 word) OR
     push_bit 24 (ucast (m (p + 3)) :: 32 word)) OR
     push_bit 32 (ucast ((ucast (m (p + 4)) :: 32 word) OR
     push_bit 8 (ucast (m (p + 5)) :: 32 word) OR push_bit 16 (ucast (m (p + 6)) :: 32 word) OR
     push_bit 24 (ucast (m (p + 7)) :: 32 word)))"

definition sint8korr :: "memory \<Rightarrow> nat \<Rightarrow> 64 word" where
  "sint8korr m p = uint8korr m p"

definition int2store :: "memory \<Rightarrow> nat \<Rightarrow> 32 word \<Rightarrow> memory" where
  "int2store m p A = m(p := ucast A, p + 1 := ucast (drop_bit 8 A))"

definition int3store :: "memory \<Rightarrow> nat \<Rightarrow> 32 word \<Rightarrow> memory" where
  "int3store m p A = m(p := ucast A, p + 1 := ucast (drop_bit 8 A), p + 2 := ucast (drop_bit 16 A))"

definition int4store :: "memory \<Rightarrow> nat \<Rightarrow> 32 word \<Rightarrow> memory" where
  "int4store m p A = m(p := ucast A, p + 1 := ucast (drop_bit 8 A), p + 2 := ucast (drop_bit 16 A),
     p + 3 := ucast (drop_bit 24 A))"

definition int5store :: "memory \<Rightarrow> nat \<Rightarrow> 64 word \<Rightarrow> memory" where
  "int5store m p A = m(p := ucast A, p + 1 := ucast (drop_bit 8 A), p + 2 := ucast (drop_bit 16 A),
     p + 3 := ucast (drop_bit 24 A), p + 4 := ucast (drop_bit 32 A))"

definition int6store :: "memory \<Rightarrow> nat \<Rightarrow> 64 word \<Rightarrow> memory" where
  "int6store m p A = m(p := ucast A, p + 1 := ucast (drop_bit 8 A), p + 2 := ucast (drop_bit 16 A),
     p + 3 := ucast (drop_bit 24 A), p + 4 := ucast (drop_bit 32 A),
     p + 5 := ucast (drop_bit 40 A))"

definition int8store :: "memory \<Rightarrow> nat \<Rightarrow> 64 word \<Rightarrow> memory" where
  "int8store m p A =
     (let def_temp = ucast A; def_temp2 = ucast (drop_bit 32 A)
      in int4store (int4store m p def_temp) (p + 4) def_temp2)"

definition int4net :: "memory \<Rightarrow> nat \<Rightarrow> 32 word" where
  "int4net m p = (ucast (m (p + 3)) :: 32 word) OR push_bit 8 (ucast (m (p + 2)) :: 32 word) OR
     push_bit 16 (ucast (m (p + 1)) :: 32 word) OR push_bit 24 (ucast (m p) :: 32 word)"

section \<open>byte\_order\_generic\_x86\_64.h: through the loads and stores of the machine\<close>

text \<open>A load or store through a cast pointer, on the little-endian machine this header is for.\<close>

definition load16 :: "memory \<Rightarrow> nat \<Rightarrow> 16 word" where
  "load16 m p = (ucast (m p) :: 16 word) OR push_bit 8 (ucast (m (p + 1)) :: 16 word)"

definition load32 :: "memory \<Rightarrow> nat \<Rightarrow> 32 word" where
  "load32 m p = (ucast (m p) :: 32 word) OR push_bit 8 (ucast (m (p + 1)) :: 32 word) OR
     push_bit 16 (ucast (m (p + 2)) :: 32 word) OR push_bit 24 (ucast (m (p + 3)) :: 32 word)"

definition load64 :: "memory \<Rightarrow> nat \<Rightarrow> 64 word" where
  "load64 m p = (ucast (m p) :: 64 word) OR push_bit 8 (ucast (m (p + 1)) :: 64 word) OR
     push_bit 16 (ucast (m (p + 2)) :: 64 word) OR
     push_bit 24 (ucast (m (p + 3)) :: 64 word) OR
     push_bit 32 (ucast (m (p + 4)) :: 64 word) OR
     push_bit 40 (ucast (m (p + 5)) :: 64 word) OR
     push_bit 48 (ucast (m (p + 6)) :: 64 word) OR push_bit 56 (ucast (m (p + 7)) :: 64 word)"

definition store16 :: "memory \<Rightarrow> nat \<Rightarrow> 16 word \<Rightarrow> memory" where
  "store16 m p A = m(p := ucast A, p + 1 := ucast (drop_bit 8 A))"

definition store32 :: "memory \<Rightarrow> nat \<Rightarrow> 32 word \<Rightarrow> memory" where
  "store32 m p A = m(p := ucast A, p + 1 := ucast (drop_bit 8 A), p + 2 := ucast (drop_bit 16 A),
     p + 3 := ucast (drop_bit 24 A))"

definition store64 :: "memory \<Rightarrow> nat \<Rightarrow> 64 word \<Rightarrow> memory" where
  "store64 m p A = m(p := ucast A, p + 1 := ucast (drop_bit 8 A), p + 2 := ucast (drop_bit 16 A),
     p + 3 := ucast (drop_bit 24 A), p + 4 := ucast (drop_bit 32 A),
     p + 5 := ucast (drop_bit 40 A), p + 6 := ucast (drop_bit 48 A),
     p + 7 := ucast (drop_bit 56 A))"

text \<open>The instruction bswapq.\<close>

definition bswapq :: "64 word \<Rightarrow> 64 word" where
  "bswapq v = push_bit 56 (ucast (byte 0 v)) OR push_bit 48 (ucast (byte 1 v)) OR
     push_bit 40 (ucast (byte 2 v)) OR push_bit 32 (ucast (byte 3 v)) OR
     push_bit 24 (ucast (byte 4 v)) OR push_bit 16 (ucast (byte 5 v)) OR
     push_bit 8 (ucast (byte 6 v)) OR (ucast (byte 7 v))"

definition x64_sint2korr :: "memory \<Rightarrow> nat \<Rightarrow> 16 word" where
  "x64_sint2korr m p = load16 m p"

definition x64_sint3korr :: "memory \<Rightarrow> nat \<Rightarrow> 32 word" where
  "x64_sint3korr m p = (if m (p + 2) AND 128 \<noteq> 0 then push_bit 24 255 OR
     push_bit 16 (ucast (m (p + 2)) :: 32 word) OR push_bit 8 (ucast (m (p + 1)) :: 32 word) OR
     (ucast (m p) :: 32 word)
     else push_bit 16 (ucast (m (p + 2)) :: 32 word) OR
     push_bit 8 (ucast (m (p + 1)) :: 32 word) OR (ucast (m p) :: 32 word))"

definition x64_sint4korr :: "memory \<Rightarrow> nat \<Rightarrow> 32 word" where
  "x64_sint4korr m p = load32 m p"

definition x64_uint2korr :: "memory \<Rightarrow> nat \<Rightarrow> 16 word" where
  "x64_uint2korr m p = load16 m p"

definition x64_uint3korr :: "memory \<Rightarrow> nat \<Rightarrow> 32 word" where
  "x64_uint3korr m p = (ucast (m p) :: 32 word) OR push_bit 8 (ucast (m (p + 1)) :: 32 word) OR
     push_bit 16 (ucast (m (p + 2)) :: 32 word)"

definition x64_uint4korr :: "memory \<Rightarrow> nat \<Rightarrow> 32 word" where
  "x64_uint4korr m p = load32 m p"

definition x64_uint5korr :: "memory \<Rightarrow> nat \<Rightarrow> 64 word" where
  "x64_uint5korr m p = (let a = ucast (load32 m p); b = ucast (m (p + 4)) in a OR push_bit 32 b)"

definition x64_uint6korr :: "memory \<Rightarrow> nat \<Rightarrow> 64 word" where
  "x64_uint6korr m p = (let a = ucast (load32 m p); b = ucast (load16 m (p + 4)) in a OR push_bit 32 b)"

definition x64_uint8korr :: "memory \<Rightarrow> nat \<Rightarrow> 64 word" where
  "x64_uint8korr m p = load64 m p"

definition x64_sint8korr :: "memory \<Rightarrow> nat \<Rightarrow> 64 word" where
  "x64_sint8korr m p = load64 m p"

definition x64_int2store :: "memory \<Rightarrow> nat \<Rightarrow> 32 word \<Rightarrow> memory" where
  "x64_int2store m p A = store16 m p (ucast A)"

definition x64_int3store :: "memory \<Rightarrow> nat \<Rightarrow> 32 word \<Rightarrow> memory" where
  "x64_int3store m p A = m(p := ucast A, p + 1 := ucast (drop_bit 8 A), p + 2 := ucast (drop_bit 16 A))"

definition x64_int4store :: "memory \<Rightarrow> nat \<Rightarrow> 32 word \<Rightarrow> memory" where
  "x64_int4store m p A = store32 m p A"

definition x64_int5store :: "memory \<Rightarrow> nat \<Rightarrow> 64 word \<Rightarrow> memory" where
  "x64_int5store m p A = (store32 m p (ucast A))(p + 4 := ucast (drop_bit 32 A))"

definition x64_int6store :: "memory \<Rightarrow> nat \<Rightarrow> 64 word \<Rightarrow> memory" where
  "x64_int6store m p A = store16 (store32 m p (ucast A)) (p + 4) (ucast (drop_bit 32 A))"

definition x64_int8store :: "memory \<Rightarrow> nat \<Rightarrow> 64 word \<Rightarrow> memory" where
  "x64_int8store m p A = store64 m p A"

text \<open>High byte first, by reversing the bytes of a load.\<close>

definition gnu_mi_uint5korr :: "memory \<Rightarrow> nat \<Rightarrow> 64 word" where
  "gnu_mi_uint5korr m p = (let a = ucast (load32 m p); b = ucast (m (p + 4))
     in bswapq (push_bit 24 (a OR push_bit 32 b)))"

definition gnu_mi_uint6korr :: "memory \<Rightarrow> nat \<Rightarrow> 64 word" where
  "gnu_mi_uint6korr m p = (let a = ucast (load32 m p); b = ucast (load16 m (p + 4))
     in bswapq (push_bit 16 (a OR push_bit 32 b)))"

definition gnu_mi_uint7korr :: "memory \<Rightarrow> nat \<Rightarrow> 64 word" where
  "gnu_mi_uint7korr m p = (let a = ucast (load32 m p); b = ucast (load16 m (p + 4)); c = ucast (m (p + 6))
     in bswapq (push_bit 8 (a OR push_bit 32 b OR push_bit 48 c)))"

definition gnu_mi_uint8korr :: "memory \<Rightarrow> nat \<Rightarrow> 64 word" where
  "gnu_mi_uint8korr m p = bswapq (load64 m p)"

section \<open>byte\_order\_generic\_x86.h\<close>

definition x86_sint2korr :: "memory \<Rightarrow> nat \<Rightarrow> 16 word" where
  "x86_sint2korr m p = load16 m p"

definition x86_sint3korr :: "memory \<Rightarrow> nat \<Rightarrow> 32 word" where
  "x86_sint3korr m p = (if m (p + 2) AND 128 \<noteq> 0 then push_bit 24 255 OR
     push_bit 16 (ucast (m (p + 2)) :: 32 word) OR push_bit 8 (ucast (m (p + 1)) :: 32 word) OR
     (ucast (m p) :: 32 word)
     else push_bit 16 (ucast (m (p + 2)) :: 32 word) OR
     push_bit 8 (ucast (m (p + 1)) :: 32 word) OR (ucast (m p) :: 32 word))"

definition x86_sint4korr :: "memory \<Rightarrow> nat \<Rightarrow> 32 word" where
  "x86_sint4korr m p = load32 m p"

definition x86_uint2korr :: "memory \<Rightarrow> nat \<Rightarrow> 16 word" where
  "x86_uint2korr m p = load16 m p"

definition x86_uint3korr :: "memory \<Rightarrow> nat \<Rightarrow> 32 word" where
  "x86_uint3korr m p = (ucast (m p) :: 32 word) OR push_bit 8 (ucast (m (p + 1)) :: 32 word) OR
     push_bit 16 (ucast (m (p + 2)) :: 32 word)"

definition x86_uint4korr :: "memory \<Rightarrow> nat \<Rightarrow> 32 word" where
  "x86_uint4korr m p = load32 m p"

definition x86_uint5korr :: "memory \<Rightarrow> nat \<Rightarrow> 64 word" where
  "x86_uint5korr m p = ucast ((ucast (m p) :: 32 word) OR push_bit 8 (ucast (m (p + 1)) :: 32 word) OR
     push_bit 16 (ucast (m (p + 2)) :: 32 word) OR
     push_bit 24 (ucast (m (p + 3)) :: 32 word)) OR push_bit 32 (ucast (m (p + 4)) :: 64 word)"

definition x86_uint6korr :: "memory \<Rightarrow> nat \<Rightarrow> 64 word" where
  "x86_uint6korr m p = ucast ((ucast (m p) :: 32 word) OR push_bit 8 (ucast (m (p + 1)) :: 32 word) OR
     push_bit 16 (ucast (m (p + 2)) :: 32 word) OR
     push_bit 24 (ucast (m (p + 3)) :: 32 word)) OR
     push_bit 32 (ucast (m (p + 4)) :: 64 word) OR push_bit 40 (ucast (m (p + 5)) :: 64 word)"

definition x86_uint8korr :: "memory \<Rightarrow> nat \<Rightarrow> 64 word" where
  "x86_uint8korr m p = load64 m p"

definition x86_sint8korr :: "memory \<Rightarrow> nat \<Rightarrow> 64 word" where
  "x86_sint8korr m p = load64 m p"

definition x86_int2store :: "memory \<Rightarrow> nat \<Rightarrow> 32 word \<Rightarrow> memory" where
  "x86_int2store m p A = store16 m p (ucast A)"

definition x86_int3store :: "memory \<Rightarrow> nat \<Rightarrow> 32 word \<Rightarrow> memory" where
  "x86_int3store m p A = m(p := ucast A, p + 1 := ucast (drop_bit 8 A), p + 2 := ucast (drop_bit 16 A))"

definition x86_int4store :: "memory \<Rightarrow> nat \<Rightarrow> 32 word \<Rightarrow> memory" where
  "x86_int4store m p A = store32 m p A"

definition x86_int5store :: "memory \<Rightarrow> nat \<Rightarrow> 64 word \<Rightarrow> memory" where
  "x86_int5store m p A = m(p := ucast A, p + 1 := ucast (drop_bit 8 A), p + 2 := ucast (drop_bit 16 A),
     p + 3 := ucast (drop_bit 24 A), p + 4 := ucast (drop_bit 32 A))"

definition x86_int6store :: "memory \<Rightarrow> nat \<Rightarrow> 64 word \<Rightarrow> memory" where
  "x86_int6store m p A = m(p := ucast A, p + 1 := ucast (drop_bit 8 A), p + 2 := ucast (drop_bit 16 A),
     p + 3 := ucast (drop_bit 24 A), p + 4 := ucast (drop_bit 32 A),
     p + 5 := ucast (drop_bit 40 A))"

definition x86_int8store :: "memory \<Rightarrow> nat \<Rightarrow> 64 word \<Rightarrow> memory" where
  "x86_int8store m p A = store64 m p A"

section \<open>myisampack.h: high byte first\<close>

definition mi_sint1korr :: "memory \<Rightarrow> nat \<Rightarrow> 8 word" where
  "mi_sint1korr m p = m p"

definition mi_uint1korr :: "memory \<Rightarrow> nat \<Rightarrow> 8 word" where
  "mi_uint1korr m p = m p"

definition mi_sint2korr :: "memory \<Rightarrow> nat \<Rightarrow> 16 word" where
  "mi_sint2korr m p = (ucast (m (p + 1)) :: 16 word) OR push_bit 8 (ucast (m p) :: 16 word)"

definition mi_sint3korr :: "memory \<Rightarrow> nat \<Rightarrow> 32 word" where
  "mi_sint3korr m p = (if m p AND 128 \<noteq> 0 then push_bit 24 255 OR
     push_bit 16 (ucast (m p) :: 32 word) OR push_bit 8 (ucast (m (p + 1)) :: 32 word) OR
     (ucast (m (p + 2)) :: 32 word)
     else push_bit 16 (ucast (m p) :: 32 word) OR push_bit 8 (ucast (m (p + 1)) :: 32 word) OR
     (ucast (m (p + 2)) :: 32 word))"

definition mi_sint4korr :: "memory \<Rightarrow> nat \<Rightarrow> 32 word" where
  "mi_sint4korr m p = (ucast (m (p + 3)) :: 32 word) OR push_bit 8 (ucast (m (p + 2)) :: 32 word) OR
     push_bit 16 (ucast (m (p + 1)) :: 32 word) OR push_bit 24 (ucast (m p) :: 32 word)"

definition mi_uint2korr :: "memory \<Rightarrow> nat \<Rightarrow> 16 word" where
  "mi_uint2korr m p = (ucast (m (p + 1)) :: 16 word) OR push_bit 8 (ucast (m p) :: 16 word)"

definition mi_uint3korr :: "memory \<Rightarrow> nat \<Rightarrow> 32 word" where
  "mi_uint3korr m p = (ucast (m (p + 2)) :: 32 word) OR push_bit 8 (ucast (m (p + 1)) :: 32 word) OR
     push_bit 16 (ucast (m p) :: 32 word)"

definition mi_uint4korr :: "memory \<Rightarrow> nat \<Rightarrow> 32 word" where
  "mi_uint4korr m p = (ucast (m (p + 3)) :: 32 word) OR push_bit 8 (ucast (m (p + 2)) :: 32 word) OR
     push_bit 16 (ucast (m (p + 1)) :: 32 word) OR push_bit 24 (ucast (m p) :: 32 word)"

definition mi_uint5korr :: "memory \<Rightarrow> nat \<Rightarrow> 64 word" where
  "mi_uint5korr m p = ucast ((ucast (m (p + 4)) :: 32 word) OR push_bit 8 (ucast (m (p + 3)) :: 32 word) OR
     push_bit 16 (ucast (m (p + 2)) :: 32 word) OR
     push_bit 24 (ucast (m (p + 1)) :: 32 word)) OR push_bit 32 (ucast (m p) :: 64 word)"

definition mi_uint6korr :: "memory \<Rightarrow> nat \<Rightarrow> 64 word" where
  "mi_uint6korr m p = ucast ((ucast (m (p + 5)) :: 32 word) OR push_bit 8 (ucast (m (p + 4)) :: 32 word) OR
     push_bit 16 (ucast (m (p + 3)) :: 32 word) OR
     push_bit 24 (ucast (m (p + 2)) :: 32 word)) OR
     push_bit 32 (ucast ((ucast (m (p + 1)) :: 32 word) OR push_bit 8 (ucast (m p) :: 32 word)))"

definition mi_uint7korr :: "memory \<Rightarrow> nat \<Rightarrow> 64 word" where
  "mi_uint7korr m p = ucast ((ucast (m (p + 6)) :: 32 word) OR push_bit 8 (ucast (m (p + 5)) :: 32 word) OR
     push_bit 16 (ucast (m (p + 4)) :: 32 word) OR
     push_bit 24 (ucast (m (p + 3)) :: 32 word)) OR
     push_bit 32 (ucast ((ucast (m (p + 2)) :: 32 word) OR
     push_bit 8 (ucast (m (p + 1)) :: 32 word) OR push_bit 16 (ucast (m p) :: 32 word)))"

definition mi_uint8korr :: "memory \<Rightarrow> nat \<Rightarrow> 64 word" where
  "mi_uint8korr m p = ucast ((ucast (m (p + 7)) :: 32 word) OR push_bit 8 (ucast (m (p + 6)) :: 32 word) OR
     push_bit 16 (ucast (m (p + 5)) :: 32 word) OR
     push_bit 24 (ucast (m (p + 4)) :: 32 word)) OR
     push_bit 32 (ucast ((ucast (m (p + 3)) :: 32 word) OR
     push_bit 8 (ucast (m (p + 2)) :: 32 word) OR push_bit 16 (ucast (m (p + 1)) :: 32 word) OR
     push_bit 24 (ucast (m p) :: 32 word)))"

definition mi_sint8korr :: "memory \<Rightarrow> nat \<Rightarrow> 64 word" where
  "mi_sint8korr m p = mi_uint8korr m p"

definition mi_int1store :: "memory \<Rightarrow> nat \<Rightarrow> 32 word \<Rightarrow> memory" where
  "mi_int1store m p A = m(p := ucast A)"

definition mi_int2store :: "memory \<Rightarrow> nat \<Rightarrow> 32 word \<Rightarrow> memory" where
  "mi_int2store m p A = m(p + 1 := ucast A, p := ucast (drop_bit 8 A))"

definition mi_int3store :: "memory \<Rightarrow> nat \<Rightarrow> 32 word \<Rightarrow> memory" where
  "mi_int3store m p A = m(p + 2 := ucast A, p + 1 := ucast (drop_bit 8 A), p := ucast (drop_bit 16 A))"

definition mi_int4store :: "memory \<Rightarrow> nat \<Rightarrow> 32 word \<Rightarrow> memory" where
  "mi_int4store m p A = m(p + 3 := ucast A, p + 2 := ucast (drop_bit 8 A), p + 1 := ucast (drop_bit 16 A),
     p := ucast (drop_bit 24 A))"

definition mi_int5store :: "memory \<Rightarrow> nat \<Rightarrow> 64 word \<Rightarrow> memory" where
  "mi_int5store m p A =
     (let def_temp = ucast A :: 32 word; def_temp2 = ucast (drop_bit 32 A) :: 32 word
      in m(p + 4 := ucast def_temp, p + 3 := ucast (drop_bit 8 def_temp),
     p + 2 := ucast (drop_bit 16 def_temp), p + 1 := ucast (drop_bit 24 def_temp),
     p := ucast def_temp2))"

definition mi_int6store :: "memory \<Rightarrow> nat \<Rightarrow> 64 word \<Rightarrow> memory" where
  "mi_int6store m p A =
     (let def_temp = ucast A :: 32 word; def_temp2 = ucast (drop_bit 32 A) :: 32 word
      in m(p + 5 := ucast def_temp, p + 4 := ucast (drop_bit 8 def_temp),
     p + 3 := ucast (drop_bit 16 def_temp), p + 2 := ucast (drop_bit 24 def_temp),
     p + 1 := ucast def_temp2, p := ucast (drop_bit 8 def_temp2)))"

definition mi_int7store :: "memory \<Rightarrow> nat \<Rightarrow> 64 word \<Rightarrow> memory" where
  "mi_int7store m p A =
     (let def_temp = ucast A :: 32 word; def_temp2 = ucast (drop_bit 32 A) :: 32 word
      in m(p + 6 := ucast def_temp, p + 5 := ucast (drop_bit 8 def_temp),
     p + 4 := ucast (drop_bit 16 def_temp), p + 3 := ucast (drop_bit 24 def_temp),
     p + 2 := ucast def_temp2, p + 1 := ucast (drop_bit 8 def_temp2),
     p := ucast (drop_bit 16 def_temp2)))"

definition mi_int8store :: "memory \<Rightarrow> nat \<Rightarrow> 64 word \<Rightarrow> memory" where
  "mi_int8store m p A =
     (let def_temp3 = ucast A; def_temp4 = ucast (drop_bit 32 A)
      in mi_int4store (mi_int4store m p def_temp4) (p + 4) def_temp3)"

text \<open>Row numbers and file sizes, for wide and for narrow counters.\<close>

definition mi_rowstore_big :: "memory \<Rightarrow> nat \<Rightarrow> 64 word \<Rightarrow> memory" where
  "mi_rowstore_big m p A = mi_int8store m p A"

definition mi_rowkorr_big :: "memory \<Rightarrow> nat \<Rightarrow> 64 word" where
  "mi_rowkorr_big m p = mi_uint8korr m p"

definition mi_rowstore_small :: "memory \<Rightarrow> nat \<Rightarrow> 32 word \<Rightarrow> memory" where
  "mi_rowstore_small m p A = mi_int4store (mi_int4store m p 0) (p + 4) A"

definition mi_rowkorr_small :: "memory \<Rightarrow> nat \<Rightarrow> 32 word" where
  "mi_rowkorr_small m p = mi_uint4korr m (p + 4)"

definition mi_sizestore_big :: "memory \<Rightarrow> nat \<Rightarrow> 64 word \<Rightarrow> memory" where
  "mi_sizestore_big m p A = mi_int8store m p A"

definition mi_sizekorr_big :: "memory \<Rightarrow> nat \<Rightarrow> 64 word" where
  "mi_sizekorr_big m p = mi_uint8korr m p"

definition HA_OFFSET_ERROR32 :: "32 word" where
  "HA_OFFSET_ERROR32 = -1"

definition mi_sizestore_small :: "memory \<Rightarrow> nat \<Rightarrow> 32 word \<Rightarrow> memory" where
  "mi_sizestore_small m p A =
     (if A = HA_OFFSET_ERROR32 then (\<lambda>x. if p \<le> x \<and> x < p + 8 then 255 else m x)
      else mi_int4store (mi_int4store m p 0) (p + 4) A)"

definition mi_sizekorr_small :: "memory \<Rightarrow> nat \<Rightarrow> 32 word" where
  "mi_sizekorr_small m p = mi_uint4korr m (p + 4)"

section \<open>Floating-point numbers as the bytes of a variable\<close>

text \<open>A float or double variable is the four or eight bytes at its address; storing it and getting it copy bytes between the address of the variable and the record buffer, in the order the headers give. The two areas do not overlap.\<close>

definition be_float4store :: "memory \<Rightarrow> nat \<Rightarrow> nat \<Rightarrow> memory" where
  "be_float4store m t v = m(t := m (v + 3), t + 1 := m (v + 2), t + 2 := m (v + 1), t + 3 := m v)"

definition be_float4get :: "memory \<Rightarrow> nat \<Rightarrow> nat \<Rightarrow> memory" where
  "be_float4get m t v = m(t := m (v + 3), t + 1 := m (v + 2), t + 2 := m (v + 1), t + 3 := m v)"

definition be_float8store :: "memory \<Rightarrow> nat \<Rightarrow> nat \<Rightarrow> memory" where
  "be_float8store m t v = m(t := m (v + 7), t + 1 := m (v + 6), t + 2 := m (v + 5), t + 3 := m (v + 4),
     t + 4 := m (v + 3), t + 5 := m (v + 2), t + 6 := m (v + 1), t + 7 := m v)"

definition be_float8get :: "memory \<Rightarrow> nat \<Rightarrow> nat \<Rightarrow> memory" where
  "be_float8get m t v = m(t := m (v + 7), t + 1 := m (v + 6), t + 2 := m (v + 5), t + 3 := m (v + 4),
     t + 4 := m (v + 3), t + 5 := m (v + 2), t + 6 := m (v + 1), t + 7 := m v)"

definition le_float4get :: "memory \<Rightarrow> nat \<Rightarrow> nat \<Rightarrow> memory" where
  "le_float4get m t v = memcpy m t v 4"

definition le_float4store :: "memory \<Rightarrow> nat \<Rightarrow> nat \<Rightarrow> memory" where
  "le_float4store m t v = memcpy m t v 4"

definition le_doublestore_mixed :: "memory \<Rightarrow> nat \<Rightarrow> nat \<Rightarrow> memory" where
  "le_doublestore_mixed m t v = m(t := m (v + 4), t + 1 := m (v + 5), t + 2 := m (v + 6), t + 3 := m (v + 7),
     t + 4 := m v, t + 5 := m (v + 1), t + 6 := m (v + 2), t + 7 := m (v + 3))"

definition le_doubleget_mixed :: "memory \<Rightarrow> nat \<Rightarrow> nat \<Rightarrow> memory" where
  "le_doubleget_mixed m t v = m(t := m (v + 4), t + 1 := m (v + 5), t + 2 := m (v + 6), t + 3 := m (v + 7),
     t + 4 := m v, t + 5 := m (v + 1), t + 6 := m (v + 2), t + 7 := m (v + 3))"

definition le_doublestore :: "memory \<Rightarrow> nat \<Rightarrow> nat \<Rightarrow> memory" where
  "le_doublestore m t v = memcpy m t v 8"

definition le_doubleget :: "memory \<Rightarrow> nat \<Rightarrow> nat \<Rightarrow> memory" where
  "le_doubleget m t v = memcpy m t v 8"

definition longlongget :: "memory \<Rightarrow> nat \<Rightarrow> nat \<Rightarrow> memory" where
  "longlongget m t v = memcpy m t v 8"

definition longlongstore :: "memory \<Rightarrow> nat \<Rightarrow> nat \<Rightarrow> memory" where
  "longlongstore m t v = memcpy m t v 8"

definition mi_float4store_be :: "memory \<Rightarrow> nat \<Rightarrow> nat \<Rightarrow> memory" where
  "mi_float4store_be m t v = m(t := m v, t + 1 := m (v + 1), t + 2 := m (v + 2), t + 3 := m (v + 3))"

definition mi_float4get_be :: "memory \<Rightarrow> nat \<Rightarrow> nat \<Rightarrow> memory" where
  "mi_float4get_be m t v = m(t := m v, t + 1 := m (v + 1), t + 2 := m (v + 2), t + 3 := m (v + 3))"

definition mi_float8store_be :: "memory \<Rightarrow> nat \<Rightarrow> nat \<Rightarrow> memory" where
  "mi_float8store_be m t v = m(t := m v, t + 1 := m (v + 1), t + 2 := m (v + 2), t + 3 := m (v + 3),
     t + 4 := m (v + 4), t + 5 := m (v + 5), t + 6 := m (v + 6), t + 7 := m (v + 7))"

definition mi_float8get_be :: "memory \<Rightarrow> nat \<Rightarrow> nat \<Rightarrow> memory" where
  "mi_float8get_be m t v = m(t := m v, t + 1 := m (v + 1), t + 2 := m (v + 2), t + 3 := m (v + 3),
     t + 4 := m (v + 4), t + 5 := m (v + 5), t + 6 := m (v + 6), t + 7 := m (v + 7))"

definition mi_float4store :: "memory \<Rightarrow> nat \<Rightarrow> nat \<Rightarrow> memory" where
  "mi_float4store m t v = m(t := m (v + 3), t + 1 := m (v + 2), t + 2 := m (v + 1), t + 3 := m v)"

definition mi_float4get :: "memory \<Rightarrow> nat \<Rightarrow> nat \<Rightarrow> memory" where
  "mi_float4get m t v = m(t := m (v + 3), t + 1 := m (v + 2), t + 2 := m (v + 1), t + 3 := m v)"

definition mi_float8store_mixed :: "memory \<Rightarrow> nat \<Rightarrow> nat \<Rightarrow> memory" where
  "mi_float8store_mixed m t v = m(t := m (v + 3), t + 1 := m (v + 2), t + 2 := m (v + 1), t + 3 := m v,
     t + 4 := m (v + 7), t + 5 := m (v + 6), t + 6 := m (v + 5), t + 7 := m (v + 4))"

definition mi_float8get_mixed :: "memory \<Rightarrow> nat \<Rightarrow> nat \<Rightarrow> memory" where
  "mi_float8get_mixed m t v = m(t := m (v + 3), t + 1 := m (v + 2), t + 2 := m (v + 1), t + 3 := m v,
     t + 4 := m (v + 7), t + 5 := m (v + 6), t + 6 := m (v + 5), t + 7 := m (v + 4))"

definition mi_float8store :: "memory \<Rightarrow> nat \<Rightarrow> nat \<Rightarrow> memory" where
  "mi_float8store m t v = m(t := m (v + 7), t + 1 := m (v + 6), t + 2 := m (v + 5), t + 3 := m (v + 4),
     t + 4 := m (v + 3), t + 5 := m (v + 2), t + 6 := m (v + 1), t + 7 := m v)"

definition mi_float8get :: "memory \<Rightarrow> nat \<Rightarrow> nat \<Rightarrow> memory" where
  "mi_float8get m t v = m(t := m (v + 7), t + 1 := m (v + 6), t + 2 := m (v + 5), t + 3 := m (v + 4),
     t + 4 := m (v + 3), t + 5 := m (v + 2), t + 6 := m (v + 1), t + 7 := m v)"

end
