(* ===== verification/Byte_Codecs.thy ===== *)
theory Byte_Codecs
  imports Byte_Order
begin

text \<open>
  What a pair of macros that store and read a number promises, as an interface, and that every
  pair of the headers keeps it; the optimised variants agree with the portable ones.
\<close>

locale byte_codec =
  fixes store :: "memory \<Rightarrow> nat \<Rightarrow> 'v \<Rightarrow> memory" and load :: "memory \<Rightarrow> nat \<Rightarrow> 'r"
    and width :: nat and value_of :: "'v \<Rightarrow> 'r"
  assumes load_store: "load (store m p v) p = value_of v"
    and store_frame: "agree_outside p width m (store m p v)"
    and load_local: "(\<forall>x. p \<le> x \<and> x < p + width \<longrightarrow> m' x = m x) \<Longrightarrow> load m' p = load m p"
begin

lemma load_after_other_store:
  assumes "agree_outside q n m m'" "q + n \<le> p \<or> p + width \<le> q"
  shows "load m' p = load m p"
  using assms by (intro load_local) (auto simp: agree_outside_def)

text \<open>A field keeps its value while fields beside it are written.\<close>

lemma load_store_other:
  assumes "agree_outside q n (store m p v) m'" "q + n \<le> p \<or> p + width \<le> q"
  shows "load m' p = value_of v"
  using load_after_other_store [OF assms] by (simp add: load_store)

end

text \<open>Two codecs side by side, as in a record with two fields.\<close>

locale two_fields = a: byte_codec store1 load1 width1 value1 + b: byte_codec store2 load2 width2 value2
  for store1 :: "memory \<Rightarrow> nat \<Rightarrow> 'v1 \<Rightarrow> memory" and load1 :: "memory \<Rightarrow> nat \<Rightarrow> 'r1" and width1 value1
    and store2 :: "memory \<Rightarrow> nat \<Rightarrow> 'v2 \<Rightarrow> memory" and load2 :: "memory \<Rightarrow> nat \<Rightarrow> 'r2" and width2 value2
begin

lemma both_fields:
  assumes "p + width1 \<le> q \<or> q + width2 \<le> p"
  shows "load1 (store2 (store1 m p v) q w) p = value1 v" "load2 (store2 (store1 m p v) q w) q = value2 w"
  using a.load_store_other [OF b.store_frame, of q p] assms by (auto simp: b.load_store)

end

section \<open>Low byte first\<close>

interpretation le2: byte_codec int2store uint2korr 2 "ucast :: uint \<Rightarrow> uint16"
  by unfold_locales
    ((rule bytes_eq16; simp add: int2store_def uint2korr_def Let_def byte_simps), simp add: agree_outside_def int2store_def uint2korr_def Let_def, simp add: int2store_def uint2korr_def Let_def)

interpretation le3: byte_codec int3store uint3korr 3 "take_bit 24 :: uint \<Rightarrow> uint"
  by unfold_locales
    ((rule bytes_eq32; simp add: int3store_def uint3korr_def Let_def byte_simps), simp add: agree_outside_def int3store_def uint3korr_def Let_def, simp add: int3store_def uint3korr_def Let_def)

interpretation le4: byte_codec int4store uint4korr 4 "\<lambda>v :: uint. v"
  by unfold_locales
    ((rule bytes_eq32; simp add: int4store_def uint4korr_def Let_def byte_simps), simp add: agree_outside_def int4store_def uint4korr_def Let_def, simp add: int4store_def uint4korr_def Let_def)

interpretation le5: byte_codec int5store uint5korr 5 "take_bit 40 :: ulonglong \<Rightarrow> ulonglong"
  by unfold_locales
    ((rule bytes_eq64; simp add: int5store_def uint5korr_def Let_def byte_simps), simp add: agree_outside_def int5store_def uint5korr_def Let_def, simp add: int5store_def uint5korr_def Let_def)

interpretation le6: byte_codec int6store uint6korr 6 "take_bit 48 :: ulonglong \<Rightarrow> ulonglong"
  by unfold_locales
    ((rule bytes_eq64; simp add: int6store_def uint6korr_def Let_def byte_simps), simp add: agree_outside_def int6store_def uint6korr_def Let_def, simp add: int6store_def uint6korr_def Let_def)

interpretation le8: byte_codec int8store uint8korr 8 "\<lambda>v :: ulonglong. v"
  by unfold_locales
    ((rule bytes_eq64; simp add: int8store_def uint8korr_def Let_def int4store_def byte_simps), simp add: agree_outside_def int8store_def uint8korr_def Let_def int4store_def, simp add: int8store_def uint8korr_def Let_def int4store_def)

section \<open>The optimised variants for x86-64\<close>

interpretation x64le2: byte_codec x64_int2store x64_uint2korr 2 "ucast :: uint \<Rightarrow> uint16"
  by unfold_locales
    ((rule bytes_eq16; simp add: x64_int2store_def x64_uint2korr_def load16_def load32_def load64_def store16_def store32_def store64_def Let_def byte_simps), simp add: agree_outside_def x64_int2store_def x64_uint2korr_def load16_def load32_def load64_def store16_def store32_def store64_def Let_def, simp add: x64_int2store_def x64_uint2korr_def load16_def load32_def load64_def store16_def store32_def store64_def Let_def)

interpretation x64le3: byte_codec x64_int3store x64_uint3korr 3 "take_bit 24 :: uint \<Rightarrow> uint"
  by unfold_locales
    ((rule bytes_eq32; simp add: x64_int3store_def x64_uint3korr_def load16_def load32_def load64_def store16_def store32_def store64_def Let_def byte_simps), simp add: agree_outside_def x64_int3store_def x64_uint3korr_def load16_def load32_def load64_def store16_def store32_def store64_def Let_def, simp add: x64_int3store_def x64_uint3korr_def load16_def load32_def load64_def store16_def store32_def store64_def Let_def)

interpretation x64le4: byte_codec x64_int4store x64_uint4korr 4 "\<lambda>v :: uint. v"
  by unfold_locales
    ((rule bytes_eq32; simp add: x64_int4store_def x64_uint4korr_def load16_def load32_def load64_def store16_def store32_def store64_def Let_def byte_simps), simp add: agree_outside_def x64_int4store_def x64_uint4korr_def load16_def load32_def load64_def store16_def store32_def store64_def Let_def, simp add: x64_int4store_def x64_uint4korr_def load16_def load32_def load64_def store16_def store32_def store64_def Let_def)

interpretation x64le5: byte_codec x64_int5store x64_uint5korr 5 "take_bit 40 :: ulonglong \<Rightarrow> ulonglong"
  by unfold_locales
    ((rule bytes_eq64; simp add: x64_int5store_def x64_uint5korr_def load16_def load32_def load64_def store16_def store32_def store64_def Let_def byte_simps), simp add: agree_outside_def x64_int5store_def x64_uint5korr_def load16_def load32_def load64_def store16_def store32_def store64_def Let_def, simp add: x64_int5store_def x64_uint5korr_def load16_def load32_def load64_def store16_def store32_def store64_def Let_def)

interpretation x64le6: byte_codec x64_int6store x64_uint6korr 6 "take_bit 48 :: ulonglong \<Rightarrow> ulonglong"
  by unfold_locales
    ((rule bytes_eq64; simp add: x64_int6store_def x64_uint6korr_def load16_def load32_def load64_def store16_def store32_def store64_def Let_def byte_simps), simp add: agree_outside_def x64_int6store_def x64_uint6korr_def load16_def load32_def load64_def store16_def store32_def store64_def Let_def, simp add: x64_int6store_def x64_uint6korr_def load16_def load32_def load64_def store16_def store32_def store64_def Let_def)

interpretation x64le8: byte_codec x64_int8store x64_uint8korr 8 "\<lambda>v :: ulonglong. v"
  by unfold_locales
    ((rule bytes_eq64; simp add: x64_int8store_def x64_uint8korr_def load16_def load32_def load64_def store16_def store32_def store64_def Let_def byte_simps), simp add: agree_outside_def x64_int8store_def x64_uint8korr_def load16_def load32_def load64_def store16_def store32_def store64_def Let_def, simp add: x64_int8store_def x64_uint8korr_def load16_def load32_def load64_def store16_def store32_def store64_def Let_def)

section \<open>The optimised variants for x86\<close>

interpretation x86le2: byte_codec x86_int2store x86_uint2korr 2 "ucast :: uint \<Rightarrow> uint16"
  by unfold_locales
    ((rule bytes_eq16; simp add: x86_int2store_def x86_uint2korr_def load16_def load32_def load64_def store16_def store32_def store64_def Let_def byte_simps), simp add: agree_outside_def x86_int2store_def x86_uint2korr_def load16_def load32_def load64_def store16_def store32_def store64_def Let_def, simp add: x86_int2store_def x86_uint2korr_def load16_def load32_def load64_def store16_def store32_def store64_def Let_def)

interpretation x86le3: byte_codec x86_int3store x86_uint3korr 3 "take_bit 24 :: uint \<Rightarrow> uint"
  by unfold_locales
    ((rule bytes_eq32; simp add: x86_int3store_def x86_uint3korr_def load16_def load32_def load64_def store16_def store32_def store64_def Let_def byte_simps), simp add: agree_outside_def x86_int3store_def x86_uint3korr_def load16_def load32_def load64_def store16_def store32_def store64_def Let_def, simp add: x86_int3store_def x86_uint3korr_def load16_def load32_def load64_def store16_def store32_def store64_def Let_def)

interpretation x86le4: byte_codec x86_int4store x86_uint4korr 4 "\<lambda>v :: uint. v"
  by unfold_locales
    ((rule bytes_eq32; simp add: x86_int4store_def x86_uint4korr_def load16_def load32_def load64_def store16_def store32_def store64_def Let_def byte_simps), simp add: agree_outside_def x86_int4store_def x86_uint4korr_def load16_def load32_def load64_def store16_def store32_def store64_def Let_def, simp add: x86_int4store_def x86_uint4korr_def load16_def load32_def load64_def store16_def store32_def store64_def Let_def)

interpretation x86le5: byte_codec x86_int5store x86_uint5korr 5 "take_bit 40 :: ulonglong \<Rightarrow> ulonglong"
  by unfold_locales
    ((rule bytes_eq64; simp add: x86_int5store_def x86_uint5korr_def load16_def load32_def load64_def store16_def store32_def store64_def Let_def byte_simps), simp add: agree_outside_def x86_int5store_def x86_uint5korr_def load16_def load32_def load64_def store16_def store32_def store64_def Let_def, simp add: x86_int5store_def x86_uint5korr_def load16_def load32_def load64_def store16_def store32_def store64_def Let_def)

interpretation x86le6: byte_codec x86_int6store x86_uint6korr 6 "take_bit 48 :: ulonglong \<Rightarrow> ulonglong"
  by unfold_locales
    ((rule bytes_eq64; simp add: x86_int6store_def x86_uint6korr_def load16_def load32_def load64_def store16_def store32_def store64_def Let_def byte_simps), simp add: agree_outside_def x86_int6store_def x86_uint6korr_def load16_def load32_def load64_def store16_def store32_def store64_def Let_def, simp add: x86_int6store_def x86_uint6korr_def load16_def load32_def load64_def store16_def store32_def store64_def Let_def)

interpretation x86le8: byte_codec x86_int8store x86_uint8korr 8 "\<lambda>v :: ulonglong. v"
  by unfold_locales
    ((rule bytes_eq64; simp add: x86_int8store_def x86_uint8korr_def load16_def load32_def load64_def store16_def store32_def store64_def Let_def byte_simps), simp add: agree_outside_def x86_int8store_def x86_uint8korr_def load16_def load32_def load64_def store16_def store32_def store64_def Let_def, simp add: x86_int8store_def x86_uint8korr_def load16_def load32_def load64_def store16_def store32_def store64_def Let_def)

section \<open>High byte first\<close>

interpretation mi2: byte_codec mi_int2store mi_uint2korr 2 "ucast :: uint \<Rightarrow> uint16"
  by unfold_locales
    ((rule bytes_eq16; simp add: mi_int2store_def mi_uint2korr_def Let_def byte_simps), simp add: agree_outside_def mi_int2store_def mi_uint2korr_def Let_def, simp add: mi_int2store_def mi_uint2korr_def Let_def)

interpretation mi3: byte_codec mi_int3store mi_uint3korr 3 "take_bit 24 :: uint \<Rightarrow> uint"
  by unfold_locales
    ((rule bytes_eq32; simp add: mi_int3store_def mi_uint3korr_def Let_def byte_simps), simp add: agree_outside_def mi_int3store_def mi_uint3korr_def Let_def, simp add: mi_int3store_def mi_uint3korr_def Let_def)

interpretation mi4: byte_codec mi_int4store mi_uint4korr 4 "\<lambda>v :: uint. v"
  by unfold_locales
    ((rule bytes_eq32; simp add: mi_int4store_def mi_uint4korr_def Let_def byte_simps), simp add: agree_outside_def mi_int4store_def mi_uint4korr_def Let_def, simp add: mi_int4store_def mi_uint4korr_def Let_def)

interpretation mi5: byte_codec mi_int5store mi_uint5korr 5 "take_bit 40 :: ulonglong \<Rightarrow> ulonglong"
  by unfold_locales
    ((rule bytes_eq64; simp add: mi_int5store_def mi_uint5korr_def Let_def byte_simps), simp add: agree_outside_def mi_int5store_def mi_uint5korr_def Let_def, simp add: mi_int5store_def mi_uint5korr_def Let_def)

interpretation mi6: byte_codec mi_int6store mi_uint6korr 6 "take_bit 48 :: ulonglong \<Rightarrow> ulonglong"
  by unfold_locales
    ((rule bytes_eq64; simp add: mi_int6store_def mi_uint6korr_def Let_def byte_simps), simp add: agree_outside_def mi_int6store_def mi_uint6korr_def Let_def, simp add: mi_int6store_def mi_uint6korr_def Let_def)

interpretation mi7: byte_codec mi_int7store mi_uint7korr 7 "take_bit 56 :: ulonglong \<Rightarrow> ulonglong"
  by unfold_locales
    ((rule bytes_eq64; simp add: mi_int7store_def mi_uint7korr_def Let_def byte_simps), simp add: agree_outside_def mi_int7store_def mi_uint7korr_def Let_def, simp add: mi_int7store_def mi_uint7korr_def Let_def)

interpretation mi8: byte_codec mi_int8store mi_uint8korr 8 "\<lambda>v :: ulonglong. v"
  by unfold_locales
    ((rule bytes_eq64; simp add: mi_int8store_def mi_uint8korr_def Let_def mi_int4store_def byte_simps), simp add: agree_outside_def mi_int8store_def mi_uint8korr_def Let_def mi_int4store_def, simp add: mi_int8store_def mi_uint8korr_def Let_def mi_int4store_def)

section \<open>The optimised variants are the portable ones\<close>

lemma loads_agree: "load16 m p = uint2korr m p" "load32 m p = uint4korr m p" "load64 m p = uint8korr m p"
proof -
  show "load16 m p = uint2korr m p" by (simp add: load16_def uint2korr_def)
  show "load32 m p = uint4korr m p" by (simp add: load32_def uint4korr_def)
  show "load64 m p = uint8korr m p"
    by (rule bytes_eq64) (simp_all add: load64_def uint8korr_def byte_simps)
qed

lemma x64_readers_agree:
  "x64_uint2korr m p = uint2korr m p" "x64_sint2korr m p = sint2korr m p" "x64_uint3korr m p = uint3korr m p"
  "x64_sint3korr m p = sint3korr m p" "x64_uint4korr m p = uint4korr m p" "x64_sint4korr m p = sint4korr m p"
  "x64_uint5korr m p = uint5korr m p" "x64_uint6korr m p = uint6korr m p" "x64_uint8korr m p = uint8korr m p"
proof -
  show "x64_uint5korr m p = uint5korr m p"
    by (rule bytes_eq64) (simp_all add: x64_uint5korr_def uint5korr_def load32_def Let_def byte_simps)
  show "x64_uint6korr m p = uint6korr m p"
    by (rule bytes_eq64) (simp_all add: x64_uint6korr_def uint6korr_def load32_def load16_def Let_def byte_simps add.commute)
qed (simp_all add: x64_uint2korr_def x64_sint2korr_def sint2korr_def x64_uint3korr_def uint3korr_def
    x64_sint3korr_def sint3korr_def x64_uint4korr_def x64_sint4korr_def sint4korr_def x64_uint8korr_def
    loads_agree uint2korr_def uint4korr_def)

lemma store_ucasts:
  "byte k (ucast v :: 16 word) = (if k < 2 then byte k v else 0)" "byte k (ucast w :: 32 word) = (if k < 4 then byte k w else 0)"
  for v :: "uint" and w :: "ulonglong"
  by (auto simp: byte_high)

lemma x64_writers_agree:
  "x64_int2store m p v = int2store m p v" "x64_int3store m p v = int3store m p v" "x64_int4store m p v = int4store m p v"
  "x64_int5store m p w = int5store m p w" "x64_int6store m p w = int6store m p w" "x64_int8store m p w = int8store m p w"
  by (simp_all add: x64_int2store_def int2store_def x64_int3store_def int3store_def x64_int4store_def int4store_def
      x64_int5store_def int5store_def x64_int6store_def int6store_def x64_int8store_def int8store_def
      store16_def store32_def store64_def Let_def byte_simps fun_upd_def fun_eq_iff)

text \<open>Reversing the bytes of a word.\<close>

lemma byte_bswapq:
  "byte 0 (bswapq v) = byte 7 v" "byte 1 (bswapq v) = byte 6 v" "byte 2 (bswapq v) = byte 5 v" "byte 3 (bswapq v) = byte 4 v"
  "byte 4 (bswapq v) = byte 3 v" "byte 5 (bswapq v) = byte 2 v" "byte 6 (bswapq v) = byte 1 v" "byte 7 (bswapq v) = byte 0 v"
  by (simp_all add: bswapq_def byte_simps)

lemma gnu_readers_agree:
  "gnu_mi_uint5korr m p = mi_uint5korr m p" "gnu_mi_uint6korr m p = mi_uint6korr m p"
  "gnu_mi_uint7korr m p = mi_uint7korr m p" "gnu_mi_uint8korr m p = mi_uint8korr m p"
proof -
  show "gnu_mi_uint5korr m p = mi_uint5korr m p"
    by (rule bytes_eq64) (simp_all add: gnu_mi_uint5korr_def mi_uint5korr_def load32_def Let_def byte_bswapq [simplified] byte_simps)
  show "gnu_mi_uint6korr m p = mi_uint6korr m p"
    by (rule bytes_eq64) (simp_all add: gnu_mi_uint6korr_def mi_uint6korr_def load32_def load16_def Let_def byte_bswapq [simplified] byte_simps add.commute)
  show "gnu_mi_uint7korr m p = mi_uint7korr m p"
    by (rule bytes_eq64) (simp_all add: gnu_mi_uint7korr_def mi_uint7korr_def load32_def load16_def Let_def byte_bswapq [simplified] byte_simps add.commute)
  show "gnu_mi_uint8korr m p = mi_uint8korr m p"
    by (rule bytes_eq64) (simp_all add: gnu_mi_uint8korr_def mi_uint8korr_def load64_def byte_bswapq [simplified] byte_simps)
qed

section \<open>Three-byte signed numbers\<close>

lemma byte_signed:
  fixes v :: "32 word"
  shows "byte 0 (signed_take_bit 23 v) = byte 0 v" "byte 1 (signed_take_bit 23 v) = byte 1 v"
    "byte 2 (signed_take_bit 23 v) = byte 2 v" "byte 3 (signed_take_bit 23 v) = (if bit (byte 2 v) 7 then 255 else 0)"
proof -
  have b: "bit (byte k (signed_take_bit 23 v)) i \<longleftrightarrow> bit v (if 8 * k + i < 23 then 8 * k + i else 23)"
    if "i < 8" "k < 4" for k i
    using that by (auto simp: bit_byte bit_signed_take_bit_iff min_def)
  show "byte 0 (signed_take_bit 23 v) = byte 0 v"
    by (rule bit_word_eqI) (simp add: b [of _ 0] bit_byte [of _ v])
  show "byte 1 (signed_take_bit 23 v) = byte 1 v"
    by (rule bit_word_eqI) (simp add: b [of _ 1, simplified] bit_byte [of _ v])
  show "byte 2 (signed_take_bit 23 v) = byte 2 v"
  proof (rule bit_word_eqI)
    fix n
    assume "n < LENGTH(8)"
    then show "bit (byte 2 (signed_take_bit 23 v)) n = bit (byte 2 v) n"
      by (cases "n = 7") (auto simp: b bit_byte [of _ v])
  qed
  have m: "(255 :: uchar) = mask 8" by (simp add: mask_eq_exp_minus_1)
  show "byte 3 (signed_take_bit 23 v) = (if bit (byte 2 v) 7 then 255 else 0)"
    unfolding m by (rule bit_word_eqI) (auto simp: b bit_byte [of _ v] bit_mask_iff)
qed

lemma and_128: "(b AND 128 \<noteq> 0) = bit b 7" for b :: uchar
proof -
  have "(128 :: uchar) = 2 ^ 7" by simp
  then show ?thesis by (metis and_exp_eq_0_iff_not_bit)
qed

lemma high_ones:
  "byte 0 (0xFF000000 :: 32 word) = 0" "byte (Suc 0) (0xFF000000 :: 32 word) = 0"
  "byte 2 (0xFF000000 :: 32 word) = 0" "byte 3 (0xFF000000 :: 32 word) = 255"
  by (simp_all add: byte_def del: ucast_byte)

lemma sint3korr_signed: "sint3korr m p = signed_take_bit 23 (uint3korr m p)"
  by (rule bytes_eq32)
    (simp_all add: byte_signed [simplified] sint3korr_def uint3korr_def and_128 byte_simps high_ones)

lemma mi_sint3korr_signed: "mi_sint3korr m p = signed_take_bit 23 (mi_uint3korr m p)"
  by (rule bytes_eq32)
    (simp_all add: byte_signed [simplified] mi_sint3korr_def mi_uint3korr_def and_128 byte_simps high_ones)

lemma signed_take_of_take: "signed_take_bit 23 (take_bit 24 v) = signed_take_bit 23 v" for v :: "32 word"
  by (rule bit_word_eqI) (auto simp: bit_signed_take_bit_iff bit_take_bit_iff)

lemma sint_signed_23:
  assumes "- (2 ^ 23) \<le> i" "i < 2 ^ 23"
  shows "sint (signed_take_bit 23 (word_of_int i :: 32 word)) = i"
proof -
  have "signed_take_bit 23 i = i" using assms by (simp add: signed_take_bit_int_eq_self)
  then have "bit i (min 23 n) = bit i n" for n by (metis bit_signed_take_bit_iff possible_bit_int min.commute)
  then have "signed_take_bit 23 (word_of_int i :: 32 word) = word_of_int i"
    by (intro bit_word_eqI) (simp add: bit_signed_take_bit_iff bit_word_of_int_iff min_less_iff_disj)
  moreover have "sint (word_of_int i :: 32 word) = i" using assms by (simp add: signed_of_int signed_take_bit_int_eq_self)
  ultimately show ?thesis by simp
qed

section \<open>The order of stored keys\<close>

text \<open>\<open>memcmp(a, b, n) < 0\<close>, and the bytes of an area.\<close>

fun memcmp_less :: "uchar list \<Rightarrow> uchar list \<Rightarrow> bool" where
  "memcmp_less (a # as) (b # bs) = (if a = b then memcmp_less as bs else a < b)"
| "memcmp_less _ _ = False"

definition area :: "memory \<Rightarrow> nat \<Rightarrow> nat \<Rightarrow> uchar list" where
  "area m p n = map (\<lambda>k. m (p + k)) [0..<n]"

fun be_value :: "uchar list \<Rightarrow> nat" where
  "be_value [] = 0"
| "be_value (b # bs) = unat b * 256 ^ length bs + be_value bs"

lemma be_value_lt: "be_value bs < 256 ^ length bs"
proof (induction bs)
  case (Cons b bs)
  have "unat b < 256" using unsigned_less [of b, where 'a = nat] by simp
  then have "unat b * 256 ^ length bs + 256 ^ length bs \<le> 256 * 256 ^ length bs"
    by (metis Suc_leI add.commute mult_Suc mult_le_mono1)
  with Cons show ?case unfolding be_value.simps length_Cons power_Suc by linarith
qed simp

lemma memcmp_be_value: "length as = length bs \<Longrightarrow> memcmp_less as bs \<longleftrightarrow> be_value as < be_value bs"
proof (induction as bs rule: list_induct2)
  case (Cons a as b bs)
  let ?B = "256 ^ length bs :: nat"
  have lt: "be_value as < ?B" "be_value bs < ?B" using be_value_lt [of as] be_value_lt [of bs] Cons(1) by auto
  show ?case
  proof (cases "a = b")
    case False
    have step: "x * ?B + u < y * ?B + v" if "x < y" "u < ?B" for x y u v
    proof -
      have "x * ?B + ?B \<le> y * ?B" using that(1) by (metis Suc_leI add.commute mult_Suc mult_le_mono1)
      with that(2) show ?thesis by linarith
    qed
    have "unat a < unat b \<or> unat b < unat a" using False by (metis nat_neq_iff word_unat_eq_iff)
    then show ?thesis
      using step [of "unat a" "unat b" "be_value as" "be_value bs"] step [of "unat b" "unat a" "be_value bs" "be_value as"]
        lt False Cons(1) by (auto simp: word_less_nat_alt)
  qed (use Cons in simp)
qed simp

lemma be_value_4: "be_value [byte 3 v, byte 2 v, byte 1 v, byte 0 v] = unat v" for v :: "32 word"
proof -
  have b: "unat (byte k v) = unat v div 256 ^ k mod 256" for k
  proof -
    have "unat (byte k v) = take_bit 8 (unat (drop_bit (8 * k) v))"
      by (simp add: byte_def unsigned_ucast_eq del: ucast_byte)
    then show ?thesis by (simp add: unat_drop_bit take_bit_eq_mod power_mult)
  qed
  have split: "x = x div 256 * 256 + x mod 256" for x :: nat by simp
  let ?x = "unat v"
  have "?x < 256 ^ 4" using unsigned_less [of v, where 'a = nat] by simp
  then have top: "?x div 256 ^ 3 mod 256 = ?x div 256 ^ 3" by (simp add: div_less_iff_less_mult)
  have "?x = ((?x div 256 div 256 div 256 * 256 + ?x div 256 div 256 mod 256) * 256 + ?x div 256 mod 256) * 256 + ?x mod 256"
    by simp
  then show ?thesis
    using top by (simp add: b div_mult2_eq [symmetric])
qed

lemma memcmp_4:
  "memcmp_less [byte 3 v, byte 2 v, byte 1 v, byte 0 v] [byte 3 w, byte 2 w, byte 1 w, byte 0 w] \<longleftrightarrow> v < w"
  for v w :: "32 word"
  by (subst memcmp_be_value) (simp, simp only: be_value_4 word_less_nat_alt)

lemma area_mi4: "area (mi_int4store m p v) p 4 = [byte 3 v, byte 2 v, byte 1 v, byte 0 v]"
proof -
  have "[0..<4] = [0, 1, 2, 3 :: nat]" by (simp add: numeral_eq_Suc)
  then show ?thesis by (simp add: area_def mi_int4store_def byte_simps)
qed

section \<open>Floating-point variables\<close>

text \<open>
  Storing the variable at \<open>v\<close> in the buffer at \<open>t\<close> and getting it from there into the variable
  at \<open>u\<close> leaves there the bytes of the first variable, whatever the order inside the buffer.
\<close>

locale float_codec =
  fixes put get :: "memory \<Rightarrow> nat \<Rightarrow> nat \<Rightarrow> memory" and n :: nat
  assumes get_put: "t + n \<le> u \<or> u + n \<le> t \<Longrightarrow> i < n \<Longrightarrow> get (put m t v) u t (u + i) = m (v + i)"
begin

lemma get_put_area: "t + n \<le> u \<or> u + n \<le> t \<Longrightarrow> area (get (put m t v) u t) u n = area m v n"
  by (simp add: area_def get_put)

end

lemma below_4: "i < 4 \<Longrightarrow> P 0 \<Longrightarrow> P 1 \<Longrightarrow> P 2 \<Longrightarrow> P 3 \<Longrightarrow> P (i :: nat)"
  by (auto simp: less_Suc_eq numeral_eq_Suc)

lemma below_8: "i < 8 \<Longrightarrow> P 0 \<Longrightarrow> P 1 \<Longrightarrow> P 2 \<Longrightarrow> P 3 \<Longrightarrow> P 4 \<Longrightarrow> P 5 \<Longrightarrow> P 6 \<Longrightarrow> P 7 \<Longrightarrow> P (i :: nat)"
  by (auto simp: less_Suc_eq numeral_eq_Suc)

interpretation be_float4store_codec: float_codec be_float4store be_float4get 4
  by unfold_locales (erule below_4; auto simp: be_float4store_def be_float4get_def)

interpretation be_float8store_codec: float_codec be_float8store be_float8get 8
  by unfold_locales (erule below_8; auto simp: be_float8store_def be_float8get_def)

interpretation le_float4store_codec: float_codec le_float4store le_float4get 4
  by unfold_locales (erule below_4; auto simp: le_float4store_def le_float4get_def memcpy_def)

interpretation le_doublestore_mixed_codec: float_codec le_doublestore_mixed le_doubleget_mixed 8
  by unfold_locales (erule below_8; auto simp: le_doublestore_mixed_def le_doubleget_mixed_def)

interpretation le_doublestore_codec: float_codec le_doublestore le_doubleget 8
  by unfold_locales (erule below_8; auto simp: le_doublestore_def le_doubleget_def memcpy_def)

interpretation longlongstore_codec: float_codec longlongstore longlongget 8
  by unfold_locales (erule below_8; auto simp: longlongstore_def longlongget_def memcpy_def)

interpretation mi_float4store_be_codec: float_codec mi_float4store_be mi_float4get_be 4
  by unfold_locales (erule below_4; auto simp: mi_float4store_be_def mi_float4get_be_def)

interpretation mi_float8store_be_codec: float_codec mi_float8store_be mi_float8get_be 8
  by unfold_locales (erule below_8; auto simp: mi_float8store_be_def mi_float8get_be_def)

interpretation mi_float4store_codec: float_codec mi_float4store mi_float4get 4
  by unfold_locales (erule below_4; auto simp: mi_float4store_def mi_float4get_def)

interpretation mi_float8store_mixed_codec: float_codec mi_float8store_mixed mi_float8get_mixed 8
  by unfold_locales (erule below_8; auto simp: mi_float8store_mixed_def mi_float8get_mixed_def)

interpretation mi_float8store_codec: float_codec mi_float8store mi_float8get 8
  by unfold_locales (erule below_8; auto simp: mi_float8store_def mi_float8get_def)

interpretation key_and_row: two_fields mi_int4store mi_uint4korr 4 "\<lambda>v. v" mi_int8store mi_uint8korr 8 "\<lambda>v. v"
  by unfold_locales

section \<open>Guarantees of the byte-order macros\<close>

text \<open>
  C15. A number stored low byte first is read back: at every width the reader of the portable
  header returns the stored value reduced to the bytes stored, and no byte outside the field
  changes.
\<close>

theorem intstore_korr_roundtrip:
  "uint2korr (int2store m p v) p = ucast v \<and> uint3korr (int3store m p v) p = take_bit 24 v \<and>
   uint4korr (int4store m p v) p = v \<and> uint5korr (int5store m p w) p = take_bit 40 w \<and>
   uint6korr (int6store m p w) p = take_bit 48 w \<and> uint8korr (int8store m p w) p = w \<and>
   agree_outside p 2 m (int2store m p v) \<and> agree_outside p 3 m (int3store m p v) \<and>
   agree_outside p 4 m (int4store m p v) \<and> agree_outside p 5 m (int5store m p w) \<and>
   agree_outside p 6 m (int6store m p w) \<and> agree_outside p 8 m (int8store m p w)"
  by (intro conjI le2.load_store le3.load_store le4.load_store le5.load_store le6.load_store le8.load_store
      le2.store_frame le3.store_frame le4.store_frame le5.store_frame le6.store_frame le8.store_frame)

text \<open>
  C16. The variants for x86-64, which go through the machine's loads, stores and byte swap, read
  and write exactly what the portable byte-by-byte macros do, in both byte orders.
\<close>

theorem x86_64_variants_equivalent:
  "x64_uint2korr m p = uint2korr m p \<and> x64_sint2korr m p = sint2korr m p \<and>
   x64_uint3korr m p = uint3korr m p \<and> x64_sint3korr m p = sint3korr m p \<and>
   x64_uint4korr m p = uint4korr m p \<and> x64_sint4korr m p = sint4korr m p \<and>
   x64_uint5korr m p = uint5korr m p \<and> x64_uint6korr m p = uint6korr m p \<and> x64_uint8korr m p = uint8korr m p \<and>
   x64_int2store m p v = int2store m p v \<and> x64_int3store m p v = int3store m p v \<and>
   x64_int4store m p v = int4store m p v \<and> x64_int5store m p w = int5store m p w \<and>
   x64_int6store m p w = int6store m p w \<and> x64_int8store m p w = int8store m p w \<and>
   gnu_mi_uint5korr m p = mi_uint5korr m p \<and> gnu_mi_uint6korr m p = mi_uint6korr m p \<and>
   gnu_mi_uint7korr m p = mi_uint7korr m p \<and> gnu_mi_uint8korr m p = mi_uint8korr m p"
  by (simp only: x64_readers_agree x64_writers_agree gnu_readers_agree simp_thms)

text \<open>
  Keys are stored high byte first so that comparing their bytes compares the numbers: the
  order of two stored four-byte keys by memcmp is the order of their values, and each is read
  back unchanged.
\<close>

theorem mi_keys_in_order:
  "(memcmp_less (area (mi_int4store m p v) p 4) (area (mi_int4store m' q w) q 4) \<longleftrightarrow> v < w) \<and>
   mi_uint4korr (mi_int4store m p v) p = v \<and> mi_uint8korr (mi_int8store m p x) p = x"
  by (simp only: area_mi4 memcmp_4 mi4.load_store mi8.load_store simp_thms)

text \<open>
  A signed number of three bytes comes back with its sign, in both byte orders, for every
  value in the range of 24 bits.
\<close>

theorem sint3_roundtrip:
  assumes "- (2 ^ 23) \<le> i" "i < 2 ^ 23"
  shows "sint (sint3korr (int3store m p (word_of_int i)) p) = i \<and>
    sint (mi_sint3korr (mi_int3store m p (word_of_int i)) p) = i"
  using sint_signed_23 [OF assms]
  by (simp add: sint3korr_signed mi_sint3korr_signed le3.load_store mi3.load_store signed_take_of_take)

theorem sint3_roundtrip_witness:
  "sint (sint3korr (int3store (\<lambda>_. 0) 10 (word_of_int (- 5))) 10) = - 5 \<and>
   sint (mi_sint3korr (mi_int3store (\<lambda>_. 0) 10 (word_of_int (- 5))) 10) = - 5"
  by (rule sint3_roundtrip) simp_all

end
