(* ===== verification/Privilege_Rights.thy ===== *)
theory Privilege_Rights
  imports Privilege
begin

text \<open>
  The guarantees of \<open>privilege.h\<close>: the bits are distinct and none is missing from the set of all
  known bits, the levels of privileges are nested, and the conversions to and from the grant
  tables lose nothing.
\<close>

lemmas acl_bits =
  SELECT_ACL_def INSERT_ACL_def UPDATE_ACL_def DELETE_ACL_def CREATE_ACL_def DROP_ACL_def RELOAD_ACL_def
  SHUTDOWN_ACL_def PROCESS_ACL_def FILE_ACL_def GRANT_ACL_def REFERENCES_ACL_def INDEX_ACL_def ALTER_ACL_def
  SHOW_DB_ACL_def SUPER_ACL_def CREATE_TMP_ACL_def LOCK_TABLES_ACL_def EXECUTE_ACL_def REPL_SLAVE_ACL_def
  BINLOG_MONITOR_ACL_def CREATE_VIEW_ACL_def SHOW_VIEW_ACL_def CREATE_PROC_ACL_def ALTER_PROC_ACL_def
  CREATE_USER_ACL_def EVENT_ACL_def TRIGGER_ACL_def CREATE_TABLESPACE_ACL_def DELETE_HISTORY_ACL_def
  SET_USER_ACL_def FEDERATED_ADMIN_ACL_def CONNECTION_ADMIN_ACL_def READ_ONLY_ADMIN_ACL_def
  REPL_SLAVE_ADMIN_ACL_def REPL_MASTER_ADMIN_ACL_def BINLOG_ADMIN_ACL_def BINLOG_REPLAY_ACL_def
  SLAVE_MONITOR_ACL_def

lemmas acl_groups =
  COL_DML_ACLS_def VIEW_ACLS_def STD_TABLE_DDL_ACLS_def ALL_TABLE_DDL_ACLS_def COL_ACLS_def PROC_DDL_ACLS_def
  TABLE_ACLS_def DB_ACLS_def PROC_ACLS_def GLOBAL_SUPER_ADDED_SINCE_USER_TABLE_ACLS_def GLOBAL_ACLS_def

lemma group_values:
  "COL_DML_ACLS = 0xF" "VIEW_ACLS = 0x600000" "PROC_DDL_ACLS = 0x1800000" "COL_ACLS = 0x807"
  "TABLE_ACLS = 0x28603C3F" "DB_ACLS = 0x2DE73C3F" "PROC_ACLS = 0x1040400" "GLOBAL_ACLS = 0x7FFFFFFFFF"
  by (simp_all add: acl_groups acl_bits)

lemma chunk_values:
  "DB_CHUNK0 = 0x3F" "DB_CHUNK1 = 0x3C00" "DB_CHUNK2 = 0x30000" "DB_CHUNK3 = 0x1E00000" "DB_CHUNK4 = 0x40000"
  "DB_CHUNK5 = 0xC000000" "DB_CHUNK6 = 0x20000000"
  by (simp_all add: DB_CHUNK0_def DB_CHUNK1_def DB_CHUNK2_def DB_CHUNK3_def DB_CHUNK4_def DB_CHUNK5_def
      DB_CHUNK6_def group_values acl_bits)

section \<open>Moving chunks of bits\<close>

text \<open>
  Both directions of the conversions, for a list of chunks: each chunk is a mask and the distance
  it moves.
\<close>

definition spread :: "(nat \<times> privilege_t) list \<Rightarrow> privilege_t \<Rightarrow> privilege_t" where
  "spread cs A = foldr (\<lambda>(s, c) r. (push_bit s A AND c) OR r) cs 0"

definition gather :: "(nat \<times> privilege_t) list \<Rightarrow> privilege_t \<Rightarrow> privilege_t" where
  "gather cs A = foldr (\<lambda>(s, c) r. drop_bit s (A AND c) OR r) cs 0"

definition all_chunks :: "(nat \<times> privilege_t) list \<Rightarrow> privilege_t" where
  "all_chunks cs = foldr (\<lambda>(s, c) r. c OR r) cs 0"

text \<open>No chunk reaches below its distance, none lands on another, and no two overlap.\<close>

definition chunks_ok :: "(nat \<times> privilege_t) list \<Rightarrow> bool" where
  "chunks_ok cs \<longleftrightarrow> list_all (\<lambda>(s, c). take_bit s c = 0 \<and>
     list_all (\<lambda>(t, m). (s, c) = (t, m) \<or> (push_bit s (drop_bit t m) AND c = 0 \<and> m AND c = 0)) cs) cs"

lemma bit_spread: "bit (spread cs A) i \<longleftrightarrow> (\<exists>(s, c) \<in> set cs. s \<le> i \<and> bit A (i - s) \<and> bit c i)"
proof -
  have "bit c i \<Longrightarrow> i < 64" for c :: privilege_t using bit_imp_le_length [of c i] by simp
  then show ?thesis
    by (induction cs) (auto simp: spread_def bit_or_iff bit_and_iff bit_push_bit_iff)
qed

lemma bit_gather: "bit (gather cs A) j \<longleftrightarrow> (\<exists>(s, c) \<in> set cs. bit A (s + j) \<and> bit c (s + j))"
  by (induction cs) (auto simp: gather_def bit_or_iff bit_and_iff bit_drop_bit_eq)

lemma bit_all_chunks: "bit (all_chunks cs) i \<longleftrightarrow> (\<exists>(s, c) \<in> set cs. bit c i)"
  by (induction cs) (auto simp: all_chunks_def bit_or_iff)

lemma chunks_okD:
  assumes "chunks_ok cs" "(s, c) \<in> set cs"
  shows "bit c i \<Longrightarrow> s \<le> i"
    and "(t, m) \<in> set cs \<Longrightarrow> s \<le> i \<Longrightarrow> bit m (t + (i - s)) \<Longrightarrow> bit c i \<Longrightarrow> (t, m) = (s, c)"
    and "(t, m) \<in> set cs \<Longrightarrow> bit m i \<Longrightarrow> bit c i \<Longrightarrow> (t, m) = (s, c)"
proof -
  have 1: "take_bit s c = 0" and 2: "\<And>t m. (t, m) \<in> set cs \<Longrightarrow> (s, c) = (t, m) \<or>
      (push_bit s (drop_bit t m) AND c = 0 \<and> m AND c = 0)"
    using assms by (force simp: chunks_ok_def list_all_iff)+
  show "bit c i \<Longrightarrow> s \<le> i" using arg_cong [OF 1, of "\<lambda>x. bit x i"] by (auto simp: bit_take_bit_iff)
  show "(t, m) = (s, c)" if "(t, m) \<in> set cs" "s \<le> i" "bit m (t + (i - s))" "bit c i"
  proof (rule ccontr)
    assume "(t, m) \<noteq> (s, c)"
    with 2 [OF that(1)] have "\<not> bit (push_bit s (drop_bit t m) AND c) i" by auto
    moreover have "i < 64" using bit_imp_le_length [OF that(4)] by simp
    ultimately show False using that by (simp add: bit_and_iff bit_push_bit_iff bit_drop_bit_eq)
  qed
  show "(t, m) = (s, c)" if "(t, m) \<in> set cs" "bit m i" "bit c i"
  proof (rule ccontr)
    assume "(t, m) \<noteq> (s, c)"
    with 2 [OF that(1)] have "\<not> bit (m AND c) i" by auto
    with that show False by (simp add: bit_and_iff)
  qed
qed

lemma spread_gather:
  assumes "chunks_ok cs"
  shows "spread cs (gather cs A) = A AND all_chunks cs"
proof (rule bit_word_eqI)
  fix i
  note ok = chunks_okD [OF assms]
  show "bit (spread cs (gather cs A)) i = bit (A AND all_chunks cs) i"
  proof
    assume "bit (spread cs (gather cs A)) i"
    then obtain s c t m where 1: "(s, c) \<in> set cs" "s \<le> i" "bit c i" "(t, m) \<in> set cs"
        "bit A (t + (i - s))" "bit m (t + (i - s))"
      by (auto simp: bit_spread bit_gather)
    then have "(t, m) = (s, c)" using ok(2) by blast
    with 1 show "bit (A AND all_chunks cs) i" by (auto simp: bit_and_iff bit_all_chunks)
  next
    assume "bit (A AND all_chunks cs) i"
    then obtain s c where 1: "(s, c) \<in> set cs" "bit c i" "bit A i" by (auto simp: bit_and_iff bit_all_chunks)
    moreover have "s \<le> i" using ok(1) [OF 1(1,2)] .
    ultimately show "bit (spread cs (gather cs A)) i"
      by (auto simp: bit_spread bit_gather intro!: bexI [of _ "(s, c)"])
  qed
qed

lemma gather_spread:
  assumes "chunks_ok cs"
  shows "gather cs (spread cs B) = B AND gather cs (- 1)"
proof (rule bit_word_eqI)
  fix j :: nat
  assume "j < LENGTH(64)"
  note ok = chunks_okD [OF assms]
  show "bit (gather cs (spread cs B)) j = bit (B AND gather cs (- 1)) j"
  proof
    assume "bit (gather cs (spread cs B)) j"
    then obtain s c t m where 1: "(s, c) \<in> set cs" "bit c (s + j)" "(t, m) \<in> set cs" "t \<le> s + j"
        "bit B (s + j - t)" "bit m (s + j)"
      by (auto simp: bit_spread bit_gather)
    then have "(t, m) = (s, c)" using ok(3) by blast
    moreover have "s + j < 64" using bit_imp_le_length [OF 1(2)] by simp
    ultimately show "bit (B AND gather cs (- 1)) j" using 1 by (auto simp: bit_and_iff bit_gather intro!: bexI [of _ "(s, c)"])
  next
    assume "bit (B AND gather cs (- 1)) j"
    then obtain s c where "(s, c) \<in> set cs" "bit c (s + j)" "bit B j" by (auto simp: bit_and_iff bit_gather)
    then show "bit (gather cs (spread cs B)) j"
      by (auto simp: bit_spread bit_gather intro!: bexI [of _ "(s, c)"])
  qed
qed

section \<open>The four encodings\<close>

text \<open>
  What the code that reads and writes the grant tables relies on: within the privileges of its
  level, the compact form determines the privileges and back.
\<close>

locale rights_encoding =
  fixes expand :: "privilege_t \<Rightarrow> privilege_t" and compress :: "privilege_t \<Rightarrow> privilege_t"
    and scope :: privilege_t and compact :: privilege_t
  assumes expand_compress: "A AND scope = A \<Longrightarrow> expand (compress A) = A"
    and compress_expand: "B AND compact = B \<Longrightarrow> compress (expand B) = B"
begin

lemma compress_inj: "A AND scope = A \<Longrightarrow> B AND scope = B \<Longrightarrow> compress A = compress B \<Longrightarrow> A = B"
  by (metis expand_compress)

lemma expand_inj: "A AND compact = A \<Longrightarrow> B AND compact = B \<Longrightarrow> expand A = expand B \<Longrightarrow> A = B"
  by (metis compress_expand)

end

lemma chunks_encoding:
  assumes "chunks_ok cs" "\<And>A. f A = spread cs A" "\<And>A. g A = gather cs A"
    "scope = all_chunks cs" "compact = gather cs (- 1)"
  shows "rights_encoding f g scope compact"
  by unfold_locales (simp_all add: assms spread_gather gather_spread)

definition db_chunks :: "(nat \<times> privilege_t) list" where
  "db_chunks = [(0, 0x3F), (4, 0x3C00), (6, 0x30000), (9, 0x1E00000), (2, 0x40000), (9, 0xC000000), (10, 0x20000000)]"

definition table_chunks :: "(nat \<times> privilege_t) list" where
  "table_chunks = [(0, 0x3F), (4, 0x3C00), (11, 0x600000), (15, 0x8000000), (16, 0x20000000)]"

definition procedure_chunks :: "(nat \<times> privilege_t) list" where
  "procedure_chunks = [(18, 0x40000), (23, 0x1000000), (8, 0x400)]"

lemma chunks_ok_levels: "chunks_ok db_chunks" "chunks_ok table_chunks" "chunks_ok procedure_chunks"
  by (simp_all add: chunks_ok_def db_chunks_def table_chunks_def procedure_chunks_def take_bit_eq_mask mask_eq_exp_minus_1)

interpretation db_rights: rights_encoding fix_rights_for_db get_rights_for_db DB_ACLS "0xFFFFF"
proof (rule chunks_encoding [OF chunks_ok_levels(1)])
  show "fix_rights_for_db A = spread db_chunks A" "get_rights_for_db A = gather db_chunks A" for A
    by (simp_all add: fix_rights_for_db_def get_rights_for_db_def spread_def gather_def db_chunks_def chunk_values or.assoc)
  show "DB_ACLS = all_chunks db_chunks" by (simp add: group_values all_chunks_def db_chunks_def)
  show "0xFFFFF = gather db_chunks (- 1)" by (simp add: gather_def db_chunks_def)
qed

interpretation table_rights: rights_encoding fix_rights_for_table get_rights_for_table TABLE_ACLS "0x3FFF"
proof (rule chunks_encoding [OF chunks_ok_levels(2)])
  have v: "TBL_CHUNK0 = 0x3F" "TBL_CHUNK1 = 0x3C00" "TBL_CHUNK2 = 0x600000" "TBL_CHUNK3 = 0x8000000" "TBL_CHUNK4 = 0x20000000"
    by (simp_all add: TBL_CHUNK0_def TBL_CHUNK1_def TBL_CHUNK2_def TBL_CHUNK3_def TBL_CHUNK4_def chunk_values acl_bits)
  show "fix_rights_for_table A = spread table_chunks A" "get_rights_for_table A = gather table_chunks A" for A
    by (simp_all add: fix_rights_for_table_def get_rights_for_table_def spread_def gather_def table_chunks_def v or.assoc)
  show "TABLE_ACLS = all_chunks table_chunks" by (simp add: group_values all_chunks_def table_chunks_def)
  show "0x3FFF = gather table_chunks (- 1)" by (simp add: gather_def table_chunks_def)
qed

interpretation procedure_rights: rights_encoding fix_rights_for_procedure get_rights_for_procedure PROC_ACLS 7
proof (rule chunks_encoding [OF chunks_ok_levels(3)])
  show "fix_rights_for_procedure A = spread procedure_chunks A" "get_rights_for_procedure A = gather procedure_chunks A" for A
    by (simp_all add: fix_rights_for_procedure_def get_rights_for_procedure_def spread_def gather_def procedure_chunks_def
        acl_bits or.assoc)
  show "PROC_ACLS = all_chunks procedure_chunks" by (simp add: group_values all_chunks_def procedure_chunks_def)
  show "7 = gather procedure_chunks (- 1)" by (simp add: gather_def procedure_chunks_def)
qed

lemma bit_col_acls: "bit COL_ACLS i \<longleftrightarrow> i < 3 \<or> i = 11"
proof -
  have "(0x807 :: privilege_t) = mask 3 OR 2 ^ 11" by (simp add: mask_eq_exp_minus_1)
  then show ?thesis
    unfolding group_values by (simp only: bit_or_iff bit_mask_iff bit_exp_iff possible_bit_word) auto
qed

lemma bit_column_forms:
  "bit (fix_rights_for_column B) i \<longleftrightarrow> (bit B i \<and> i < 3) \<or> (i < 64 \<and> 8 \<le> i \<and> bit B (i - 8) \<and> \<not> i - 8 < 3)"
  "bit (get_rights_for_column A) i \<longleftrightarrow> (bit A i \<and> i < 3) \<or> bit A (8 + i)"
proof -
  have m: "SELECT_ACL OR INSERT_ACL OR UPDATE_ACL = mask 3" by (simp add: acl_bits mask_eq_exp_minus_1)
  show "bit (fix_rights_for_column B) i \<longleftrightarrow> (bit B i \<and> i < 3) \<or> (i < 64 \<and> 8 \<le> i \<and> bit B (i - 8) \<and> \<not> i - 8 < 3)"
    unfolding fix_rights_for_column_def Let_def m bit_or_iff bit_push_bit_iff bit_and_iff bit_not_iff bit_mask_iff
    by (auto simp: possible_bit_def)
  show "bit (get_rights_for_column A) i \<longleftrightarrow> (bit A i \<and> i < 3) \<or> bit A (8 + i)"
    unfolding get_rights_for_column_def Let_def m bit_or_iff bit_drop_bit_eq bit_and_iff bit_mask_iff
    by (auto simp: possible_bit_def)
qed

interpretation column_rights: rights_encoding fix_rights_for_column get_rights_for_column COL_ACLS "mask 4"
proof
  fix A :: privilege_t
  assume A: "A AND COL_ACLS = A"
  then have b: "bit A i \<Longrightarrow> i < 3 \<or> i = 11" for i by (metis bit_and_iff bit_col_acls)
  show "fix_rights_for_column (get_rights_for_column A) = A"
  proof (rule bit_word_eqI)
    fix i
    show "bit (fix_rights_for_column (get_rights_for_column A)) i = bit A i"
      unfolding bit_column_forms using b [of i] b [of "8 + i"] b [of "i - 8"] by auto
  qed
next
  fix B :: privilege_t
  assume B: "B AND mask 4 = B"
  then have b: "bit B i \<Longrightarrow> i < 4" for i by (metis bit_and_iff bit_mask_iff)
  show "get_rights_for_column (fix_rights_for_column B) = B"
  proof (rule bit_word_eqI)
    fix i
    show "bit (get_rights_for_column (fix_rights_for_column B)) i = bit B i"
      unfolding bit_column_forms using b [of i] b [of "8 + i"] by auto
  qed
qed

section \<open>Guarantees\<close>

text \<open>
  C17. The privileges of a database, a table, a column and a routine survive the trip through the
  compact form of the grant tables, and every compact value comes back from the privileges it
  stands for.
\<close>

theorem grant_tables_roundtrip:
  "(A AND DB_ACLS = A \<longrightarrow> fix_rights_for_db (get_rights_for_db A) = A) \<and>
   (A AND TABLE_ACLS = A \<longrightarrow> fix_rights_for_table (get_rights_for_table A) = A) \<and>
   (A AND COL_ACLS = A \<longrightarrow> fix_rights_for_column (get_rights_for_column A) = A) \<and>
   (A AND PROC_ACLS = A \<longrightarrow> fix_rights_for_procedure (get_rights_for_procedure A) = A) \<and>
   (B AND 0xFFFFF = B \<longrightarrow> get_rights_for_db (fix_rights_for_db B) = B) \<and>
   (B AND 0x3FFF = B \<longrightarrow> get_rights_for_table (fix_rights_for_table B) = B) \<and>
   (B AND mask 4 = B \<longrightarrow> get_rights_for_column (fix_rights_for_column B) = B) \<and>
   (B AND 7 = B \<longrightarrow> get_rights_for_procedure (fix_rights_for_procedure B) = B)"
  by (simp add: db_rights.expand_compress table_rights.expand_compress column_rights.expand_compress
      procedure_rights.expand_compress db_rights.compress_expand table_rights.compress_expand
      column_rights.compress_expand procedure_rights.compress_expand)

theorem grant_tables_roundtrip_witness:
  "fix_rights_for_db (get_rights_for_db (SELECT_ACL OR GRANT_ACL OR EXECUTE_ACL)) = SELECT_ACL OR GRANT_ACL OR EXECUTE_ACL"
proof -
  have "(SELECT_ACL OR GRANT_ACL OR EXECUTE_ACL) AND DB_ACLS = SELECT_ACL OR GRANT_ACL OR EXECUTE_ACL"
    by (simp add: acl_bits group_values)
  with grant_tables_roundtrip [of "SELECT_ACL OR GRANT_ACL OR EXECUTE_ACL" 0] show ?thesis by blast
qed

text \<open>
  The enumeration consists of the first thirty-nine single bits in order; together they are
  the set of all known privileges, the last one is the current marker, and the levels are
  nested: a column's privileges are a table's, a table's a database's, a database's global ones.
\<close>

theorem privilege_levels:
  "privilege_enum = map (\<lambda>k. push_bit k 1) [0..<39] \<and>
   foldr (OR) privilege_enum NO_ACL = ALL_KNOWN_ACL \<and> GLOBAL_ACLS = ALL_KNOWN_ACL \<and>
   push_bit (unat PRIVILEGE_T_MAX_BIT) 1 = LAST_CURRENT_ACL \<and>
   COL_ACLS AND TABLE_ACLS = COL_ACLS \<and> TABLE_ACLS AND DB_ACLS = TABLE_ACLS \<and> PROC_ACLS AND DB_ACLS = PROC_ACLS \<and>
   DB_ACLS AND GLOBAL_ACLS = DB_ACLS \<and> ALL_KNOWN_ACL_100304 AND ALL_KNOWN_ACL_100502 = ALL_KNOWN_ACL_100304 \<and>
   ALL_KNOWN_ACL_100502 AND ALL_KNOWN_ACL_100508 = ALL_KNOWN_ACL_100502"
proof -
  have u: "[0..<39] = [0, 1, 2, 3, 4, 5, 6, 7, 8, 9, 10, 11, 12, 13, 14, 15, 16, 17, 18, 19, 20, 21, 22, 23,
      24, 25, 26, 27, 28, 29, 30, 31, 32, 33, 34, 35, 36, 37, 38 :: nat]" by (simp add: upt_rec_numeral upt_conv_Cons)
  have e: "privilege_enum = map (\<lambda>k. push_bit k 1) [0..<39]"
    unfolding u by (simp add: privilege_enum_def acl_bits)
  have known: "ALL_KNOWN_ACL = 0x7FFFFFFFFF" "ALL_KNOWN_ACL_100304 = 0x3FFFFFFF" "ALL_KNOWN_ACL_100502 = 0x3FFFFFFFFF"
      "ALL_KNOWN_ACL_100508 = 0x7FFFFFFFFF"
    by (simp_all add: ALL_KNOWN_ACL_def ALL_KNOWN_ACL_100304_def ALL_KNOWN_ACL_100502_def ALL_KNOWN_ACL_100508_def
        LAST_CURRENT_ACL_def LAST_100304_ACL_def LAST_100502_ACL_def LAST_100508_ACL_def ALL_KNOWN_BITS_def acl_bits)
  have "foldr (OR) privilege_enum NO_ACL = ALL_KNOWN_ACL"
    by (simp add: privilege_enum_def acl_bits NO_ACL_def known)
  moreover have "push_bit (unat PRIVILEGE_T_MAX_BIT) 1 = LAST_CURRENT_ACL"
    by (simp add: PRIVILEGE_T_MAX_BIT_def LAST_CURRENT_ACL_def LAST_100508_ACL_def acl_bits my_bit_log2_uint64_def
        my_bit_log2_uint32_def my_bit_log2_uint16_def my_bit_log2_uint8_def my_bit_log2_hex_digit_def)
  ultimately show ?thesis using e by (simp add: known group_values)
qed

end
