(* ===== verification/Sql_Numbers.thy ===== *)
theory Sql_Numbers
  imports Bit_Count
begin

text \<open>
  The integers of SQL expressions (\<open>sql_type_int.h\<close>: integers that may be null, and integers
  whose signedness is only known at run time) and the counters of LIMIT and OFFSET
  (\<open>sql_limit.h\<close>). A longlong is a word of 64 bits read with \<open>sint\<close>, an ulonglong the same word
  read with \<open>uint\<close>, so that the casts between them are the identity on the word.
\<close>

type_synonym longlong = "64 word"
type_synonym ha_rows = "64 word"

section \<open>Integers that may be null\<close>

record Longlong_null =
  m_value :: longlong
  m_is_null :: bool

definition Longlong_null_null :: Longlong_null where
  "Longlong_null_null = \<lparr>m_value = 0, m_is_null = True\<rparr>"

definition Longlong_null_value :: "longlong \<Rightarrow> Longlong_null" where
  "Longlong_null_value nr = \<lparr>m_value = nr, m_is_null = False\<rparr>"

definition lln_or :: "Longlong_null \<Rightarrow> Longlong_null \<Rightarrow> Longlong_null" where
  "lln_or a b =
     (if m_is_null a \<or> m_is_null b then Longlong_null_null
      else Longlong_null_value (m_value a OR m_value b))"

definition lln_and :: "Longlong_null \<Rightarrow> Longlong_null \<Rightarrow> Longlong_null" where
  "lln_and a b =
     (if m_is_null a \<or> m_is_null b then Longlong_null_null
      else Longlong_null_value (m_value a AND m_value b))"

definition lln_xor :: "Longlong_null \<Rightarrow> Longlong_null \<Rightarrow> Longlong_null" where
  "lln_xor a b =
     (if m_is_null a \<or> m_is_null b then Longlong_null_null
      else Longlong_null_value (m_value a XOR m_value b))"

definition lln_not :: "Longlong_null \<Rightarrow> Longlong_null" where
  "lln_not a = (if m_is_null a then a else Longlong_null_value (NOT (m_value a)))"

text \<open>The shift count is cut to 32 bits before it is compared with the width.\<close>

definition lln_shl :: "Longlong_null \<Rightarrow> Longlong_null \<Rightarrow> Longlong_null" where
  "lln_shl a llshift =
     (if m_is_null a \<or> m_is_null llshift then Longlong_null_null
      else let shift = ucast (m_value llshift) :: uint;
               res = (if shift < 64 then push_bit (unat shift) (m_value a) else 0)
           in Longlong_null_value res)"

definition lln_shr :: "Longlong_null \<Rightarrow> Longlong_null \<Rightarrow> Longlong_null" where
  "lln_shr a llshift =
     (if m_is_null a \<or> m_is_null llshift then Longlong_null_null
      else let shift = ucast (m_value llshift) :: uint;
               res = (if shift < 64 then drop_bit (unat shift) (m_value a) else 0)
           in Longlong_null_value res)"

definition lln_bit_count :: "Longlong_null \<Rightarrow> Longlong_null" where
  "lln_bit_count a = (if m_is_null a then a else Longlong_null_value (ucast (my_count_bits (m_value a))))"

section \<open>Integers that are signed or unsigned\<close>

record Longlong_hybrid =
  h_value :: longlong
  m_unsigned :: bool

definition cmp_signed :: "Longlong_hybrid \<Rightarrow> Longlong_hybrid \<Rightarrow> int" where
  "cmp_signed a b =
     (if sint (h_value a) < sint (h_value b) then -1 else if h_value a = h_value b then 0 else 1)"

definition cmp_unsigned :: "Longlong_hybrid \<Rightarrow> Longlong_hybrid \<Rightarrow> int" where
  "cmp_unsigned a b = (if h_value a < h_value b then -1 else if h_value a = h_value b then 0 else 1)"

definition LONGLONG_MAX :: longlong where "LONGLONG_MAX = 0x7FFFFFFFFFFFFFFF"
definition LONGLONG_MIN :: longlong where "LONGLONG_MIN = 0x8000000000000000"

definition is_unsigned_outside_of_signed_range :: "Longlong_hybrid \<Rightarrow> bool" where
  "is_unsigned_outside_of_signed_range a \<longleftrightarrow> m_unsigned a \<and> LONGLONG_MAX < h_value a"

definition hyb_neg :: "Longlong_hybrid \<Rightarrow> bool" where
  "hyb_neg a \<longleftrightarrow> sint (h_value a) < 0 \<and> \<not> m_unsigned a"

definition hyb_abs :: "Longlong_hybrid \<Rightarrow> ulonglong" where
  "hyb_abs a =
     (if m_unsigned a then h_value a
      else if h_value a = LONGLONG_MIN then LONGLONG_MAX + 1
      else if sint (h_value a) < 0 then - h_value a else h_value a)"

definition hyb_to_ulonglong :: "Longlong_hybrid \<Rightarrow> ulonglong \<Rightarrow> ulonglong" where
  "hyb_to_ulonglong a upper_bound =
     (if hyb_neg a then 0 else if upper_bound < h_value a then upper_bound else h_value a)"

definition hyb_to_uint :: "Longlong_hybrid \<Rightarrow> uint \<Rightarrow> uint" where
  "hyb_to_uint a upper_bound = ucast (hyb_to_ulonglong a (ucast upper_bound))"

definition hyb_cmp :: "Longlong_hybrid \<Rightarrow> Longlong_hybrid \<Rightarrow> int" where
  "hyb_cmp a b =
     (if m_unsigned a = m_unsigned b then (if m_unsigned a then cmp_unsigned a b else cmp_signed a b)
      else if is_unsigned_outside_of_signed_range a then 1
      else if is_unsigned_outside_of_signed_range b then -1
      else cmp_signed a b)"

definition hyb_eq :: "Longlong_hybrid \<Rightarrow> Longlong_hybrid \<Rightarrow> bool" where
  "hyb_eq a b \<longleftrightarrow> hyb_cmp a b = 0"

definition hyb_eq_ulonglong :: "Longlong_hybrid \<Rightarrow> ulonglong \<Rightarrow> bool" where
  "hyb_eq_ulonglong a nr \<longleftrightarrow> hyb_cmp a \<lparr>h_value = nr, m_unsigned = True\<rparr> = 0"

definition hyb_eq_uint :: "Longlong_hybrid \<Rightarrow> uint \<Rightarrow> bool" where
  "hyb_eq_uint a nr \<longleftrightarrow> hyb_cmp a \<lparr>h_value = ucast nr, m_unsigned = True\<rparr> = 0"

definition hyb_eq_longlong :: "Longlong_hybrid \<Rightarrow> longlong \<Rightarrow> bool" where
  "hyb_eq_longlong a nr \<longleftrightarrow> hyb_cmp a \<lparr>h_value = nr, m_unsigned = False\<rparr> = 0"

definition hyb_eq_int :: "Longlong_hybrid \<Rightarrow> 32 word \<Rightarrow> bool" where
  "hyb_eq_int a nr \<longleftrightarrow> hyb_cmp a \<lparr>h_value = scast nr, m_unsigned = False\<rparr> = 0"

record Longlong_hybrid_null = Longlong_hybrid +
  h_is_null :: bool

definition Longlong_hybrid_null_of :: "Longlong_null \<Rightarrow> bool \<Rightarrow> Longlong_hybrid_null" where
  "Longlong_hybrid_null_of nr unsigned_flag =
     \<lparr>h_value = m_value nr, m_unsigned = unsigned_flag, h_is_null = m_is_null nr\<rparr>"

section \<open>The counters of LIMIT and OFFSET\<close>

record Select_limit_counters =
  select_limit_cnt :: ha_rows
  offset_limit_cnt :: ha_rows
  with_ties :: bool

definition HA_POS_ERROR :: ha_rows where "HA_POS_ERROR = NOT 0"

definition Select_limit_counters_init :: Select_limit_counters where
  "Select_limit_counters_init = \<lparr>select_limit_cnt = 0, offset_limit_cnt = 0, with_ties = False\<rparr>"

definition Select_limit_counters_copy :: "Select_limit_counters \<Rightarrow> Select_limit_counters" where
  "Select_limit_counters_copy orig =
     \<lparr>select_limit_cnt = select_limit_cnt orig, offset_limit_cnt = offset_limit_cnt orig, with_ties = with_ties orig\<rparr>"

definition set_limit :: "ha_rows \<Rightarrow> ha_rows \<Rightarrow> bool \<Rightarrow> Select_limit_counters \<Rightarrow> Select_limit_counters" where
  "set_limit limit offset with_ties_arg c =
     (let offset = (if limit = 0 then 0 else offset);
          c = c\<lparr>offset_limit_cnt := offset, select_limit_cnt := limit, with_ties := with_ties_arg\<rparr>
      in if select_limit_cnt c \<le> select_limit_cnt c + offset_limit_cnt c
         then c\<lparr>select_limit_cnt := select_limit_cnt c + offset_limit_cnt c\<rparr>
         else c\<lparr>select_limit_cnt := HA_POS_ERROR\<rparr>)"

definition set_single_row :: "Select_limit_counters \<Rightarrow> Select_limit_counters" where
  "set_single_row c = c\<lparr>offset_limit_cnt := 0, select_limit_cnt := 1, with_ties := False\<rparr>"

definition is_unlimited :: "Select_limit_counters \<Rightarrow> bool" where
  "is_unlimited c \<longleftrightarrow> select_limit_cnt c = HA_POS_ERROR"

definition set_unlimited :: "Select_limit_counters \<Rightarrow> Select_limit_counters" where
  "set_unlimited c = c\<lparr>select_limit_cnt := HA_POS_ERROR\<rparr>"

definition limit_clear :: "Select_limit_counters \<Rightarrow> Select_limit_counters" where
  "limit_clear c = c\<lparr>select_limit_cnt := HA_POS_ERROR, offset_limit_cnt := 0, with_ties := False\<rparr>"

definition check_offset :: "Select_limit_counters \<Rightarrow> ha_rows \<Rightarrow> bool" where
  "check_offset c sent \<longleftrightarrow> sent < offset_limit_cnt c"

definition remove_offset :: "Select_limit_counters \<Rightarrow> Select_limit_counters" where
  "remove_offset c = c\<lparr>offset_limit_cnt := 0\<rparr>"

definition get_select_limit :: "Select_limit_counters \<Rightarrow> ha_rows" where
  "get_select_limit c = select_limit_cnt c"

definition get_offset_limit :: "Select_limit_counters \<Rightarrow> ha_rows" where
  "get_offset_limit c = offset_limit_cnt c"

definition is_with_ties :: "Select_limit_counters \<Rightarrow> bool" where
  "is_with_ties c \<longleftrightarrow> with_ties c"

section \<open>Null propagates\<close>

text \<open>
  The operators on integers that may be null share one contract: null if an argument is, and a
  word operation otherwise. Their algebra is proved once from that contract.
\<close>

locale null_strict =
  fixes operator :: "Longlong_null \<Rightarrow> Longlong_null \<Rightarrow> Longlong_null"
    and wordop :: "longlong \<Rightarrow> longlong \<Rightarrow> longlong"
  assumes null: "m_is_null a \<or> m_is_null b \<Longrightarrow> operator a b = Longlong_null_null"
    and not_null: "\<not> m_is_null a \<Longrightarrow> \<not> m_is_null b \<Longrightarrow>
      operator a b = Longlong_null_value (wordop (m_value a) (m_value b))"
begin

lemma is_null_iff: "m_is_null (operator a b) \<longleftrightarrow> m_is_null a \<or> m_is_null b"
  by (cases "m_is_null a \<or> m_is_null b")
    (auto simp: null not_null Longlong_null_null_def Longlong_null_value_def)

lemma commute: "(\<And>x y. wordop x y = wordop y x) \<Longrightarrow> operator a b = operator b a"
  by (cases "m_is_null a \<or> m_is_null b") (simp_all add: null not_null disj_commute)

lemma assoc:
  assumes "\<And>x y z. wordop (wordop x y) z = wordop x (wordop y z)"
  shows "operator (operator a b) c = operator a (operator b c)"
proof (cases "m_is_null a \<or> m_is_null b \<or> m_is_null c")
  case True
  then have "m_is_null (operator a b) \<or> m_is_null c" "m_is_null a \<or> m_is_null (operator b c)"
    by (auto simp: is_null_iff)
  then show ?thesis by (simp only: null)
next
  case False
  then show ?thesis by (simp add: not_null Longlong_null_value_def assms)
qed

end

interpretation lln_or: null_strict lln_or "(OR)"
  by unfold_locales (auto simp: lln_or_def)

interpretation lln_and: null_strict lln_and "(AND)"
  by unfold_locales (auto simp: lln_and_def)

interpretation lln_xor: null_strict lln_xor "(XOR)"
  by unfold_locales (auto simp: lln_xor_def)

interpretation lln_shl: null_strict lln_shl
    "\<lambda>x n. if (ucast n :: uint) < 64 then push_bit (unat (ucast n :: uint)) x else 0"
  by unfold_locales (auto simp: lln_shl_def Let_def)

interpretation lln_shr: null_strict lln_shr
    "\<lambda>x n. if (ucast n :: uint) < 64 then drop_bit (unat (ucast n :: uint)) x else 0"
  by unfold_locales (auto simp: lln_shr_def Let_def)

lemma lln_double_not: "\<not> m_is_null a \<Longrightarrow> lln_not (lln_not a) = a"
  by (simp add: lln_not_def Longlong_null_value_def)

lemma lln_bit_count_value:
  "\<not> m_is_null a \<Longrightarrow> unat (m_value (lln_bit_count a)) = pop_count (m_value a)"
  by (simp add: lln_bit_count_def Longlong_null_value_def pop_count_count_bits [symmetric] unsigned_ucast_eq
      take_bit_nat_eq_self order.strict_trans [OF unsigned_less])

section \<open>The number a hybrid stands for\<close>

definition hyb_val :: "Longlong_hybrid \<Rightarrow> int" where
  "hyb_val a = (if m_unsigned a then uint (h_value a) else sint (h_value a))"

lemma uint64_cases:
  fixes w :: "64 word"
  obtains x where "uint w = x" "0 \<le> x" "x < 2 ^ 64"
  using uint_lt2p [of w] unsigned_greater_eq [of w] by simp

lemma sint_uint64: "sint w = (if uint w < 2 ^ 63 then uint w else uint w - 2 ^ 64)" for w :: "64 word"
proof -
  obtain x where x: "uint w = x" "0 \<le> x" "x < 2 ^ 64" by (rule uint64_cases)
  have "x div 2 ^ 63 = (if x < 2 ^ 63 then 0 else 1)"
    using x by (simp add: int_div_pos_eq [of _ _ 1 "x - 2 ^ 63"])
  then show ?thesis
    using x by (simp add: sint_uint signed_take_bit_eq_take_bit_minus bit_iff_odd take_bit_eq_mod)
qed

lemma uint_neg64: "w \<noteq> 0 \<Longrightarrow> uint (- w) = 2 ^ 64 - uint w" for w :: "64 word"
proof -
  obtain x where x: "uint w = x" "0 \<le> x" "x < 2 ^ 64" by (rule uint64_cases)
  assume "w \<noteq> 0"
  then have "x \<noteq> 0" using x by (simp add: word_uint_eq_iff)
  then have "(- x) mod 2 ^ 64 = 2 ^ 64 - x"
    using x by (simp add: zmod_zminus1_eq_if mod_pos_pos_trivial)
  then show ?thesis using x by (simp add: uint_word_ariths take_bit_eq_mod)
qed

lemma uint_longlong_max: "uint LONGLONG_MAX = 2 ^ 63 - 1" "uint LONGLONG_MIN = 2 ^ 63"
  by (simp_all add: LONGLONG_MAX_def LONGLONG_MIN_def)

lemma hyb_cmp_sgn: "hyb_cmp a b = sgn (hyb_val a - hyb_val b)"
proof -
  obtain x where x: "uint (h_value a) = x" "0 \<le> x" "x < 2 ^ 64" by (rule uint64_cases)
  obtain y where y: "uint (h_value b) = y" "0 \<le> y" "y < 2 ^ 64" by (rule uint64_cases)
  have "h_value a = h_value b \<longleftrightarrow> x = y" using x y by (simp add: word_uint_eq_iff)
  with x y show ?thesis
    by (auto simp: hyb_cmp_def hyb_val_def cmp_signed_def cmp_unsigned_def is_unsigned_outside_of_signed_range_def
        sint_uint64 word_less_def uint_longlong_max sgn_if split: if_splits)
qed

lemma uint_hyb_abs: "uint (hyb_abs a) = \<bar>hyb_val a\<bar>"
proof -
  obtain x where x: "uint (h_value a) = x" "0 \<le> x" "x < 2 ^ 64" by (rule uint64_cases)
  have "h_value a = LONGLONG_MIN \<longleftrightarrow> x = 2 ^ 63" using x by (simp add: word_uint_eq_iff uint_longlong_max)
  moreover have "h_value a = 0 \<longleftrightarrow> x = 0" using x by (simp add: word_uint_eq_iff)
  moreover have "uint (LONGLONG_MAX + 1) = 2 ^ 63" by (simp add: LONGLONG_MAX_def)
  ultimately show ?thesis
    using x by (auto simp: hyb_abs_def hyb_val_def sint_uint64 uint_neg64 split: if_splits)
qed

lemma uint_to_ulonglong: "uint (hyb_to_ulonglong a ub) = max 0 (min (uint ub) (hyb_val a))"
proof -
  obtain x where x: "uint (h_value a) = x" "0 \<le> x" "x < 2 ^ 64" by (rule uint64_cases)
  obtain y where y: "uint ub = y" "0 \<le> y" "y < 2 ^ 64" by (rule uint64_cases)
  show ?thesis
    using x y by (auto simp: hyb_to_ulonglong_def hyb_neg_def hyb_val_def sint_uint64 word_less_def max_def min_def)
qed

section \<open>What a limit lets through\<close>

text \<open>
  The server sends row number \<open>n\<close> (from 0) when it is not skipped by the offset and below the
  combined limit; no limit at all is the largest row number.
\<close>

definition row_sent :: "Select_limit_counters \<Rightarrow> ha_rows \<Rightarrow> bool" where
  "row_sent c n \<longleftrightarrow> \<not> check_offset c n \<and> (is_unlimited c \<or> n < get_select_limit c)"

lemma add_overflow64: "l \<le> l + m \<longleftrightarrow> uint l + uint m < 2 ^ 64" for l m :: "64 word"
proof -
  obtain x where x: "uint l = x" "0 \<le> x" "x < 2 ^ 64" by (rule uint64_cases)
  obtain y where y: "uint m = y" "0 \<le> y" "y < 2 ^ 64" by (rule uint64_cases)
  show ?thesis using x y by (auto simp: word_le_def uint_plus_if')
qed

lemma uint_pos_error: "uint HA_POS_ERROR = 2 ^ 64 - 1"
  by (simp add: HA_POS_ERROR_def unsigned_minus_1_eq_mask mask_eq_exp_minus_1)

lemma set_limit_zero: "row_sent (set_limit 0 offset ties c) n \<longleftrightarrow> False"
  by (simp add: row_sent_def set_limit_def is_unlimited_def get_select_limit_def HA_POS_ERROR_def Let_def)

lemma set_limit_fits:
  assumes "limit \<noteq> 0" "uint limit + uint offset < 2 ^ 64"
  shows "get_offset_limit (set_limit limit offset ties c) = offset \<and>
    uint (get_select_limit (set_limit limit offset ties c)) = uint limit + uint offset"
proof -
  have "limit \<le> limit + offset" using assms(2) by (simp only: add_overflow64)
  moreover from assms(2) have "uint (limit + offset) = uint limit + uint offset" by (simp add: uint_plus_if')
  ultimately show ?thesis
    using assms(1) by (simp add: set_limit_def get_select_limit_def get_offset_limit_def Let_def)
qed

lemma set_limit_overflow:
  assumes "limit \<noteq> 0" "2 ^ 64 \<le> uint limit + uint offset"
  shows "get_offset_limit (set_limit limit offset ties c) = offset \<and> is_unlimited (set_limit limit offset ties c)"
proof -
  have "\<not> limit \<le> limit + offset" using assms(2) by (simp add: add_overflow64)
  then show ?thesis
    using assms(1) by (simp add: set_limit_def is_unlimited_def get_offset_limit_def Let_def)
qed

section \<open>Properties\<close>

text \<open>
  An integer whose signedness is only known at run time is compared, negated to its absolute
  value and cut to a bound as the number it stands for: the comparison of a signed with an
  unsigned number is right over the whole range of both, the absolute value of the smallest
  signed number does not overflow, and a negative number becomes 0 in a bounded conversion.
\<close>

theorem hybrid_integer_values:
  "hyb_cmp a b = sgn (hyb_val a - hyb_val b) \<and> (hyb_eq a b \<longleftrightarrow> hyb_val a = hyb_val b) \<and>
   (hyb_neg a \<longleftrightarrow> hyb_val a < 0) \<and> uint (hyb_abs a) = \<bar>hyb_val a\<bar> \<and>
   uint (hyb_to_ulonglong a ub) = max 0 (min (uint ub) (hyb_val a)) \<and>
   (hyb_eq_ulonglong a x \<longleftrightarrow> hyb_val a = uint x) \<and> (hyb_eq_longlong a x \<longleftrightarrow> hyb_val a = sint x) \<and>
   (hyb_eq_uint a k \<longleftrightarrow> hyb_val a = uint k) \<and> (hyb_eq_int a k \<longleftrightarrow> hyb_val a = sint k)"
proof -
  have "hyb_neg a \<longleftrightarrow> hyb_val a < 0" by (simp add: hyb_neg_def hyb_val_def not_less)
  moreover have "uint (ucast k :: 64 word) = uint k" by (simp add: unsigned_ucast_eq take_bit_int_eq_self order.strict_trans [OF uint_lt2p])
  moreover have "sint (scast k :: 64 word) = sint k" by (simp add: sint_up_scast is_up)
  ultimately show ?thesis
    by (simp add: hyb_cmp_sgn uint_hyb_abs uint_to_ulonglong hyb_eq_def hyb_eq_ulonglong_def hyb_eq_longlong_def
        hyb_eq_uint_def hyb_eq_int_def sgn_0_0) (simp add: hyb_val_def)
qed

text \<open>
  C18. LIMIT and OFFSET let through exactly the rows from the offset on, as many as the limit
  says. A limit of 0 lets nothing through whatever the offset is, and when limit and offset
  together leave the range of row numbers, the query is unlimited instead of wrapping around.
\<close>

theorem set_limit_window:
  "row_sent (set_limit limit offset ties c) n \<longleftrightarrow>
     limit \<noteq> 0 \<and> uint offset \<le> uint n \<and>
     (uint limit + uint offset < 2 ^ 64 - 1 \<longrightarrow> uint n < uint limit + uint offset)"
proof (cases "limit = 0")
  case True
  then show ?thesis by (simp add: set_limit_zero)
next
  case False
  let ?c = "set_limit limit offset ties c"
  have sent: "row_sent ?c n \<longleftrightarrow> uint (get_offset_limit ?c) \<le> uint n \<and>
      (is_unlimited ?c \<or> uint n < uint (get_select_limit ?c))"
    by (simp add: row_sent_def check_offset_def get_offset_limit_def word_less_def not_less)
  have un: "is_unlimited ?c \<longleftrightarrow> uint (get_select_limit ?c) = 2 ^ 64 - 1"
    by (simp add: is_unlimited_def get_select_limit_def word_uint_eq_iff uint_pos_error)
  show ?thesis
  proof (cases "uint limit + uint offset < 2 ^ 64")
    case True
    with False show ?thesis by (auto simp: sent un set_limit_fits)
  next
    case over: False
    with False show ?thesis by (simp add: sent set_limit_overflow)
  qed
qed

theorem set_limit_window_witness:
  "row_sent (set_limit 20 5 False Select_limit_counters_init) 24 \<and>
   \<not> row_sent (set_limit 20 5 False Select_limit_counters_init) 25 \<and>
   row_sent (set_limit 20 (2 ^ 64 - 1) False Select_limit_counters_init) (2 ^ 64 - 1)"
  by (simp add: set_limit_window)

end
