(* ===== verification/Node_Chains.thy ===== *)
theory Node_Chains
  imports My_Bit
begin

text \<open>
  Chains of nodes linked by a field, as the linked lists of the server headers have them: a chain
  from \<open>a\<close> visits the nodes \<open>ns\<close> and ends at a stop node, the null pointer or a sentinel. The
  lists interpret the locale with their own heap, field and chain predicate.
\<close>

locale node_chain =
  fixes next_node :: "'h \<Rightarrow> nat \<Rightarrow> nat"
    and stop :: nat
    and chain :: "'h \<Rightarrow> nat \<Rightarrow> nat list \<Rightarrow> bool"
  assumes chain_Nil: "chain h a [] \<longleftrightarrow> a = stop"
    and chain_Cons: "chain h a (n # ns) \<longleftrightarrow> a = n \<and> n \<noteq> 0 \<and> n \<noteq> stop \<and> chain h (next_node h n) ns"
begin

lemmas chain_simps = chain_Nil chain_Cons

lemma transfer:
  assumes "chain h a ns" "\<And>n. n \<in> set ns \<Longrightarrow> next_node h' n = next_node h n"
  shows "chain h' a ns"
  using assms by (induction ns arbitrary: a) (auto simp: chain_simps)

lemma nodes: "chain h a ns \<Longrightarrow> n \<in> set ns \<Longrightarrow> n \<noteq> 0 \<and> n \<noteq> stop"
  by (induction ns arbitrary: a) (auto simp: chain_simps)

text \<open>Redirecting the last link of a chain continues it, or ends it before the old rest.\<close>

lemma extend:
  assumes "chain h a ns" "ns \<noteq> []" "distinct (ns @ ms)"
    and "next_node h' (last ns) = b" "\<And>n. n \<in> set ns \<Longrightarrow> n \<noteq> last ns \<Longrightarrow> next_node h' n = next_node h n"
    and "chain h' b ms"
  shows "chain h' a (ns @ ms)"
  using assms
proof (induction ns arbitrary: a)
  case (Cons n ns)
  show ?case
  proof (cases "ns = []")
    case False
    then have ne: "n \<noteq> last ns" using Cons.prems(3) last_in_set [of ns] by auto
    have "chain h' (next_node h n) (ns @ ms)" using Cons.prems False by (intro Cons.IH) (auto simp: chain_simps)
    moreover have "next_node h' n = next_node h n" using Cons.prems(5) [of n] ne False by simp
    ultimately show ?thesis using Cons.prems(1) by (simp add: chain_simps)
  qed (use Cons.prems in \<open>simp add: chain_simps\<close>)
qed simp

lemma cut:
  assumes "chain h a (ns @ ms)" "ns \<noteq> []" "distinct ns"
    and "next_node h' (last ns) = stop" "\<And>n. n \<in> set ns \<Longrightarrow> n \<noteq> last ns \<Longrightarrow> next_node h' n = next_node h n"
  shows "chain h' a ns"
  using assms
proof (induction ns arbitrary: a)
  case (Cons n ns)
  show ?case
  proof (cases "ns = []")
    case False
    then have ne: "n \<noteq> last ns" using Cons.prems(3) last_in_set [of ns] by auto
    have "chain h' (next_node h n) ns" using Cons.prems False by (intro Cons.IH) (auto simp: chain_simps)
    moreover have "next_node h' n = next_node h n" using Cons.prems(5) [of n] ne False by simp
    ultimately show ?thesis using Cons.prems(1) by (simp add: chain_simps)
  qed (use Cons.prems in \<open>simp add: chain_simps\<close>)
qed simp

lemma suffix: "chain h a (ns @ n # ms) \<Longrightarrow> chain h n (n # ms)"
  by (induction ns arbitrary: a) (auto simp: chain_simps)

lemma unique: "chain h a ns \<Longrightarrow> chain h a ms \<Longrightarrow> ns = ms"
proof (induction ns arbitrary: a ms)
  case Nil
  then show ?case by (cases ms) (auto simp: chain_simps)
next
  case (Cons n ns)
  then show ?case by (cases ms) (auto simp: chain_simps)
qed

end

end
