(* ===== verification/Sql_List.thy ===== *)
theory Sql_List
  imports Node_Chains
begin

text \<open>
  The singly linked lists of \<open>sql_list.h\<close> on an explicit heap. A node is a number, with 0 the
  null pointer and 1 the shared sentinel \<open>end_of_list\<close>. A pointer to a pointer
  (\<open>list_node **\<close>) is a \<open>slot\<close>: the field \<open>first\<close> of a list or the field \<open>next\<close> of a node.
  \<open>new list_node\<close> may fail; the operations take the address it returned as an argument, with 0
  for a failed allocation. \<open>delete\<close> on a node has no effect on other memory.
\<close>

section \<open>Heap, slots and nodes\<close>

datatype slot = FirstOf nat | NextOf nat

record base_list =
  bl_first :: nat
  bl_last :: slot
  bl_elements :: uint

record lheap =
  next_of :: "nat \<Rightarrow> nat"
  info :: "nat \<Rightarrow> nat"
  lists :: "nat \<Rightarrow> base_list"

abbreviation end_of_list :: nat where "end_of_list \<equiv> 1"

fun slot_get :: "lheap \<Rightarrow> slot \<Rightarrow> nat" where
  "slot_get h (FirstOf l) = bl_first (lists h l)"
| "slot_get h (NextOf n) = next_of h n"

fun slot_set :: "slot \<Rightarrow> nat \<Rightarrow> lheap \<Rightarrow> lheap" where
  "slot_set (FirstOf l) v h = h\<lparr>lists := (lists h)(l := lists h l\<lparr>bl_first := v\<rparr>)\<rparr>"
| "slot_set (NextOf n) v h = h\<lparr>next_of := (next_of h)(n := v)\<rparr>"

definition upd_list :: "nat \<Rightarrow> (base_list \<Rightarrow> base_list) \<Rightarrow> lheap \<Rightarrow> lheap" where
  "upd_list l f h = h\<lparr>lists := (lists h)(l := f (lists h l))\<rparr>"

text \<open>The constructor of a node; nothing is constructed at the null pointer.\<close>

definition list_node :: "nat \<Rightarrow> nat \<Rightarrow> nat \<Rightarrow> lheap \<Rightarrow> lheap" where
  "list_node node info_par next_par h =
     (if node = 0 then h
      else h\<lparr>next_of := (next_of h)(node := next_par), info := (info h)(node := info_par)\<rparr>)"

section \<open>base_list\<close>

definition bl_equal :: "base_list \<Rightarrow> base_list \<Rightarrow> bool" where
  "bl_equal a b \<longleftrightarrow> bl_elements a = bl_elements b \<and> bl_first a = bl_first b \<and> bl_last a = bl_last b"

definition bl_assign :: "nat \<Rightarrow> nat \<Rightarrow> lheap \<Rightarrow> lheap" where
  "bl_assign l rhs h =
     (let r = lists h rhs in
      upd_list l (\<lambda>_. \<lparr>bl_first = bl_first r,
        bl_last = (if bl_elements r \<noteq> 0 then bl_last r else FirstOf l), bl_elements = bl_elements r\<rparr>) h)"

definition bl_empty :: "nat \<Rightarrow> lheap \<Rightarrow> lheap" where
  "bl_empty l = upd_list l (\<lambda>_. \<lparr>bl_first = end_of_list, bl_last = FirstOf l, bl_elements = 0\<rparr>)"

definition bl_is_empty :: "nat \<Rightarrow> lheap \<Rightarrow> bool" where
  "bl_is_empty l h \<longleftrightarrow> bl_first (lists h l) = end_of_list"

definition bl_push_back :: "nat \<Rightarrow> nat \<Rightarrow> nat \<Rightarrow> lheap \<Rightarrow> bool \<times> lheap" where
  "bl_push_back node i l h =
     (let h = list_node node i end_of_list h;
          h = slot_set (bl_last (lists h l)) node h
      in if node \<noteq> 0
         then (False, upd_list l (\<lambda>b. b\<lparr>bl_last := NextOf node, bl_elements := bl_elements b + 1\<rparr>) h)
         else (True, h))"

definition push_front_impl :: "nat \<Rightarrow> nat \<Rightarrow> lheap \<Rightarrow> bool \<times> lheap" where
  "push_front_impl node l h =
     (if node \<noteq> 0
      then (False, upd_list l (\<lambda>b. b\<lparr>bl_last := (if bl_last b = FirstOf l then NextOf node else bl_last b),
                                  bl_first := node, bl_elements := bl_elements b + 1\<rparr>) h)
      else (True, h))"

definition bl_push_front :: "nat \<Rightarrow> nat \<Rightarrow> nat \<Rightarrow> lheap \<Rightarrow> bool \<times> lheap" where
  "bl_push_front node i l h = push_front_impl node l (list_node node i (bl_first (lists h l)) h)"

definition bl_remove :: "slot \<Rightarrow> nat \<Rightarrow> lheap \<Rightarrow> lheap" where
  "bl_remove prev l h =
     (let cur = slot_get h prev;
          node = next_of h cur;
          h = upd_list l (\<lambda>b. b\<lparr>bl_elements := bl_elements b - 1\<rparr>) h;
          h = (if bl_elements (lists h l) = 0 then upd_list l (\<lambda>b. b\<lparr>bl_last := FirstOf l\<rparr>) h
               else if bl_last (lists h l) = NextOf cur then upd_list l (\<lambda>b. b\<lparr>bl_last := prev\<rparr>) h
               else h)
      in slot_set prev node h)"

definition bl_append :: "nat \<Rightarrow> nat \<Rightarrow> lheap \<Rightarrow> lheap" where
  "bl_append list l h =
     (if \<not> bl_is_empty list h
      then if bl_is_empty l h then bl_assign l list h
           else let h = slot_set (bl_last (lists h l)) (bl_first (lists h list)) h
                in upd_list l (\<lambda>b. b\<lparr>bl_last := bl_last (lists h list),
                                   bl_elements := bl_elements b + bl_elements (lists h list)\<rparr>) h
      else h)"

definition bl_pop :: "nat \<Rightarrow> lheap \<Rightarrow> nat \<times> lheap" where
  "bl_pop l h =
     (if bl_first (lists h l) = end_of_list then (0, h)
      else let tmp = bl_first (lists h l);
               h = upd_list l (\<lambda>b. b\<lparr>bl_first := next_of h (bl_first b), bl_elements := bl_elements b - 1\<rparr>) h;
               h = (if bl_elements (lists h l) = 0 then upd_list l (\<lambda>b. b\<lparr>bl_last := FirstOf l\<rparr>) h else h)
           in (info h tmp, h))"

partial_function (option) disjoin_loop :: "nat \<Rightarrow> slot \<Rightarrow> nat \<Rightarrow> nat \<Rightarrow> lheap \<Rightarrow> lheap option" where
  "disjoin_loop list_first prev node l h =
     (if node \<noteq> end_of_list \<and> node \<noteq> list_first
      then let prev = NextOf node;
               node = next_of h node;
               h = upd_list l (\<lambda>b. b\<lparr>bl_elements := bl_elements b + 1\<rparr>) h
           in if node = end_of_list then Some h else disjoin_loop list_first prev node l h
      else Some (upd_list l (\<lambda>b. b\<lparr>bl_last := prev\<rparr>) (slot_set prev end_of_list h)))"

definition bl_disjoin :: "nat \<Rightarrow> nat \<Rightarrow> lheap \<Rightarrow> lheap option" where
  "bl_disjoin list l h =
     disjoin_loop (bl_first (lists h list)) (FirstOf l) (bl_first (lists h l)) l
       (upd_list l (\<lambda>b. b\<lparr>bl_elements := 0\<rparr>) h)"

definition bl_prepend :: "nat \<Rightarrow> nat \<Rightarrow> lheap \<Rightarrow> lheap" where
  "bl_prepend list l h =
     (if \<not> bl_is_empty list h
      then let h = (if bl_is_empty l h then upd_list l (\<lambda>b. b\<lparr>bl_last := bl_last (lists h list)\<rparr>) h else h);
               h = slot_set (bl_last (lists h list)) (bl_first (lists h l)) h
           in upd_list l (\<lambda>b. b\<lparr>bl_first := bl_first (lists h list),
                              bl_elements := bl_elements b + bl_elements (lists h list)\<rparr>) h
      else h)"

definition bl_swap :: "nat \<Rightarrow> nat \<Rightarrow> lheap \<Rightarrow> lheap" where
  "bl_swap l rhs h =
     (let a = lists h l; b = lists h rhs;
          h = upd_list rhs (\<lambda>_. \<lparr>bl_first = bl_first a,
                bl_last = (if bl_last a = FirstOf l then FirstOf rhs else bl_last a), bl_elements = bl_elements a\<rparr>) h
      in upd_list l (\<lambda>_. \<lparr>bl_first = bl_first b,
                bl_last = (if bl_last b = FirstOf rhs then FirstOf l else bl_last b), bl_elements = bl_elements b\<rparr>) h)"

definition bl_head :: "nat \<Rightarrow> lheap \<Rightarrow> nat" where
  "bl_head l h = info h (bl_first (lists h l))"

partial_function (option) find_node :: "(nat \<Rightarrow> nat \<Rightarrow> bool) \<Rightarrow> nat \<Rightarrow> nat \<Rightarrow> lheap \<Rightarrow> nat option" where
  "find_node eq i node h =
     (if node \<noteq> end_of_list \<and> \<not> eq (info h node) i then find_node eq i (next_of h node) h else Some node)"

definition bl_add_unique :: "(nat \<Rightarrow> nat \<Rightarrow> bool) \<Rightarrow> nat \<Rightarrow> nat \<Rightarrow> nat \<Rightarrow> lheap \<Rightarrow> (bool \<times> lheap) option" where
  "bl_add_unique eq new_node i l h =
     (case find_node eq i (bl_first (lists h l)) h of
        None \<Rightarrow> None
      | Some node \<Rightarrow> if node = end_of_list then Some (bl_push_back new_node i l h) else Some (True, h))"

text \<open>The counter of the loop in \<open>elem\<close> runs from 0 to n; here \<open>k\<close> iterations are left.\<close>

primrec elem_loop :: "nat \<Rightarrow> nat \<Rightarrow> nat \<Rightarrow> lheap \<Rightarrow> nat" where
  "elem_loop 0 node data h = data"
| "elem_loop (Suc k) node data h =
     (if node = end_of_list then 0 else elem_loop k (next_of h node) (info h node) h)"

definition bl_elem :: "uint \<Rightarrow> nat \<Rightarrow> lheap \<Rightarrow> nat" where
  "bl_elem n l h = elem_loop (unat n + 1) (bl_first (lists h l)) 0 h"

partial_function (option) check_loop :: "nat \<Rightarrow> uint \<Rightarrow> nat \<Rightarrow> lheap \<Rightarrow> bool option" where
  "check_loop node cnt l h =
     (if next_of h node \<noteq> end_of_list
      then if info h node = 0 then Some False else check_loop (next_of h node) (cnt + 1) l h
      else if bl_last (lists h l) \<noteq> NextOf node then Some False
      else if cnt + 1 \<noteq> bl_elements (lists h l) then Some False
      else Some True)"

definition bl_check_list :: "nat \<Rightarrow> lheap \<Rightarrow> bool option" where
  "bl_check_list l h = check_loop (bl_first (lists h l)) 0 l h"

definition bl_after :: "nat \<Rightarrow> nat \<Rightarrow> nat \<Rightarrow> nat \<Rightarrow> lheap \<Rightarrow> lheap" where
  "bl_after new_node i node l h =
     (let h = list_node new_node i (next_of h node) h;
          h = slot_set (NextOf node) new_node h
      in upd_list l (\<lambda>b. b\<lparr>bl_elements := bl_elements b + 1,
           bl_last := (if bl_last b = NextOf node then NextOf new_node else bl_last b)\<rparr>) h)"

section \<open>base_list_iterator\<close>

text \<open>The null value of \<open>prev\<close> is \<open>None\<close>.\<close>

record base_list_iterator =
  it_list :: nat
  it_el :: slot
  it_prev :: "slot option"
  it_current :: nat

definition it_init :: "nat \<Rightarrow> base_list_iterator" where
  "it_init l = \<lparr>it_list = l, it_el = FirstOf l, it_prev = None, it_current = 0\<rparr>"

definition bli_next :: "lheap \<Rightarrow> base_list_iterator \<Rightarrow> nat \<times> base_list_iterator" where
  "bli_next h it =
     (let cur = slot_get h (it_el it)
      in (info h cur, it\<lparr>it_prev := Some (it_el it), it_current := cur, it_el := NextOf cur\<rparr>))"

definition it_peek :: "lheap \<Rightarrow> base_list_iterator \<Rightarrow> nat" where
  "it_peek h it = info h (slot_get h (it_el it))"

definition it_next_fast :: "lheap \<Rightarrow> base_list_iterator \<Rightarrow> nat \<times> base_list_iterator" where
  "it_next_fast h it = (let tmp = slot_get h (it_el it) in (info h tmp, it\<lparr>it_el := NextOf tmp\<rparr>))"

definition it_rewind :: "base_list_iterator \<Rightarrow> base_list_iterator" where
  "it_rewind it = it\<lparr>it_el := FirstOf (it_list it)\<rparr>"

definition it_replace :: "nat \<Rightarrow> base_list_iterator \<Rightarrow> lheap \<Rightarrow> nat \<times> lheap" where
  "it_replace element it h =
     (info h (it_current it), h\<lparr>info := (info h)(it_current it := element)\<rparr>)"

definition it_replace_list :: "nat \<Rightarrow> base_list_iterator \<Rightarrow> lheap \<Rightarrow> nat \<times> lheap" where
  "it_replace_list new_list it h =
     (let cur = it_current it;
          ret_value = info h cur
      in (ret_value,
          if \<not> bl_is_empty new_list h
          then let h = slot_set (bl_last (lists h new_list)) (next_of h cur) h;
                   h = h\<lparr>info := (info h)(cur := info h (bl_first (lists h new_list)))\<rparr>;
                   h = h\<lparr>next_of := (next_of h)(cur := next_of h (bl_first (lists h new_list)))\<rparr>;
                   h = (if bl_last (lists h (it_list it)) = NextOf cur \<and> 1 < bl_elements (lists h new_list)
                        then upd_list (it_list it) (\<lambda>b. b\<lparr>bl_last := bl_last (lists h new_list)\<rparr>) h else h)
               in upd_list (it_list it) (\<lambda>b. b\<lparr>bl_elements := bl_elements b + (bl_elements (lists h new_list) - 1)\<rparr>) h
          else h))"

text \<open>Without a previous \<open>next\<close> there is no element to remove: the code dereferences null.\<close>

definition it_remove :: "base_list_iterator \<Rightarrow> lheap \<Rightarrow> (base_list_iterator \<times> lheap) option" where
  "it_remove it h =
     (case it_prev it of
        None \<Rightarrow> None
      | Some prev \<Rightarrow> Some (it\<lparr>it_el := prev, it_current := 0\<rparr>, bl_remove prev (it_list it) h))"

definition it_after :: "nat \<Rightarrow> nat \<Rightarrow> base_list_iterator \<Rightarrow> lheap \<Rightarrow> base_list_iterator \<times> lheap" where
  "it_after new_node element it h =
     (let h = bl_after new_node element (it_current it) (it_list it) h;
          cur = next_of h (it_current it)
      in (it\<lparr>it_current := cur, it_el := NextOf cur\<rparr>, h))"

definition it_sublist :: "nat \<Rightarrow> uint \<Rightarrow> base_list_iterator \<Rightarrow> lheap \<Rightarrow> lheap" where
  "it_sublist ls elm it h =
     upd_list ls (\<lambda>_. \<lparr>bl_first = slot_get h (it_el it), bl_last = bl_last (lists h (it_list it)), bl_elements = elm\<rparr>) h"

definition it_at_end :: "base_list_iterator \<Rightarrow> bool" where
  "it_at_end it \<longleftrightarrow> it_current it = end_of_list"

section \<open>Lists of nodes\<close>

text \<open>
  \<open>path h a ns\<close>: following \<open>next\<close> from \<open>a\<close> visits the nodes \<open>ns\<close> and ends at the sentinel. A
  list is well-formed over its nodes when moreover \<open>last\<close> is the slot that holds the sentinel
  and \<open>elements\<close> counts the nodes.
\<close>

fun path :: "lheap \<Rightarrow> nat \<Rightarrow> nat list \<Rightarrow> bool" where
  "path h a [] \<longleftrightarrow> a = end_of_list"
| "path h a (n # ns) \<longleftrightarrow> a = n \<and> n \<noteq> 0 \<and> n \<noteq> end_of_list \<and> path h (next_of h n) ns"

definition last_slot :: "nat \<Rightarrow> nat list \<Rightarrow> slot" where
  "last_slot l ns = (if ns = [] then FirstOf l else NextOf (last ns))"

definition bl_rep :: "lheap \<Rightarrow> nat \<Rightarrow> nat list \<Rightarrow> bool" where
  "bl_rep h l ns \<longleftrightarrow> path h (bl_first (lists h l)) ns \<and> distinct ns \<and>
     bl_last (lists h l) = last_slot l ns \<and> bl_elements (lists h l) = of_nat (length ns)"

abbreviation contents :: "lheap \<Rightarrow> nat list \<Rightarrow> nat list" where
  "contents h ns \<equiv> map (info h) ns"

lemma last_slot_simps [simp]:
  "last_slot l [] = FirstOf l" "last_slot l (ns @ [n]) = NextOf n" "last_slot l (n # ns) = NextOf (last (n # ns))"
  by (simp_all add: last_slot_def)

lemma upd_list_simps [simp]:
  "next_of (upd_list l f h) = next_of h" "info (upd_list l f h) = info h"
  "lists (upd_list l f h) = (lists h)(l := f (lists h l))"
  by (simp_all add: upd_list_def)

lemma list_node_simps [simp]:
  "node \<noteq> 0 \<Longrightarrow> next_of (list_node node i nx h) = (next_of h)(node := nx)"
  "node \<noteq> 0 \<Longrightarrow> info (list_node node i nx h) = (info h)(node := i)"
  "lists (list_node node i nx h) = lists h"
  by (simp_all add: list_node_def)

interpretation nodes: node_chain next_of end_of_list path
  by unfold_locales simp_all

lemmas path_transfer = nodes.transfer
lemmas path_nodes = nodes.nodes
lemmas path_extend = nodes.extend
lemmas path_prefix = nodes.cut
lemmas path_suffix = nodes.suffix

lemma bl_rep_emptyI: "bl_rep (bl_empty l h) l []"
  by (simp add: bl_rep_def bl_empty_def)

lemma bl_is_empty_iff: "bl_rep h l ns \<Longrightarrow> bl_is_empty l h \<longleftrightarrow> ns = []"
  by (cases ns) (auto simp: bl_rep_def bl_is_empty_def)

lemma push_back_rep:
  assumes "bl_rep h l ns" "node \<notin> set ns" "node \<noteq> 0" "node \<noteq> end_of_list"
  shows "\<exists>h'. bl_push_back node i l h = (False, h') \<and> bl_rep h' l (ns @ [node]) \<and>
    contents h' (ns @ [node]) = contents h ns @ [i]"
proof (cases "ns = []")
  case True
  with assms show ?thesis by (simp add: bl_rep_def bl_push_back_def Let_def)
next
  case False
  let ?h = "snd (bl_push_back node i l h)"
  have nx: "next_of ?h = (next_of h)(node := end_of_list, last ns := node)" and
    ls: "lists ?h = (lists h)(l := lists h l\<lparr>bl_last := NextOf node, bl_elements := bl_elements (lists h l) + 1\<rparr>)" and
    inf: "info ?h = (info h)(node := i)"
    using assms False by (simp_all add: bl_push_back_def Let_def bl_rep_def last_slot_def)
  have ne: "last ns \<noteq> node" using assms(2) False last_in_set by metis
  have "path ?h (bl_first (lists h l)) (ns @ [node])"
  proof (rule path_extend [of h])
    show "path ?h node [node]" using assms ne by (simp add: nx)
    show "distinct (ns @ [node])" "path h (bl_first (lists h l)) ns" using assms by (auto simp: bl_rep_def)
    show "next_of ?h n = next_of h n" if "n \<in> set ns" "n \<noteq> last ns" for n
      using that assms(2) by (auto simp: nx)
  qed (use False in \<open>auto simp: nx\<close>)
  then have "bl_rep ?h l (ns @ [node])" using assms by (auto simp: bl_rep_def ls)
  moreover have "contents ?h (ns @ [node]) = contents h ns @ [i]" using assms(2) by (auto simp: inf)
  moreover have "bl_push_back node i l h = (False, ?h)" using assms(3) by (simp add: bl_push_back_def Let_def)
  ultimately show ?thesis by blast
qed

lemma push_front_rep:
  assumes "bl_rep h l ns" "node \<notin> set ns" "node \<noteq> 0" "node \<noteq> end_of_list"
  shows "\<exists>h'. bl_push_front node i l h = (False, h') \<and> bl_rep h' l (node # ns) \<and>
    contents h' (node # ns) = i # contents h ns"
proof -
  let ?h = "snd (bl_push_front node i l h)"
  have p: "path h (bl_first (lists h l)) ns" and d: "distinct ns" and la: "bl_last (lists h l) = last_slot l ns" and
    el: "bl_elements (lists h l) = of_nat (length ns)"
    using assms(1) by (simp_all add: bl_rep_def)
  have nx: "next_of ?h = (next_of h)(node := bl_first (lists h l))" and inf: "info ?h = (info h)(node := i)" and
    ls: "lists ?h l = lists h l\<lparr>bl_first := node, bl_last := last_slot l (node # ns), bl_elements := of_nat (length ns) + 1\<rparr>"
    using assms(3) la el by (auto simp: bl_push_front_def push_front_impl_def last_slot_def)
  have "path ?h (bl_first (lists h l)) ns"
    by (rule path_transfer [OF p]) (use assms(2) in \<open>auto simp: nx\<close>)
  then have "path ?h node (node # ns)" using assms(3,4) by (simp add: nx)
  then have "bl_rep ?h l (node # ns)" using assms(2) d unfolding bl_rep_def ls by simp
  moreover have "contents ?h (node # ns) = i # contents h ns" using assms(2) unfolding inf by (induction ns) auto
  moreover have "bl_push_front node i l h = (False, ?h)" using assms(3) by (simp add: bl_push_front_def push_front_impl_def)
  ultimately show ?thesis by (intro exI [of _ ?h] conjI)
qed

lemma push_failed:
  "fst (bl_push_front 0 i l h) \<and> snd (bl_push_front 0 i l h) = h"
  "fst (bl_push_back 0 i l h)"
  by (simp_all add: bl_push_front_def push_front_impl_def bl_push_back_def list_node_def Let_def)

lemma pop_empty: "bl_rep h l [] \<Longrightarrow> bl_pop l h = (0, h)"
  by (simp add: bl_rep_def bl_pop_def)

lemma word_of_nat_eq_0: "k < 2 ^ LENGTH('a) \<Longrightarrow> (of_nat k :: 'a::len word) = 0 \<longleftrightarrow> k = 0"
  by (auto simp: word_of_nat_eq_0_iff dest: nat_dvd_not_less)

lemma pop_rep:
  assumes "bl_rep h l (n # ns)" "length ns < 2 ^ 32"
  shows "\<exists>h'. bl_pop l h = (info h n, h') \<and> bl_rep h' l ns \<and> contents h' ns = contents h ns"
proof -
  let ?h = "snd (bl_pop l h)"
  have el: "bl_elements (lists h l) - 1 = of_nat (length ns)" and fi: "bl_first (lists h l) = n" and "n \<noteq> end_of_list"
    using assms(1) by (simp_all add: bl_rep_def)
  then have nx: "next_of ?h = next_of h" and inf: "info ?h = info h" and
    ls: "lists ?h = (lists h)(l := lists h l\<lparr>bl_first := next_of h n, bl_last := last_slot l ns,
      bl_elements := of_nat (length ns)\<rparr>)" and "bl_pop l h = (info h n, ?h)"
    using assms by (auto simp: bl_pop_def Let_def bl_rep_def last_slot_def word_of_nat_eq_0)
  moreover have "path ?h (next_of h n) ns" using assms(1) path_transfer [of h "next_of h n" ns ?h] by (simp add: nx bl_rep_def)
  ultimately show ?thesis using assms(1) by (intro exI [of _ ?h]) (simp add: bl_rep_def)
qed

text \<open>The slot that points at the node after a prefix of the list.\<close>

lemma path_at: "path h (bl_first (lists h l)) (ns @ n # ms) \<Longrightarrow> slot_get h (last_slot l ns) = n"
proof (cases ns rule: rev_cases)
  case (snoc ks k)
  assume "path h (bl_first (lists h l)) (ns @ n # ms)"
  then have "path h k (k # n # ms)" using path_suffix [of h _ ks k "n # ms"] snoc by simp
  then show ?thesis using snoc by simp
qed simp

lemma remove_rep:
  assumes "bl_rep h l (ns @ n # ms)" "length ns + length ms < 2 ^ 32"
  shows "bl_rep (bl_remove (last_slot l ns) l h) l (ns @ ms)" "info (bl_remove (last_slot l ns) l h) = info h"
proof -
  let ?h = "bl_remove (last_slot l ns) l h"
  have p: "path h (bl_first (lists h l)) (ns @ n # ms)" and d: "distinct (ns @ n # ms)"
    using assms(1) by (auto simp: bl_rep_def)
  have el: "bl_elements (lists h l) - 1 = of_nat (length ns + length ms)"
    using assms(1) by (simp add: bl_rep_def)
  have z: "(of_nat (length ns + length ms) :: uint) = 0 \<longleftrightarrow> ns = [] \<and> ms = []"
    using assms(2) by (subst word_of_nat_eq_0) auto
  have la: "bl_last (lists h l) = NextOf n \<longleftrightarrow> ms = []"
    using assms(1) d by (cases ms rule: rev_cases) (auto simp: bl_rep_def last_slot_def)
  have pm: "path h (next_of h n) ms" using path_suffix [OF p] by simp
  have ms: "ms \<noteq> [] \<Longrightarrow> last_slot l (ns @ n # ms) = last_slot l (ns @ ms)" by (auto simp: last_slot_def)
  have cur: "slot_get h (last_slot l ns) = n" by (rule path_at [OF p])
  have ls: "bl_last (lists ?h l) = last_slot l (ns @ ms) \<and> bl_elements (lists ?h l) = of_nat (length (ns @ ms))"
    using assms(1) la ms el z unfolding bl_remove_def cur
    by (cases "last_slot l ns") (auto simp: Let_def bl_rep_def last_slot_def)
  show inf: "info ?h = info h" by (cases "last_slot l ns") (auto simp: bl_remove_def Let_def)
  show "bl_rep ?h l (ns @ ms)"
  proof (cases "ns = []")
    case True
    then have nx: "next_of ?h = next_of h" and fi: "bl_first (lists ?h l) = next_of h n"
      using cur by (auto simp: bl_remove_def Let_def)
    have "path ?h (next_of h n) ms" using pm by (rule path_transfer) (simp add: nx)
    then show ?thesis using ls True d fi by (simp add: bl_rep_def)
  next
    case False
    then have nx: "next_of ?h = (next_of h)(last ns := next_of h n)" and fi: "bl_first (lists ?h l) = bl_first (lists h l)"
      using cur by (auto simp: bl_remove_def Let_def last_slot_def)
    have out: "last ns \<notin> set ms" using d last_in_set [OF False] by auto
    have "path ?h (bl_first (lists h l)) (ns @ ms)"
    proof (rule path_extend)
      show "path (h\<lparr>next_of := (next_of h)(last ns := end_of_list)\<rparr>) (bl_first (lists h l)) ns"
        using path_prefix [OF p False] d by simp
      show "next_of ?h (last ns) = next_of h n" by (simp add: nx)
      show "path ?h (next_of h n) ms" by (rule path_transfer [OF pm]) (use out in \<open>auto simp: nx\<close>)
    qed (use d False in \<open>auto simp: nx\<close>)
    then show ?thesis using ls d fi by (auto simp: bl_rep_def)
  qed
qed

lemma append_rep:
  assumes "bl_rep h l ns" "bl_rep h k ms" "l \<noteq> k" "set ns \<inter> set ms = {}" "length ms < 2 ^ 32"
  shows "bl_rep (bl_append k l h) l (ns @ ms)" "info (bl_append k l h) = info h"
proof -
  let ?h = "bl_append k l h"
  have pn: "path h (bl_first (lists h l)) ns" and pm: "path h (bl_first (lists h k)) ms" and
    d: "distinct (ns @ ms)" and el: "bl_elements (lists h l) = of_nat (length ns)" "bl_elements (lists h k) = of_nat (length ms)" and
    la: "bl_last (lists h l) = last_slot l ns" "bl_last (lists h k) = last_slot k ms"
    using assms by (auto simp: bl_rep_def)
  note e = bl_is_empty_iff [OF assms(1)] bl_is_empty_iff [OF assms(2)]
  consider "ms = []" | "ms \<noteq> []" "ns = []" | "ms \<noteq> []" "ns \<noteq> []" by blast
  then have "bl_rep ?h l (ns @ ms) \<and> info ?h = info h"
  proof cases
    case 1
    then show ?thesis using assms(1) by (simp add: bl_append_def e)
  next
    case 2
    then have h: "?h = upd_list l (\<lambda>_. \<lparr>bl_first = bl_first (lists h k), bl_last = last_slot k ms, bl_elements = of_nat (length ms)\<rparr>) h"
      using assms(5) by (simp add: bl_append_def e bl_assign_def Let_def el la word_of_nat_eq_0)
    have "path ?h (bl_first (lists h k)) ms" by (rule path_transfer [OF pm]) (simp add: h)
    then show ?thesis using 2 d by (simp add: bl_rep_def h last_slot_def)
  next
    case 3
    then have nx: "next_of ?h = (next_of h)(last ns := bl_first (lists h k))" and inf: "info ?h = info h" and
      ls: "lists ?h l = lists h l\<lparr>bl_last := last_slot k ms, bl_elements := of_nat (length ns) + of_nat (length ms)\<rparr>"
      using assms(3) la el by (simp_all add: bl_append_def e Let_def last_slot_def)
    have out: "last ns \<notin> set ms" using d last_in_set [OF 3(2)] by auto
    have "path ?h (bl_first (lists h l)) (ns @ ms)"
    proof (rule path_extend [OF pn 3(2) d])
      show "next_of ?h (last ns) = bl_first (lists h k)" by (simp add: nx)
      show "path ?h (bl_first (lists h k)) ms" by (rule path_transfer [OF pm]) (use out in \<open>auto simp: nx\<close>)
    qed (simp add: nx)
    then show ?thesis using 3 d inf unfolding bl_rep_def ls by (simp add: last_slot_def)
  qed
  then show "bl_rep ?h l (ns @ ms)" "info ?h = info h" by auto
qed

lemma prepend_rep:
  assumes "bl_rep h l ns" "bl_rep h k ms" "l \<noteq> k" "set ns \<inter> set ms = {}"
  shows "bl_rep (bl_prepend k l h) l (ms @ ns)" "info (bl_prepend k l h) = info h"
proof -
  let ?h = "bl_prepend k l h"
  have pn: "path h (bl_first (lists h l)) ns" and pm: "path h (bl_first (lists h k)) ms" and
    d: "distinct (ms @ ns)" and el: "bl_elements (lists h l) = of_nat (length ns)" "bl_elements (lists h k) = of_nat (length ms)" and
    la: "bl_last (lists h l) = last_slot l ns" "bl_last (lists h k) = last_slot k ms"
    using assms by (auto simp: bl_rep_def)
  note e = bl_is_empty_iff [OF assms(1)] bl_is_empty_iff [OF assms(2)]
  have "bl_rep ?h l (ms @ ns) \<and> info ?h = info h"
  proof (cases "ms = []")
    case True
    then show ?thesis using assms(1) by (simp add: bl_prepend_def e)
  next
    case False
    then have nx: "next_of ?h = (next_of h)(last ms := bl_first (lists h l))" and inf: "info ?h = info h" and
      ls: "lists ?h l = lists h l\<lparr>bl_first := bl_first (lists h k), bl_last := last_slot l (ms @ ns),
        bl_elements := of_nat (length ns) + of_nat (length ms)\<rparr>"
      using assms(3) by (cases "ns = []"; simp add: bl_prepend_def e Let_def la el last_slot_def)+
    have out: "last ms \<notin> set ns" using d last_in_set [OF False] by auto
    have "path ?h (bl_first (lists h k)) (ms @ ns)"
    proof (rule path_extend [OF pm False d])
      show "next_of ?h (last ms) = bl_first (lists h l)" by (simp add: nx)
      show "path ?h (bl_first (lists h l)) ns" by (rule path_transfer [OF pn]) (use out in \<open>auto simp: nx\<close>)
    qed (simp add: nx)
    then show ?thesis using d inf unfolding bl_rep_def ls by (simp add: add.commute)
  qed
  then show "bl_rep ?h l (ms @ ns)" "info ?h = info h" by auto
qed

text \<open>Searching a well-formed list ends.\<close>

lemma find_node_path:
  "path h a ns \<Longrightarrow> find_node eq i a h =
     Some (case filter (\<lambda>n. eq (info h n) i) ns of [] \<Rightarrow> end_of_list | n # _ \<Rightarrow> n)"
proof (induction ns arbitrary: a)
  case Nil
  then show ?case by (subst find_node.simps) simp
next
  case (Cons n ns)
  then show ?case by (subst find_node.simps) auto
qed

lemma add_unique_present:
  assumes "bl_rep h l ns" "\<exists>n\<in>set ns. eq (info h n) i"
  shows "bl_add_unique eq node i l h = Some (True, h)"
proof -
  obtain n ms where f: "filter (\<lambda>n. eq (info h n) i) ns = n # ms"
    using assms(2) by (cases "filter (\<lambda>n. eq (info h n) i) ns") (auto simp: filter_empty_conv)
  then have "n \<in> set (filter (\<lambda>n. eq (info h n) i) ns)" by simp
  then have "n \<in> set ns" by simp
  then have "n \<noteq> end_of_list" using assms(1) path_nodes by (auto simp: bl_rep_def)
  then show ?thesis
    using assms(1) f find_node_path [of h _ ns eq i] by (simp add: bl_add_unique_def bl_rep_def)
qed

lemma add_unique_absent:
  assumes "bl_rep h l ns" "\<forall>n\<in>set ns. \<not> eq (info h n) i"
  shows "bl_add_unique eq node i l h = Some (bl_push_back node i l h)"
  using assms find_node_path [of h "bl_first (lists h l)" ns eq i]
  by (simp add: bl_add_unique_def bl_rep_def filter_False)

lemma elem_loop_path:
  "path h a ns \<Longrightarrow> elem_loop (Suc k) a d h = (if k < length ns then info h (ns ! k) else 0)"
proof (induction ns arbitrary: a d k)
  case (Cons n ns)
  then show ?case by (cases k) (auto simp del: One_nat_def)
qed simp

lemma elem_rep: "bl_rep h l ns \<Longrightarrow> bl_elem n l h = (if unat n < length ns then info h (ns ! unat n) else 0)"
  using elem_loop_path [of h _ ns] by (simp add: bl_rep_def bl_elem_def)

lemma after_rep:
  assumes "bl_rep h l (ns @ n # ms)" "node \<notin> set (ns @ n # ms)" "node \<noteq> 0" "node \<noteq> end_of_list"
  shows "bl_rep (bl_after node i n l h) l (ns @ n # node # ms)"
    "contents (bl_after node i n l h) (ns @ n # node # ms) = contents h (ns @ [n]) @ i # contents h ms"
proof -
  let ?h = "bl_after node i n l h"
  have p: "path h (bl_first (lists h l)) (ns @ n # ms)" and d: "distinct (ns @ n # ms)" and
    el: "bl_elements (lists h l) = of_nat (length ns + length ms + 1)" and la: "bl_last (lists h l) = last_slot l (ns @ n # ms)"
    using assms(1) by (auto simp: bl_rep_def)
  have ln: "bl_last (lists h l) = NextOf n \<longleftrightarrow> ms = []"
    using d la by (cases ms rule: rev_cases) (auto simp: last_slot_def)
  have nx: "next_of ?h = (next_of h)(node := next_of h n, n := node)" and inf: "info ?h = (info h)(node := i)" and
    ls: "lists ?h l = lists h l\<lparr>bl_elements := of_nat (length ns + length ms + 2),
       bl_last := last_slot l (ns @ n # node # ms)\<rparr>"
    using assms(3) el la ln by (auto simp: bl_after_def Let_def last_slot_def)
  have ne: "node \<noteq> n" using assms(2) by auto
  have pm: "path h (next_of h n) ms" using path_suffix [OF p] by simp
  have "path ?h (next_of h n) ms" by (rule path_transfer [OF pm]) (use assms(2) d in \<open>auto simp: nx\<close>)
  then have tail: "path ?h node (node # ms)" using assms ne by (simp add: nx)
  have p1: "path (h\<lparr>next_of := (next_of h)(n := end_of_list)\<rparr>) (bl_first (lists h l)) (ns @ [n])"
    by (rule path_prefix [of h _ _ ms]) (use p d in \<open>auto\<close>)
  have "path ?h (bl_first (lists h l)) ((ns @ [n]) @ node # ms)"
    by (rule path_extend [OF p1 _ _ _ _ tail]) (use assms(2) d ne in \<open>auto simp: nx\<close>)
  then show "bl_rep ?h l (ns @ n # node # ms)"
    using d assms(2) unfolding bl_rep_def ls by simp
  show "contents ?h (ns @ n # node # ms) = contents h (ns @ [n]) @ i # contents h ms"
    using assms(2) unfolding inf by (auto simp: fun_upd_def)
qed

text \<open>
  Cutting a shared tail off a list: when the nodes \<open>ms\<close> of the other list end this one, the
  nodes before them remain.
\<close>

lemma disjoin_loop_path:
  assumes "path h a (ns @ ms)" "ms \<noteq> []" "distinct (ns @ ms)" "prev = last_slot l ks"
  shows "\<exists>h'. disjoin_loop (hd ms) prev a l h = Some h' \<and>
    h' = upd_list l (\<lambda>b. b\<lparr>bl_last := last_slot l (ks @ ns)\<rparr>)
           (slot_set (last_slot l (ks @ ns)) end_of_list
             (upd_list l (\<lambda>b. b\<lparr>bl_elements := bl_elements b + of_nat (length ns)\<rparr>) h))"
  using assms
proof (induction ns arbitrary: a prev ks h)
  case Nil
  then obtain m ms' where "ms = m # ms'" by (cases ms) auto
  with Nil show ?case by (subst disjoin_loop.simps) (simp add: upd_list_def)
next
  case (Cons n ns)
  let ?h = "upd_list l (\<lambda>b. b\<lparr>bl_elements := bl_elements b + 1\<rparr>) h"
  have a: "a = n" "n \<noteq> end_of_list" "path h (next_of h n) (ns @ ms)" "n \<noteq> hd ms"
    using Cons.prems by (auto simp: hd_in_set)
  have "path ?h (next_of h n) (ns @ ms)" by (rule path_transfer [OF a(3)]) simp
  moreover have "next_of h n \<noteq> end_of_list" using a(3) Cons.prems(2) by (cases "ns @ ms") auto
  ultimately show ?case
    using Cons.IH [of ?h "next_of h n" "NextOf n" "ks @ [n]"] Cons.prems a
    by (subst disjoin_loop.simps) (simp add: Let_def upd_list_def algebra_simps)
qed

lemma disjoin_rep:
  assumes "bl_rep h l (ns @ ms)" "bl_rep h k ms" "ms \<noteq> []" "l \<noteq> k"
  shows "\<exists>h'. bl_disjoin k l h = Some h' \<and> bl_rep h' l ns \<and> info h' = info h"
proof -
  have p: "path h (bl_first (lists h l)) (ns @ ms)" and d: "distinct (ns @ ms)" using assms(1) by (auto simp: bl_rep_def)
  have hd: "bl_first (lists h k) = hd ms" using assms(2,3) by (cases ms) (auto simp: bl_rep_def)
  let ?g = "upd_list l (\<lambda>b. b\<lparr>bl_elements := 0\<rparr>) h"
  have pg: "path ?g (bl_first (lists h l)) (ns @ ms)" by (rule path_transfer [OF p]) simp
  obtain h' where r: "bl_disjoin k l h = Some h'" and
    h': "h' = upd_list l (\<lambda>b. b\<lparr>bl_last := last_slot l ns\<rparr>) (slot_set (last_slot l ns) end_of_list
      (upd_list l (\<lambda>b. b\<lparr>bl_elements := bl_elements b + of_nat (length ns)\<rparr>) ?g))"
    using disjoin_loop_path [OF pg assms(3) d, of "FirstOf l" l "[]"] by (auto simp: bl_disjoin_def hd)
  have "bl_rep h' l ns"
  proof (cases "ns = []")
    case True
    then show ?thesis by (simp add: h' bl_rep_def)
  next
    case False
    have "path h' (bl_first (lists h l)) ns"
      by (rule path_prefix [OF p False]) (use d False in \<open>auto simp: h' last_slot_def\<close>)
    then show ?thesis using False d by (simp add: h' bl_rep_def last_slot_def)
  qed
  moreover have "info h' = info h" by (cases "last_slot l ns") (auto simp: h')
  ultimately show ?thesis using r by blast
qed

section \<open>Walking a list\<close>

lemma next_path:
  assumes "bl_rep h (it_list it) (ns @ n # ms)" "it_el it = last_slot (it_list it) ns"
  shows "fst (bli_next h it) = info h n" "it_current (snd (bli_next h it)) = n"
    "it_el (snd (bli_next h it)) = last_slot (it_list it) (ns @ [n])" "it_list (snd (bli_next h it)) = it_list it"
    "it_prev (snd (bli_next h it)) = Some (last_slot (it_list it) ns)"
  using path_at [of h "it_list it" ns n ms] assms by (simp_all add: bli_next_def Let_def bl_rep_def)

text \<open>Removing the element the iterator stands on; the next step returns the one after it.\<close>

lemma it_remove_rep:
  assumes "bl_rep h (it_list it) (ns @ n # ms)" "it_el it = last_slot (it_list it) ns" "length ns + length ms < 2 ^ 32"
  shows "\<exists>it' h'. it_remove (snd (bli_next h it)) h = Some (it', h') \<and> bl_rep h' (it_list it) (ns @ ms) \<and>
    it_el it' = last_slot (it_list it) ns \<and> info h' = info h"
  using remove_rep [OF assms(1,3)] next_path [OF assms(1,2)] by (simp add: it_remove_def)

text \<open>
  When the allocation fails, \<open>push_back\<close> has already stored the null pointer in the last slot:
  the list does not end at the sentinel any more.
\<close>

lemma push_back_failure_unterminated:
  assumes "bl_rep h l ns"
  shows "fst (bl_push_back 0 i l h) \<and> \<not> bl_rep (snd (bl_push_back 0 i l h)) l ms"
proof -
  let ?h = "snd (bl_push_back 0 i l h)"
  have la: "bl_last (lists ?h l) = last_slot l ns" "slot_get ?h (last_slot l ns) = 0"
    using assms by (cases ns rule: rev_cases; simp add: bl_push_back_def list_node_def Let_def bl_rep_def)+
  have "slot_get ?h (last_slot l ms) = end_of_list" if "bl_rep ?h l ms"
  proof (cases ms rule: rev_cases)
    case (snoc ks k)
    then have "path ?h k [k]" using that path_suffix [of ?h "bl_first (lists ?h l)" ks k "[]"] by (simp add: bl_rep_def)
    then show ?thesis using snoc by simp
  qed (use that in \<open>simp add: bl_rep_def\<close>)
  then show ?thesis using la push_failed(2) by (auto simp: bl_rep_def)
qed

section \<open>Property\<close>

text \<open>
  C19. The pointer operations implement sequences, the empty ones included: adding at either end
  with a fresh node, joining two lists at either end, taking the first element (the empty list
  answers null and stays), removing the element an iterator has just returned and inserting after
  a node give the list of the expected nodes, with the last slot and the element count right, and
  the expected elements.
\<close>

theorem base_list_sequence:
  assumes "bl_rep h l xs" "bl_rep h k ms" "l \<noteq> k" "set xs \<inter> set ms = {}"
    and "length xs \<le> 2 ^ 32" "length ms < 2 ^ 32"
    and "node \<notin> set xs" "node \<noteq> 0" "node \<noteq> end_of_list"
  shows "(bl_is_empty l h \<longleftrightarrow> xs = []) \<and>
    (\<exists>h'. bl_push_back node i l h = (False, h') \<and> bl_rep h' l (xs @ [node]) \<and>
        contents h' (xs @ [node]) = contents h xs @ [i]) \<and>
    (\<exists>h'. bl_push_front node i l h = (False, h') \<and> bl_rep h' l (node # xs) \<and>
        contents h' (node # xs) = i # contents h xs) \<and>
    bl_rep (bl_append k l h) l (xs @ ms) \<and> info (bl_append k l h) = info h \<and>
    bl_rep (bl_prepend k l h) l (ms @ xs) \<and> info (bl_prepend k l h) = info h \<and>
    (xs = [] \<longrightarrow> bl_pop l h = (0, h)) \<and>
    (\<forall>n ns. xs = n # ns \<longrightarrow>
       (\<exists>h'. bl_pop l h = (info h n, h') \<and> bl_rep h' l ns \<and> contents h' ns = contents h ns)) \<and>
    (\<forall>ns n rs it. xs = ns @ n # rs \<and> it_list it = l \<and> it_el it = last_slot l ns \<longrightarrow>
       fst (bli_next h it) = info h n \<and>
       (\<exists>it' h'. it_remove (snd (bli_next h it)) h = Some (it', h') \<and> bl_rep h' l (ns @ rs) \<and>
          it_el it' = last_slot l ns \<and> info h' = info h) \<and>
       bl_rep (bl_after node i n l h) l (ns @ n # node # rs) \<and>
       contents (bl_after node i n l h) (ns @ n # node # rs) = contents h (ns @ [n]) @ i # contents h rs)"
proof -
  have pop: "\<exists>h'. bl_pop l h = (info h n, h') \<and> bl_rep h' l ns \<and> contents h' ns = contents h ns"
    if "xs = n # ns" for n ns
    by (rule pop_rep) (use that assms(1,5) in auto)
  have walk: "fst (bli_next h it) = info h n \<and>
       (\<exists>it' h'. it_remove (snd (bli_next h it)) h = Some (it', h') \<and> bl_rep h' l (ns @ rs) \<and>
          it_el it' = last_slot l ns \<and> info h' = info h) \<and>
       bl_rep (bl_after node i n l h) l (ns @ n # node # rs) \<and>
       contents (bl_after node i n l h) (ns @ n # node # rs) = contents h (ns @ [n]) @ i # contents h rs"
    if "xs = ns @ n # rs" "it_list it = l" "it_el it = last_slot l ns" for ns n rs it
  proof (intro conjI)
    have r: "bl_rep h (it_list it) (ns @ n # rs)" "it_el it = last_slot (it_list it) ns" using assms(1) that by simp_all
    show "fst (bli_next h it) = info h n" by (rule next_path(1) [OF r])
    have "length ns + length rs < 2 ^ 32" using assms(5) that(1) by simp
    from it_remove_rep [OF r this]
    show "\<exists>it' h'. it_remove (snd (bli_next h it)) h = Some (it', h') \<and> bl_rep h' l (ns @ rs) \<and>
          it_el it' = last_slot l ns \<and> info h' = info h" by (simp only: that(2))
    show "bl_rep (bl_after node i n l h) l (ns @ n # node # rs)"
      "contents (bl_after node i n l h) (ns @ n # node # rs) = contents h (ns @ [n]) @ i # contents h rs"
      using after_rep [OF _ _ assms(8,9), of h l ns n rs i] assms(1,7) that(1) by simp_all
  qed
  show ?thesis
  proof (intro conjI)
    show "xs = [] \<longrightarrow> bl_pop l h = (0, h)" using assms(1) pop_empty by blast
    show "\<forall>n ns. xs = n # ns \<longrightarrow>
       (\<exists>h'. bl_pop l h = (info h n, h') \<and> bl_rep h' l ns \<and> contents h' ns = contents h ns)"
      using pop by blast
    show "\<forall>ns n rs it. xs = ns @ n # rs \<and> it_list it = l \<and> it_el it = last_slot l ns \<longrightarrow>
       fst (bli_next h it) = info h n \<and>
       (\<exists>it' h'. it_remove (snd (bli_next h it)) h = Some (it', h') \<and> bl_rep h' l (ns @ rs) \<and>
          it_el it' = last_slot l ns \<and> info h' = info h) \<and>
       bl_rep (bl_after node i n l h) l (ns @ n # node # rs) \<and>
       contents (bl_after node i n l h) (ns @ n # node # rs) = contents h (ns @ [n]) @ i # contents h rs"
      by (intro allI impI, elim conjE) (rule walk)
  qed (rule bl_is_empty_iff [OF assms(1)] push_back_rep [OF assms(1,7-9)] push_front_rep [OF assms(1,7-9)]
      append_rep [OF assms(1-4,6)] prepend_rep [OF assms(1-4)])+
qed

definition two_lists :: lheap where
  "two_lists = \<lparr>next_of = (\<lambda>n. if n = 2 then 3 else 1), info = (\<lambda>n. 10 * n),
     lists = (\<lambda>l. if l = 0 then \<lparr>bl_first = 2, bl_last = NextOf 3, bl_elements = 2\<rparr>
                  else \<lparr>bl_first = 4, bl_last = NextOf 4, bl_elements = 1\<rparr>)\<rparr>"

theorem base_list_sequence_witness:
  "(\<exists>h'. bl_push_back 5 7 0 two_lists = (False, h') \<and> bl_rep h' 0 [2, 3, 5] \<and> contents h' [2, 3, 5] = [20, 30, 7]) \<and>
   (\<exists>h'. bl_push_front 5 7 1 (bl_empty 1 two_lists) = (False, h') \<and> bl_rep h' 1 [5] \<and> contents h' [5] = [7]) \<and>
   (\<exists>it' h'. it_remove (snd (bli_next two_lists (it_init 0))) two_lists = Some (it', h') \<and> bl_rep h' 0 [3])"
proof -
  let ?e = "bl_empty 1 two_lists"
  have a: "bl_rep two_lists 0 [2, 3]" and b: "bl_rep two_lists 1 [4]" and c: "bl_rep ?e 0 [2, 3]" and d: "bl_rep ?e 1 []"
    by (simp_all add: two_lists_def bl_rep_def last_slot_def bl_empty_def upd_list_def)
  have i: "info two_lists 2 = 20" "info two_lists 3 = 30" by (simp_all add: two_lists_def)
  have 1: "\<exists>h'. bl_push_back 5 7 0 two_lists = (False, h') \<and> bl_rep h' 0 [2, 3, 5] \<and> contents h' [2, 3, 5] = [20, 30, 7]"
    using base_list_sequence [OF a b, of 5 7, THEN conjunct2, THEN conjunct1] by (simp add: i)
  have 2: "\<exists>h'. bl_push_front 5 7 1 ?e = (False, h') \<and> bl_rep h' 1 [5] \<and> contents h' [5] = [7]"
    using base_list_sequence [OF d c, of 5 7, THEN conjunct2, THEN conjunct2, THEN conjunct1] by simp
  have w: "\<forall>ns n rs it. [2, 3] = ns @ n # rs \<and> it_list it = 0 \<and> it_el it = last_slot 0 ns \<longrightarrow>
      (\<exists>it' h'. it_remove (snd (bli_next two_lists it)) two_lists = Some (it', h') \<and> bl_rep h' 0 (ns @ rs))"
    using base_list_sequence [OF a b, of 5 7] by simp blast
  have "\<exists>it' h'. it_remove (snd (bli_next two_lists (it_init 0))) two_lists = Some (it', h') \<and> bl_rep h' 0 [3]"
    using w [rule_format, of "[]" 2 "[3]" "it_init 0"] by (simp add: it_init_def)
  with 1 2 show ?thesis by (intro conjI)
qed

end
