(* ===== verification/Sql_Bubble_Sort.thy ===== *)
theory Sql_Bubble_Sort
  imports Sql_List "HOL-Library.Multiset"
begin

text \<open>
  \<open>bubble_sort\<close> of \<open>sql_list.h\<close>, which sorts the elements of a \<open>List<T>\<close> in place through
  references to the \<open>info\<close> fields of its nodes. A reference is the node whose field it points
  to, with 0 for the null reference the first pass starts from. The comparison function with its
  extra argument is a parameter.
\<close>

section \<open>The two loops\<close>

partial_function (option) bubble_inner ::
  "(nat \<Rightarrow> nat \<Rightarrow> int) \<Rightarrow> nat \<Rightarrow> nat \<Rightarrow> nat \<Rightarrow> bool \<Rightarrow> base_list_iterator \<Rightarrow> lheap \<Rightarrow> (nat \<times> bool \<times> lheap) option" where
  "bubble_inner sort_func last_ref item1 ref1 swap it h =
     (let item2 = fst (bli_next h it);
          it = snd (bli_next h it);
          ref2 = it_current it
      in if item2 \<noteq> 0 \<and> ref2 \<noteq> last_ref
         then if 0 < sort_func item1 item2
              then bubble_inner sort_func last_ref item1 ref2 True it (h\<lparr>info := (info h)(ref1 := item2, ref2 := item1)\<rparr>)
              else bubble_inner sort_func last_ref item2 ref2 swap it h
         else Some (ref1, swap, h))"

partial_function (option) bubble_passes ::
  "(nat \<Rightarrow> nat \<Rightarrow> int) \<Rightarrow> nat \<Rightarrow> base_list_iterator \<Rightarrow> lheap \<Rightarrow> lheap option" where
  "bubble_passes sort_func ref1 it h =
     (let last_ref = ref1;
          item1 = fst (bli_next h it);
          it = snd (bli_next h it);
          ref1 = it_current it
      in Option.bind (bubble_inner sort_func last_ref item1 ref1 False it h)
           (\<lambda>(ref1, swap, h). if swap then bubble_passes sort_func ref1 (it_rewind it) h else Some h))"

definition bubble_sort :: "(nat \<Rightarrow> nat \<Rightarrow> int) \<Rightarrow> nat \<Rightarrow> lheap \<Rightarrow> lheap option" where
  "bubble_sort sort_func l h = bubble_passes sort_func 0 (it_init l) h"

section \<open>One pass on the sequence of elements\<close>

fun bubble :: "(nat \<Rightarrow> nat \<Rightarrow> int) \<Rightarrow> nat \<Rightarrow> nat list \<Rightarrow> nat list \<times> bool" where
  "bubble f x [] = ([x], False)"
| "bubble f x (y # ys) =
     (if 0 < f x y then (y # fst (bubble f x ys), True)
      else (x # fst (bubble f y ys), snd (bubble f y ys)))"

abbreviation sort_le :: "(nat \<Rightarrow> nat \<Rightarrow> int) \<Rightarrow> nat \<Rightarrow> nat \<Rightarrow> bool" where
  "sort_le f x y \<equiv> f x y \<le> 0"

text \<open>What a comparison function has to satisfy: it orders any two elements, consistently.\<close>

definition comparator :: "(nat \<Rightarrow> nat \<Rightarrow> int) \<Rightarrow> bool" where
  "comparator f \<longleftrightarrow> (\<forall>x y. 0 < f x y \<longrightarrow> f y x \<le> 0) \<and> (\<forall>x y z. f x y \<le> 0 \<longrightarrow> f y z \<le> 0 \<longrightarrow> f x z \<le> 0)"

lemma comparatorD:
  assumes "comparator f"
  shows "0 < f x y \<Longrightarrow> sort_le f y x" "sort_le f x y \<Longrightarrow> sort_le f y z \<Longrightarrow> sort_le f x z" "sort_le f x x"
  using assms unfolding comparator_def by (blast, blast, metis linorder_not_less)

lemma bubble_mset: "mset (fst (bubble f x ys)) = mset (x # ys)"
  by (induction f x ys rule: bubble.induct) auto

lemma bubble_set: "set (fst (bubble f x ys)) = insert x (set ys)"
  using arg_cong [OF bubble_mset, of set_mset f x ys] by simp

lemma bubble_length [simp]: "length (fst (bubble f x ys)) = Suc (length ys)"
  using arg_cong [OF bubble_mset, of size f x ys] by simp

lemma bubble_nonempty [simp]: "fst (bubble f x ys) \<noteq> []"
  using bubble_length [of f x ys] by (metis length_0_conv nat.distinct(1))

lemma bubble_last_max:
  "comparator f \<Longrightarrow> z \<in> set (x # ys) \<Longrightarrow> sort_le f z (last (fst (bubble f x ys)))"
proof (induction f x ys arbitrary: z rule: bubble.induct)
  case (1 f x)
  then show ?case using comparatorD(3) by auto
next
  case (2 f x y ys)
  show ?case
  proof (cases "0 < f x y")
    case True
    then have "sort_le f y x" by (rule comparatorD(1) [OF "2.prems"(1)])
    moreover have "sort_le f w (last (fst (bubble f x ys)))" if "w \<in> set (x # ys)" for w
      using "2.IH"(1) [OF True "2.prems"(1)] that by blast
    ultimately show ?thesis
      using True "2.prems"(2) comparatorD(2) [OF "2.prems"(1), of y x] by auto
  next
    case False
    then have "sort_le f x y" by simp
    moreover have "sort_le f w (last (fst (bubble f y ys)))" if "w \<in> set (y # ys)" for w
      using "2.IH"(2) [OF False "2.prems"(1)] that by blast
    ultimately show ?thesis
      using False "2.prems"(2) comparatorD(2) [OF "2.prems"(1), of x y] by auto
  qed
qed

lemma bubble_no_swap:
  "\<not> snd (bubble f x ys) \<Longrightarrow> fst (bubble f x ys) = x # ys \<and> (comparator f \<longrightarrow> sorted_wrt (sort_le f) (x # ys))"
proof (induction f x ys rule: bubble.induct)
  case (2 f x y ys)
  then have le: "sort_le f x y" by (auto split: if_splits)
  with 2 have IH: "fst (bubble f y ys) = y # ys \<and> (comparator f \<longrightarrow> sorted_wrt (sort_le f) (y # ys))" by simp
  moreover have "sorted_wrt (sort_le f) (x # y # ys)" if "comparator f"
    using IH that le comparatorD(2) [OF that le] by auto
  ultimately show ?case using le by simp
qed simp

section \<open>The inner loop is one pass\<close>

text \<open>A heap on which the sentinel is as \<open>end_of_list\<close> is initialised.\<close>

definition sentinel_ok :: "lheap \<Rightarrow> bool" where
  "sentinel_ok h \<longleftrightarrow> info h end_of_list = 0 \<and> next_of h end_of_list = end_of_list"

lemma bubble_inner_pass:
  assumes "path h r1 (r1 # mid @ rest)" "distinct (r1 # mid @ rest)" "sentinel_ok h"
    and "\<forall>n\<in>set (r1 # mid @ rest). info h n \<noteq> 0"
    and "last_ref \<notin> set (r1 # mid)" "rest \<noteq> [] \<Longrightarrow> hd rest = last_ref"
    and "it_el it = NextOf r1" "x = info h r1"
  shows "\<exists>h'. bubble_inner f last_ref x r1 swap it h = Some (last (r1 # mid), swap \<or> snd (bubble f x (contents h mid)), h') \<and>
    contents h' (r1 # mid) = fst (bubble f x (contents h mid)) \<and> next_of h' = next_of h \<and> lists h' = lists h \<and>
    (\<forall>n. n \<notin> set (r1 # mid) \<longrightarrow> info h' n = info h n)"
  using assms
proof (induction mid arbitrary: r1 x h it swap)
  case Nil
  have "next_of h r1 = end_of_list \<or> rest \<noteq> [] \<and> next_of h r1 = last_ref"
    using Nil.prems(1,6) by (cases rest) auto
  then have "\<not> (info h (next_of h r1) \<noteq> 0 \<and> next_of h r1 \<noteq> last_ref)"
    using Nil.prems(3) by (auto simp: sentinel_ok_def)
  then have "bubble_inner f last_ref x r1 swap it h = Some (r1, swap, h)"
    using Nil.prems(7) by (subst bubble_inner.simps) (auto simp: bli_next_def Let_def)
  then show ?case using Nil.prems(8) by simp
next
  case (Cons n mid)
  let ?it = "snd (bli_next h it)"
  have n: "next_of h r1 = n" "n \<noteq> end_of_list" "n \<noteq> r1" "n \<noteq> last_ref" "info h n \<noteq> 0" "r1 \<noteq> end_of_list"
    using Cons.prems by auto
  have p: "path h n (n # mid @ rest)" using Cons.prems(1) by simp
  have it: "fst (bli_next h it) = info h n" "it_current ?it = n" "it_el ?it = NextOf n"
    using Cons.prems(7) n(1) by (auto simp: bli_next_def Let_def)
  show ?case
  proof (cases "0 < f x (info h n)")
    case True
    let ?g = "h\<lparr>info := (info h)(r1 := info h n, n := x)\<rparr>"
    have out: "contents ?g mid = contents h mid" using Cons.prems(2) by auto
    have pg: "path ?g n (n # mid @ rest)" by (rule path_transfer [OF p]) simp
    have sg: "sentinel_ok ?g" using Cons.prems(3) n by (simp add: sentinel_ok_def)
    have ig: "\<forall>k\<in>set (n # mid @ rest). info ?g k \<noteq> 0" using Cons.prems(2,4,8) by auto
    have xg: "x = info ?g n" by simp
    obtain h' where h': "bubble_inner f last_ref x n True ?it ?g = Some (last (n # mid), True \<or> snd (bubble f x (contents h mid)), h')"
      "contents h' (n # mid) = fst (bubble f x (contents h mid))" "next_of h' = next_of ?g" "lists h' = lists ?g"
      "\<forall>k. k \<notin> set (n # mid) \<longrightarrow> info h' k = info ?g k"
      using Cons.IH [OF pg _ sg ig _ Cons.prems(6) it(3) xg, of True] Cons.prems(2,5) unfolding out by auto
    have "bubble_inner f last_ref x r1 swap it h = bubble_inner f last_ref x n True ?it ?g"
      using True n it by (subst bubble_inner.simps) (simp add: Let_def)
    moreover have "info h' r1 = info h n" using h'(5) n Cons.prems(2) by auto
    ultimately show ?thesis using True h' Cons.prems(2) by (intro exI [of _ h']) auto
  next
    case False
    obtain h' where h': "bubble_inner f last_ref (info h n) n swap ?it h =
        Some (last (n # mid), swap \<or> snd (bubble f (info h n) (contents h mid)), h')"
      "contents h' (n # mid) = fst (bubble f (info h n) (contents h mid))" "next_of h' = next_of h" "lists h' = lists h"
      "\<forall>k. k \<notin> set (n # mid) \<longrightarrow> info h' k = info h k"
      using Cons.IH [of h n ?it "info h n" swap] Cons.prems n it p by auto
    have "bubble_inner f last_ref x r1 swap it h = bubble_inner f last_ref (info h n) n swap ?it h"
      using False n it by (subst bubble_inner.simps) (simp add: Let_def)
    moreover have "info h' r1 = x" using h'(5) n Cons.prems(2,8) by auto
    ultimately show ?thesis using False h' Cons.prems(2) by (intro exI [of _ h']) auto
  qed
qed

section \<open>The passes sort\<close>

text \<open>
  Between passes the nodes are \<open>A @ B\<close>: the passes so far have brought the largest elements to
  \<open>B\<close>, in order, and the next pass stops at the first node of \<open>B\<close>.
\<close>

definition pass_inv :: "(nat \<Rightarrow> nat \<Rightarrow> int) \<Rightarrow> lheap \<Rightarrow> nat list \<Rightarrow> nat list \<Rightarrow> bool" where
  "pass_inv f h A B \<longleftrightarrow> sorted_wrt (sort_le f) (contents h B) \<and>
     (\<forall>a\<in>set (contents h A). \<forall>b\<in>set (contents h B). sort_le f a b)"

definition sortable :: "lheap \<Rightarrow> nat \<Rightarrow> nat list \<Rightarrow> bool" where
  "sortable h l ns \<longleftrightarrow> path h (bl_first (lists h l)) ns \<and> distinct ns \<and> sentinel_ok h \<and> (\<forall>n\<in>set ns. info h n \<noteq> 0)"

text \<open>What sorting leaves alone.\<close>

definition same_links :: "nat list \<Rightarrow> lheap \<Rightarrow> lheap \<Rightarrow> bool" where
  "same_links ns h h' \<longleftrightarrow> next_of h' = next_of h \<and> lists h' = lists h \<and> (\<forall>n. n \<notin> set ns \<longrightarrow> info h' n = info h n)"

lemma same_links_trans: "same_links ns h g \<Longrightarrow> same_links ns g h' \<Longrightarrow> same_links ns h h'"
  by (simp add: same_links_def)

lemma sortable_transfer:
  assumes "sortable h l ns" "same_links ns h g" "mset (contents g ns) = mset (contents h ns)"
  shows "sortable g l ns"
proof -
  have "set (contents g ns) = set (contents h ns)" using arg_cong [OF assms(3), of set_mset] by simp
  then have "\<forall>n\<in>set ns. info g n \<noteq> 0" using assms(1) by (force simp: sortable_def)
  moreover have "end_of_list \<notin> set ns" using assms(1) path_nodes by (auto simp: sortable_def)
  moreover have "path g (bl_first (lists g l)) ns"
    using assms(1,2) path_transfer [of h _ ns g] by (auto simp: sortable_def same_links_def)
  ultimately show ?thesis using assms(1,2) by (auto simp: sortable_def same_links_def sentinel_ok_def)
qed

lemma one_pass:
  assumes "sortable h l (A @ B)" "A \<noteq> []" "ref = (if B = [] then 0 else hd B)" "it_el it = FirstOf l"
  defines "x \<equiv> info h (hd A)" and "ys \<equiv> contents h (tl A)"
  shows "\<exists>g. bubble_inner f ref (fst (bli_next h it)) (it_current (snd (bli_next h it))) False (snd (bli_next h it)) h =
      Some (last A, snd (bubble f x ys), g) \<and> contents g A = fst (bubble f x ys) \<and> contents g B = contents h B \<and>
      same_links (A @ B) h g"
proof -
  obtain r1 mid where A: "A = r1 # mid" using assms(2) by (cases A) auto
  have p: "path h r1 (r1 # mid @ B)" and first: "bl_first (lists h l) = r1" and r1: "r1 \<noteq> 0"
    using assms(1) A by (auto simp: sortable_def)
  have nodes: "ref \<notin> set (r1 # mid)"
    using assms(1,3) A path_nodes [of h _ "A @ B"] by (cases B) (auto simp: sortable_def)
  have it: "fst (bli_next h it) = info h r1" "it_current (snd (bli_next h it)) = r1" "it_el (snd (bli_next h it)) = NextOf r1"
    using assms(4) first by (simp_all add: bli_next_def Let_def)
  obtain g where g: "bubble_inner f ref (info h r1) r1 False (snd (bli_next h it)) h =
      Some (last (r1 # mid), False \<or> snd (bubble f (info h r1) (contents h mid)), g)"
    "contents g (r1 # mid) = fst (bubble f (info h r1) (contents h mid))" "next_of g = next_of h" "lists g = lists h"
    "\<forall>n. n \<notin> set (r1 # mid) \<longrightarrow> info g n = info h n"
    using bubble_inner_pass [OF p _ _ _ nodes _ it(3) refl, of f False] assms(1,3) A by (auto simp: sortable_def)
  have "set (r1 # mid) \<inter> set B = {}" using assms(1) A by (auto simp: sortable_def)
  then have "n \<notin> set (r1 # mid)" if "n \<in> set B" for n using that by blast
  then have "contents g B = contents h B" using g(5) by simp
  then show ?thesis using g A it(1,2) unfolding x_def ys_def by (intro exI [of _ g]) (simp add: same_links_def)
qed

lemma bubble_passes_sorts:
  assumes "sortable h l (A @ B)" "A \<noteq> []" "ref = (if B = [] then 0 else hd B)" "it_el it = FirstOf l" "it_list it = l"
  shows "\<exists>h'. bubble_passes f ref it h = Some h' \<and> mset (contents h' (A @ B)) = mset (contents h (A @ B)) \<and>
    same_links (A @ B) h h' \<and> (comparator f \<longrightarrow> pass_inv f h A B \<longrightarrow> sorted_wrt (sort_le f) (contents h' (A @ B)))"
  using assms
proof (induction "length A" arbitrary: A B h ref it rule: less_induct)
  case less
  define x ys where x: "x = info h (hd A)" and ys: "ys = contents h (tl A)"
  let ?it = "snd (bli_next h it)"
  have xys: "x # ys = contents h A" using less.prems(2) by (cases A) (auto simp: x ys)
  obtain g where inner: "bubble_inner f ref (fst (bli_next h it)) (it_current ?it) False ?it h =
      Some (last A, snd (bubble f x ys), g)" and gA: "contents g A = fst (bubble f x ys)" and
    gB: "contents g B = contents h B" and gl: "same_links (A @ B) h g"
    using one_pass [OF less.prems(1-4), of f] unfolding x ys by auto
  have mA: "mset (contents g A) = mset (contents h A)" unfolding gA bubble_mset xys ..
  have ms: "mset (contents g (A @ B)) = mset (contents h (A @ B))"
    unfolding map_append mset_append mA gB ..
  have set: "set (contents g A) = set (contents h A)" using arg_cong [OF mA, of set_mset] unfolding set_mset_mset .
  have step: "bubble_passes f ref it h =
      (if snd (bubble f x ys) then bubble_passes f (last A) (it_rewind ?it) g else Some g)"
    by (subst bubble_passes.simps) (simp add: Let_def inner)
  show ?case
  proof (cases "snd (bubble f x ys)")
    case False
    have gA': "contents g A = contents h A" using bubble_no_swap [OF False] unfolding gA xys by blast
    have "sorted_wrt (sort_le f) (contents g (A @ B))" if "comparator f" "pass_inv f h A B"
      using bubble_no_swap [OF False] that unfolding pass_inv_def map_append sorted_wrt_append gB gA' xys by blast
    then show ?thesis using False step ms gl by simp
  next
    case True
    define A' B' where A': "A' = butlast A" and B': "B' = last A # B"
    have AB: "A' @ B' = A @ B" using less.prems(2) by (simp add: A' B')
    have "ys \<noteq> []" using True by auto
    moreover have "length A' = length ys" "length A = Suc (length ys)"
      using arg_cong [OF xys, of length] by (simp_all add: A')
    ultimately have ne: "A' \<noteq> []" "length A' < length A" by auto
    have sg: "sortable g l (A' @ B')" unfolding AB by (rule sortable_transfer [OF less.prems(1) gl ms])
    have itr: "it_el (it_rewind ?it) = FirstOf l" "it_list (it_rewind ?it) = l"
      using less.prems(5) by (simp_all add: it_rewind_def bli_next_def Let_def)
    have "last A = (if B' = [] then 0 else hd B')" by (simp add: B')
    from less.hyps [OF ne(2) sg ne(1) this itr]
    obtain h' where h': "bubble_passes f (last A) (it_rewind ?it) g = Some h'"
      "mset (contents h' (A' @ B')) = mset (contents g (A' @ B'))" "same_links (A' @ B') g h'"
      "comparator f \<longrightarrow> pass_inv f g A' B' \<longrightarrow> sorted_wrt (sort_le f) (contents h' (A' @ B'))"
      by blast
    have "pass_inv f g A' B'" if f: "comparator f" and inv: "pass_inv f h A B"
    proof -
      have la: "info g (last A) = last (fst (bubble f x ys))" using less.prems(2) unfolding gA [symmetric] by (simp add: last_map)
      have "sort_le f z (info g (last A))" if "z \<in> set (contents g A)" for z
        using bubble_last_max [OF f, of z x ys] that bubble_set [of f x ys] unfolding gA la by simp
      moreover have "last A \<in> set A" "set A' \<subseteq> set A" using less.prems(2) by (auto simp: A' dest: in_set_butlastD)
      moreover have "sort_le f a b" if "a \<in> set (contents g A)" "b \<in> set (contents g B)" for a b
        using inv that unfolding pass_inv_def set gB by blast
      moreover have "sorted_wrt (sort_le f) (contents g B)" using inv by (simp add: pass_inv_def gB)
      ultimately show ?thesis unfolding pass_inv_def B' by auto
    qed
    then have "comparator f \<longrightarrow> pass_inv f h A B \<longrightarrow> sorted_wrt (sort_le f) (contents h' (A @ B))"
      using h'(4) unfolding AB by blast
    moreover have "bubble_passes f ref it h = Some h'" using True step h'(1) by simp
    moreover have "same_links (A @ B) h h'" using same_links_trans [OF gl] h'(3) unfolding AB by blast
    ultimately show ?thesis using h'(2) ms unfolding AB by (intro exI [of _ h'] conjI) simp_all
  qed
qed

section \<open>Property\<close>

text \<open>
  C20. Sorting a list ends, whatever the comparison function returns, and leaves the links of the
  list, the other lists and all other elements as they are. The elements are the same with their
  multiplicity, and when the function is a comparison they end up in its order.
\<close>

theorem bubble_sort_sorts:
  assumes "bl_rep h l ns" "sentinel_ok h" "\<forall>n\<in>set ns. info h n \<noteq> 0"
  shows "\<exists>h'. bubble_sort f l h = Some h' \<and> bl_rep h' l ns \<and> same_links ns h h' \<and>
    mset (contents h' ns) = mset (contents h ns) \<and>
    (comparator f \<longrightarrow> sorted_wrt (\<lambda>x y. f x y \<le> 0) (contents h' ns))"
proof (cases "ns = []")
  case True
  with assms have "bubble_inner f 0 0 end_of_list False (snd (bli_next h (it_init l))) h = Some (end_of_list, False, h)"
    by (subst bubble_inner.simps) (simp add: bli_next_def it_init_def bl_rep_def sentinel_ok_def Let_def)
  moreover have "fst (bli_next h (it_init l)) = 0" "it_current (snd (bli_next h (it_init l))) = end_of_list"
    using True assms by (simp_all add: bli_next_def it_init_def bl_rep_def sentinel_ok_def Let_def)
  ultimately have "bubble_sort f l h = Some h"
    unfolding bubble_sort_def by (subst bubble_passes.simps) (simp add: Let_def)
  then show ?thesis using True assms(1) by (simp add: same_links_def)
next
  case False
  have "sortable h l (ns @ [])" using assms by (simp add: sortable_def bl_rep_def)
  then obtain h' where h': "bubble_sort f l h = Some h'" "mset (contents h' ns) = mset (contents h ns)" "same_links ns h h'"
    "comparator f \<longrightarrow> pass_inv f h ns [] \<longrightarrow> sorted_wrt (sort_le f) (contents h' ns)"
    using bubble_passes_sorts [of h l ns "[]" 0 "it_init l" f] False by (auto simp: bubble_sort_def it_init_def)
  have "path h' (bl_first (lists h l)) ns"
    using assms(1) h'(3) path_transfer [of h _ ns h'] by (auto simp: bl_rep_def same_links_def)
  then have "bl_rep h' l ns" using assms(1) h'(3) by (simp add: bl_rep_def same_links_def)
  then show ?thesis using h' by (auto simp: pass_inv_def)
qed

definition sort_example :: lheap where
  "sort_example = \<lparr>next_of = (\<lambda>n. if n = 2 then 3 else if n = 3 then 4 else 1),
     info = (\<lambda>n. if n = 2 then 30 else if n = 3 then 10 else if n = 4 then 20 else 0),
     lists = (\<lambda>_. \<lparr>bl_first = 2, bl_last = NextOf 4, bl_elements = 3\<rparr>)\<rparr>"

theorem bubble_sort_sorts_witness:
  "\<exists>h'. bubble_sort (\<lambda>x y. int x - int y) 0 sort_example = Some h' \<and> contents h' [2, 3, 4] = [10, 20, 30]"
proof -
  let ?f = "\<lambda>x y. int x - int y"
  have f: "comparator ?f" by (auto simp: comparator_def)
  have ex: "bl_rep sort_example 0 [2, 3, 4]" "sentinel_ok sort_example" "\<forall>n\<in>set [2, 3, 4]. info sort_example n \<noteq> 0"
    by (simp_all add: sort_example_def bl_rep_def sentinel_ok_def last_slot_def)
  obtain h' where h': "bubble_sort ?f 0 sort_example = Some h'"
    "mset (contents h' [2, 3, 4]) = mset (contents sort_example [2, 3, 4])"
    "sorted_wrt (\<lambda>x y. ?f x y \<le> 0) (contents h' [2, 3, 4])"
    using bubble_sort_sorts [OF ex, of ?f] f by blast
  have "mset (contents sort_example [2, 3, 4]) = mset [10, 20, 30]"
    by (simp add: sort_example_def add_mset_commute)
  with h'(2) have "mset (contents h' [2, 3, 4]) = mset [10, 20, 30]" by (rule trans)
  moreover have "sorted (contents h' [2, 3, 4])" using h'(3) by (simp only: diff_le_0_iff_le of_nat_le_iff)
  ultimately have "sort [10, 20, 30] = contents h' [2, 3, 4]" by (intro properties_for_sort)
  then show ?thesis using h'(1) by simp
qed

end
