(* ===== verification/Sql_Ilist.thy ===== *)
theory Sql_Ilist
  imports Node_Chains
begin

text \<open>
  The intrusive lists of \<open>sql_list.h\<close>: \<open>SQL_I_List\<close>, which keeps a pointer to the slot where the
  next element goes, and \<open>base_ilist\<close>, a doubly linked list whose elements carry their own links
  (\<open>ilink\<close>) and whose end is a link inside the list object.
\<close>

section \<open>SQL_I_List\<close>

text \<open>A slot is the field \<open>first\<close> of a list or the link field of an element; 0 is null.\<close>

datatype islot = IFirst nat | ILink nat

record SQL_I_List =
  il_elements :: uint
  il_first :: nat
  il_next :: islot

record iheap =
  link :: "nat \<Rightarrow> nat"
  ilists :: "nat \<Rightarrow> SQL_I_List"

fun islot_set :: "islot \<Rightarrow> nat \<Rightarrow> iheap \<Rightarrow> iheap" where
  "islot_set (IFirst l) v h = h\<lparr>ilists := (ilists h)(l := ilists h l\<lparr>il_first := v\<rparr>)\<rparr>"
| "islot_set (ILink n) v h = h\<lparr>link := (link h)(n := v)\<rparr>"

definition upd_ilist :: "nat \<Rightarrow> (SQL_I_List \<Rightarrow> SQL_I_List) \<Rightarrow> iheap \<Rightarrow> iheap" where
  "upd_ilist l f h = h\<lparr>ilists := (ilists h)(l := f (ilists h l))\<rparr>"

definition il_assign :: "nat \<Rightarrow> nat \<Rightarrow> iheap \<Rightarrow> iheap" where
  "il_assign l tmp h =
     upd_ilist l (\<lambda>_. \<lparr>il_elements = il_elements (ilists h tmp), il_first = il_first (ilists h tmp),
       il_next = (if il_elements (ilists h tmp) \<noteq> 0 then il_next (ilists h tmp) else IFirst l)\<rparr>) h"

definition il_empty :: "nat \<Rightarrow> iheap \<Rightarrow> iheap" where
  "il_empty l = upd_ilist l (\<lambda>_. \<lparr>il_elements = 0, il_first = 0, il_next = IFirst l\<rparr>)"

definition link_in_list :: "nat \<Rightarrow> islot \<Rightarrow> nat \<Rightarrow> iheap \<Rightarrow> iheap" where
  "link_in_list element next_ptr l h =
     (let h = upd_ilist l (\<lambda>b. b\<lparr>il_elements := il_elements b + 1\<rparr>) h;
          h = islot_set (il_next (ilists h l)) element h;
          h = upd_ilist l (\<lambda>b. b\<lparr>il_next := next_ptr\<rparr>) h
      in islot_set next_ptr 0 h)"

definition save_and_clear :: "nat \<Rightarrow> nat \<Rightarrow> iheap \<Rightarrow> iheap" where
  "save_and_clear save l h = il_empty l (il_assign save l h)"

definition il_push_front :: "nat \<Rightarrow> nat \<Rightarrow> iheap \<Rightarrow> iheap" where
  "il_push_front save l h =
     (let h = islot_set (il_next (ilists h save)) (il_first (ilists h l)) h;
          h = upd_ilist l (\<lambda>b. b\<lparr>il_first := il_first (ilists h save)\<rparr>) h
      in upd_ilist l (\<lambda>b. b\<lparr>il_elements := il_elements b + il_elements (ilists h save)\<rparr>) h)"

definition il_push_back :: "nat \<Rightarrow> nat \<Rightarrow> iheap \<Rightarrow> iheap" where
  "il_push_back save l h =
     (if il_first (ilists h save) \<noteq> 0
      then let h = islot_set (il_next (ilists h l)) (il_first (ilists h save)) h;
               h = upd_ilist l (\<lambda>b. b\<lparr>il_next := il_next (ilists h save)\<rparr>) h
           in upd_ilist l (\<lambda>b. b\<lparr>il_elements := il_elements b + il_elements (ilists h save)\<rparr>) h
      else h)"

section \<open>ilink and base_ilist\<close>

text \<open>A link is an element or the link \<open>last\<close> inside a list object.\<close>

datatype ilink = Null | Elem nat | Last nat
datatype pslot = PNull | PFirst nat | PNext ilink

record dheap =
  dprev :: "ilink \<Rightarrow> pslot"
  dnext :: "ilink \<Rightarrow> ilink"
  dfirst :: "nat \<Rightarrow> ilink"

fun pslot_set :: "pslot \<Rightarrow> ilink \<Rightarrow> dheap \<Rightarrow> dheap" where
  "pslot_set PNull v h = h"
| "pslot_set (PFirst l) v h = h\<lparr>dfirst := (dfirst h)(l := v)\<rparr>"
| "pslot_set (PNext n) v h = h\<lparr>dnext := (dnext h)(n := v)\<rparr>"

definition set_prev :: "ilink \<Rightarrow> pslot \<Rightarrow> dheap \<Rightarrow> dheap" where
  "set_prev n p h = h\<lparr>dprev := (dprev h)(n := p)\<rparr>"

definition set_next :: "ilink \<Rightarrow> ilink \<Rightarrow> dheap \<Rightarrow> dheap" where
  "set_next n m h = h\<lparr>dnext := (dnext h)(n := m)\<rparr>"

definition ilink_init :: "ilink \<Rightarrow> dheap \<Rightarrow> dheap" where
  "ilink_init a h = set_next a Null (set_prev a PNull h)"

definition unlink :: "ilink \<Rightarrow> dheap \<Rightarrow> dheap" where
  "unlink a h =
     (let h = (if dprev h a \<noteq> PNull then pslot_set (dprev h a) (dnext h a) h else h);
          h = (if dnext h a \<noteq> Null then set_prev (dnext h a) (dprev h a) h else h)
      in set_next a Null (set_prev a PNull h))"

definition dl_empty :: "nat \<Rightarrow> dheap \<Rightarrow> dheap" where
  "dl_empty l h = set_prev (Last l) (PFirst l) (h\<lparr>dfirst := (dfirst h)(l := Last l)\<rparr>)"

definition dl_is_empty :: "nat \<Rightarrow> dheap \<Rightarrow> bool" where
  "dl_is_empty l h \<longleftrightarrow> dfirst h l = Last l"

definition dl_is_last :: "nat \<Rightarrow> ilink \<Rightarrow> dheap \<Rightarrow> bool" where
  "dl_is_last l p h \<longleftrightarrow> dnext h p = Null \<or> dnext h p = Last l"

definition dl_append :: "ilink \<Rightarrow> nat \<Rightarrow> dheap \<Rightarrow> dheap" where
  "dl_append a l h =
     (let h = set_prev (dfirst h l) (PNext a) h;
          h = set_next a (dfirst h l) h;
          h = set_prev a (PFirst l) h
      in h\<lparr>dfirst := (dfirst h)(l := a)\<rparr>)"

definition dl_push_back :: "ilink \<Rightarrow> nat \<Rightarrow> dheap \<Rightarrow> dheap" where
  "dl_push_back a l h =
     (let h = pslot_set (dprev h (Last l)) a h;
          h = set_next a (Last l) h;
          h = set_prev a (dprev h (Last l)) h
      in set_prev (Last l) (PNext a) h)"

definition dl_get :: "nat \<Rightarrow> dheap \<Rightarrow> ilink \<times> dheap" where
  "dl_get l h =
     (let first_link = dfirst h l
      in if first_link = Last l then (Null, h) else (first_link, unlink first_link h))"

definition dl_head :: "nat \<Rightarrow> dheap \<Rightarrow> ilink" where
  "dl_head l h = (if dfirst h l \<noteq> Last l then dfirst h l else Null)"

definition move_elements_to :: "nat \<Rightarrow> nat \<Rightarrow> dheap \<Rightarrow> dheap" where
  "move_elements_to new_owner l h =
     (let h = h\<lparr>dfirst := (dfirst h)(new_owner := dfirst h l)\<rparr>;
          h = set_next (Last new_owner) (dnext h (Last l)) (set_prev (Last new_owner) (dprev h (Last l)) h)
      in dl_empty l h)"

fun pslot_get :: "dheap \<Rightarrow> pslot \<Rightarrow> ilink" where
  "pslot_get h PNull = Null"
| "pslot_get h (PFirst l) = dfirst h l"
| "pslot_get h (PNext n) = dnext h n"

record base_ilist_iterator =
  dit_list :: nat
  dit_el :: pslot
  dit_current :: ilink

definition dit_init :: "nat \<Rightarrow> base_ilist_iterator" where
  "dit_init l = \<lparr>dit_list = l, dit_el = PFirst l, dit_current = Null\<rparr>"

definition dit_next :: "dheap \<Rightarrow> base_ilist_iterator \<Rightarrow> ilink \<times> base_ilist_iterator" where
  "dit_next h it =
     (let cur = pslot_get h (dit_el it); it = it\<lparr>dit_current := cur\<rparr>
      in if cur = Last (dit_list it) then (Null, it) else (cur, it\<lparr>dit_el := PNext cur\<rparr>))"

section \<open>The elements of a SQL_I_List\<close>

fun ipath :: "iheap \<Rightarrow> nat \<Rightarrow> nat list \<Rightarrow> bool" where
  "ipath h a [] \<longleftrightarrow> a = 0"
| "ipath h a (n # ns) \<longleftrightarrow> a = n \<and> n \<noteq> 0 \<and> ipath h (link h n) ns"

definition il_slot :: "nat \<Rightarrow> nat list \<Rightarrow> islot" where
  "il_slot l ns = (if ns = [] then IFirst l else ILink (last ns))"

definition il_rep :: "iheap \<Rightarrow> nat \<Rightarrow> nat list \<Rightarrow> bool" where
  "il_rep h l ns \<longleftrightarrow> ipath h (il_first (ilists h l)) ns \<and> distinct ns \<and> il_next (ilists h l) = il_slot l ns \<and>
     il_elements (ilists h l) = of_nat (length ns)"

lemma upd_ilist_simps [simp]:
  "link (upd_ilist l f h) = link h" "ilists (upd_ilist l f h) = (ilists h)(l := f (ilists h l))"
  by (simp_all add: upd_ilist_def)

lemma il_slot_simps [simp]: "il_slot l [] = IFirst l" "il_slot l (ns @ [n]) = ILink n"
  by (simp_all add: il_slot_def)

interpretation links: node_chain link 0 ipath
  by unfold_locales simp_all

lemmas ipath_transfer = links.transfer
lemmas ipath_extend = links.extend

lemma link_in_list_rep:
  assumes "il_rep h l ns" "element \<noteq> 0" "element \<notin> set ns"
  shows "il_rep (link_in_list element (ILink element) l h) l (ns @ [element])"
proof -
  let ?h = "link_in_list element (ILink element) l h"
  have p: "ipath h (il_first (ilists h l)) ns" and d: "distinct (ns @ [element])" and
    r: "il_next (ilists h l) = il_slot l ns" "il_elements (ilists h l) = of_nat (length ns)"
    using assms by (auto simp: il_rep_def)
  show ?thesis
  proof (cases "ns = []")
    case True
    with r assms(2) show ?thesis by (simp add: link_in_list_def Let_def il_rep_def il_slot_def)
  next
    case False
    then have lk: "link ?h = (link h)(last ns := element, element := 0)" and
      ls: "ilists ?h l = ilists h l\<lparr>il_elements := of_nat (length ns) + 1, il_next := ILink element\<rparr>"
      using r by (simp_all add: link_in_list_def Let_def il_slot_def)
    have ne: "last ns \<noteq> element" using last_in_set [OF False] assms(3) by auto
    have "ipath ?h (il_first (ilists h l)) (ns @ [element])"
      by (rule ipath_extend [OF p False d, of ?h element]) (use assms ne in \<open>auto simp: lk\<close>)
    then show ?thesis using d unfolding il_rep_def ls by simp
  qed
qed

lemma il_push_back_rep:
  assumes "il_rep h l ns" "il_rep h k ms" "l \<noteq> k" "set ns \<inter> set ms = {}"
  shows "il_rep (il_push_back k l h) l (ns @ ms)"
proof -
  let ?h = "il_push_back k l h"
  have pn: "ipath h (il_first (ilists h l)) ns" and pm: "ipath h (il_first (ilists h k)) ms" and d: "distinct (ns @ ms)" and
    r: "il_next (ilists h l) = il_slot l ns" "il_elements (ilists h l) = of_nat (length ns)"
      "il_next (ilists h k) = il_slot k ms" "il_elements (ilists h k) = of_nat (length ms)"
    using assms by (auto simp: il_rep_def)
  have e: "il_first (ilists h k) \<noteq> 0 \<longleftrightarrow> ms \<noteq> []" using pm by (cases ms) auto
  consider "ms = []" | "ms \<noteq> []" "ns = []" | "ms \<noteq> []" "ns \<noteq> []" by blast
  then show ?thesis
  proof cases
    case 1
    then show ?thesis using assms(1) e by (simp add: il_push_back_def)
  next
    case 2
    then have lk: "link ?h = link h" and
      ls: "ilists ?h l = \<lparr>il_elements = of_nat (length ms), il_first = il_first (ilists h k), il_next = il_slot l ms\<rparr>"
      using r e assms(3) by (simp_all add: il_push_back_def Let_def il_slot_def)
    have "ipath ?h (il_first (ilists h k)) ms" by (rule ipath_transfer [OF pm]) (simp add: lk)
    then show ?thesis using 2 d unfolding il_rep_def ls by simp
  next
    case 3
    then have lk: "link ?h = (link h)(last ns := il_first (ilists h k))" and
      ls: "ilists ?h l = ilists h l\<lparr>il_next := il_slot l (ns @ ms), il_elements := of_nat (length (ns @ ms))\<rparr>"
      using r e assms(3) by (simp_all add: il_push_back_def Let_def il_slot_def)
    have out: "last ns \<notin> set ms" using last_in_set [OF 3(2)] d by auto
    have "ipath ?h (il_first (ilists h k)) ms" by (rule ipath_transfer [OF pm]) (use out in \<open>auto simp: lk\<close>)
    then have "ipath ?h (il_first (ilists h l)) (ns @ ms)"
      by (intro ipath_extend [OF pn 3(2) d, of ?h "il_first (ilists h k)"]) (auto simp: lk)
    then show ?thesis using d unfolding il_rep_def ls by simp
  qed
qed

text \<open>
  Adding a list in front of an empty one leaves \<open>next\<close> at the field \<open>first\<close>: the next element
  linked in takes the place of everything that was added.
\<close>

lemma push_front_empty_loses:
  assumes "il_rep h l []" "il_rep h k ms" "ms \<noteq> []" "l \<noteq> k" "element \<noteq> 0"
  shows "il_first (ilists (il_push_front k l h) l) = hd ms \<and>
    il_first (ilists (link_in_list element (ILink element) l (il_push_front k l h)) l) = element"
  using assms by (cases ms) (auto simp: il_rep_def il_push_front_def link_in_list_def Let_def il_slot_def)

section \<open>The elements of a base_ilist\<close>

text \<open>
  A segment from slot \<open>p\<close>, which holds \<open>a\<close>, through the elements \<open>ns\<close> to slot \<open>q\<close>, which holds
  \<open>b\<close>: every element knows the slot that points to it.
\<close>

fun dseg :: "dheap \<Rightarrow> pslot \<Rightarrow> ilink \<Rightarrow> nat list \<Rightarrow> pslot \<Rightarrow> ilink \<Rightarrow> bool" where
  "dseg h p a [] q b \<longleftrightarrow> p = q \<and> a = b"
| "dseg h p a (n # ns) q b \<longleftrightarrow> a = Elem n \<and> dprev h a = p \<and> dseg h (PNext a) (dnext h a) ns q b"

definition dslot :: "nat \<Rightarrow> nat list \<Rightarrow> pslot" where
  "dslot l ns = (if ns = [] then PFirst l else PNext (Elem (last ns)))"

definition dl_rep :: "dheap \<Rightarrow> nat \<Rightarrow> nat list \<Rightarrow> bool" where
  "dl_rep h l ns \<longleftrightarrow> dseg h (PFirst l) (dfirst h l) ns (dslot l ns) (Last l) \<and> dprev h (Last l) = dslot l ns \<and> distinct ns"

lemma set_prev_simps [simp]:
  "dprev (set_prev n p h) = (dprev h)(n := p)" "dnext (set_prev n p h) = dnext h" "dfirst (set_prev n p h) = dfirst h"
  by (simp_all add: set_prev_def)

lemma set_next_simps [simp]:
  "dnext (set_next n m h) = (dnext h)(n := m)" "dprev (set_next n m h) = dprev h" "dfirst (set_next n m h) = dfirst h"
  by (simp_all add: set_next_def)

lemma dseg_append: "dseg h p a (ns @ ms) q b \<longleftrightarrow> (\<exists>p' a'. dseg h p a ns p' a' \<and> dseg h p' a' ms q b)"
  by (induction ns arbitrary: p a) auto

lemma dseg_slot: "dseg h (PFirst l) a ns q b \<Longrightarrow> q = dslot l ns"
proof -
  have "dseg h p a ns q b \<Longrightarrow> ns \<noteq> [] \<Longrightarrow> q = PNext (Elem (last ns))" for p
  proof (induction ns arbitrary: p a)
    case (Cons n ns)
    then show ?case by (cases ns) auto
  qed simp
  then show "dseg h (PFirst l) a ns q b \<Longrightarrow> q = dslot l ns" by (cases "ns = []") (auto simp: dslot_def)
qed

lemma dseg_transfer:
  assumes "dseg h p a ns q b" "\<And>n. n \<in> set ns \<Longrightarrow> dprev h' (Elem n) = dprev h (Elem n) \<and> dnext h' (Elem n) = dnext h (Elem n)"
  shows "dseg h' p a ns q b"
  using assms by (induction ns arbitrary: p a) auto

text \<open>Redirecting the last link of a segment, and the back pointer of its first element.\<close>

lemma dseg_out:
  assumes "dseg h p a ns q b" "ns \<noteq> []" "distinct ns" "\<And>n. n \<in> set ns \<Longrightarrow> dprev h' (Elem n) = dprev h (Elem n)"
    and "\<And>n. n \<in> set ns \<Longrightarrow> n \<noteq> last ns \<Longrightarrow> dnext h' (Elem n) = dnext h (Elem n)" "dnext h' (Elem (last ns)) = c"
  shows "dseg h' p a ns q c"
  using assms
proof (induction ns arbitrary: p a)
  case (Cons n ns)
  show ?case
  proof (cases "ns = []")
    case False
    then have "n \<noteq> last ns" using Cons.prems(3) last_in_set [of ns] by auto
    then show ?thesis using Cons.IH [of "PNext (Elem n)" "dnext h (Elem n)"] Cons.prems False by auto
  qed (use Cons.prems in auto)
qed simp

lemma dl_rep_emptyI: "dl_rep (dl_empty l h) l []"
  by (simp add: dl_rep_def dl_empty_def dslot_def)

lemma dl_is_empty_iff: "dl_rep h l ns \<Longrightarrow> dl_is_empty l h \<longleftrightarrow> ns = []"
  by (cases ns) (auto simp: dl_rep_def dl_is_empty_def)

lemma dl_append_rep:
  assumes "dl_rep h l ns" "a \<notin> set ns"
  shows "dl_rep (dl_append (Elem a) l h) l (a # ns)"
proof -
  let ?h = "dl_append (Elem a) l h"
  have d: "distinct ns" and la: "dprev h (Last l) = dslot l ns" and
    sg: "dseg h (PFirst l) (dfirst h l) ns (dslot l ns) (Last l)"
    using assms(1) by (auto simp: dl_rep_def)
  have hp: "dprev ?h = (dprev h)(dfirst h l := PNext (Elem a), Elem a := PFirst l)"
    "dnext ?h = (dnext h)(Elem a := dfirst h l)" "dfirst ?h = (dfirst h)(l := Elem a)"
    by (simp_all add: dl_append_def Let_def)
  have "dseg ?h (PNext (Elem a)) (dfirst h l) ns (dslot l (a # ns)) (Last l)"
  proof (cases ns)
    case Nil
    then show ?thesis using sg by (simp add: dslot_def)
  next
    case (Cons n ms)
    then have n: "dfirst h l = Elem n" "n \<noteq> a" "n \<notin> set ms" using sg assms(2) d by auto
    have sm: "dseg h (PNext (Elem n)) (dnext h (Elem n)) ms (dslot l (a # ns)) (Last l)"
      using sg Cons n by (auto simp: dslot_def)
    have "dseg ?h (PNext (Elem n)) (dnext h (Elem n)) ms (dslot l (a # ns)) (Last l)"
      by (rule dseg_transfer [OF sm]) (use n assms(2) Cons in \<open>auto simp: hp\<close>)
    then show ?thesis using Cons n by (simp add: hp)
  qed
  moreover have "dprev ?h (Last l) = dslot l (a # ns)"
    using la sg by (cases ns) (auto simp: hp dslot_def)
  ultimately show ?thesis using assms(2) d by (simp add: dl_rep_def hp)
qed

lemma dl_push_back_rep:
  assumes "dl_rep h l ns" "a \<notin> set ns"
  shows "dl_rep (dl_push_back (Elem a) l h) l (ns @ [a])"
proof -
  let ?h = "dl_push_back (Elem a) l h"
  have d: "distinct ns" and la: "dprev h (Last l) = dslot l ns" and
    sg: "dseg h (PFirst l) (dfirst h l) ns (dslot l ns) (Last l)"
    using assms(1) by (auto simp: dl_rep_def)
  have pv: "dprev ?h = (dprev h)(Elem a := dslot l ns, Last l := PNext (Elem a))"
    using la by (cases ns) (auto simp: dl_push_back_def Let_def dslot_def)
  have "dseg ?h (PFirst l) (dfirst ?h l) ns (dslot l ns) (Elem a) \<and> dnext ?h (Elem a) = Last l"
  proof (cases "ns = []")
    case True
    then show ?thesis using la by (simp add: dl_push_back_def Let_def dslot_def)
  next
    case False
    then have nx: "dnext ?h = (dnext h)(Elem (last ns) := Elem a, Elem a := Last l)" and fi: "dfirst ?h = dfirst h"
      using la by (simp_all add: dl_push_back_def Let_def dslot_def)
    have ne: "last ns \<noteq> a" using last_in_set [OF False] assms(2) by auto
    have "dseg ?h (PFirst l) (dfirst h l) ns (dslot l ns) (Elem a)"
    proof (rule dseg_out [OF sg False d])
      show "dnext ?h (Elem (last ns)) = Elem a" using ne by (simp add: nx)
    qed (use assms(2) in \<open>auto simp: pv nx\<close>)
    then show ?thesis by (simp add: nx fi)
  qed
  then show ?thesis using assms(2) d by (auto simp: dl_rep_def dseg_append dslot_def pv)
qed

text \<open>An element that knows its slot can be taken out without knowing the list.\<close>

lemma unlink_rep:
  assumes "dl_rep h l (ns @ n # ms)"
  shows "dl_rep (unlink (Elem n) h) l (ns @ ms) \<and> dprev (unlink (Elem n) h) (Elem n) = PNull \<and>
    dnext (unlink (Elem n) h) (Elem n) = Null"
proof -
  let ?h = "unlink (Elem n) h" and ?q = "dslot l (ns @ n # ms)"
  have d: "distinct (ns @ n # ms)" and la: "dprev h (Last l) = ?q" and
    sg: "dseg h (PFirst l) (dfirst h l) (ns @ n # ms) ?q (Last l)"
    using assms by (auto simp: dl_rep_def)
  obtain p a where s1: "dseg h (PFirst l) (dfirst h l) ns p a" and s2: "dseg h p a (n # ms) ?q (Last l)"
    using sg unfolding dseg_append by blast
  have p: "p = dslot l ns" by (rule dseg_slot [OF s1])
  have a: "a = Elem n" "dprev h (Elem n) = dslot l ns" and sm: "dseg h (PNext (Elem n)) (dnext h (Elem n)) ms ?q (Last l)"
    using s2 p by auto
  define x where "x = dnext h (Elem n)"
  have x: "x = (if ms = [] then Last l else Elem (hd ms))" using sm by (cases ms) (auto simp: x_def)
  then have xn: "x \<noteq> Null" "x \<noteq> Elem n" using d by (cases ms; auto)+
  have nx: "dnext ?h (Elem k) = (if k = n then Null else if ns \<noteq> [] \<and> k = last ns then x else dnext h (Elem k))" for k
    using a(2) xn last_in_set [of ns] d by (auto simp: unlink_def Let_def dslot_def x_def [symmetric])
  have pv: "dprev ?h = (dprev h)(x := dslot l ns, Elem n := PNull)"
    using a(2) xn by (auto simp: unlink_def Let_def dslot_def x_def [symmetric])
  have fi: "dfirst ?h l = (if ns = [] then x else dfirst h l)"
    using a(2) xn by (auto simp: unlink_def Let_def dslot_def x_def [symmetric])
  have h1: "dseg ?h (PFirst l) (dfirst ?h l) ns (dslot l ns) x"
  proof (cases "ns = []")
    case True
    then show ?thesis by (simp add: dslot_def fi)
  next
    case False
    have ne: "n \<noteq> last ns" using last_in_set [OF False] d by auto
    have "dseg ?h (PFirst l) (dfirst h l) ns (dslot l ns) x"
    proof (rule dseg_out [OF s1 [unfolded p] False])
      show "dnext ?h (Elem (last ns)) = x" using ne False by (auto simp: nx)
      show "dprev ?h (Elem k) = dprev h (Elem k)" if "k \<in> set ns" for k
        using that d x by (cases ms) (auto simp: pv)
      show "dnext ?h (Elem k) = dnext h (Elem k)" if "k \<in> set ns" "k \<noteq> last ns" for k
        using that d by (auto simp: nx)
    qed (use d in auto)
    then show ?thesis by (simp add: fi False)
  qed
  have h2: "dseg ?h (dslot l ns) x ms (dslot l (ns @ ms)) (Last l) \<and> dprev ?h (Last l) = dslot l (ns @ ms)"
  proof (cases ms)
    case Nil
    then show ?thesis using x by (simp add: pv)
  next
    case (Cons m ks)
    then have xm: "x = Elem m" "m \<noteq> n" "ns = [] \<or> m \<noteq> last ns" using x d last_in_set [of ns] by auto
    have sk: "dseg h (PNext (Elem m)) (dnext h (Elem m)) ks ?q (Last l)" using sm Cons xm(1) x_def by auto
    have "dseg ?h (PNext (Elem m)) (dnext h (Elem m)) ks ?q (Last l)"
    proof (rule dseg_transfer [OF sk])
      fix k
      assume "k \<in> set ks"
      then have "k \<noteq> n" "k \<noteq> m" "k \<notin> set ns" using d Cons by auto
      moreover then have "ns = [] \<or> k \<noteq> last ns" by auto
      ultimately show "dprev ?h (Elem k) = dprev h (Elem k) \<and> dnext ?h (Elem k) = dnext h (Elem k)" using xm by (auto simp: pv nx)
    qed
    moreover have "?q = dslot l (ns @ ms)" using Cons by (simp add: dslot_def)
    ultimately show ?thesis using Cons xm la by (auto simp: pv nx)
  qed
  have "dl_rep ?h l (ns @ ms)" using h1 h2 d by (auto simp: dl_rep_def dseg_append)
  then show ?thesis by (simp add: pv nx)
qed

lemma dl_get_rep:
  assumes "dl_rep h l (n # ns)"
  shows "dl_get l h = (Elem n, unlink (Elem n) h)"
  using assms by (simp add: dl_get_def dl_rep_def Let_def)

lemma dl_get_empty: "dl_rep h l [] \<Longrightarrow> dl_get l h = (Null, h)"
  by (simp add: dl_get_def dl_rep_def Let_def)

text \<open>An iterator that has returned the elements before \<open>ns\<close> returns the next one.\<close>

lemma dit_next_rep:
  assumes "dl_rep h l (ms @ ns)" "dit_list it = l" "dit_el it = dslot l ms"
  shows "fst (dit_next h it) = (case ns of [] \<Rightarrow> Null | n # _ \<Rightarrow> Elem n) \<and>
    (ns \<noteq> [] \<longrightarrow> dit_el (snd (dit_next h it)) = dslot l (ms @ [hd ns])) \<and> dit_list (snd (dit_next h it)) = l"
proof -
  obtain p a where s1: "dseg h (PFirst l) (dfirst h l) ms p a" and s2: "dseg h p a ns (dslot l (ms @ ns)) (Last l)"
    using assms(1) unfolding dl_rep_def dseg_append by blast
  have "pslot_get h (dslot l ms) = a"
  proof (cases ms rule: rev_cases)
    case Nil
    then show ?thesis using s1 by (auto simp: dslot_def)
  next
    case (snoc ks k)
    then show ?thesis using s1 by (auto simp: dseg_append dslot_def)
  qed
  then show ?thesis using assms(2,3) s2 by (cases ns) (auto simp: dit_next_def Let_def dslot_def)
qed

text \<open>
  Moving the elements to a new owner copies the end link but leaves the links that point to the
  old list object: the new owner is not a list of the elements, not even of none.
\<close>

lemma move_elements_to_broken:
  assumes "dl_rep h l ns" "l \<noteq> k"
  shows "\<not> dl_rep (move_elements_to k l h) k ns"
proof (cases ns)
  case Nil
  then show ?thesis using assms by (simp add: dl_rep_def move_elements_to_def dl_empty_def Let_def)
next
  case (Cons n ms)
  have "dfirst (move_elements_to k l h) k = dfirst h l" "dprev (move_elements_to k l h) (Elem n) = dprev h (Elem n)"
    using assms(2) by (simp_all add: move_elements_to_def dl_empty_def Let_def)
  then show ?thesis using Cons assms by (auto simp: dl_rep_def)
qed

section \<open>Property\<close>

text \<open>
  In the doubly linked intrusive list every element knows the slot that points to it: adding
  at the front and at the back, taking the first element and taking any element out of the middle
  keep that so, and walking the list returns the elements in order, then null.
\<close>

theorem intrusive_list_links:
  assumes "dl_rep h l (ns @ n # ms)" "a \<notin> set (ns @ n # ms)"
  shows "dl_rep (dl_append (Elem a) l h) l (a # ns @ n # ms) \<and>
    dl_rep (dl_push_back (Elem a) l h) l (ns @ n # ms @ [a]) \<and>
    dl_rep (unlink (Elem n) h) l (ns @ ms) \<and> dl_rep (ilink_init (Elem a) h) l (ns @ n # ms) \<and>
    fst (dl_get l h) = Elem (hd (ns @ [n])) \<and> dl_rep (snd (dl_get l h)) l (tl (ns @ n # ms)) \<and>
    fst (dit_next h \<lparr>dit_list = l, dit_el = dslot l ns, dit_current = c\<rparr>) = Elem n"
proof -
  define k ks where "k = hd (ns @ n # ms)" and "ks = tl (ns @ n # ms)"
  then have k: "ns @ n # ms = k # ks" and hd: "k = hd (ns @ [n])" by (cases ns; simp)+
  have "dl_rep h l (k # ks)" using assms(1) unfolding k .
  then have "dl_get l h = (Elem k, unlink (Elem k) h)" "dl_rep (unlink (Elem k) h) l ks"
    using dl_get_rep unlink_rep [of h l "[]" k ks] by auto
  then have g: "fst (dl_get l h) = Elem (hd (ns @ [n])) \<and> dl_rep (snd (dl_get l h)) l (tl (ns @ n # ms))"
    by (simp add: hd ks_def)
  have sg: "dseg h (PFirst l) (dfirst h l) (ns @ n # ms) (dslot l (ns @ n # ms)) (Last l)" using assms(1) by (simp add: dl_rep_def)
  have "dseg (ilink_init (Elem a) h) (PFirst l) (dfirst h l) (ns @ n # ms) (dslot l (ns @ n # ms)) (Last l)"
    by (rule dseg_transfer [OF sg]) (use assms(2) in \<open>auto simp: ilink_init_def\<close>)
  then have "dl_rep (ilink_init (Elem a) h) l (ns @ n # ms)"
    using assms(1) by (simp add: dl_rep_def) (simp add: ilink_init_def)
  then show ?thesis
    using dl_append_rep [OF assms] dl_push_back_rep [OF assms] unlink_rep [OF assms(1)] g
      dit_next_rep [of h l ns "n # ms" "\<lparr>dit_list = l, dit_el = dslot l ns, dit_current = c\<rparr>"] assms(1)
    by simp
qed

theorem intrusive_list_links_witness:
  "dl_rep (unlink (Elem 2) (dl_push_back (Elem 3) 0 (dl_push_back (Elem 2) 0 (dl_push_back (Elem 1) 0
     (dl_empty 0 \<lparr>dprev = (\<lambda>_. PNull), dnext = (\<lambda>_. Null), dfirst = (\<lambda>_. Null)\<rparr>))))) 0 [1, 3]"
proof -
  let ?h = "\<lambda>h. dl_push_back (Elem 3) 0 (dl_push_back (Elem 2) 0 (dl_push_back (Elem 1) 0 (dl_empty 0 h)))"
  have "dl_rep (?h h) 0 ([1] @ 2 # [3])" for h
    by (simp add: dl_rep_def dl_push_back_def dl_empty_def Let_def dslot_def)
  then show ?thesis using intrusive_list_links [of _ 0 "[1]" 2 "[3]" 4] by simp
qed

end
