(* ===== verification/Sql_Plist.thy ===== *)
theory Sql_Plist
  imports My_Bit
begin

text \<open>
  The intrusive parameterised list of \<open>sql_plist.h\<close>: elements know the slot that points to them, so
  that any of them can be unlinked without a search. How elements are counted and whether
  \<open>push_back\<close> is supported are policies of the list type.
\<close>

section \<open>Policies, lists and slots\<close>

datatype counting = I_P_List_null_counter | I_P_List_counter
datatype insertion = I_P_List_no_push_back | I_P_List_fast_push_back

text \<open>A slot is the field \<open>m_first\<close> of a list or the next field that the adapter selects in an element;
  0 is the null pointer.\<close>

datatype plslot = First_of nat | Next_of nat

record I_P_List =
  m_first :: nat
  m_counter :: uint
  m_last :: plslot

record plheap =
  next_field :: "nat \<Rightarrow> nat"
  prev_field :: "nat \<Rightarrow> plslot"
  plists :: "nat \<Rightarrow> I_P_List"

fun plslot_get :: "plheap \<Rightarrow> plslot \<Rightarrow> nat" where
  "plslot_get h (First_of l) = m_first (plists h l)"
| "plslot_get h (Next_of n) = next_field h n"

fun plslot_set :: "plslot \<Rightarrow> nat \<Rightarrow> plheap \<Rightarrow> plheap" where
  "plslot_set (First_of l) v h = h\<lparr>plists := (plists h)(l := plists h l\<lparr>m_first := v\<rparr>)\<rparr>"
| "plslot_set (Next_of n) v h = h\<lparr>next_field := (next_field h)(n := v)\<rparr>"

definition set_prev_field :: "nat \<Rightarrow> plslot \<Rightarrow> plheap \<Rightarrow> plheap" where
  "set_prev_field n p h = h\<lparr>prev_field := (prev_field h)(n := p)\<rparr>"

definition upd_plist :: "nat \<Rightarrow> (I_P_List \<Rightarrow> I_P_List) \<Rightarrow> plheap \<Rightarrow> plheap" where
  "upd_plist l f h = h\<lparr>plists := (plists h)(l := f (plists h l))\<rparr>"

fun counter_reset :: "counting \<Rightarrow> nat \<Rightarrow> plheap \<Rightarrow> plheap" where
  "counter_reset I_P_List_null_counter l h = h"
| "counter_reset I_P_List_counter l h = upd_plist l (\<lambda>p. p\<lparr>m_counter := 0\<rparr>) h"

fun counter_inc :: "counting \<Rightarrow> nat \<Rightarrow> plheap \<Rightarrow> plheap" where
  "counter_inc I_P_List_null_counter l h = h"
| "counter_inc I_P_List_counter l h = upd_plist l (\<lambda>p. p\<lparr>m_counter := m_counter p + 1\<rparr>) h"

fun counter_dec :: "counting \<Rightarrow> nat \<Rightarrow> plheap \<Rightarrow> plheap" where
  "counter_dec I_P_List_null_counter l h = h"
| "counter_dec I_P_List_counter l h = upd_plist l (\<lambda>p. p\<lparr>m_counter := m_counter p - 1\<rparr>) h"

fun counter_swap :: "counting \<Rightarrow> nat \<Rightarrow> nat \<Rightarrow> plheap \<Rightarrow> plheap" where
  "counter_swap I_P_List_null_counter l r h = h"
| "counter_swap I_P_List_counter l r h =
     upd_plist r (\<lambda>p. p\<lparr>m_counter := m_counter (plists h l)\<rparr>)
       (upd_plist l (\<lambda>p. p\<lparr>m_counter := m_counter (plists h r)\<rparr>) h)"

definition plist_elements :: "nat \<Rightarrow> plheap \<Rightarrow> uint" where
  "plist_elements l h = m_counter (plists h l)"

fun set_last :: "insertion \<Rightarrow> nat \<Rightarrow> plslot \<Rightarrow> plheap \<Rightarrow> plheap" where
  "set_last I_P_List_no_push_back l a h = h"
| "set_last I_P_List_fast_push_back l a h = upd_plist l (\<lambda>p. p\<lparr>m_last := a\<rparr>) h"

definition get_last :: "nat \<Rightarrow> plheap \<Rightarrow> plslot" where
  "get_last l h = m_last (plists h l)"

fun last_swap :: "insertion \<Rightarrow> nat \<Rightarrow> nat \<Rightarrow> plheap \<Rightarrow> plheap" where
  "last_swap I_P_List_no_push_back l r h = h"
| "last_swap I_P_List_fast_push_back l r h =
     upd_plist r (\<lambda>p. p\<lparr>m_last := m_last (plists h l)\<rparr>)
       (upd_plist l (\<lambda>p. p\<lparr>m_last := m_last (plists h r)\<rparr>) h)"

section \<open>Operations\<close>

definition plist_init :: "counting \<Rightarrow> insertion \<Rightarrow> nat \<Rightarrow> plheap \<Rightarrow> plheap" where
  "plist_init C I l h =
     plslot_set (First_of l) 0 (set_last I l (First_of l) (counter_reset C l h))"

definition plist_empty :: "counting \<Rightarrow> insertion \<Rightarrow> nat \<Rightarrow> plheap \<Rightarrow> plheap" where
  "plist_empty C I l h =
     (let h = plslot_set (First_of l) 0 h;
          h = counter_reset C l h
      in set_last I l (First_of l) h)"

definition plist_is_empty :: "nat \<Rightarrow> plheap \<Rightarrow> bool" where
  "plist_is_empty l h \<longleftrightarrow> m_first (plists h l) = 0"

definition plist_push_front :: "counting \<Rightarrow> insertion \<Rightarrow> nat \<Rightarrow> nat \<Rightarrow> plheap \<Rightarrow> plheap" where
  "plist_push_front C I a l h =
     (let h = plslot_set (Next_of a) (m_first (plists h l)) h;
          h = (if m_first (plists h l) \<noteq> 0 then set_prev_field (m_first (plists h l)) (Next_of a) h
               else set_last I l (Next_of a) h);
          h = plslot_set (First_of l) a h;
          h = set_prev_field a (First_of l) h
      in counter_inc C l h)"

definition plist_push_back :: "counting \<Rightarrow> nat \<Rightarrow> nat \<Rightarrow> plheap \<Rightarrow> plheap" where
  "plist_push_back C a l h =
     (let last = get_last l h;
          h = plslot_set (Next_of a) (plslot_get h last) h;
          h = plslot_set last a h;
          h = set_prev_field a last h;
          h = set_last I_P_List_fast_push_back l (Next_of a) h
      in counter_inc C l h)"

definition plist_insert_after :: "counting \<Rightarrow> insertion \<Rightarrow> nat \<Rightarrow> nat \<Rightarrow> nat \<Rightarrow> plheap \<Rightarrow> plheap" where
  "plist_insert_after C I pos a l h =
     (if pos = 0 then plist_push_front C I a l h
      else
        let h = plslot_set (Next_of a) (next_field h pos) h;
            h = set_prev_field a (Next_of pos) h;
            h = plslot_set (Next_of pos) a h;
            h = (if next_field h a \<noteq> 0 then set_prev_field (next_field h a) (Next_of a) h
                 else set_last I l (Next_of a) h)
        in counter_inc C l h)"

definition plist_remove :: "counting \<Rightarrow> insertion \<Rightarrow> nat \<Rightarrow> nat \<Rightarrow> plheap \<Rightarrow> plheap" where
  "plist_remove C I a l h =
     (let nxt = next_field h a;
          h = (if nxt \<noteq> 0 then set_prev_field nxt (prev_field h a) h else set_last I l (prev_field h a) h);
          h = plslot_set (prev_field h a) nxt h
      in counter_dec C l h)"

definition plist_front :: "nat \<Rightarrow> plheap \<Rightarrow> nat" where
  "plist_front l h = m_first (plists h l)"

definition plist_pop_front :: "counting \<Rightarrow> insertion \<Rightarrow> nat \<Rightarrow> plheap \<Rightarrow> nat \<times> plheap" where
  "plist_pop_front C I l h =
     (let result = plist_front l h
      in (result, if result \<noteq> 0 then plist_remove C I result l h else h))"

text \<open>The last branch calls \<open>I::set_last\<close> on this list, not on \<open>rhs\<close>. Its parameter has the insertion
  policy that keeps no last slot, so only that instance compiles.\<close>

definition plist_swap :: "counting \<Rightarrow> insertion \<Rightarrow> nat \<Rightarrow> nat \<Rightarrow> plheap \<Rightarrow> plheap" where
  "plist_swap C I l rhs h =
     (let h = plslot_set (First_of rhs) (m_first (plists h l)) (plslot_set (First_of l) (m_first (plists h rhs)) h);
          h = last_swap I l rhs h;
          h = (if m_first (plists h l) \<noteq> 0 then set_prev_field (m_first (plists h l)) (First_of l) h
               else set_last I l (First_of l) h);
          h = (if m_first (plists h rhs) \<noteq> 0 then set_prev_field (m_first (plists h rhs)) (First_of rhs) h
               else set_last I l (First_of rhs) h)
      in counter_swap C l rhs h)"

section \<open>Iterators\<close>

record I_P_List_iterator =
  pit_list :: nat
  pit_current :: nat

definition pit_init :: "nat \<Rightarrow> plheap \<Rightarrow> I_P_List_iterator" where
  "pit_init l h = \<lparr>pit_list = l, pit_current = m_first (plists h l)\<rparr>"

definition pit_at :: "nat \<Rightarrow> nat \<Rightarrow> I_P_List_iterator" where
  "pit_at l current = \<lparr>pit_list = l, pit_current = current\<rparr>"

text \<open>\<open>it++\<close> and \<open>++it\<close>; the second reads the next field of a null pointer at the end of the list.\<close>

definition pit_postfix :: "plheap \<Rightarrow> I_P_List_iterator \<Rightarrow> nat \<times> I_P_List_iterator" where
  "pit_postfix h it =
     (let result = pit_current it
      in (result, if result \<noteq> 0 then it\<lparr>pit_current := next_field h (pit_current it)\<rparr> else it))"

definition pit_prefix :: "plheap \<Rightarrow> I_P_List_iterator \<Rightarrow> (nat \<times> I_P_List_iterator) option" where
  "pit_prefix h it =
     (if pit_current it = 0 then None
      else let it = it\<lparr>pit_current := next_field h (pit_current it)\<rparr> in Some (pit_current it, it))"

definition pit_rewind :: "plheap \<Rightarrow> I_P_List_iterator \<Rightarrow> I_P_List_iterator" where
  "pit_rewind h it = it\<lparr>pit_current := m_first (plists h (pit_list it))\<rparr>"

section \<open>Chains of slots\<close>

text \<open>The elements from a slot on: each is what its slot points to and knows that slot.\<close>

fun pchain :: "plheap \<Rightarrow> plslot \<Rightarrow> nat list \<Rightarrow> bool" where
  "pchain h p [] \<longleftrightarrow> plslot_get h p = 0"
| "pchain h p (n # ns) \<longleftrightarrow> plslot_get h p = n \<and> n \<noteq> 0 \<and> prev_field h n = p \<and> pchain h (Next_of n) ns"

fun psegment :: "plheap \<Rightarrow> plslot \<Rightarrow> nat list \<Rightarrow> bool" where
  "psegment h p [] \<longleftrightarrow> True"
| "psegment h p (n # ns) \<longleftrightarrow> plslot_get h p = n \<and> n \<noteq> 0 \<and> prev_field h n = p \<and> psegment h (Next_of n) ns"

definition end_slot :: "plslot \<Rightarrow> nat list \<Rightarrow> plslot" where
  "end_slot p ns = (if ns = [] then p else Next_of (last ns))"

definition plist_rep :: "counting \<Rightarrow> insertion \<Rightarrow> plheap \<Rightarrow> nat \<Rightarrow> nat list \<Rightarrow> bool" where
  "plist_rep C I h l ns \<longleftrightarrow> distinct ns \<and> pchain h (First_of l) ns \<and>
     (C = I_P_List_counter \<longrightarrow> m_counter (plists h l) = of_nat (length ns)) \<and>
     (I = I_P_List_fast_push_back \<longrightarrow> m_last (plists h l) = end_slot (First_of l) ns)"

lemma end_slot_simps [simp]: "end_slot p [] = p" "end_slot p (n # ns) = end_slot (Next_of n) ns"
  by (simp_all add: end_slot_def)

lemma pchain_append: "pchain h p (xs @ ys) \<longleftrightarrow> psegment h p xs \<and> pchain h (end_slot p xs) ys"
  by (induction xs arbitrary: p) auto

section \<open>Fields after the helpers\<close>

lemma upd_plist_fields [simp]:
  "next_field (upd_plist l f h) = next_field h" "prev_field (upd_plist l f h) = prev_field h"
  "plists (upd_plist l f h) = (plists h)(l := f (plists h l))"
  by (simp_all add: upd_plist_def)

lemma set_prev_field_fields [simp]:
  "next_field (set_prev_field n p h) = next_field h" "plists (set_prev_field n p h) = plists h"
  "prev_field (set_prev_field n p h) = (prev_field h)(n := p)"
  by (simp_all add: set_prev_field_def)

lemma plslot_set_fields [simp]:
  "prev_field (plslot_set p v h) = prev_field h"
  "m_last (plists (plslot_set p v h) k) = m_last (plists h k)"
  "m_counter (plists (plslot_set p v h) k) = m_counter (plists h k)"
  by (cases p; simp)+

lemma plslot_get_set [simp]: "plslot_get (plslot_set p v h) q = (if q = p then v else plslot_get h q)"
  by (cases p; cases q) auto

lemma plslot_get_cong:
  "next_field h' = next_field h \<Longrightarrow> (\<And>l. m_first (plists h' l) = m_first (plists h l)) \<Longrightarrow> plslot_get h' q = plslot_get h q"
  by (cases q) auto

lemma set_prev_field_get [simp]: "plslot_get (set_prev_field n p h) q = plslot_get h q"
  by (rule plslot_get_cong) simp_all

lemma counter_fields [simp]:
  "next_field (counter_inc C l h) = next_field h" "prev_field (counter_inc C l h) = prev_field h"
  "m_first (plists (counter_inc C l h) k) = m_first (plists h k)" "m_last (plists (counter_inc C l h) k) = m_last (plists h k)"
  "next_field (counter_dec C l h) = next_field h" "prev_field (counter_dec C l h) = prev_field h"
  "m_first (plists (counter_dec C l h) k) = m_first (plists h k)" "m_last (plists (counter_dec C l h) k) = m_last (plists h k)"
  "next_field (counter_reset C l h) = next_field h" "prev_field (counter_reset C l h) = prev_field h"
  "m_first (plists (counter_reset C l h) k) = m_first (plists h k)" "m_last (plists (counter_reset C l h) k) = m_last (plists h k)"
  "next_field (counter_swap C l r h) = next_field h" "prev_field (counter_swap C l r h) = prev_field h"
  "m_first (plists (counter_swap C l r h) k) = m_first (plists h k)" "m_last (plists (counter_swap C l r h) k) = m_last (plists h k)"
  by (cases C; simp)+

lemma counter_value [simp]:
  "m_counter (plists (counter_inc C l h) k) =
     (if k = l \<and> C = I_P_List_counter then m_counter (plists h l) + 1 else m_counter (plists h k))"
  "m_counter (plists (counter_dec C l h) k) =
     (if k = l \<and> C = I_P_List_counter then m_counter (plists h l) - 1 else m_counter (plists h k))"
  "m_counter (plists (counter_reset C l h) k) =
     (if k = l \<and> C = I_P_List_counter then 0 else m_counter (plists h k))"
  by (cases C; simp)+

lemma counter_get [simp]:
  "plslot_get (counter_inc C l h) q = plslot_get h q" "plslot_get (counter_dec C l h) q = plslot_get h q"
  "plslot_get (counter_reset C l h) q = plslot_get h q" "plslot_get (counter_swap C l r h) q = plslot_get h q"
  by (rule plslot_get_cong; simp)+

lemma set_last_fields [simp]:
  "next_field (set_last I l a h) = next_field h" "prev_field (set_last I l a h) = prev_field h"
  "m_first (plists (set_last I l a h) k) = m_first (plists h k)"
  "m_counter (plists (set_last I l a h) k) = m_counter (plists h k)"
  "m_last (plists (set_last I l a h) k) =
     (if k = l \<and> I = I_P_List_fast_push_back then a else m_last (plists h k))"
  by (cases I; simp)+

lemma set_last_get [simp]: "plslot_get (set_last I l a h) q = plslot_get h q"
  by (rule plslot_get_cong) simp_all

lemma upd_last_get [simp]: "plslot_get (upd_plist l (m_last_update f) h) q = plslot_get h q"
  by (rule plslot_get_cong) simp_all

text \<open>From here on the fields are read and written as slots.\<close>

lemma slot_fields: "next_field h n = plslot_get h (Next_of n)" "m_first (plists h l) = plslot_get h (First_of l)"
  by simp_all

declare plslot_get.simps [simp del] plslot_set.simps [simp del] slot_fields [simp]

section \<open>Splicing\<close>

lemma psegment_frame:
  "psegment h p ns \<Longrightarrow> (ns \<noteq> [] \<Longrightarrow> plslot_get h' p = plslot_get h p) \<Longrightarrow>
   (\<And>n. n \<in> set (butlast ns) \<Longrightarrow> plslot_get h' (Next_of n) = plslot_get h (Next_of n)) \<Longrightarrow>
   (\<And>n. n \<in> set ns \<Longrightarrow> prev_field h' n = prev_field h n) \<Longrightarrow> psegment h' p ns"
proof (induction ns arbitrary: p)
  case (Cons n ns)
  have "psegment h' (Next_of n) ns"
    by (cases "ns = []") (use Cons.prems in \<open>auto intro!: Cons.IH\<close>)
  then show ?case using Cons.prems by simp
qed simp

lemma pchain_frame:
  "pchain h p ns \<Longrightarrow> plslot_get h' p = plslot_get h p \<Longrightarrow>
   (\<And>n. n \<in> set ns \<Longrightarrow> plslot_get h' (Next_of n) = plslot_get h (Next_of n) \<and> prev_field h' n = prev_field h n) \<Longrightarrow>
   pchain h' p ns"
  by (induction ns arbitrary: p) simp_all

lemma pchain_nonzero: "pchain h p ns \<Longrightarrow> 0 \<notin> set ns"
  by (induction ns arbitrary: p) auto

lemma end_slot_cases: "end_slot (First_of l) xs = (if xs = [] then First_of l else Next_of (last xs))"
  by (simp add: end_slot_def)

lemma end_slot_rest: "n \<in> set ys \<Longrightarrow> set xs \<inter> set ys = {} \<Longrightarrow> Next_of n \<noteq> end_slot (First_of l) xs"
  using last_in_set [of xs] by (auto simp: end_slot_cases disjoint_iff)

lemma splice_segment:
  assumes "psegment h (First_of l) xs" "distinct xs" "a \<notin> set xs"
    and slots: "\<And>r. r \<noteq> end_slot (First_of l) xs \<Longrightarrow> r \<noteq> Next_of a \<Longrightarrow> plslot_get h' r = plslot_get h r"
    and prevs: "\<And>n. n \<in> set xs \<Longrightarrow> prev_field h' n = prev_field h n"
  shows "psegment h' (First_of l) xs"
proof (rule psegment_frame [OF assms(1) _ _ prevs])
  show "plslot_get h' (First_of l) = plslot_get h (First_of l)" if "xs \<noteq> []"
    using that by (intro slots) (simp_all add: end_slot_cases)
  show "plslot_get h' (Next_of n) = plslot_get h (Next_of n)" if n: "n \<in> set (butlast xs)" for n
  proof (rule slots)
    obtain us u where "xs = us @ [u]" using n by (cases xs rule: rev_cases) auto
    then show "Next_of n \<noteq> end_slot (First_of l) xs" using n assms(2) by (auto simp: end_slot_cases)
    show "Next_of n \<noteq> Next_of a" using in_set_butlastD [OF n] assms(3) by auto
  qed
qed

lemma splice_in:
  assumes c: "pchain h (First_of l) (xs @ ys)" and d: "distinct (xs @ ys)" and a: "a \<notin> set (xs @ ys)" "a \<noteq> 0"
    and q: "q = end_slot (First_of l) xs" "plslot_get h' q = a" "prev_field h' a = q"
      "plslot_get h' (Next_of a) = plslot_get h q"
    and slots: "\<And>r. r \<noteq> q \<Longrightarrow> r \<noteq> Next_of a \<Longrightarrow> plslot_get h' r = plslot_get h r"
    and prevs: "\<And>n. n \<noteq> a \<Longrightarrow> n \<noteq> plslot_get h q \<Longrightarrow> prev_field h' n = prev_field h n"
      "plslot_get h q \<noteq> 0 \<Longrightarrow> prev_field h' (plslot_get h q) = Next_of a"
  shows "pchain h' (First_of l) (xs @ a # ys)"
proof -
  have cx: "psegment h (First_of l) xs" and cy: "pchain h q ys" using c by (simp_all add: pchain_append q)
  have nz: "0 \<notin> set (xs @ ys)" using pchain_nonzero [OF c] .
  have "plslot_get h q \<notin> set xs" using cy nz d by (cases ys) auto
  then have "prev_field h' n = prev_field h n" if "n \<in> set xs" for n using that a by (intro prevs(1)) auto
  then have "psegment h' (First_of l) xs"
    using slots d a by (intro splice_segment [OF cx, of a]) (auto simp: q(1))
  moreover have "pchain h' (Next_of a) ys"
  proof (cases ys)
    case (Cons y zs)
    have "pchain h (Next_of y) zs" using cy Cons by simp
    moreover have "Next_of n \<noteq> q" if "n \<in> set ys" for n
      using end_slot_rest [OF that, of xs l] d by (auto simp: q(1))
    moreover have "plslot_get h' (Next_of n) = plslot_get h (Next_of n)" if "n \<in> set ys" for n
      using calculation(2) [OF that] that a by (intro slots) auto
    moreover have "plslot_get h q = y" using cy Cons by simp
    then have "prev_field h' n = prev_field h n" if "n \<in> set zs" for n
      using that d a Cons by (intro prevs(1)) auto
    ultimately have "pchain h' (Next_of y) zs"
      unfolding Cons by - (rule pchain_frame [of h]; simp)
    then show ?thesis using cy Cons q(4) prevs(2) nz by auto
  qed (use cy q(4) in simp)
  ultimately show ?thesis using q a by (simp add: pchain_append)
qed

lemma splice_out:
  assumes c: "pchain h (First_of l) (xs @ n # ys)" and d: "distinct (xs @ n # ys)"
    and q: "plslot_get h' (prev_field h n) = plslot_get h (Next_of n)"
    and slots: "\<And>r. r \<noteq> prev_field h n \<Longrightarrow> plslot_get h' r = plslot_get h r"
    and prevs: "\<And>m. m \<noteq> next_field h n \<Longrightarrow> prev_field h' m = prev_field h m"
      "next_field h n \<noteq> 0 \<Longrightarrow> prev_field h' (next_field h n) = prev_field h n"
  shows "pchain h' (First_of l) (xs @ ys)" "prev_field h n = end_slot (First_of l) xs"
proof -
  have cx: "psegment h (First_of l) xs" and cy: "pchain h (Next_of n) ys" and
    p: "prev_field h n = end_slot (First_of l) xs" and nz: "0 \<notin> set (xs @ n # ys)"
    using c pchain_nonzero [OF c] by (auto simp: pchain_append)
  show "prev_field h n = end_slot (First_of l) xs" by (rule p)
  have "next_field h n \<notin> set xs" using cy nz d by (cases ys) auto
  then have "prev_field h' m = prev_field h m" if "m \<in> set xs" for m using that by (intro prevs(1)) auto
  then have "psegment h' (First_of l) xs"
    using slots d by (intro splice_segment [OF cx, of n]) (auto simp: p)
  moreover have "pchain h' (end_slot (First_of l) xs) ys"
  proof (cases ys)
    case (Cons y zs)
    have "pchain h (Next_of y) zs" using cy Cons by simp
    moreover have "Next_of m \<noteq> prev_field h n" if "m \<in> set ys" for m
      using end_slot_rest [OF that, of xs l] d by (auto simp: p)
    then have "plslot_get h' (Next_of m) = plslot_get h (Next_of m)" if "m \<in> set ys" for m
      using that by (intro slots) auto
    moreover have "next_field h n = y" using cy Cons by simp
    then have "prev_field h' m = prev_field h m" if "m \<in> set zs" for m
      using that d Cons by (intro prevs(1)) auto
    ultimately have "pchain h' (Next_of y) zs"
      unfolding Cons by - (rule pchain_frame [of h]; simp)
    then show ?thesis using cy Cons q prevs(2) nz by (auto simp: p)
  qed (use cy q in \<open>simp add: p\<close>)
  ultimately show "pchain h' (First_of l) (xs @ ys)" by (simp add: pchain_append)
qed

section \<open>Every operation implements one on sequences\<close>

lemma plist_repD:
  assumes "plist_rep C I h l ns"
  shows "distinct ns" "pchain h (First_of l) ns" "0 \<notin> set ns"
    "C = I_P_List_counter \<Longrightarrow> m_counter (plists h l) = of_nat (length ns)"
    "I = I_P_List_fast_push_back \<Longrightarrow> m_last (plists h l) = end_slot (First_of l) ns"
  using assms pchain_nonzero by (auto simp: plist_rep_def)

lemma end_slot_append: "end_slot p (xs @ y # ys) = end_slot (Next_of y) ys"
  by (induction xs arbitrary: p) (simp_all add: end_slot_def)

lemma plist_empty_rep: "plist_rep C I (plist_empty C I l h) l []" "plist_rep C I (plist_init C I l h) l []"
  by (simp_all add: plist_rep_def plist_empty_def plist_init_def Let_def)

lemma plist_push_front_rep:
  assumes "plist_rep C I h l ns" "a \<notin> set ns" "a \<noteq> 0"
  shows "plist_rep C I (plist_push_front C I a l h) l (a # ns)"
proof -
  let ?h = "plist_push_front C I a l h"
  note r = plist_repD [OF assms(1)]
  have first: "plslot_get h (First_of l) = (if ns = [] then 0 else hd ns)" "plslot_get h (First_of l) \<noteq> a"
    using r(2) assms(2,3) by (cases ns; auto)+
  have "pchain ?h (First_of l) ([] @ a # ns)"
    by (rule splice_in [of h l "[]" ns a "First_of l"])
      (use r assms(2,3) first(2) in \<open>auto simp: plist_push_front_def Let_def\<close>)
  then show ?thesis using r assms(2,3) first
    by (auto simp: plist_rep_def plist_push_front_def Let_def neq_Nil_conv)
qed

lemma plist_push_back_rep:
  assumes "plist_rep C I_P_List_fast_push_back h l ns" "a \<notin> set ns" "a \<noteq> 0"
  shows "plist_rep C I_P_List_fast_push_back (plist_push_back C a l h) l (ns @ [a])"
proof -
  let ?h = "plist_push_back C a l h"
  note r = plist_repD [OF assms(1)]
  have last: "get_last l h = end_slot (First_of l) ns" using r(5) by (simp add: get_last_def)
  have zero: "plslot_get h (end_slot (First_of l) ns) = 0" using r(2) pchain_append [of h "First_of l" ns "[]"] by simp
  have ne: "Next_of a \<noteq> end_slot (First_of l) ns" using assms(2) last_in_set [of ns] by (auto simp: end_slot_cases)
  have "pchain ?h (First_of l) (ns @ a # [])"
    by (rule splice_in [of h l ns "[]" a "get_last l h"])
      (use r assms(2,3) zero ne in \<open>auto simp: plist_push_back_def Let_def last\<close>)
  then show ?thesis using r assms(2,3)
    by (auto simp: plist_rep_def plist_push_back_def Let_def end_slot_append)
qed

lemma plist_insert_after_rep:
  assumes "plist_rep C I h l (xs @ pos # ys)" "a \<notin> set (xs @ pos # ys)" "a \<noteq> 0"
  shows "plist_rep C I (plist_insert_after C I pos a l h) l (xs @ pos # a # ys)"
proof -
  let ?h = "plist_insert_after C I pos a l h"
  note r = plist_repD [OF assms(1)]
  have q: "end_slot (First_of l) (xs @ [pos]) = Next_of pos" by (simp add: end_slot_def)
  have nx: "plslot_get h (Next_of pos) = (if ys = [] then 0 else hd ys)" "plslot_get h (Next_of pos) \<noteq> a"
    using r(2) assms(2,3) by (cases ys; auto simp: pchain_append)+
  have pos: "pos \<noteq> 0" "pos \<noteq> a" using r(3) assms(2) by auto
  have "pchain ?h (First_of l) ((xs @ [pos]) @ a # ys)"
    by (rule splice_in [of h l "xs @ [pos]" ys a "Next_of pos"])
      (use r assms(2,3) pos q nx(2) in \<open>auto simp: plist_insert_after_def Let_def\<close>)
  then show ?thesis using r assms(2,3) pos nx
    by (auto simp: plist_rep_def plist_insert_after_def Let_def end_slot_append neq_Nil_conv)
qed

lemma plist_remove_rep:
  assumes "plist_rep C I h l (xs @ n # ys)"
  shows "plist_rep C I (plist_remove C I n l h) l (xs @ ys)"
proof -
  let ?h = "plist_remove C I n l h"
  note r = plist_repD [OF assms]
  have nx: "plslot_get h (Next_of n) = (if ys = [] then 0 else hd ys)" and p: "prev_field h n = end_slot (First_of l) xs"
    using r(2) by (cases ys; auto simp: pchain_append)+
  have "pchain ?h (First_of l) (xs @ ys)"
    by (rule splice_out(1) [of h l xs n ys]) (use r in \<open>auto simp: plist_remove_def Let_def\<close>)
  then show ?thesis using r nx p
    by (cases ys) (auto simp: plist_rep_def plist_remove_def Let_def end_slot_append)
qed

definition first_of :: "nat list \<Rightarrow> nat" where
  "first_of ns = (case ns of [] \<Rightarrow> 0 | n # _ \<Rightarrow> n)"

lemma first_of_simps [simp]: "first_of [] = 0" "first_of (n # ns) = n"
  by (simp_all add: first_of_def)

lemma pchain_first: "pchain h p ns \<Longrightarrow> plslot_get h p = first_of ns"
  by (cases ns) auto

lemma plist_ends:
  assumes "plist_rep C I h l ns"
  shows "plist_front l h = first_of ns" "plist_is_empty l h \<longleftrightarrow> ns = []"
  using pchain_first [OF plist_repD(2) [OF assms]] plist_repD(3) [OF assms]
  by (cases ns; auto simp: plist_front_def plist_is_empty_def)+

lemma plist_pop_front_rep:
  assumes "plist_rep C I h l ns"
  shows "fst (plist_pop_front C I l h) = first_of ns" "plist_rep C I (snd (plist_pop_front C I l h)) l (tl ns)"
  using plist_ends [OF assms] plist_repD(3) [OF assms] assms plist_remove_rep [of C I h l "[]"]
  by (cases ns; auto simp: plist_pop_front_def Let_def)+

lemma next_field_first:
  assumes "plist_rep C I h l (xs @ n # ys)"
  shows "next_field h n = first_of ys"
  using plist_repD(2) [OF assms] pchain_first [of h "Next_of n" ys] by (simp add: pchain_append)

lemma pit_steps:
  assumes "plist_rep C I h l ns"
  shows "pit_init l h = pit_at l (first_of ns)" "pit_postfix h (pit_at l 0) = (0, pit_at l 0)"
    and "ns = xs @ n # ys \<Longrightarrow> pit_postfix h (pit_at l n) = (n, pit_at l (first_of ys))"
    and "ns = xs @ n # ys \<Longrightarrow> pit_prefix h (pit_at l n) = Some (first_of ys, pit_at l (first_of ys))"
  using plist_ends(1) [OF assms] next_field_first [of C I h l xs n ys] plist_repD(3) [OF assms] assms
  by (auto simp: pit_init_def pit_at_def pit_postfix_def pit_prefix_def plist_front_def Let_def simp del: slot_fields)

text \<open>Lists with other elements.\<close>

lemma plist_frame:
  assumes "plist_rep C I h k ms" "plslot_get h' (First_of k) = plslot_get h (First_of k)"
    and "\<And>n. n \<in> set ms \<Longrightarrow> plslot_get h' (Next_of n) = plslot_get h (Next_of n) \<and> prev_field h' n = prev_field h n"
    and "m_counter (plists h' k) = m_counter (plists h k)" "m_last (plists h' k) = m_last (plists h k)"
  shows "plist_rep C I h' k ms"
  using assms pchain_frame [of h "First_of k" ms h'] by (simp add: plist_rep_def)

lemma plist_prev_slot:
  assumes "plist_rep C I h l (xs @ n # ys)"
  shows "prev_field h n = end_slot (First_of l) xs"
  using plist_repD(2) [OF assms] by (simp add: pchain_append)

lemma plist_remove_other:
  assumes "plist_rep C I h l ns" "n \<in> set ns" "plist_rep C I h k ms" "k \<noteq> l" "set ms \<inter> set ns = {}"
  shows "plist_rep C I (plist_remove C I n l h) k ms"
proof -
  obtain xs ys where ns: "ns = xs @ n # ys" using split_list [OF assms(2)] by blast
  have p: "prev_field h n = end_slot (First_of l) xs" using plist_prev_slot assms(1) ns by blast
  have nx: "plslot_get h (Next_of n) = first_of ys" using next_field_first assms(1) ns by simp
  have m: "m \<noteq> first_of ys" "Next_of m \<noteq> end_slot (First_of l) xs" if "m \<in> set ms" for m
    using that assms(5) ns plist_repD(3) [OF assms(3)] end_slot_rest [OF that, of xs l] by (cases ys; auto)+
  have "First_of k \<noteq> end_slot (First_of l) xs" using assms(4) by (simp add: end_slot_cases)
  then show ?thesis
    by (intro plist_frame [OF assms(3)]) (use m p nx assms(4) in \<open>auto simp: plist_remove_def Let_def\<close>)
qed

lemma plist_push_front_other:
  assumes "plist_rep C I h l ns" "plist_rep C I h k ms" "k \<noteq> l" "set ms \<inter> set (a # ns) = {}"
  shows "plist_rep C I (plist_push_front C I a l h) k ms"
proof -
  have "plslot_get h (First_of l) = first_of ns" using pchain_first plist_repD(2) [OF assms(1)] by blast
  moreover have "m \<noteq> first_of ns" if "m \<in> set ms" for m
    using that assms(4) plist_repD(3) [OF assms(2)] by (cases ns; cases "m = 0"; auto)
  ultimately show ?thesis
    by (intro plist_frame [OF assms(2)]) (use assms(3,4) in \<open>auto simp: plist_push_front_def Let_def\<close>)
qed

lemma plist_push_back_other:
  assumes "plist_rep C I_P_List_fast_push_back h l ns" "plist_rep C I_P_List_fast_push_back h k ms" "k \<noteq> l"
    "set ms \<inter> set (a # ns) = {}"
  shows "plist_rep C I_P_List_fast_push_back (plist_push_back C a l h) k ms"
proof -
  have q: "get_last l h = end_slot (First_of l) ns" using plist_repD(5) [OF assms(1)] by (simp add: get_last_def)
  have "m \<in> set ms \<Longrightarrow> Next_of m \<noteq> end_slot (First_of l) ns" for m
    using end_slot_rest [of m ms ns l] assms(4) by auto
  moreover have "First_of k \<noteq> end_slot (First_of l) ns" using assms(3) by (simp add: end_slot_cases)
  ultimately show ?thesis
    by (intro plist_frame [OF assms(2)]) (use assms(3,4) q in \<open>auto simp: plist_push_back_def Let_def\<close>)
qed

text \<open>Swapping two lists that do not keep their last slot.\<close>

lemma pchain_move:
  assumes "pchain h p ns" "plslot_get h' q = plslot_get h p"
    and "\<And>n. n \<in> set ns \<Longrightarrow> plslot_get h' (Next_of n) = plslot_get h (Next_of n)"
    and "ns \<noteq> [] \<Longrightarrow> prev_field h' (hd ns) = q" "\<And>n. n \<in> set (tl ns) \<Longrightarrow> prev_field h' n = prev_field h n"
  shows "pchain h' q ns"
proof (cases ns)
  case (Cons n ms)
  then have "pchain h' (Next_of n) ms" using assms by (intro pchain_frame [of h "Next_of n" ms h']) auto
  then show ?thesis using Cons assms by simp
qed (use assms in simp)

lemma plist_swap_rep:
  assumes "plist_rep C I_P_List_no_push_back h l ns" "plist_rep C I_P_List_no_push_back h r ms" "l \<noteq> r"
    "set ms \<inter> set ns = {}"
  shows "plist_rep C I_P_List_no_push_back (plist_swap C I_P_List_no_push_back l r h) l ms"
    "plist_rep C I_P_List_no_push_back (plist_swap C I_P_List_no_push_back l r h) r ns"
proof -
  let ?h = "plist_swap C I_P_List_no_push_back l r h"
  note a = plist_repD [OF assms(1)] and b = plist_repD [OF assms(2)]
  have f: "plslot_get h (First_of l) = first_of ns" "plslot_get h (First_of r) = first_of ms"
    using a(2) b(2) pchain_first by blast+
  have get: "plslot_get ?h q = (if q = First_of l then first_of ms else if q = First_of r then first_of ns else plslot_get h q)" for q
    using assms(3) f by (simp add: plist_swap_def Let_def)
  have prev: "prev_field ?h = (prev_field h)(first_of ms := if ms = [] then prev_field h 0 else First_of l,
      first_of ns := if ns = [] then if ms = [] then prev_field h 0 else prev_field h 0 else First_of r)"
    using assms(3,4) f a(3) b(3) by (cases ms; cases ns) (auto simp: plist_swap_def Let_def fun_eq_iff)
  have "pchain ?h (First_of l) ms"
    by (rule pchain_move [OF b(2)]) (use f get prev b(1,3) a(3) assms(4) in \<open>cases ms; cases ns; auto\<close>)+
  moreover have "pchain ?h (First_of r) ns"
    by (rule pchain_move [OF a(2)]) (use f get prev a(1,3) b(3) assms(3,4) in \<open>cases ms; cases ns; auto\<close>)+
  moreover have "C = I_P_List_counter \<Longrightarrow> m_counter (plists ?h l) = of_nat (length ms) \<and> m_counter (plists ?h r) = of_nat (length ns)"
    using a(4) b(4) assms(3) by (simp add: plist_swap_def Let_def)
  ultimately show "plist_rep C I_P_List_no_push_back ?h l ms" "plist_rep C I_P_List_no_push_back ?h r ns"
    using a(1) b(1) by (simp_all add: plist_rep_def)
qed

text \<open>
  The body would be wrong for lists that keep their last slot: swapping a list with an empty
  \<open>this\<close> makes \<open>push_back\<close> write into the other list.
\<close>

lemma plist_swap_wrong_last:
  assumes "plist_rep C I_P_List_fast_push_back h l []" "plist_rep C I_P_List_fast_push_back h r ns" "ns \<noteq> []" "l \<noteq> r"
  shows "get_last l (plist_swap C I_P_List_fast_push_back l r h) = First_of r"
proof -
  have "plslot_get h (First_of l) = 0" "plslot_get h (First_of r) \<noteq> 0"
    using plist_repD(2,3) [OF assms(1)] plist_repD(2,3) [OF assms(2)] assms(3) by (cases ns; auto)+
  moreover have "m_last (plists (counter_swap C l r g) k) = m_last (plists g k)" for g k by simp
  ultimately show ?thesis using assms(4) by (auto simp: get_last_def plist_swap_def Let_def)
qed

section \<open>Property\<close>

text \<open>
  C27. Whenever an intrusive list holds a sequence, under every policy: \<open>push_front\<close>, \<open>push_back\<close>
  (where the list keeps its last slot), \<open>insert_after\<close>, \<open>remove\<close> of any element, \<open>pop_front\<close> and
  \<open>empty\<close> implement the operation on the sequence with the back pointers, the last slot and the
  counter; the iterator goes through it, and goes on behind an element that is removed while it is
  visited; other lists with the same policies keep their sequence.
\<close>

theorem plist_sequence:
  assumes rep: "plist_rep C I h l ns" and a: "a \<notin> set ns" "a \<noteq> 0"
  shows "plist_front l h = first_of ns \<and> (plist_is_empty l h \<longleftrightarrow> ns = []) \<and>
    (C = I_P_List_counter \<longrightarrow> plist_elements l h = of_nat (length ns)) \<and>
    plist_rep C I (plist_push_front C I a l h) l (a # ns) \<and>
    (I = I_P_List_fast_push_back \<longrightarrow> plist_rep C I (plist_push_back C a l h) l (ns @ [a])) \<and>
    (\<forall>xs n ys. ns = xs @ n # ys \<longrightarrow>
       plist_rep C I (plist_insert_after C I n a l h) l (xs @ n # a # ys) \<and>
       plist_rep C I (plist_remove C I n l h) l (xs @ ys) \<and>
       pit_postfix h (pit_at l n) = (n, pit_at l (first_of ys))) \<and>
    fst (plist_pop_front C I l h) = first_of ns \<and> plist_rep C I (snd (plist_pop_front C I l h)) l (tl ns) \<and>
    plist_rep C I (plist_empty C I l h) l [] \<and>
    pit_init l h = pit_at l (first_of ns) \<and> pit_postfix h (pit_at l 0) = (0, pit_at l 0) \<and>
    (\<forall>k ms. plist_rep C I h k ms \<and> k \<noteq> l \<and> set ms \<inter> set (a # ns) = {} \<longrightarrow>
       plist_rep C I (plist_push_front C I a l h) k ms \<and> (\<forall>n \<in> set ns. plist_rep C I (plist_remove C I n l h) k ms))"
proof -
  have "plist_rep C I (plist_push_back C a l h) l (ns @ [a])" if "I = I_P_List_fast_push_back"
    using plist_push_back_rep [of C h l ns a] rep a that by simp
  moreover have "plist_rep C I (plist_insert_after C I n a l h) l (xs @ n # a # ys) \<and>
       plist_rep C I (plist_remove C I n l h) l (xs @ ys) \<and>
       pit_postfix h (pit_at l n) = (n, pit_at l (first_of ys))" if "ns = xs @ n # ys" for xs n ys
    using plist_insert_after_rep [of C I h l xs n ys a] plist_remove_rep [of C I h l xs n ys]
      pit_steps(3) [OF rep that] rep a that by simp
  moreover have "plist_rep C I (plist_push_front C I a l h) k ms \<and> (\<forall>n \<in> set ns. plist_rep C I (plist_remove C I n l h) k ms)"
    if "plist_rep C I h k ms \<and> k \<noteq> l \<and> set ms \<inter> set (a # ns) = {}" for k ms
    using that plist_push_front_other [OF rep, of k ms a] plist_remove_other [OF rep, of _ k ms] by auto
  moreover have "C = I_P_List_counter \<Longrightarrow> plist_elements l h = of_nat (length ns)"
    using plist_repD(4) [OF rep] by (simp add: plist_elements_def)
  moreover note plist_ends [OF rep] plist_push_front_rep [OF rep a] plist_pop_front_rep [OF rep]
    plist_empty_rep(1) [of C I l h] pit_steps(1,2) [OF rep]
  ultimately show ?thesis by (intro conjI; blast)
qed

theorem plist_sequence_witness:
  "plist_rep I_P_List_counter I_P_List_fast_push_back
     (plist_push_front I_P_List_counter I_P_List_fast_push_back 5 1
       (plist_init I_P_List_counter I_P_List_fast_push_back 1
         \<lparr>next_field = id, prev_field = Next_of, plists = \<lambda>_. \<lparr>m_first = 3, m_counter = 4, m_last = First_of 9\<rparr>\<rparr>)) 1 [5]"
  using plist_sequence [OF plist_empty_rep(2), of 5 1 I_P_List_counter I_P_List_fast_push_back
      "\<lparr>next_field = id, prev_field = Next_of, plists = \<lambda>_. \<lparr>m_first = 3, m_counter = 4, m_last = First_of 9\<rparr>\<rparr>"]
  by simp

end
