(* ===== verification/Sized_Ilist.thy ===== *)
theory Sized_Ilist
  imports My_Bit
begin

text \<open>
  The intrusive lists of \<open>ilist.h\<close>: a ring of nodes through a sentinel inside the list object, whose
  iterators are pointers to nodes, and the same with a count. A node is its address; a list is the
  address of its sentinel.
\<close>

section \<open>ilist\<close>

record ring_heap =
  next_of :: "nat \<Rightarrow> nat"
  prev_of :: "nat \<Rightarrow> nat"

definition set_next_of :: "nat \<Rightarrow> nat \<Rightarrow> 'a ring_heap_scheme \<Rightarrow> 'a ring_heap_scheme" where
  "set_next_of n m h = h\<lparr>next_of := (next_of h)(n := m)\<rparr>"

definition set_prev_of :: "nat \<Rightarrow> nat \<Rightarrow> 'a ring_heap_scheme \<Rightarrow> 'a ring_heap_scheme" where
  "set_prev_of n m h = h\<lparr>prev_of := (prev_of h)(n := m)\<rparr>"

definition ilist_init :: "nat \<Rightarrow> 'a ring_heap_scheme \<Rightarrow> 'a ring_heap_scheme" where
  "ilist_init l h = set_prev_of l l (set_next_of l l h)"

definition ilist_begin :: "'a ring_heap_scheme \<Rightarrow> nat \<Rightarrow> nat" where
  "ilist_begin h l = next_of h l"

definition ilist_end :: "nat \<Rightarrow> nat" where
  "ilist_end l = l"

definition iter_incr :: "'a ring_heap_scheme \<Rightarrow> nat \<Rightarrow> nat" where
  "iter_incr h it = next_of h it"

definition iter_decr :: "'a ring_heap_scheme \<Rightarrow> nat \<Rightarrow> nat" where
  "iter_decr h it = prev_of h it"

definition ilist_front :: "'a ring_heap_scheme \<Rightarrow> nat \<Rightarrow> nat" where
  "ilist_front h l = ilist_begin h l"

definition ilist_back :: "'a ring_heap_scheme \<Rightarrow> nat \<Rightarrow> nat" where
  "ilist_back h l = iter_decr h (ilist_end l)"

definition ilist_empty :: "'a ring_heap_scheme \<Rightarrow> nat \<Rightarrow> bool" where
  "ilist_empty h l \<longleftrightarrow> next_of h l = l"

definition ilist_clear :: "nat \<Rightarrow> 'a ring_heap_scheme \<Rightarrow> 'a ring_heap_scheme" where
  "ilist_clear l h = set_prev_of l l (set_next_of l l h)"

definition ilist_insert :: "nat \<Rightarrow> nat \<Rightarrow> 'a ring_heap_scheme \<Rightarrow> nat \<times> 'a ring_heap_scheme" where
  "ilist_insert pos v h =
     (let curr = pos; prev = prev_of h pos;
          h = set_next_of prev v h;
          h = set_prev_of curr v h;
          h = set_prev_of v prev h;
          h = set_next_of v curr h
      in (v, h))"

definition ilist_erase :: "nat \<Rightarrow> 'a ring_heap_scheme \<Rightarrow> nat \<times> 'a ring_heap_scheme" where
  "ilist_erase pos h =
     (let prev = prev_of h pos; nxt = next_of h pos;
          h = set_next_of prev nxt h;
          h = set_prev_of nxt prev h
      in (nxt, h))"

definition ilist_push_back :: "nat \<Rightarrow> nat \<Rightarrow> 'a ring_heap_scheme \<Rightarrow> 'a ring_heap_scheme" where
  "ilist_push_back v l h = snd (ilist_insert (ilist_end l) v h)"

definition ilist_pop_back :: "nat \<Rightarrow> 'a ring_heap_scheme \<Rightarrow> 'a ring_heap_scheme" where
  "ilist_pop_back l h = snd (ilist_erase (ilist_end l) h)"

definition ilist_push_front :: "nat \<Rightarrow> nat \<Rightarrow> 'a ring_heap_scheme \<Rightarrow> 'a ring_heap_scheme" where
  "ilist_push_front v l h = snd (ilist_insert (ilist_begin h l) v h)"

definition ilist_pop_front :: "nat \<Rightarrow> 'a ring_heap_scheme \<Rightarrow> 'a ring_heap_scheme" where
  "ilist_pop_front l h = snd (ilist_erase (ilist_begin h l) h)"

definition ilist_remove :: "nat \<Rightarrow> 'a ring_heap_scheme \<Rightarrow> 'a ring_heap_scheme" where
  "ilist_remove v h = snd (ilist_erase v h)"

section \<open>sized_ilist\<close>

record sized_heap = ring_heap +
  size_of :: "nat \<Rightarrow> 64 word"

definition sized_init :: "nat \<Rightarrow> sized_heap \<Rightarrow> sized_heap" where
  "sized_init l h = (ilist_init l h)\<lparr>size_of := (size_of h)(l := 0)\<rparr>"

definition sized_clear :: "nat \<Rightarrow> sized_heap \<Rightarrow> sized_heap" where
  "sized_clear l h = (let h = ilist_clear l h in h\<lparr>size_of := (size_of h)(l := 0)\<rparr>)"

definition sized_insert :: "nat \<Rightarrow> nat \<Rightarrow> nat \<Rightarrow> sized_heap \<Rightarrow> nat \<times> sized_heap" where
  "sized_insert pos v l h = ilist_insert pos v (h\<lparr>size_of := (size_of h)(l := size_of h l + 1)\<rparr>)"

definition sized_erase :: "nat \<Rightarrow> nat \<Rightarrow> sized_heap \<Rightarrow> nat \<times> sized_heap" where
  "sized_erase pos l h = ilist_erase pos (h\<lparr>size_of := (size_of h)(l := size_of h l - 1)\<rparr>)"

definition sized_push_back :: "nat \<Rightarrow> nat \<Rightarrow> sized_heap \<Rightarrow> sized_heap" where
  "sized_push_back v l h = snd (sized_insert (ilist_end l) v l h)"

definition sized_pop_back :: "nat \<Rightarrow> sized_heap \<Rightarrow> sized_heap" where
  "sized_pop_back l h = snd (sized_erase (ilist_end l) l h)"

definition sized_push_front :: "nat \<Rightarrow> nat \<Rightarrow> sized_heap \<Rightarrow> sized_heap" where
  "sized_push_front v l h = snd (sized_insert (ilist_begin h l) v l h)"

definition sized_pop_front :: "nat \<Rightarrow> sized_heap \<Rightarrow> sized_heap" where
  "sized_pop_front l h = snd (sized_erase (ilist_begin h l) l h)"

definition sized_remove :: "nat \<Rightarrow> nat \<Rightarrow> sized_heap \<Rightarrow> sized_heap" where
  "sized_remove v l h = snd (sized_erase v l h)"

section \<open>Rings\<close>

fun linked :: "'a ring_heap_scheme \<Rightarrow> nat list \<Rightarrow> bool" where
  "linked h (a # b # ns) \<longleftrightarrow> next_of h a = b \<and> prev_of h b = a \<and> linked h (b # ns)"
| "linked h ns \<longleftrightarrow> True"

definition ring :: "'a ring_heap_scheme \<Rightarrow> nat \<Rightarrow> nat list \<Rightarrow> bool" where
  "ring h l ns \<longleftrightarrow> distinct (l # ns) \<and> linked h (l # ns @ [l])"

lemma linked_append: "linked h (xs @ a # ys) \<longleftrightarrow> linked h (xs @ [a]) \<and> linked h (a # ys)"
  by (induction h xs rule: linked.induct) (auto simp: neq_Nil_conv)

lemma linked_cong:
  "linked h zs \<Longrightarrow> (\<And>n. n \<in> set (butlast zs) \<Longrightarrow> next_of h' n = next_of h n) \<Longrightarrow>
   (\<And>n. n \<in> set (tl zs) \<Longrightarrow> prev_of h' n = prev_of h n) \<Longrightarrow> linked h' zs"
  by (induction h zs rule: linked.induct) auto

lemma linked_update:
  assumes "linked h zs" "butlast zs = us" "tl zs = vs"
    and "\<forall>n \<in> set us. next_of h' n = next_of h n" "\<forall>n \<in> set vs. prev_of h' n = prev_of h n"
  shows "linked h' zs"
  using linked_cong [OF assms(1)] assms(2-) by auto

lemma links_simps [simp]:
  "next_of (set_next_of n m h) = (next_of h)(n := m)" "prev_of (set_next_of n m h) = prev_of h"
  "prev_of (set_prev_of n m h) = (prev_of h)(n := m)" "next_of (set_prev_of n m h) = next_of h"
  by (simp_all add: set_next_of_def set_prev_of_def)

lemma insert_links:
  "next_of (snd (ilist_insert pos v h)) = (next_of h)(prev_of h pos := v, v := pos)"
  "prev_of (snd (ilist_insert pos v h)) = (prev_of h)(pos := v, v := prev_of h pos)"
  by (simp_all add: ilist_insert_def Let_def)

lemma erase_links:
  "next_of (snd (ilist_erase pos h)) = (next_of h)(prev_of h pos := next_of h pos)"
  "prev_of (snd (ilist_erase pos h)) = (prev_of h)(next_of h pos := prev_of h pos)"
  by (simp_all add: ilist_erase_def Let_def)

text \<open>A ring seen from a position: the node before it, the node after it, and the two arcs.\<close>

lemma ring_arcs:
  assumes "ring h l (xs @ ys)"
  obtains as p c bs where "l # xs = as @ [p]" "ys @ [l] = c # bs" "linked h (as @ [p])" "linked h (c # bs)"
    "next_of h p = c" "prev_of h c = p" "p \<notin> set as" "p \<notin> set ys" "c \<notin> set xs" "c \<notin> set bs"
proof -
  obtain as p where a: "l # xs = as @ [p]" by (metis append_butlast_last_id list.distinct(1))
  obtain c bs where b: "ys @ [l] = c # bs" by (cases ys) auto
  have d: "distinct (l # xs @ ys)" and "linked h ((l # xs) @ (ys @ [l]))" using assms by (auto simp: ring_def)
  then have "linked h (as @ p # c # bs)" unfolding a b by simp
  then have "linked h (as @ [p])" "linked h (c # bs)" "next_of h p = c" "prev_of h c = p"
    using linked_append [of h as p "c # bs"] by auto
  moreover have "distinct (l # xs)" using d by simp
  then have "p \<notin> set as" unfolding a by simp
  moreover have "p \<in> set (l # xs)" unfolding a by simp
  then have "p \<notin> set ys" using d by auto
  moreover have "c \<notin> set xs" "c \<notin> set bs" using d b by (cases ys; auto)+
  ultimately show thesis using that [OF a b] by blast
qed

lemma insert_ring:
  assumes "ring h l (xs @ ys)" "v \<notin> set (l # xs @ ys)"
  shows "ring (snd (ilist_insert (hd (ys @ [l])) v h)) l (xs @ v # ys)"
proof -
  obtain as p c bs where a: "l # xs = as @ [p]" and b: "ys @ [l] = c # bs"
    and l: "linked h (as @ [p])" "linked h (c # bs)" "next_of h p = c" "prev_of h c = p"
    and n: "p \<notin> set as" "p \<notin> set ys" "c \<notin> set xs" "c \<notin> set bs"
    using ring_arcs [OF assms(1)] .
  let ?h = "snd (ilist_insert c v h)"
  have "set (as @ [p]) \<subseteq> set (l # xs @ ys)" "set (c # bs) \<subseteq> set (l # xs @ ys)" by (auto simp flip: a b)
  then have v: "v \<noteq> p" "v \<noteq> c" "v \<notin> set as" "v \<notin> set bs" "v \<notin> set xs" "v \<notin> set ys"
    using assms(2) by auto
  have xs: "tl (as @ [p]) = xs" and ys: "butlast (c # bs) = ys" by (simp_all flip: a b)
  have "linked ?h (as @ [p])"
    by (rule linked_update [OF l(1) butlast_snoc xs]) (use v n l(4) in \<open>auto simp: insert_links\<close>)
  moreover have "linked ?h (c # bs)"
    by (rule linked_update [OF l(2) ys list.sel(3)]) (use v n l(4) in \<open>auto simp: insert_links\<close>)
  moreover have "next_of ?h p = v" "prev_of ?h v = p" "next_of ?h v = c" "prev_of ?h c = v"
    using v l(4) by (auto simp: insert_links)
  ultimately have "linked ?h (as @ p # v # c # bs)" using linked_append [of ?h as p "v # c # bs"] by simp
  moreover have "l # (xs @ v # ys) @ [l] = (l # xs) @ v # (ys @ [l])" by simp
  then have "l # (xs @ v # ys) @ [l] = as @ p # v # c # bs" unfolding a b by simp
  moreover have "distinct (l # xs @ v # ys)" using assms by (auto simp: ring_def)
  moreover have "hd (ys @ [l]) = c" unfolding b by simp
  ultimately show ?thesis unfolding ring_def by argo
qed

lemma erase_ring:
  assumes "ring h l (xs @ n # ys)"
  shows "ring (snd (ilist_erase n h)) l (xs @ ys)" "fst (ilist_erase n h) = hd (ys @ [l])"
proof -
  obtain as p c bs where a: "l # xs = as @ [p]" and b: "(n # ys) @ [l] = c # bs"
    and l: "linked h (as @ [p])" "linked h (c # bs)" "next_of h p = c" "prev_of h c = p"
    and n: "p \<notin> set as" "p \<notin> set (n # ys)" "c \<notin> set xs" "c \<notin> set bs"
    using ring_arcs [OF assms] .
  have c: "c = n" and bs: "bs = ys @ [l]" using b by simp_all
  obtain d ds where d: "ys @ [l] = d # ds" by (cases ys) auto
  have dd: "distinct (l # xs @ n # ys)" using assms by (simp add: ring_def)
  then have nd: "d \<notin> set xs" "d \<notin> set ds" "d \<noteq> n" using d by (cases ys; auto)+
  have nx: "next_of h n = d" and ld: "linked h (d # ds)" using l(2) unfolding c bs d by auto
  let ?h = "snd (ilist_erase n h)"
  have xs: "tl (as @ [p]) = xs" and ys: "butlast (d # ds) = ys" by (simp_all flip: a d)
  have "linked ?h (as @ [p])"
    by (rule linked_update [OF l(1) butlast_snoc xs]) (use n nd l(4) c nx in \<open>auto simp: erase_links\<close>)
  moreover have "linked ?h (d # ds)"
    by (rule linked_update [OF ld ys list.sel(3)]) (use n nd l(4) c nx in \<open>auto simp: erase_links\<close>)
  moreover have "next_of ?h p = d" "prev_of ?h d = p" using l(4) c nx by (auto simp: erase_links)
  ultimately have "linked ?h (as @ p # d # ds)" using linked_append [of ?h as p "d # ds"] by simp
  moreover have "l # (xs @ ys) @ [l] = (l # xs) @ (ys @ [l])" by simp
  then have "l # (xs @ ys) @ [l] = as @ p # d # ds" unfolding a d by simp
  moreover have "distinct (l # xs @ ys)" using dd by auto
  ultimately show "ring ?h l (xs @ ys)" unfolding ring_def by argo
  show "fst (ilist_erase n h) = hd (ys @ [l])" using nx unfolding d by (simp add: ilist_erase_def Let_def)
qed

text \<open>Lists with disjoint nodes do not affect each other.\<close>

lemma ring_prev_next:
  assumes "ring h l ns" "n \<in> set (l # ns)"
  shows "next_of h n \<in> set (l # ns)" "prev_of h n \<in> set (l # ns)"
proof -
  have "n \<in> set (butlast (l # ns @ [l]))" "n \<in> set (tl (l # ns @ [l]))" using assms(2) by (auto simp: butlast_append)
  moreover have "linked h zs \<Longrightarrow> n \<in> set (butlast zs) \<Longrightarrow> next_of h n \<in> set (tl zs)" for zs
    by (induction h zs rule: linked.induct) auto
  moreover have "linked h zs \<Longrightarrow> n \<in> set (tl zs) \<Longrightarrow> prev_of h n \<in> set (butlast zs)" for zs
    by (induction h zs rule: linked.induct) auto
  ultimately show "next_of h n \<in> set (l # ns)" "prev_of h n \<in> set (l # ns)"
    using assms(1) unfolding ring_def by (fastforce simp: butlast_append)+
qed

lemma ring_unchanged:
  assumes "ring h k ms" "\<forall>n \<in> set (k # ms). next_of h' n = next_of h n \<and> prev_of h' n = prev_of h n"
  shows "ring h' k ms"
proof -
  have "linked h (k # ms @ [k])" using assms(1) by (simp add: ring_def)
  then have "linked h' (k # ms @ [k])"
    by (rule linked_cong) (use assms(2) in \<open>auto dest: in_set_butlastD\<close>)
  then show ?thesis using assms(1) by (simp add: ring_def)
qed

lemma insert_other:
  assumes "ring h l ns" "pos \<in> set (l # ns)" "ring h k ms" "set (k # ms) \<inter> set (v # l # ns) = {}"
  shows "ring (snd (ilist_insert pos v h)) k ms"
  by (rule ring_unchanged [OF assms(3)])
    (use assms(4) ring_prev_next [OF assms(1,2)] assms(2) in \<open>auto simp: insert_links\<close>)

lemma erase_other:
  assumes "ring h l ns" "pos \<in> set (l # ns)" "ring h k ms" "set (k # ms) \<inter> set (l # ns) = {}"
  shows "ring (snd (ilist_erase pos h)) k ms"
  by (rule ring_unchanged [OF assms(3)])
    (use assms(4) ring_prev_next [OF assms(1,2)] in \<open>auto simp: erase_links\<close>)

section \<open>The operations on rings\<close>

lemma ring_ends:
  assumes "ring h l ns"
  shows "ilist_begin h l = hd (ns @ [l])" "iter_decr h (ilist_end l) = last (l # ns)"
    "ilist_empty h l \<longleftrightarrow> ns = []"
proof -
  have l: "linked h (l # ns @ [l])" and d: "distinct (l # ns)" using assms by (auto simp: ring_def)
  show b: "ilist_begin h l = hd (ns @ [l])" using l by (cases ns) (auto simp: ilist_begin_def)
  show "ilist_empty h l \<longleftrightarrow> ns = []" using b d by (cases ns) (auto simp: ilist_begin_def ilist_empty_def)
  obtain as p where a: "l # ns = as @ [p]" by (metis append_butlast_last_id list.distinct(1))
  have "linked h ((l # ns) @ [l])" using l by simp
  then have "prev_of h l = p" unfolding a using linked_append [of h as p "[l]"] by simp
  then show "iter_decr h (ilist_end l) = last (l # ns)" unfolding a by (simp add: iter_decr_def ilist_end_def)
qed

lemma ring_step:
  assumes "ring h l (xs @ n # ys)"
  shows "iter_incr h n = hd (ys @ [l])" "iter_decr h n = last (l # xs)"
proof -
  have "linked h ((l # xs) @ n # ys @ [l])" using assms by (simp add: ring_def)
  moreover obtain as p where a: "l # xs = as @ [p]" by (metis append_butlast_last_id list.distinct(1))
  ultimately have "linked h (as @ p # n # ys @ [l])" by simp
  then have "linked h (p # n # ys @ [l])" using linked_append [of h as p "n # ys @ [l]"] by simp
  then show "iter_incr h n = hd (ys @ [l])" "iter_decr h n = last (l # xs)"
    unfolding a by (cases ys; simp add: iter_incr_def iter_decr_def)+
qed

definition sized_rep :: "sized_heap \<Rightarrow> nat \<Rightarrow> nat list \<Rightarrow> bool" where
  "sized_rep h l ns \<longleftrightarrow> ring h l ns \<and> size_of h l = of_nat (length ns)"

lemma ring_size_irrelevant [simp]: "ring (h\<lparr>size_of := f\<rparr>) l ns \<longleftrightarrow> ring h l ns" for h :: sized_heap
proof -
  have "linked (h\<lparr>size_of := f\<rparr>) zs \<longleftrightarrow> linked h zs" for zs by (induction h zs rule: linked.induct) auto
  then show ?thesis by (simp add: ring_def)
qed

lemma size_links [simp]:
  "size_of (snd (ilist_insert pos v h)) = size_of h" "size_of (snd (ilist_erase pos h)) = size_of h"
  "size_of (ilist_init l h) = size_of h" "size_of (ilist_clear l h) = size_of h" for h :: sized_heap
  by (simp_all add: ilist_insert_def ilist_erase_def ilist_init_def ilist_clear_def set_next_of_def set_prev_of_def Let_def)

lemma ring_init: "ring (ilist_init l h) l []" "ring (ilist_clear l h) l []"
  by (simp_all add: ring_def ilist_init_def ilist_clear_def)

lemma sized_init_rep: "sized_rep (sized_init l h) l []" "sized_rep (sized_clear l h) l []"
  using ring_init [of l h] by (simp_all add: sized_rep_def sized_init_def sized_clear_def Let_def)

lemma sized_insert_rep:
  assumes "sized_rep h l (xs @ ys)" "v \<notin> set (l # xs @ ys)" "pos = hd (ys @ [l])"
  shows "sized_rep (snd (sized_insert pos v l h)) l (xs @ v # ys)"
  using assms insert_ring [of "h\<lparr>size_of := (size_of h)(l := size_of h l + 1)\<rparr>" l xs ys v]
  by (simp add: sized_rep_def sized_insert_def)

lemma sized_erase_rep:
  assumes "sized_rep h l (xs @ n # ys)"
  shows "sized_rep (snd (sized_erase n l h)) l (xs @ ys)" "fst (sized_erase n l h) = hd (ys @ [l])"
  using assms erase_ring [of "h\<lparr>size_of := (size_of h)(l := size_of h l - 1)\<rparr>" l xs n ys]
  by (simp_all add: sized_rep_def sized_erase_def)

lemma fst_sized_insert: "fst (sized_insert pos v l h) = v"
  by (simp add: sized_insert_def ilist_insert_def Let_def)

lemma sized_push_rep:
  assumes "sized_rep h l ns" "v \<notin> set (l # ns)"
  shows "sized_rep (sized_push_front v l h) l (v # ns)" "sized_rep (sized_push_back v l h) l (ns @ [v])"
  using sized_insert_rep [of h l "[]" ns v] sized_insert_rep [of h l ns "[]" v] assms ring_ends(1) [of h l ns]
  by (simp_all add: sized_push_front_def sized_push_back_def ilist_end_def sized_rep_def)

lemma sized_pop_front_rep:
  assumes "sized_rep h l (n # ns)"
  shows "sized_rep (sized_pop_front l h) l ns"
  using sized_erase_rep(1) [of h l "[]" n ns] assms ring_ends(1) [of h l "n # ns"]
  by (simp add: sized_pop_front_def sized_rep_def)

text \<open>
  \<open>pop_back\<close> erases the sentinel instead of the last element: the list object still points at all its
  elements, and walking over them never meets the end.
\<close>

lemma next_is_end:
  assumes "ring h l ns" "n \<in> set ns" "next_of h n = l"
  shows "n = last ns"
proof -
  obtain xs ys where ns: "ns = xs @ n # ys" using split_list [OF assms(2)] by blast
  then have "hd (ys @ [l]) = l" using ring_step(1) [of h l xs n ys] assms by (simp add: iter_incr_def)
  then have "ys = []" using assms(1) ns by (cases ys) (auto simp: ring_def)
  then show ?thesis using ns by simp
qed

lemma pop_back_never_ends:
  assumes "ring h l ns" "ns \<noteq> []"
  shows "ilist_begin (ilist_pop_back l h) l = hd ns"
    and "(iter_incr (ilist_pop_back l h) ^^ k) (ilist_begin (ilist_pop_back l h) l) \<noteq> ilist_end l"
proof -
  let ?h = "ilist_pop_back l h"
  have l: "l \<notin> set ns" and p: "prev_of h l = last ns" and f: "next_of h l = hd ns"
    using assms ring_ends [OF assms(1)] by (auto simp: ring_def iter_decr_def ilist_end_def ilist_begin_def)
  have nx: "next_of ?h = (next_of h)(last ns := hd ns)"
    by (simp add: ilist_pop_back_def erase_links ilist_end_def p f)
  have "last ns \<noteq> l" using l assms(2) last_in_set by metis
  then show b: "ilist_begin ?h l = hd ns" by (simp add: ilist_begin_def nx f)
  have "next_of ?h n \<in> set ns" if "n \<in> set ns" for n
    using that next_is_end [OF assms(1) that] ring_prev_next(1) [OF assms(1), of n] assms(2) by (auto simp: nx)
  then have "(iter_incr ?h ^^ k) (hd ns) \<in> set ns" using assms(2) by (induction k) (auto simp: iter_incr_def)
  then show "(iter_incr ?h ^^ k) (ilist_begin ?h l) \<noteq> ilist_end l" using l unfolding b ilist_end_def by metis
qed

section \<open>Property\<close>

text \<open>
  C26. Whenever a \<open>sized_ilist\<close> holds a sequence, its ends and its emptiness are read off in one step,
  pushing at either end and inserting before any iterator insert into the sequence, erasing any
  element or popping the first removes it and returns the iterator after it, and the count stays the
  length; a list with other nodes keeps its sequence.
\<close>

theorem sized_ilist_sequence:
  assumes rep: "sized_rep h l ns" and v: "v \<notin> set (l # ns)"
  shows "ilist_begin h l = hd (ns @ [l]) \<and> ilist_back h l = last (l # ns) \<and> (ilist_empty h l \<longleftrightarrow> ns = []) \<and>
    sized_rep (sized_push_front v l h) l (v # ns) \<and> sized_rep (sized_push_back v l h) l (ns @ [v]) \<and>
    (\<forall>xs ys. ns = xs @ ys \<longrightarrow>
       fst (sized_insert (hd (ys @ [l])) v l h) = v \<and>
       sized_rep (snd (sized_insert (hd (ys @ [l])) v l h)) l (xs @ v # ys)) \<and>
    (\<forall>xs n ys. ns = xs @ n # ys \<longrightarrow>
       fst (sized_erase n l h) = hd (ys @ [l]) \<and> sized_rep (sized_remove n l h) l (xs @ ys)) \<and>
    (ns \<noteq> [] \<longrightarrow> sized_rep (sized_pop_front l h) l (tl ns)) \<and> sized_rep (sized_clear l h) l [] \<and>
    (\<forall>k ms pos. sized_rep h k ms \<and> set (k # ms) \<inter> set (v # l # ns) = {} \<and> pos \<in> set (l # ns) \<longrightarrow>
       sized_rep (snd (sized_insert pos v l h)) k ms \<and> sized_rep (snd (sized_erase pos l h)) k ms)"
proof -
  have ring: "ring h l ns" using rep by (simp add: sized_rep_def)
  have "ns \<noteq> [] \<Longrightarrow> sized_rep (sized_pop_front l h) l (tl ns)" using sized_pop_front_rep [of h l "hd ns" "tl ns"] rep by simp
  moreover have "sized_rep (snd (sized_insert pos v l h)) k ms \<and> sized_rep (snd (sized_erase pos l h)) k ms"
    if "sized_rep h k ms \<and> set (k # ms) \<inter> set (v # l # ns) = {} \<and> pos \<in> set (l # ns)" for k ms pos
    using that insert_other [of "h\<lparr>size_of := f\<rparr>" l ns pos k ms v for f] erase_other [of "h\<lparr>size_of := f\<rparr>" l ns pos k ms for f] ring
    by (auto simp: sized_rep_def sized_insert_def sized_erase_def)
  moreover have "fst (sized_insert (hd (ys @ [l])) v l h) = v \<and> sized_rep (snd (sized_insert (hd (ys @ [l])) v l h)) l (xs @ v # ys)"
    if "ns = xs @ ys" for xs ys
    using that sized_insert_rep [of h l xs ys v, OF _ _ refl] rep v by (simp add: fst_sized_insert)
  moreover have "fst (sized_erase n l h) = hd (ys @ [l]) \<and> sized_rep (sized_remove n l h) l (xs @ ys)"
    if "ns = xs @ n # ys" for xs n ys
    using that sized_erase_rep [of h l xs n ys] rep by (simp add: sized_remove_def)
  ultimately show ?thesis
    using ring_ends [OF ring] sized_push_rep [OF rep v] sized_init_rep(2) [of l h] unfolding ilist_back_def by blast
qed

theorem sized_ilist_sequence_witness:
  "sized_rep (sized_push_back 3 1 (sized_push_front 2 1 (sized_init 1 \<lparr>next_of = id, prev_of = id, size_of = \<lambda>_. 9\<rparr>))) 1 [2, 3]"
proof -
  let ?h = "sized_init 1 \<lparr>next_of = id, prev_of = id, size_of = \<lambda>_. 9\<rparr>"
  have "sized_rep (sized_push_front 2 1 ?h) 1 [2]"
    using sized_ilist_sequence [OF sized_init_rep(1), of 2 1 "\<lparr>next_of = id, prev_of = id, size_of = \<lambda>_. 9\<rparr>"] by simp
  then show ?thesis using sized_push_rep(2) [of "sized_push_front 2 1 ?h" 1 "[2]" 3] by simp
qed

end
