(* ===== verification/Hash_Filo.thy ===== *)
theory Hash_Filo
  imports Sized_Ilist
begin

text \<open>
  The cache of \<open>hash_filo.h\<close>: a hash table of bounded size whose elements are also linked in the
  order of their last use. The hash table (\<open>HASH\<close>, outside the headers) is a parameter: its functions
  are the fields of \<open>hash_ops\<close>, and \<open>hash_ok\<close> states what the cache relies on. The mutex is not
  modelled: every operation runs under it.
\<close>

section \<open>The hash table\<close>

record ('h, 'k) hash_ops =
  hash_new :: 'h
  hash_search :: "'h \<Rightarrow> 'k \<Rightarrow> nat"
  hash_insert :: "nat \<Rightarrow> 'h \<Rightarrow> bool \<times> 'h"
  hash_delete :: "nat \<Rightarrow> 'h \<Rightarrow> 'h"
  hash_records :: "'h \<Rightarrow> uint"

text \<open>
  A table holds a finite set of elements, each with a key. A search returns an element with the key,
  or null if there is none; an insertion adds the element or reports failure (true) and changes
  nothing; deletion removes an element; \<open>records\<close> counts.
\<close>

definition hash_ok :: "('h, 'k) hash_ops \<Rightarrow> ('h \<Rightarrow> nat set) \<Rightarrow> (nat \<Rightarrow> 'k) \<Rightarrow> bool" where
  "hash_ok H members key \<longleftrightarrow>
     members (hash_new H) = {} \<and>
     (\<forall>h k. if hash_search H h k = 0 then \<forall>e \<in> members h. key e \<noteq> k
            else hash_search H h k \<in> members h \<and> key (hash_search H h k) = k) \<and>
     (\<forall>h e. e \<noteq> 0 \<longrightarrow> members (snd (hash_insert H e h)) = (if fst (hash_insert H e h) then members h else insert e (members h))) \<and>
     (\<forall>h e. members (hash_delete H e h) = members h - {e}) \<and>
     (\<forall>h. finite (members h) \<and> hash_records H h = of_nat (card (members h)))"

section \<open>The cache\<close>

record 'h hash_filo =
  next_used :: "nat \<Rightarrow> nat"
  prev_used :: "nat \<Rightarrow> nat"
  m_size :: uint
  has_free_element :: bool
  filo_init :: bool
  first_link :: nat
  last_link :: nat
  cache :: 'h
  freed :: "nat list"

definition hash_filo_new :: "uint \<Rightarrow> bool \<Rightarrow> 'h \<Rightarrow> (nat \<Rightarrow> nat) \<Rightarrow> (nat \<Rightarrow> nat) \<Rightarrow> 'h hash_filo" where
  "hash_filo_new size_arg free_element_arg zeroed nu pu =
     \<lparr>next_used = nu, prev_used = pu, m_size = size_arg, has_free_element = free_element_arg, filo_init = False,
      first_link = 0, last_link = 0, cache = zeroed, freed = []\<rparr>"

definition filo_clear :: "('h, 'k) hash_ops \<Rightarrow> 'h hash_filo \<Rightarrow> 'h hash_filo" where
  "filo_clear H s =
     (let s = (if \<not> filo_init s then s\<lparr>filo_init := True\<rparr> else s);
          s = s\<lparr>first_link := 0\<rparr>;
          s = s\<lparr>last_link := 0\<rparr>
      in s\<lparr>cache := hash_new H\<rparr>)"

definition filo_set_next :: "nat \<Rightarrow> nat \<Rightarrow> 'h hash_filo \<Rightarrow> 'h hash_filo" where
  "filo_set_next n m s = s\<lparr>next_used := (next_used s)(n := m)\<rparr>"

definition filo_set_prev :: "nat \<Rightarrow> nat \<Rightarrow> 'h hash_filo \<Rightarrow> 'h hash_filo" where
  "filo_set_prev n m s = s\<lparr>prev_used := (prev_used s)(n := m)\<rparr>"

text \<open>Taking a found entry out of the chain; \<open>None\<close> where an assertion fails.\<close>

definition filo_unlink :: "nat \<Rightarrow> 'h hash_filo \<Rightarrow> 'h hash_filo option" where
  "filo_unlink entry s =
     (if entry = last_link s
      then let s = s\<lparr>last_link := prev_used s (last_link s)\<rparr>
           in if last_link s = 0 then None else Some (filo_set_next (last_link s) 0 s)
      else if next_used s entry = 0 \<or> prev_used s entry = 0 then None
      else let s = filo_set_prev (next_used s entry) (prev_used s entry) s
           in Some (filo_set_next (prev_used s entry) (next_used s entry) s))"

definition filo_search :: "('h, 'k) hash_ops \<Rightarrow> 'k \<Rightarrow> 'h hash_filo \<Rightarrow> (nat \<times> 'h hash_filo) option" where
  "filo_search H key s =
     (let entry = hash_search H (cache s) key
      in if entry = 0 then Some (entry, s)
         else if first_link s = 0 \<or> last_link s = 0 then None
         else if entry \<noteq> first_link s
         then case filo_unlink entry s of
                None \<Rightarrow> None
              | Some s \<Rightarrow>
                  let s = filo_set_prev entry 0 s;
                      s = filo_set_next entry (first_link s) s;
                      s = filo_set_prev (first_link s) entry s
                  in Some (entry, s\<lparr>first_link := entry\<rparr>)
         else Some (entry, s))"

text \<open>Making room in a full cache; the last element is read, so it must exist.\<close>

definition filo_evict :: "('h, 'k) hash_ops \<Rightarrow> 'h hash_filo \<Rightarrow> 'h hash_filo option" where
  "filo_evict H s =
     (let tmp = last_link s
      in if tmp = 0 then None
         else let s = s\<lparr>last_link := prev_used s (last_link s)\<rparr>;
                  s = (if last_link s \<noteq> 0 then filo_set_next (last_link s) 0 s else s\<lparr>first_link := 0\<rparr>)
              in Some (s\<lparr>cache := hash_delete H tmp (cache s)\<rparr>))"

definition filo_link_first :: "nat \<Rightarrow> 'h hash_filo \<Rightarrow> 'h hash_filo" where
  "filo_link_first entry s =
     (let s = filo_set_prev entry 0 s;
          s = filo_set_next entry (first_link s) s;
          s = (if first_link s \<noteq> 0 then filo_set_prev (first_link s) entry s else s\<lparr>last_link := entry\<rparr>)
      in s\<lparr>first_link := entry\<rparr>)"

definition filo_add :: "('h, 'k) hash_ops \<Rightarrow> nat \<Rightarrow> 'h hash_filo \<Rightarrow> (bool \<times> 'h hash_filo) option" where
  "filo_add H entry s =
     (if m_size s = 0 then Some (True, s)
      else case (if hash_records H (cache s) = m_size s then filo_evict H s else Some s) of
             None \<Rightarrow> None
           | Some s \<Rightarrow>
               (case hash_insert H entry (cache s) of
                  (True, c) \<Rightarrow>
                    Some (True, s\<lparr>cache := c, freed := (if has_free_element s then freed s @ [entry] else freed s)\<rparr>)
                | (False, c) \<Rightarrow> Some (False, filo_link_first entry (s\<lparr>cache := c\<rparr>))))"

definition filo_size :: "'h hash_filo \<Rightarrow> uint" where
  "filo_size s = m_size s"

definition filo_resize :: "('h, 'k) hash_ops \<Rightarrow> uint \<Rightarrow> 'h hash_filo \<Rightarrow> 'h hash_filo" where
  "filo_resize H new_size s = filo_clear H (s\<lparr>m_size := new_size\<rparr>)"

section \<open>The order of use\<close>

text \<open>
  With null as its sentinel, the chain of a cache is a ring: \<open>first_link\<close> and \<open>last_link\<close> are the
  links of the sentinel.
\<close>

definition ring_of :: "'h hash_filo \<Rightarrow> ring_heap" where
  "ring_of s = \<lparr>next_of = (next_used s)(0 := first_link s), prev_of = (prev_used s)(0 := last_link s)\<rparr>"

definition filo_rep :: "('h \<Rightarrow> nat set) \<Rightarrow> 'h hash_filo \<Rightarrow> nat list \<Rightarrow> bool" where
  "filo_rep members s es \<longleftrightarrow>
     ring (ring_of s) 0 es \<and> members (cache s) = set es \<and> length es \<le> unat (m_size s)"

lemma ring_same_links:
  "ring h l ns \<Longrightarrow> next_of h' = next_of h \<Longrightarrow> prev_of h' = prev_of h \<Longrightarrow> ring h' l ns"
  by (rule ring_unchanged) auto

lemma filo_repD:
  assumes "filo_rep members s es"
  shows "ring (ring_of s) 0 es" "distinct es" "0 \<notin> set es" "members (cache s) = set es"
    "length es \<le> unat (m_size s)" "first_link s = hd (es @ [0])" "last_link s = last (0 # es)"
proof -
  show r: "ring (ring_of s) 0 es" and "members (cache s) = set es" "length es \<le> unat (m_size s)"
    using assms by (auto simp: filo_rep_def)
  show "distinct es" "0 \<notin> set es" using r by (auto simp: ring_def)
  show "first_link s = hd (es @ [0])" using ring_ends(1) [OF r] by (simp add: ilist_begin_def ring_of_def)
  show "last_link s = last (0 # es)" using ring_ends(2) [OF r] by (simp add: iter_decr_def ilist_end_def ring_of_def)
qed

lemma set_links [simp]:
  "next_used (filo_set_next n m s) = (next_used s)(n := m)" "prev_used (filo_set_next n m s) = prev_used s"
  "prev_used (filo_set_prev n m s) = (prev_used s)(n := m)" "next_used (filo_set_prev n m s) = next_used s"
  "first_link (filo_set_next n m s) = first_link s" "last_link (filo_set_next n m s) = last_link s"
  "first_link (filo_set_prev n m s) = first_link s" "last_link (filo_set_prev n m s) = last_link s"
  "cache (filo_set_next n m s) = cache s" "cache (filo_set_prev n m s) = cache s"
  "m_size (filo_set_next n m s) = m_size s" "m_size (filo_set_prev n m s) = m_size s"
  "freed (filo_set_next n m s) = freed s" "freed (filo_set_prev n m s) = freed s"
  "has_free_element (filo_set_next n m s) = has_free_element s" "has_free_element (filo_set_prev n m s) = has_free_element s"
  by (simp_all add: filo_set_next_def filo_set_prev_def)

lemma link_first_ring:
  assumes "ring (ring_of s) 0 es" "e \<notin> set es" "e \<noteq> 0"
  shows "ring (ring_of (filo_link_first e s)) 0 (e # es)"
proof -
  have r: "ring (snd (ilist_insert (hd (es @ [0])) e (ring_of s))) 0 (e # es)"
    using insert_ring [of "ring_of s" 0 "[]" es e] assms by simp
  have f: "first_link s = hd (es @ [0])" using ring_ends [OF assms(1)] by (simp add: ilist_begin_def ring_of_def)
  have z: "0 \<notin> set es" using assms(1) by (simp add: ring_def)
  have l: "prev_of (ring_of s) (hd (es @ [0])) = 0"
  proof (cases es)
    case Nil
    then show ?thesis using ring_ends(2) [OF assms(1)] by (simp add: iter_decr_def ilist_end_def)
  next
    case (Cons x xs)
    then show ?thesis using ring_step(2) [of "ring_of s" 0 "[]" x xs] assms(1) by (simp add: iter_decr_def)
  qed
  show ?thesis
    by (rule ring_same_links [OF r]; cases es)
      (use f l z assms(2,3) in \<open>auto simp: ring_of_def insert_links filo_link_first_def Let_def fun_eq_iff\<close>)
qed

lemma evict_ring:
  assumes "ring (ring_of s) 0 (es @ [e])"
  shows "\<exists>s'. filo_evict H s = Some s' \<and> ring (ring_of s') 0 es \<and> cache s' = hash_delete H e (cache s) \<and>
    m_size s' = m_size s \<and> freed s' = freed s \<and> has_free_element s' = has_free_element s"
proof -
  have z: "e \<noteq> 0" "0 \<notin> set es" using assms by (auto simp: ring_def)
  have l: "last_link s = e" using ring_ends(2) [OF assms] by (simp add: iter_decr_def ilist_end_def ring_of_def)
  have p: "prev_used s e = last (0 # es)" and n: "next_of (ring_of s) e = 0"
    using ring_step [of "ring_of s" 0 es e "[]"] assms z by (auto simp: iter_incr_def iter_decr_def ring_of_def)
  have r: "ring (snd (ilist_erase e (ring_of s))) 0 es" using erase_ring(1) [of "ring_of s" 0 es e "[]"] assms by simp
  obtain s' where s': "filo_evict H s = Some s'" using l z(1) by (simp add: filo_evict_def Let_def)
  have "ring (ring_of s') 0 es"
    by (rule ring_same_links [OF r]; cases es rule: rev_cases)
      (use s' l p n z in \<open>auto simp: filo_evict_def Let_def ring_of_def erase_links fun_eq_iff\<close>)
  then show ?thesis using s' l z(1) by (auto simp: filo_evict_def Let_def split: if_splits)
qed

lemma unlink_ring:
  assumes "ring (ring_of s) 0 (x # es @ e # fs)"
  shows "\<exists>s'. filo_unlink e s = Some s' \<and> ring (ring_of s') 0 (x # es @ fs) \<and> cache s' = cache s \<and>
    m_size s' = m_size s \<and> first_link s' = first_link s \<and> freed s' = freed s"
proof -
  have z: "e \<noteq> 0" "0 \<notin> set (x # es @ fs)" "e \<notin> set (x # es @ fs)" using assms by (auto simp: ring_def)
  have l: "last_link s = last (e # fs)" using ring_ends(2) [OF assms] by (auto simp: iter_decr_def ilist_end_def ring_of_def)
  have p: "prev_used s e = last (x # es)" and n: "next_used s e = hd (fs @ [0])"
    using ring_step [of "ring_of s" 0 "x # es" e fs] assms z by (auto simp: iter_incr_def iter_decr_def ring_of_def)
  have r: "ring (snd (ilist_erase e (ring_of s))) 0 (x # es @ fs)"
    using erase_ring(1) [of "ring_of s" 0 "x # es" e fs] assms by simp
  have pz: "last (x # es) \<noteq> 0" "last (x # es) \<noteq> e" using z last_in_set [of "x # es"] by (metis Un_iff append_Cons list.discI set_append)+
  have f: "first_link s = x" using ring_ends(1) [OF assms] by (simp add: ilist_begin_def ring_of_def)
  show ?thesis
  proof (cases fs)
    case Nil
    then obtain s' where s': "filo_unlink e s = Some s'" using l p pz by (simp add: filo_unlink_def Let_def)
    have "ring (ring_of s') 0 (x # es @ fs)"
      by (rule ring_same_links [OF r])
        (use s' l p n z pz Nil in \<open>auto simp: filo_unlink_def Let_def ring_of_def erase_links fun_eq_iff\<close>)
    then show ?thesis using s' l p pz Nil by (auto simp: filo_unlink_def Let_def)
  next
    case (Cons y ys)
    then have le: "last_link s \<noteq> e" using l z(3) last_in_set [of fs] by auto
    then obtain s' where s': "filo_unlink e s = Some s'" using p n pz z Cons by (simp add: filo_unlink_def Let_def)
    have "ring (ring_of s') 0 (x # es @ fs)"
      by (rule ring_same_links [OF r])
        (use s' le p n z pz Cons in \<open>auto simp: filo_unlink_def Let_def ring_of_def erase_links fun_eq_iff\<close>)
    then show ?thesis using s' le p n pz z Cons by (auto simp: filo_unlink_def Let_def)
  qed
qed

lemma remove1_middle: "e \<notin> set xs \<Longrightarrow> remove1 e (xs @ e # ys) = xs @ ys"
  by (induction xs) auto

lemma filo_search_rep:
  assumes "hash_ok H members key" "filo_rep members s es"
  shows "\<exists>e s'. filo_search H k s = Some (e, s') \<and>
    (if e = 0 then s' = s \<and> (\<forall>x \<in> set es. key x \<noteq> k)
     else e \<in> set es \<and> key e = k \<and> m_size s' = m_size s \<and> filo_rep members s' (e # remove1 e es))"
proof -
  note r = filo_repD [OF assms(2)]
  define e where "e = hash_search H (cache s) k"
  have h: "if e = 0 then \<forall>x \<in> set es. key x \<noteq> k else e \<in> set es \<and> key e = k"
    using assms(1) r(4) unfolding hash_ok_def e_def by metis
  consider "e = 0" | "e \<noteq> 0" "e = first_link s" | "e \<noteq> 0" "e \<noteq> first_link s" by blast
  then show ?thesis
  proof cases
    case 1
    then show ?thesis using h by (simp add: filo_search_def Let_def e_def)
  next
    case 2
    then have "es \<noteq> []" "hd es = e" using h r(6) by (cases es; auto)+
    then have "e # remove1 e es = es" by (cases es) auto
    moreover have "last_link s \<noteq> 0" using r(3,7) \<open>es \<noteq> []\<close> last_in_set [of es] by (metis last.simps)
    moreover have "filo_search H k s = Some (e, s)"
      using 2 calculation(2) by (simp add: filo_search_def Let_def flip: e_def)
    ultimately show ?thesis using 2 h assms(2) by auto
  next
    case 3
    then have e: "e \<in> set es" "key e = k" using h by auto
    then obtain x xs fs where es: "es = x # xs @ e # fs" using 3 r(6) by (cases es) (auto dest: split_list)
    obtain t where t: "filo_unlink e s = Some t" "ring (ring_of t) 0 (x # xs @ fs)" "cache t = cache s"
      "m_size t = m_size s" "first_link t = first_link s" using unlink_ring r(1) es by metis
    have "last_link s \<in> set es" using r(7) es last_in_set [of es] by (metis last_ConsR list.distinct(1))
    then have f: "last_link s \<noteq> 0" "first_link s = x" "first_link s \<noteq> 0" using r(3,6) es by (metis, simp_all)
    have s': "filo_search H k s = Some (e, filo_link_first e t)"
      using t 3 f by (simp add: filo_search_def filo_link_first_def Let_def flip: e_def)
    have "e \<notin> set (x # xs @ fs)" using r(2) es by auto
    then have "ring (ring_of (filo_link_first e t)) 0 (e # x # xs @ fs)" using link_first_ring [OF t(2)] 3 by blast
    moreover have "remove1 e es = x # xs @ fs" using r(2) remove1_middle [of e "x # xs" fs] by (auto simp: es)
    moreover have "cache (filo_link_first e t) = cache s" "m_size (filo_link_first e t) = m_size s"
      using t by (auto simp: filo_link_first_def Let_def)
    ultimately have "filo_rep members (filo_link_first e t) (e # remove1 e es) \<and> m_size (filo_link_first e t) = m_size s"
      using r(4,5) es by (auto simp: filo_rep_def)
    then show ?thesis using s' 3 e by auto
  qed
qed

lemma filo_insert_rep:
  assumes "hash_ok H members key" "filo_rep members s es" "e \<notin> set es" "e \<noteq> 0"
    and "hash_insert H e (cache s) = (False, c)" "length es < unat (m_size s)"
  shows "filo_rep members (filo_link_first e (s\<lparr>cache := c\<rparr>)) (e # es)"
proof -
  have "members c = insert e (members (cache s))" using assms(1,4,5) by (metis fst_conv snd_conv hash_ok_def)
  moreover have "ring (ring_of (s\<lparr>cache := c\<rparr>)) 0 es" using filo_repD(1) [OF assms(2)] by (simp add: ring_of_def)
  then have "ring (ring_of (filo_link_first e (s\<lparr>cache := c\<rparr>))) 0 (e # es)" using assms(3,4) by (rule link_first_ring)
  moreover have "cache (filo_link_first e (s\<lparr>cache := c\<rparr>)) = c" "m_size (filo_link_first e (s\<lparr>cache := c\<rparr>)) = m_size s"
    by (auto simp: filo_link_first_def Let_def)
  ultimately show ?thesis using filo_repD(4) [OF assms(2)] assms(6) by (simp add: filo_rep_def)
qed

definition kept_elements :: "uint \<Rightarrow> nat list \<Rightarrow> nat list" where
  "kept_elements n es = (if length es = unat n then butlast es else es)"

lemma unat_of_le: "n \<le> unat w \<Longrightarrow> unat (of_nat n :: uint) = n" for w :: uint
  using unsigned_less [of w, where ?'a = nat] by (simp add: unsigned_of_nat take_bit_nat_eq_self)

lemma filo_room_rep:
  assumes "hash_ok H members key" "filo_rep members s es" "m_size s \<noteq> 0"
  shows "\<exists>t. (if hash_records H (cache s) = m_size s then filo_evict H s else Some s) = Some t \<and>
    filo_rep members t (kept_elements (m_size s) es) \<and> m_size t = m_size s \<and> freed t = freed s \<and>
    has_free_element t = has_free_element s \<and> length (kept_elements (m_size s) es) < unat (m_size s)"
proof -
  note r = filo_repD [OF assms(2)]
  have "card (members (cache s)) = length es" using r(2,4) by (simp add: distinct_card)
  then have n: "hash_records H (cache s) = of_nat (length es)" using assms(1) by (simp add: hash_ok_def)
  have eq: "of_nat (length es) = m_size s \<longleftrightarrow> length es = unat (m_size s)"
    using r(5) by (metis unat_of_le word_unat_eq_iff)
  have nz: "unat (m_size s) \<noteq> 0" using assms(3) by (simp add: unat_eq_0)
  show ?thesis
  proof (cases "length es = unat (m_size s)")
    case True
    then obtain ds d where es: "es = ds @ [d]" using nz by (cases es rule: rev_cases) auto
    obtain t where t: "filo_evict H s = Some t" "ring (ring_of t) 0 ds" "cache t = hash_delete H d (cache s)"
      "m_size t = m_size s" "freed t = freed s" "has_free_element t = has_free_element s"
      using evict_ring r(1) es by blast
    have "members (cache t) = set ds" using assms(1) t(3) r(2,4) es by (auto simp: hash_ok_def)
    then have "filo_rep members t ds" using t r(5) es by (simp add: filo_rep_def)
    moreover have "hash_records H (cache s) = m_size s" using n True eq by (metis (full_types))
    moreover have "kept_elements (m_size s) es = ds" "length ds < unat (m_size s)"
      using True es by (auto simp: kept_elements_def)
    ultimately show ?thesis using t by simp
  qed (use assms(2) n r(5) eq in \<open>auto simp: kept_elements_def\<close>)
qed

section \<open>Property\<close>

text \<open>
  C28. The cache keeps the elements used last: with a hash table that does what it documents,
  \<open>search\<close> finds an element with the key if there is one and makes it the first, \<open>add\<close> puts a new
  element first and gives up exactly the element that was not used for the longest time when the
  cache is full, no operation ever reads through a null link or exceeds the size, a failed insertion
  reports it and frees the new element, and resizing empties the cache.
\<close>

theorem hash_filo_least_recently_used:
  assumes H: "hash_ok H members key" and rep: "filo_rep members s es"
  shows "(\<exists>e s'. filo_search H k s = Some (e, s') \<and>
      (if e = 0 then s' = s \<and> (\<forall>x \<in> set es. key x \<noteq> k)
       else e \<in> set es \<and> key e = k \<and> m_size s' = m_size s \<and> filo_rep members s' (e # remove1 e es))) \<and>
    (new \<notin> set es \<and> new \<noteq> 0 \<longrightarrow> (\<exists>failed s'. filo_add H new s = Some (failed, s') \<and> m_size s' = m_size s \<and>
      (if m_size s = 0 then failed \<and> s' = s
       else if failed then filo_rep members s' (kept_elements (m_size s) es) \<and>
         freed s' = freed s @ (if has_free_element s then [new] else [])
       else filo_rep members s' (new # kept_elements (m_size s) es) \<and> freed s' = freed s))) \<and>
    filo_rep members (filo_resize H n s) [] \<and> filo_size (filo_resize H n s) = n"
proof -
  have "\<exists>failed s'. filo_add H new s = Some (failed, s') \<and> m_size s' = m_size s \<and>
      (if m_size s = 0 then failed \<and> s' = s
       else if failed then filo_rep members s' (kept_elements (m_size s) es) \<and>
         freed s' = freed s @ (if has_free_element s then [new] else [])
       else filo_rep members s' (new # kept_elements (m_size s) es) \<and> freed s' = freed s)"
    if new: "new \<notin> set es" "new \<noteq> 0"
  proof (cases "m_size s = 0")
    case False
    obtain t where t: "(if hash_records H (cache s) = m_size s then filo_evict H s else Some s) = Some t"
      "filo_rep members t (kept_elements (m_size s) es)" "m_size t = m_size s" "freed t = freed s"
      "has_free_element t = has_free_element s" "length (kept_elements (m_size s) es) < unat (m_size s)"
      using filo_room_rep [OF H rep False] by blast
    obtain failed c where c: "hash_insert H new (cache t) = (failed, c)" by (cases "hash_insert H new (cache t)") auto
    have kept: "new \<notin> set (kept_elements (m_size s) es)"
      using new(1) by (auto simp: kept_elements_def dest: in_set_butlastD)
    show ?thesis
    proof (cases failed)
      case True
      then have "members c = members (cache t)" using H c new(2) by (metis fst_conv snd_conv hash_ok_def)
      then have "filo_rep members (t\<lparr>cache := c, freed := x\<rparr>) (kept_elements (m_size s) es)" for x
        using t(2) by (simp add: filo_rep_def ring_of_def)
      then show ?thesis using False t c True by (auto simp: filo_add_def)
    next
      case f: False
      have "filo_rep members (filo_link_first new (t\<lparr>cache := c\<rparr>)) (new # kept_elements (m_size s) es)"
        using filo_insert_rep [OF H t(2) kept new(2)] c f t(3,6) by simp
      moreover have "m_size (filo_link_first new (t\<lparr>cache := c\<rparr>)) = m_size s"
        "freed (filo_link_first new (t\<lparr>cache := c\<rparr>)) = freed s" using t by (auto simp: filo_link_first_def Let_def)
      ultimately show ?thesis using False t c f by (auto simp: filo_add_def)
    qed
  qed (auto simp: filo_add_def)
  moreover have "filo_rep members (filo_resize H n s) []" "filo_size (filo_resize H n s) = n"
    using H by (simp_all add: filo_rep_def filo_resize_def filo_clear_def filo_size_def ring_of_def ring_def hash_ok_def Let_def)
  ultimately show ?thesis using filo_search_rep [OF H rep, of k] by blast
qed

text \<open>A table of last digits.\<close>

definition digit_table :: "(nat list, nat) hash_ops" where
  "digit_table = \<lparr>hash_new = [], hash_search = (\<lambda>h k. case filter (\<lambda>e. e \<noteq> 0 \<and> e mod 10 = k) h of [] \<Rightarrow> 0 | e # _ \<Rightarrow> e),
     hash_insert = (\<lambda>e h. (False, e # h)), hash_delete = (\<lambda>e h. filter (\<lambda>x. x \<noteq> e) h),
     hash_records = (\<lambda>h. of_nat (card (set h - {0})))\<rparr>"

lemma digit_table_search:
  "if hash_search digit_table h k = 0 then \<forall>e \<in> set h - {0}. e mod 10 \<noteq> k
   else hash_search digit_table h k \<in> set h - {0} \<and> hash_search digit_table h k mod 10 = k"
proof (cases "filter (\<lambda>e. e \<noteq> 0 \<and> e mod 10 = k) h")
  case Nil
  then show ?thesis by (auto simp: digit_table_def filter_empty_conv)
next
  case (Cons e es)
  then have "e \<in> set (filter (\<lambda>e. e \<noteq> 0 \<and> e mod 10 = k) h)" by simp
  then show ?thesis using Cons by (auto simp: digit_table_def)
qed

lemma digit_table_ok: "hash_ok digit_table (\<lambda>h. set h - {0}) (\<lambda>e. e mod 10)"
  unfolding hash_ok_def
  by (intro conjI allI impI digit_table_search) (auto simp: digit_table_def)

lemma digit_cache: "filo_rep (\<lambda>h. set h - {0}) (filo_resize digit_table 2 (hash_filo_new 0 True [] id id)) []"
  by (simp add: filo_rep_def filo_resize_def filo_clear_def hash_filo_new_def ring_of_def ring_def digit_table_def Let_def)

theorem hash_filo_least_recently_used_witness:
  "\<exists>failed s'. filo_add digit_table 17 (filo_resize digit_table 2 (hash_filo_new 0 True [] id id)) = Some (failed, s')"
  using hash_filo_least_recently_used [OF digit_table_ok digit_cache, of 7 17 2] by auto

end
