(* ===== verification/Bounded_Queue.thy ===== *)
theory Bounded_Queue
  imports My_Bit "HOL-Library.Multiset"
begin

text \<open>
  The priority queue of bounded size of \<open>bounded_queue.h\<close>, which a sort with LIMIT uses to keep the
  first rows only. The heap under it is the \<open>QUEUE\<close> of \<open>queues.h\<close>: its fields and macros are
  modelled, its functions, which are only declared there, are the parameter \<open>queue_ops\<close> with
  \<open>queue_ok\<close> as their contract.
\<close>

section \<open>QUEUE\<close>

text \<open>An element of the queue is the index of a key buffer; the root is at index 1 of the array.\<close>

record st_queue =
  q_root :: "nat \<Rightarrow> nat"
  q_elements :: uint
  q_max_elements :: uint
  q_max_at_top :: bool

definition queue_first_element :: nat where
  "queue_first_element = 1"

definition queue_empty :: "st_queue \<Rightarrow> bool" where
  "queue_empty q \<longleftrightarrow> q_elements q = 0"

definition queue_top :: "st_queue \<Rightarrow> nat" where
  "queue_top q = q_root q 1"

definition queue_element :: "st_queue \<Rightarrow> nat \<Rightarrow> nat" where
  "queue_element q index = q_root q index"

definition queue_end :: "st_queue \<Rightarrow> nat" where
  "queue_end q = q_root q (unat (q_elements q))"

definition queue_is_full :: "st_queue \<Rightarrow> bool" where
  "queue_is_full q \<longleftrightarrow> q_elements q = q_max_elements q"

definition queue_remove_all :: "st_queue \<Rightarrow> st_queue" where
  "queue_remove_all q = q\<lparr>q_elements := 0\<rparr>"

record 'k queue_ops =
  init_queue :: "uint \<Rightarrow> bool \<Rightarrow> bool \<times> st_queue"
  queue_insert :: "('k \<Rightarrow> 'k \<Rightarrow> int) \<Rightarrow> (nat \<Rightarrow> 'k) \<Rightarrow> nat \<Rightarrow> st_queue \<Rightarrow> st_queue"
  downheap :: "('k \<Rightarrow> 'k \<Rightarrow> int) \<Rightarrow> (nat \<Rightarrow> 'k) \<Rightarrow> nat \<Rightarrow> st_queue \<Rightarrow> st_queue"
  queue_remove :: "('k \<Rightarrow> 'k \<Rightarrow> int) \<Rightarrow> (nat \<Rightarrow> 'k) \<Rightarrow> nat \<Rightarrow> st_queue \<Rightarrow> nat \<times> st_queue"
  get_ptr_compare :: "nat \<Rightarrow> 'k \<Rightarrow> 'k \<Rightarrow> int"

definition queue_replace_top :: "'k queue_ops \<Rightarrow> ('k \<Rightarrow> 'k \<Rightarrow> int) \<Rightarrow> (nat \<Rightarrow> 'k) \<Rightarrow> st_queue \<Rightarrow> st_queue" where
  "queue_replace_top Q compare keys q = downheap Q compare keys 1 q"

definition queue_remove_top :: "'k queue_ops \<Rightarrow> ('k \<Rightarrow> 'k \<Rightarrow> int) \<Rightarrow> (nat \<Rightarrow> 'k) \<Rightarrow> st_queue \<Rightarrow> nat \<times> st_queue" where
  "queue_remove_top Q compare keys q = queue_remove Q compare keys queue_first_element q"

section \<open>Bounded_queue\<close>

text \<open>The contents of the key buffers, to which \<open>m_sort_keys\<close> points, are part of the state; the
  functions that make and compare keys are given by the user.\<close>

record 'k Bounded_queue =
  sort_keys :: "nat \<Rightarrow> 'k"
  m_compare_length :: nat
  key_compare :: "'k \<Rightarrow> 'k \<Rightarrow> int"
  m_queue :: st_queue

definition UINT_MAX :: "64 word" where
  "UINT_MAX = 4294967295"

definition bq_init :: "'k queue_ops \<Rightarrow> 64 word \<Rightarrow> bool \<Rightarrow> ('k \<Rightarrow> 'k \<Rightarrow> int) option \<Rightarrow> nat \<Rightarrow> (nat \<Rightarrow> 'k) \<Rightarrow>
    'k Bounded_queue \<Rightarrow> bool \<times> 'k Bounded_queue" where
  "bq_init Q max_elements max_at_top compare compare_length keys b =
     (let b = b\<lparr>sort_keys := keys, m_compare_length := compare_length\<rparr>
      in if max_elements \<ge> UINT_MAX - 1 then (True, b)
         else
           let cmp = (case compare of None \<Rightarrow> get_ptr_compare Q compare_length | Some f \<Rightarrow> f);
               (failed, q) = init_queue Q (ucast max_elements + 1) max_at_top
           in (failed, b\<lparr>key_compare := cmp, m_queue := q\<rparr>))"

definition num_elements :: "'k Bounded_queue \<Rightarrow> uint" where
  "num_elements b = q_elements (m_queue b)"

definition is_initialized :: "'k Bounded_queue \<Rightarrow> bool" where
  "is_initialized b \<longleftrightarrow> q_max_elements (m_queue b) > 0"

definition bq_push :: "'k queue_ops \<Rightarrow> ('e \<Rightarrow> 'k) \<Rightarrow> 'e \<Rightarrow> 'k Bounded_queue \<Rightarrow> 'k Bounded_queue option" where
  "bq_push Q keymaker element b =
     (if \<not> is_initialized b then None
      else if queue_is_full (m_queue b)
      then let pq_top = queue_top (m_queue b);
               b = b\<lparr>sort_keys := (sort_keys b)(pq_top := keymaker element)\<rparr>
           in Some (b\<lparr>m_queue := queue_replace_top Q (key_compare b) (sort_keys b) (m_queue b)\<rparr>)
      else let n = unat (q_elements (m_queue b));
               b = b\<lparr>sort_keys := (sort_keys b)(n := keymaker element)\<rparr>
           in Some (b\<lparr>m_queue := queue_insert Q (key_compare b) (sort_keys b) n (m_queue b)\<rparr>))"

text \<open>The removed elements are chosen by index 0, while \<open>queues.h\<close> numbers them from 1.\<close>

definition bq_pop :: "'k queue_ops \<Rightarrow> 'k Bounded_queue \<Rightarrow> nat option \<times> 'k Bounded_queue" where
  "bq_pop Q b =
     (let b = (if queue_is_full (m_queue b)
               then b\<lparr>m_queue := snd (queue_remove Q (key_compare b) (sort_keys b) 0 (m_queue b))\<rparr> else b)
      in if q_elements (m_queue b) = 0 then (None, b)
         else let (e, q) = queue_remove Q (key_compare b) (sort_keys b) 0 (m_queue b)
              in (Some e, b\<lparr>m_queue := q\<rparr>))"

fun bq_pushes :: "'k queue_ops \<Rightarrow> ('e \<Rightarrow> 'k) \<Rightarrow> 'e list \<Rightarrow> 'k Bounded_queue \<Rightarrow> 'k Bounded_queue option" where
  "bq_pushes Q keymaker [] b = Some b"
| "bq_pushes Q keymaker (e # es) b =
     (case bq_push Q keymaker e b of None \<Rightarrow> None | Some b \<Rightarrow> bq_pushes Q keymaker es b)"

section \<open>The contract of the heap\<close>

definition key_order :: "('k \<Rightarrow> 'k \<Rightarrow> int) \<Rightarrow> bool" where
  "key_order cmp \<longleftrightarrow> (\<forall>x y. cmp x y \<le> 0 \<or> cmp y x \<le> 0) \<and> (\<forall>x y z. cmp x y \<le> 0 \<longrightarrow> cmp y z \<le> 0 \<longrightarrow> cmp x z \<le> 0)"

text \<open>The first argument may stay below the second in a heap.\<close>

definition below :: "('k \<Rightarrow> 'k \<Rightarrow> int) \<Rightarrow> bool \<Rightarrow> 'k \<Rightarrow> 'k \<Rightarrow> bool" where
  "below cmp max_at_top x y \<longleftrightarrow> (if max_at_top then cmp x y \<le> 0 else cmp y x \<le> 0)"

definition heap_from :: "nat \<Rightarrow> ('k \<Rightarrow> 'k \<Rightarrow> int) \<Rightarrow> (nat \<Rightarrow> 'k) \<Rightarrow> st_queue \<Rightarrow> bool" where
  "heap_from r cmp keys q \<longleftrightarrow> (\<forall>i. r \<le> i div 2 \<longrightarrow> i \<le> unat (q_elements q) \<longrightarrow>
     below cmp (q_max_at_top q) (keys (q_root q i)) (keys (q_root q (i div 2))))"

definition queue_contents :: "st_queue \<Rightarrow> nat multiset" where
  "queue_contents q = mset (map (q_root q) [1..<unat (q_elements q) + 1])"

definition same_queue :: "st_queue \<Rightarrow> st_queue \<Rightarrow> bool" where
  "same_queue q q' \<longleftrightarrow> q_max_elements q' = q_max_elements q \<and> q_max_at_top q' = q_max_at_top q"

definition queue_ok :: "'k queue_ops \<Rightarrow> ('k \<Rightarrow> 'k \<Rightarrow> int) \<Rightarrow> bool" where
  "queue_ok Q cmp \<longleftrightarrow>
     (\<forall>n t. \<not> fst (init_queue Q n t) \<longrightarrow> q_elements (snd (init_queue Q n t)) = 0 \<and>
        q_max_elements (snd (init_queue Q n t)) = n \<and> q_max_at_top (snd (init_queue Q n t)) = t) \<and>
     (\<forall>keys e q. heap_from 1 cmp keys q \<and> q_elements q < q_max_elements q \<longrightarrow>
        (let q' = queue_insert Q cmp keys e q
         in heap_from 1 cmp keys q' \<and> queue_contents q' = add_mset e (queue_contents q) \<and>
            q_elements q' = q_elements q + 1 \<and> same_queue q q')) \<and>
     (\<forall>keys q. heap_from 2 cmp keys q \<and> q_elements q \<noteq> 0 \<longrightarrow>
        (let q' = downheap Q cmp keys 1 q
         in heap_from 1 cmp keys q' \<and> queue_contents q' = queue_contents q \<and>
            q_elements q' = q_elements q \<and> same_queue q q'))"

lemma below_order:
  assumes "key_order cmp"
  shows "below cmp t x x" "below cmp t x y \<Longrightarrow> below cmp t y z \<Longrightarrow> below cmp t x z" "below cmp t x y \<or> below cmp t y x"
  using assms unfolding key_order_def below_def by metis+

lemma heap_top:
  assumes "key_order cmp" "heap_from 1 cmp keys q" "1 \<le> i" "i \<le> unat (q_elements q)"
  shows "below cmp (q_max_at_top q) (keys (q_root q i)) (keys (queue_top q))"
  using assms(3,4)
proof (induction i rule: less_induct)
  case (less i)
  show ?case
  proof (cases "i = 1")
    case False
    then have "1 \<le> i div 2" "i div 2 < i" "i div 2 \<le> unat (q_elements q)" using less.prems by auto
    then show ?thesis using less.IH [of "i div 2"] assms(2) less.prems(2) below_order(2) [OF assms(1)]
      unfolding heap_from_def by blast
  qed (simp add: queue_top_def below_order(1) [OF assms(1)])
qed

section \<open>Keeping the best\<close>

text \<open>Among \<open>seen\<close>, the elements of \<open>kept\<close> are the best: none of the others comes before one of them.\<close>

definition best_of :: "('k \<Rightarrow> 'k \<Rightarrow> int) \<Rightarrow> bool \<Rightarrow> 'k multiset \<Rightarrow> 'k multiset \<Rightarrow> bool" where
  "best_of cmp t kept seen \<longleftrightarrow> kept \<subseteq># seen \<and> (\<forall>x \<in># kept. \<forall>y \<in># seen - kept. below cmp t x y)"

lemma diff_diff_single:
  assumes "B \<subseteq># A" "x \<in># B"
  shows "A - (B - {#x#}) = add_mset x (A - B)"
proof (rule multiset_eqI)
  fix y
  have "count B y \<le> count A y" "0 < count B x" using assms by (simp_all add: mset_subset_eq_count)
  then show "count (A - (B - {#x#})) y = count (add_mset x (A - B)) y" by auto
qed

lemma best_of_replace:
  assumes "key_order cmp" "best_of cmp t T seen" "z \<in># add_mset k T"
    and "\<forall>x \<in># add_mset k T. below cmp t x z"
  shows "best_of cmp t (add_mset k T - {#z#}) (add_mset k seen)"
proof -
  have sub: "add_mset k T \<subseteq># add_mset k seen" using assms(2) by (simp add: best_of_def)
  have rest: "add_mset k seen - (add_mset k T - {#z#}) = add_mset z (seen - T)"
    using diff_diff_single [OF sub assms(3)] by simp
  have "below cmp t x y" if x: "x \<in># add_mset k T - {#z#}" and y: "y \<in># add_mset z (seen - T)" for x y
  proof (cases "y = z")
    case True
    then show ?thesis using assms(4) in_diffD [OF x] by blast
  next
    case False
    then have yr: "y \<in># seen - T" using y by simp
    show ?thesis
    proof (cases "x \<in># T")
      case True
      then show ?thesis using assms(2) yr by (auto simp: best_of_def)
    next
      case xT: False
      then have "x = k" using in_diffD [OF x] by simp
      then have "z \<noteq> k" using x xT by auto
      then have "z \<in># T" using assms(3) by simp
      then have "below cmp t z y" using assms(2) yr by (auto simp: best_of_def)
      then show ?thesis using assms(4) in_diffD [OF x] below_order(2) [OF assms(1)] by blast
    qed
  qed
  moreover have "add_mset k T - {#z#} \<subseteq># add_mset k seen"
    using sub by (meson diff_subset_eq_self subset_mset.order_trans)
  ultimately show ?thesis unfolding best_of_def rest by blast
qed

definition queue_keys :: "'k Bounded_queue \<Rightarrow> 'k multiset" where
  "queue_keys b = image_mset (sort_keys b) (queue_contents (m_queue b))"

definition top_key :: "'k Bounded_queue \<Rightarrow> 'k" where
  "top_key b = sort_keys b (queue_top (m_queue b))"

definition bq_inv :: "('k \<Rightarrow> 'k \<Rightarrow> int) \<Rightarrow> uint \<Rightarrow> bool \<Rightarrow> 'k multiset \<Rightarrow> 'k Bounded_queue \<Rightarrow> bool" where
  "bq_inv cmp n t seen b \<longleftrightarrow>
     key_compare b = cmp \<and> q_max_elements (m_queue b) = n \<and> q_max_at_top (m_queue b) = t \<and>
     heap_from 1 cmp (sort_keys b) (m_queue b) \<and>
     queue_contents (m_queue b) = mset_set {0..<unat (q_elements (m_queue b))} \<and>
     unat (q_elements (m_queue b)) = min (unat n) (size seen) \<and>
     (if size seen < unat n then queue_keys b = seen
      else best_of cmp t (queue_keys b - {#top_key b#}) seen \<and> queue_keys b \<subseteq># seen)"

lemma contents_member: "e \<in># queue_contents q \<longleftrightarrow> (\<exists>i. 1 \<le> i \<and> i \<le> unat (q_elements q) \<and> e = q_root q i)"
  by (auto simp: queue_contents_def image_iff less_Suc_eq_le Bex_def)

lemma size_contents: "size (queue_contents q) = unat (q_elements q)"
  by (simp add: queue_contents_def)

lemma root_distinct:
  assumes "queue_contents q = mset_set {0..<n}" "i \<le> unat (q_elements q)" "j \<le> unat (q_elements q)" "1 \<le> i" "1 \<le> j"
    "q_root q i = q_root q j"
  shows "i = j"
proof -
  have "distinct (map (q_root q) [1..<unat (q_elements q) + 1])"
    using assms(1) unfolding queue_contents_def by (metis distinct_sorted_list_of_set mset_eq_imp_distinct_iff mset_sorted_list_of_multiset sorted_list_of_mset_set)
  then have "inj_on (q_root q) (set [1..<unat (q_elements q) + 1])" unfolding distinct_map by blast
  then show ?thesis using assms(2-) by (elim inj_onD) (auto simp: less_Suc_eq_le)
qed

lemma top_below:
  assumes "key_order cmp" "heap_from 1 cmp (sort_keys b) (m_queue b)" "x \<in># queue_keys b"
  shows "below cmp (q_max_at_top (m_queue b)) x (top_key b)"
  using assms heap_top [OF assms(1,2)] by (auto simp: queue_keys_def top_key_def contents_member)

lemma top_in_keys:
  assumes "q_elements (m_queue b) \<noteq> 0"
  shows "top_key b \<in># queue_keys b"
proof -
  have "0 < unat (q_elements (m_queue b))" using assms by (simp add: unat_gt_0)
  then have "queue_top (m_queue b) \<in># queue_contents (m_queue b)"
    unfolding contents_member queue_top_def by (intro exI [of _ 1]) simp
  then show ?thesis by (simp add: queue_keys_def top_key_def)
qed

lemma heap_keys_cong:
  assumes "heap_from r cmp keys q" "1 \<le> r"
    and "\<And>i. r \<le> i div 2 \<Longrightarrow> i \<le> unat (q_elements q) \<Longrightarrow> keys' (q_root q i) = keys (q_root q i) \<and>
      keys' (q_root q (i div 2)) = keys (q_root q (i div 2))"
  shows "heap_from r cmp keys' q"
  using assms unfolding heap_from_def by simp

lemma push_into_room:
  assumes Q: "queue_ok Q cmp" "key_order cmp" and inv: "bq_inv cmp n t seen b" "n \<noteq> 0" "size seen < unat n"
  shows "\<exists>b'. bq_push Q keymaker e b = Some b' \<and> bq_inv cmp n t (add_mset (keymaker e) seen) b'"
proof -
  let ?q = "m_queue b" and ?k = "keymaker e" and ?m = "unat (q_elements (m_queue b))"
  define keys where "keys = (sort_keys b)(?m := ?k)"
  define q' where "q' = queue_insert Q cmp keys ?m ?q"
  define b' where "b' = b\<lparr>sort_keys := keys, m_queue := q'\<rparr>"
  have i: "key_compare b = cmp" "q_max_elements ?q = n" "q_max_at_top ?q = t" "heap_from 1 cmp (sort_keys b) ?q"
    "queue_contents ?q = mset_set {0..<?m}" "?m = size seen" "queue_keys b = seen"
    using inv by (auto simp: bq_inv_def)
  have room: "q_elements ?q < q_max_elements ?q" using i(2,6) inv(3) by (simp add: word_less_nat_alt)
  have fresh: "q_root ?q j \<noteq> ?m" if "1 \<le> j" "j \<le> ?m" for j
  proof -
    have "q_root ?q j \<in># queue_contents ?q" using that contents_member by blast
    then show ?thesis by (auto simp: i(5))
  qed
  have "heap_from 1 cmp keys ?q" by (rule heap_keys_cong [OF i(4)]) (auto simp: keys_def fresh)
  then have q': "heap_from 1 cmp keys q'" "queue_contents q' = add_mset ?m (queue_contents ?q)"
    "q_elements q' = q_elements ?q + 1" "same_queue ?q q'"
    using Q(1) room unfolding queue_ok_def q'_def by (metis (no_types, lifting))+
  have el: "unat (q_elements q') = ?m + 1"
    using room unat_word_ariths(1) [of "q_elements ?q" 1] q'(3) unsigned_less [of n, where ?'a = nat] i(2)
    by (simp add: word_less_nat_alt)
  have push: "bq_push Q keymaker e b = Some b'"
    using room inv(2) i(1,2) by (auto simp: bq_push_def is_initialized_def queue_is_full_def Let_def b'_def q'_def keys_def word_gt_0)
  have "image_mset keys (queue_contents ?q) = image_mset (sort_keys b) (queue_contents ?q)"
    by (rule image_mset_cong) (auto simp: keys_def i(5))
  then have K: "queue_keys b' = add_mset ?k seen" using i(7) q'(2) by (simp add: queue_keys_def b'_def keys_def)
  have b': "heap_from 1 cmp (sort_keys b') (m_queue b')" "q_elements (m_queue b') \<noteq> 0" "q_max_at_top (m_queue b') = t"
    using q' el i(3) unat_eq_0 [of "q_elements q'"] by (auto simp: b'_def same_queue_def)
  have "best_of cmp t (add_mset ?k seen - {#top_key b'#}) (add_mset ?k seen)"
    using top_below [OF Q(2) b'(1)] top_in_keys [OF b'(2)] b'(3) diff_diff_single [of "add_mset ?k seen" "add_mset ?k seen" "top_key b'"]
    by (auto simp: best_of_def K dest: in_diffD)
  moreover have "queue_contents q' = mset_set {0..<unat (q_elements q')}"
    using q'(2) i(5) el by (simp add: atLeast0_lessThan_Suc)
  ultimately have "bq_inv cmp n t (add_mset ?k seen) b'"
    using i q' el inv(3) K unfolding bq_inv_def by (auto simp: b'_def same_queue_def)
  then show ?thesis using push by blast
qed

lemma image_update_one:
  "s \<in> A \<Longrightarrow> finite A \<Longrightarrow>
   image_mset (f(s := k)) (mset_set A) = add_mset k (image_mset f (mset_set A) - {#f s#})"
proof -
  assume A: "s \<in> A" "finite A"
  then have "mset_set A = add_mset s (mset_set (A - {s}))" by (simp add: mset_set.remove)
  moreover have "image_mset (f(s := k)) (mset_set (A - {s})) = image_mset f (mset_set (A - {s}))"
    by (rule image_mset_cong) (use A in auto)
  ultimately show ?thesis by simp
qed

lemma push_when_full:
  assumes Q: "queue_ok Q cmp" "key_order cmp" and inv: "bq_inv cmp n t seen b" "n \<noteq> 0" "\<not> size seen < unat n"
  shows "\<exists>b'. bq_push Q keymaker e b = Some b' \<and> bq_inv cmp n t (add_mset (keymaker e) seen) b'"
proof -
  let ?q = "m_queue b" and ?k = "keymaker e" and ?m = "unat (q_elements (m_queue b))" and ?top = "queue_top (m_queue b)"
  define keys where "keys = (sort_keys b)(?top := ?k)"
  define q' where "q' = downheap Q cmp keys 1 ?q"
  define b' where "b' = b\<lparr>sort_keys := keys, m_queue := q'\<rparr>"
  define T where "T = queue_keys b - {#top_key b#}"
  have i: "key_compare b = cmp" "q_max_elements ?q = n" "q_max_at_top ?q = t" "heap_from 1 cmp (sort_keys b) ?q"
    "queue_contents ?q = mset_set {0..<?m}" "?m = unat n" "best_of cmp t T seen"
    using inv by (auto simp: bq_inv_def T_def)
  have full: "q_elements ?q = q_max_elements ?q" using i(2,6) by (simp add: word_unat_eq_iff)
  have m: "1 \<le> ?m" "q_elements ?q \<noteq> 0" using full i(2) inv(2) by (simp_all add: Suc_le_eq unat_gt_0)
  have others: "q_root ?q j \<noteq> ?top" if "2 \<le> j" "j \<le> ?m" for j
    using root_distinct [OF i(5), of j 1] that m(1) by (auto simp: queue_top_def)
  have "heap_from 2 cmp (sort_keys b) ?q" using i(4) by (simp add: heap_from_def)
  then have "heap_from 2 cmp keys ?q"
    by (rule heap_keys_cong) (use others in \<open>auto simp: keys_def\<close>)
  then have q': "heap_from 1 cmp keys q'" "queue_contents q' = queue_contents ?q" "q_elements q' = q_elements ?q" "same_queue ?q q'"
    using Q(1) m(2) unfolding queue_ok_def q'_def by (metis (no_types, lifting))+
  have push: "bq_push Q keymaker e b = Some b'"
    using full inv(2) i(1,2)
    by (simp add: bq_push_def is_initialized_def queue_is_full_def queue_replace_top_def Let_def b'_def q'_def keys_def word_gt_0)
  have "?top \<in># queue_contents ?q" unfolding contents_member queue_top_def using m(1) by (intro exI [of _ 1]) simp
  then have "?top \<in> {0..<?m}" by (simp add: i(5))
  then have K: "queue_keys b' = add_mset ?k T"
    using q'(2) i(5) image_update_one [of ?top "{0..<?m}" "sort_keys b" ?k]
    by (simp add: queue_keys_def b'_def keys_def T_def top_key_def)
  have b': "heap_from 1 cmp (sort_keys b') (m_queue b')" "q_elements (m_queue b') \<noteq> 0" "q_max_at_top (m_queue b') = t"
    using q' m(2) i(3) by (auto simp: b'_def same_queue_def)
  have "best_of cmp t (queue_keys b' - {#top_key b'#}) (add_mset ?k seen)"
    unfolding K using best_of_replace [OF Q(2) i(7)] top_below [OF Q(2) b'(1)] top_in_keys [OF b'(2)] b'(3) K by simp
  moreover have "queue_keys b' \<subseteq># add_mset ?k seen" using i(7) by (simp add: K best_of_def)
  ultimately have "bq_inv cmp n t (add_mset ?k seen) b'"
    using i q' inv(3) by (auto simp: bq_inv_def b'_def same_queue_def)
  then show ?thesis using push by blast
qed

lemma pushes_inv:
  assumes "queue_ok Q cmp" "key_order cmp" "bq_inv cmp n t seen b" "n \<noteq> 0"
  shows "\<exists>b'. bq_pushes Q keymaker es b = Some b' \<and> bq_inv cmp n t (seen + mset (map keymaker es)) b'"
  using assms(3)
proof (induction es arbitrary: b seen)
  case (Cons e es)
  obtain b1 where "bq_push Q keymaker e b = Some b1" "bq_inv cmp n t (add_mset (keymaker e) seen) b1"
    using push_into_room [OF assms(1,2) Cons.prems assms(4), of keymaker e]
      push_when_full [OF assms(1,2) Cons.prems assms(4), of keymaker e] by metis
  moreover obtain b' where "bq_pushes Q keymaker es b1 = Some b'"
    "bq_inv cmp n t (add_mset (keymaker e) seen + mset (map keymaker es)) b'"
    using Cons.IH [OF calculation(2)] by blast
  ultimately show ?case by simp
qed simp

section \<open>Property\<close>

text \<open>
  C30. After an initialisation for \<open>n\<close> elements that succeeds, any sequence of pushes goes through. As
  long as at most \<open>n\<close> elements were pushed, the queue has the keys of all of them; after that, apart
  from the one extra element on its top, it has \<open>n\<close> of the keys, the best of all that were pushed:
  the smallest ones if the biggest is kept on top, otherwise the biggest. For \<open>UINT_MAX - 1\<close>
  elements and more the initialisation fails.
\<close>

theorem bounded_queue_keeps_best:
  assumes "queue_ok Q (case compare of None \<Rightarrow> get_ptr_compare Q len | Some f \<Rightarrow> f)"
    and "key_order (case compare of None \<Rightarrow> get_ptr_compare Q len | Some f \<Rightarrow> f)"
  shows "(n \<ge> UINT_MAX - 1 \<longrightarrow> fst (bq_init Q n max_top compare len keys b)) \<and>
    (\<not> fst (bq_init Q n max_top compare len keys b) \<longrightarrow>
      (\<exists>b'. bq_pushes Q keymaker es (snd (bq_init Q n max_top compare len keys b)) = Some b' \<and>
        unat (num_elements b') = min (unat n + 1) (length es) \<and>
        (if length es \<le> unat n then queue_keys b' = mset (map keymaker es)
         else size (queue_keys b' - {#top_key b'#}) = unat n \<and>
           best_of (case compare of None \<Rightarrow> get_ptr_compare Q len | Some f \<Rightarrow> f) max_top
             (queue_keys b' - {#top_key b'#}) (mset (map keymaker es)))))"
proof (intro conjI impI)
  show "fst (bq_init Q n max_top compare len keys b)" if "n \<ge> UINT_MAX - 1" using that by (simp add: bq_init_def)
  let ?cmp = "case compare of None \<Rightarrow> get_ptr_compare Q len | Some f \<Rightarrow> f"
  assume ok: "\<not> fst (bq_init Q n max_top compare len keys b)"
  let ?b = "snd (bq_init Q n max_top compare len keys b)" and ?w = "ucast n + 1 :: uint"
  have n: "unat n < 4294967294" using ok by (auto simp: bq_init_def UINT_MAX_def word_le_nat_alt Let_def split: if_splits)
  then have w: "unat ?w = unat n + 1"
    by (simp add: unat_word_ariths unsigned_ucast_eq take_bit_nat_eq_self)
  obtain q where q: "init_queue Q ?w max_top = (False, q)" "m_queue ?b = q" "key_compare ?b = ?cmp"
    using ok by (auto simp: bq_init_def Let_def split: if_splits prod.splits)
  then have "q_elements q = 0" "q_max_elements q = ?w" "q_max_at_top q = max_top"
    using assms(1) unfolding queue_ok_def by (metis fst_conv snd_conv)+
  then have "bq_inv ?cmp ?w max_top {#} ?b"
    using q w by (simp add: bq_inv_def heap_from_def queue_contents_def queue_keys_def)
  moreover have "?w \<noteq> 0" using w by (metis add_is_0 one_neq_zero unat_0)
  ultimately obtain b' where b': "bq_pushes Q keymaker es ?b = Some b'"
    "bq_inv ?cmp ?w max_top (mset (map keymaker es)) b'"
    using pushes_inv [OF assms, of ?w max_top "{#}" ?b keymaker es] by auto
  then have el: "unat (num_elements b') = min (unat n + 1) (length es)"
    using w by (simp add: bq_inv_def num_elements_def)
  have "size (queue_keys b' - {#top_key b'#}) = unat n" if "\<not> length es \<le> unat n"
  proof -
    have "size (queue_keys b') = unat n + 1" using el that by (simp add: queue_keys_def size_contents num_elements_def)
    moreover have "q_elements (m_queue b') \<noteq> 0" using el that by (auto simp: num_elements_def)
    ultimately show ?thesis using top_in_keys [of b'] by (simp add: size_Diff_singleton)
  qed
  then show "\<exists>b'. bq_pushes Q keymaker es ?b = Some b' \<and> unat (num_elements b') = min (unat n + 1) (length es) \<and>
      (if length es \<le> unat n then queue_keys b' = mset (map keymaker es)
       else size (queue_keys b' - {#top_key b'#}) = unat n \<and>
         best_of ?cmp max_top (queue_keys b' - {#top_key b'#}) (mset (map keymaker es)))"
    using b' el w by (intro exI [of _ b']) (auto simp: bq_inv_def)
qed

text \<open>A queue that keeps its array sorted fulfils the contract.\<close>

definition num_cmp :: "nat \<Rightarrow> nat \<Rightarrow> int" where
  "num_cmp x y = int x - int y"

definition arranged :: "bool \<Rightarrow> (nat \<Rightarrow> nat) \<Rightarrow> nat list \<Rightarrow> nat list" where
  "arranged t keys xs = (if t then rev (sort_key keys xs) else sort_key keys xs)"

definition sorted_queue :: "(nat \<Rightarrow> nat) \<Rightarrow> nat list \<Rightarrow> st_queue \<Rightarrow> st_queue" where
  "sorted_queue keys xs q =
     q\<lparr>q_root := (\<lambda>i. arranged (q_max_at_top q) keys xs ! (i - 1)), q_elements := of_nat (length xs)\<rparr>"

definition root_list :: "st_queue \<Rightarrow> nat list" where
  "root_list q = map (q_root q) [1..<unat (q_elements q) + 1]"

definition sorted_queue_ops :: "nat queue_ops" where
  "sorted_queue_ops = \<lparr>
     init_queue = (\<lambda>n t. (False, \<lparr>q_root = (\<lambda>_. 0), q_elements = 0, q_max_elements = n, q_max_at_top = t\<rparr>)),
     queue_insert = (\<lambda>cmp keys e q. sorted_queue keys (e # root_list q) q),
     downheap = (\<lambda>cmp keys i q. sorted_queue keys (root_list q) q),
     queue_remove = (\<lambda>cmp keys i q. (q_root q i, q)),
     get_ptr_compare = (\<lambda>len. num_cmp)\<rparr>"

lemma arranged_props [simp]: "length (arranged t keys xs) = length xs" "mset (arranged t keys xs) = mset xs"
  by (simp_all add: arranged_def)

lemma arranged_below:
  assumes "i \<le> j" "j < length xs"
  shows "below num_cmp t (keys (arranged t keys xs ! j)) (keys (arranged t keys xs ! i))"
proof -
  let ?l = "sort_key keys xs"
  have s: "keys (?l ! a) \<le> keys (?l ! b)" if "a \<le> b" "b < length xs" for a b
    using sorted_nth_mono [OF sorted_sort_key [of keys xs], of a b] that by simp
  show ?thesis
    using s [of i j] s [of "length xs - Suc j" "length xs - Suc i"] assms
    by (auto simp: arranged_def below_def num_cmp_def rev_nth)
qed

lemma sorted_queue_ok:
  assumes "length xs < 2 ^ 32"
  shows "heap_from 1 num_cmp keys (sorted_queue keys xs q) \<and> queue_contents (sorted_queue keys xs q) = mset xs \<and>
    unat (q_elements (sorted_queue keys xs q)) = length xs \<and> same_queue q (sorted_queue keys xs q)"
proof -
  have n: "unat (of_nat (length xs) :: uint) = length xs"
    using assms by (simp add: unsigned_of_nat take_bit_nat_eq_self)
  have "heap_from 1 num_cmp keys (sorted_queue keys xs q)"
    unfolding heap_from_def by (auto simp: sorted_queue_def n intro!: arranged_below)
  moreover have "map (q_root (sorted_queue keys xs q)) [1..<length xs + 1] = arranged (q_max_at_top q) keys xs"
    by (rule nth_equalityI) (auto simp: sorted_queue_def simp del: upt_Suc)
  then have "queue_contents (sorted_queue keys xs q) = mset xs"
    by (simp add: queue_contents_def sorted_queue_def n)
  ultimately show ?thesis by (simp add: sorted_queue_def n same_queue_def)
qed

lemma sorted_insert_ok:
  assumes "q_elements q < q_max_elements q"
  shows "heap_from 1 num_cmp keys (sorted_queue keys (e # root_list q) q) \<and>
    queue_contents (sorted_queue keys (e # root_list q) q) = add_mset e (queue_contents q) \<and>
    q_elements (sorted_queue keys (e # root_list q) q) = q_elements q + 1 \<and>
    same_queue q (sorted_queue keys (e # root_list q) q)"
proof -
  have "unat (q_elements q) < unat (q_max_elements q)" using assms by (simp add: word_less_nat_alt)
  then have "length (e # root_list q) < 2 ^ 32"
    using unsigned_less [of "q_max_elements q", where ?'a = nat] by (simp add: root_list_def)
  from sorted_queue_ok [OF this, of keys q]
  have "heap_from 1 num_cmp keys (sorted_queue keys (e # root_list q) q)"
    "queue_contents (sorted_queue keys (e # root_list q) q) = mset (e # root_list q)"
    "same_queue q (sorted_queue keys (e # root_list q) q)" by blast+
  moreover have "mset (e # root_list q) = add_mset e (queue_contents q)"
    by (simp add: root_list_def queue_contents_def not_le del: upt_Suc)
  moreover have "q_elements (sorted_queue keys (e # root_list q) q) = q_elements q + 1"
    by (simp add: sorted_queue_def root_list_def not_le unat_eq_0)
  ultimately show ?thesis by simp
qed

lemma sorted_downheap_ok:
  "heap_from 1 num_cmp keys (sorted_queue keys (root_list q) q) \<and>
   queue_contents (sorted_queue keys (root_list q) q) = queue_contents q \<and>
   q_elements (sorted_queue keys (root_list q) q) = q_elements q \<and> same_queue q (sorted_queue keys (root_list q) q)"
proof -
  have "length (root_list q) < 2 ^ 32"
    using unsigned_less [of "q_elements q", where ?'a = nat] by (simp add: root_list_def)
  from sorted_queue_ok [OF this, of keys q]
  have "heap_from 1 num_cmp keys (sorted_queue keys (root_list q) q)"
    "queue_contents (sorted_queue keys (root_list q) q) = mset (root_list q)"
    "same_queue q (sorted_queue keys (root_list q) q)" by blast+
  moreover have "mset (root_list q) = queue_contents q" by (simp add: root_list_def queue_contents_def del: upt_Suc)
  moreover have "q_elements (sorted_queue keys (root_list q) q) = q_elements q"
    by (simp add: sorted_queue_def root_list_def not_le unat_eq_0)
  ultimately show ?thesis by simp
qed

lemma sorted_queue_ops_ok: "queue_ok sorted_queue_ops num_cmp"
  unfolding queue_ok_def Let_def
proof (intro conjI allI impI)
  fix keys e q assume "heap_from 1 num_cmp keys q \<and> q_elements q < q_max_elements q"
  then have "q_elements q < q_max_elements q" by blast
  from sorted_insert_ok [OF this, of keys e]
  show "heap_from 1 num_cmp keys (queue_insert sorted_queue_ops num_cmp keys e q)"
    "queue_contents (queue_insert sorted_queue_ops num_cmp keys e q) = add_mset e (queue_contents q)"
    "q_elements (queue_insert sorted_queue_ops num_cmp keys e q) = q_elements q + 1"
    "same_queue q (queue_insert sorted_queue_ops num_cmp keys e q)"
    by (simp_all add: sorted_queue_ops_def)
next
  fix keys q
  from sorted_downheap_ok [of keys q]
  show "heap_from 1 num_cmp keys (downheap sorted_queue_ops num_cmp keys 1 q)"
    "queue_contents (downheap sorted_queue_ops num_cmp keys 1 q) = queue_contents q"
    "q_elements (downheap sorted_queue_ops num_cmp keys 1 q) = q_elements q"
    "same_queue q (downheap sorted_queue_ops num_cmp keys 1 q)"
    by (simp_all add: sorted_queue_ops_def)
qed (simp_all add: sorted_queue_ops_def)

lemma num_cmp_order: "key_order num_cmp"
  by (auto simp: key_order_def num_cmp_def)

text \<open>The pushed numbers are their own keys; the two smallest of four are kept.\<close>

definition witness_queue :: "nat Bounded_queue" where
  "witness_queue = \<lparr>sort_keys = \<lambda>_. 0, m_compare_length = 0, key_compare = num_cmp,
     m_queue = \<lparr>q_root = (\<lambda>_. 0), q_elements = 0, q_max_elements = 0, q_max_at_top = False\<rparr>\<rparr>"

theorem bounded_queue_keeps_best_witness:
  "\<exists>b'. bq_pushes sorted_queue_ops id [5, 3, 9, 1]
      (snd (bq_init sorted_queue_ops 2 True None 8 (\<lambda>_. 0) witness_queue)) = Some b' \<and>
    size (queue_keys b' - {#top_key b'#}) = 2 \<and> best_of num_cmp True (queue_keys b' - {#top_key b'#}) {#5, 3, 9, 1#}"
proof -
  have c: "get_ptr_compare sorted_queue_ops 8 = num_cmp" by (simp add: sorted_queue_ops_def)
  have "\<not> fst (bq_init sorted_queue_ops 2 True None 8 (\<lambda>_. 0) witness_queue)"
    by (simp add: bq_init_def UINT_MAX_def sorted_queue_ops_def Let_def)
  then have "\<exists>b'. bq_pushes sorted_queue_ops id [5, 3, 9, 1]
      (snd (bq_init sorted_queue_ops 2 True None 8 (\<lambda>_. 0) witness_queue)) = Some b' \<and>
    unat (num_elements b') = 3 \<and>
    size (queue_keys b' - {#top_key b'#}) = 2 \<and> best_of num_cmp True (queue_keys b' - {#top_key b'#}) {#5, 3, 9, 1#}"
    using bounded_queue_keeps_best [where Q = sorted_queue_ops and compare = None and len = 8 and n = 2 and
        max_top = True and keys = "\<lambda>_. 0" and b = witness_queue and keymaker = id and es = "[5, 3, 9, 1]"]
      sorted_queue_ops_ok num_cmp_order
    by (simp add: c numeral_3_eq_3 del: bq_pushes.simps)
  then show ?thesis by blast
qed

end
