(* ===== verification/Thread_Cache.thy ===== *)
theory Thread_Cache
  imports My_Bit
begin

text \<open>
  The cache of server threads of \<open>thread_cache.h\<close>: a thread that has served its connection parks in
  the cache and waits for the next one. The critical sections of \<open>enqueue\<close>, \<open>park\<close> and \<open>flush\<close> are
  functions on the object; the threads that interleave them, and the two condition variables they
  wait for, are a step relation. A wait may end at any time, by a signal, by its timeout or for no
  reason, as the condition variables of the platform allow.
\<close>

section \<open>The object and its critical sections\<close>

text \<open>Connections are numbers; the list of requests is the sequence that \<open>I_List\<close> implements.\<close>

record Thread_cache =
  requests :: "nat list"
  cached_thread_count :: uint
  kill_cached_threads :: uint

definition tc_init :: Thread_cache where
  "tc_init = \<lparr>requests = [], cached_thread_count = 0, kill_cached_threads = 0\<rparr>"

definition tc_destroy_allowed :: "Thread_cache \<Rightarrow> bool" where
  "tc_destroy_allowed c \<longleftrightarrow> cached_thread_count c = 0 \<and> requests c = []"

definition tc_enqueue :: "nat \<Rightarrow> Thread_cache \<Rightarrow> bool \<times> Thread_cache" where
  "tc_enqueue connect c =
     (if cached_thread_count c \<noteq> 0
      then (True, c\<lparr>requests := requests c @ [connect], cached_thread_count := cached_thread_count c - 1\<rparr>)
      else (False, c))"

text \<open>A thread in \<open>park\<close> returns with a connection or without one, or sleeps on the condition.\<close>

datatype parking = Returns "nat option" | Sleeps

definition park_begin :: "uint \<Rightarrow> Thread_cache \<Rightarrow> parking \<times> Thread_cache" where
  "park_begin thread_cache_size c =
     (case requests c of
        connect # rest \<Rightarrow>
          (Returns (Some connect), c\<lparr>requests := rest, cached_thread_count := cached_thread_count c + 1\<rparr>)
      | [] \<Rightarrow>
          if cached_thread_count c < thread_cache_size \<and> kill_cached_threads c = 0
          then (Sleeps, c\<lparr>cached_thread_count := cached_thread_count c + 1\<rparr>)
          else (Returns None, c))"

text \<open>One round of the loop in \<open>park\<close>, after the wait: the flag says whether the wait timed out, and
  the middle component is \<open>flushed\<close>.\<close>

definition park_wake :: "bool \<Rightarrow> Thread_cache \<Rightarrow> parking \<times> bool \<times> Thread_cache" where
  "park_wake timedout c =
     (let flushed = kill_cached_threads c \<noteq> 0
      in case requests c of
           connect # rest \<Rightarrow> (Returns (Some connect), flushed, c\<lparr>requests := rest\<rparr>)
         | [] \<Rightarrow>
             if flushed \<or> timedout
             then (Returns None, flushed, c\<lparr>cached_thread_count := cached_thread_count c - 1\<rparr>)
             else (Sleeps, flushed, c))"

definition flush_begin :: "Thread_cache \<Rightarrow> Thread_cache" where
  "flush_begin c = c\<lparr>kill_cached_threads := kill_cached_threads c + 1\<rparr>"

text \<open>The test of the loop in \<open>flush\<close>: true if it waits (after a broadcast), false if it leaves.\<close>

definition flush_test :: "Thread_cache \<Rightarrow> bool \<times> Thread_cache" where
  "flush_test c =
     (if cached_thread_count c \<noteq> 0 then (True, c)
      else (False, c\<lparr>kill_cached_threads := kill_cached_threads c - 1\<rparr>))"

definition final_flush_begin :: "Thread_cache \<Rightarrow> Thread_cache" where
  "final_flush_begin c = c\<lparr>kill_cached_threads := kill_cached_threads c + 1\<rparr>"

definition tc_size :: "Thread_cache \<Rightarrow> uint" where
  "tc_size c = cached_thread_count c"

section \<open>Threads and condition variables\<close>

text \<open>
  Threads asleep on \<open>COND_thread_cache\<close> and threads whose wait has ended and that compete for the
  mutex; the same for callers of \<open>flush\<close> and \<open>COND_flush_thread_cache\<close>; the signals that were sent
  after the mutex was released and have not arrived; and as a history the connections accepted and
  the connections served. \<open>final_flush\<close> is its increment, which it makes without the mutex, followed by
  a call of \<open>flush\<close>; the size of the cache is a server variable that may differ at every step.
\<close>

record cache_system =
  tc :: Thread_cache
  asleep :: "nat list"
  awake :: "nat list"
  signals :: nat
  flush_asleep :: "nat list"
  flush_awake :: "nat list"
  flush_signals :: nat
  accepted :: "nat list"
  served :: "nat list"

definition cache_start :: cache_system where
  "cache_start = \<lparr>tc = tc_init, asleep = [], awake = [], signals = 0, flush_asleep = [],
     flush_awake = [], flush_signals = 0, accepted = [], served = []\<rparr>"

definition serve :: "nat option \<Rightarrow> cache_system \<Rightarrow> cache_system" where
  "serve co s = (case co of None \<Rightarrow> s | Some connect \<Rightarrow> s\<lparr>served := served s @ [connect]\<rparr>)"

definition enter_flush :: "nat \<Rightarrow> cache_system \<Rightarrow> cache_system" where
  "enter_flush f s =
     (case flush_test (tc s) of
        (True, c) \<Rightarrow> s\<lparr>tc := c, awake := awake s @ asleep s, asleep := [], flush_asleep := f # flush_asleep s\<rparr>
      | (False, c) \<Rightarrow> s\<lparr>tc := c\<rparr>)"

datatype cache_event = Enqueue nat bool | Park nat | Signal nat | Signal_lost | Timeout nat | Wake nat
  | Flush nat | Flush_signal nat | Flush_signal_lost | Flush_wake nat | Flush_spurious nat | Final_flush

inductive cache_step :: "cache_system \<Rightarrow> cache_event \<Rightarrow> cache_system \<Rightarrow> bool" where
  enqueue_accepted: "tc_enqueue connect (tc s) = (True, c) \<Longrightarrow>
     cache_step s (Enqueue connect True)
       (s\<lparr>tc := c, signals := signals s + 1, accepted := accepted s @ [connect]\<rparr>)"
| enqueue_refused: "tc_enqueue connect (tc s) = (False, c) \<Longrightarrow>
     cache_step s (Enqueue connect False) (s\<lparr>tc := c\<rparr>)"
| park_return: "park_begin thread_cache_size (tc s) = (Returns co, c) \<Longrightarrow>
     cache_step s (Park t) (serve co (s\<lparr>tc := c\<rparr>))"
| park_sleep: "park_begin thread_cache_size (tc s) = (Sleeps, c) \<Longrightarrow>
     cache_step s (Park t) (s\<lparr>tc := c, asleep := t # asleep s\<rparr>)"
| signal: "signals s \<noteq> 0 \<Longrightarrow> t \<in> set (asleep s) \<Longrightarrow>
     cache_step s (Signal t) (s\<lparr>signals := signals s - 1, asleep := remove1 t (asleep s), awake := awake s @ [t]\<rparr>)"
| signal_lost: "signals s \<noteq> 0 \<Longrightarrow> asleep s = [] \<Longrightarrow>
     cache_step s Signal_lost (s\<lparr>signals := signals s - 1\<rparr>)"
| timeout: "t \<in> set (asleep s) \<Longrightarrow>
     cache_step s (Timeout t) (s\<lparr>asleep := remove1 t (asleep s), awake := awake s @ [t]\<rparr>)"
| wake_return: "t \<in> set (awake s) \<Longrightarrow> park_wake timedout (tc s) = (Returns co, flushed, c) \<Longrightarrow>
     cache_step s (Wake t) (serve co (s\<lparr>tc := c, awake := remove1 t (awake s),
       flush_signals := flush_signals s + (if flushed then 1 else 0)\<rparr>))"
| wake_sleep: "t \<in> set (awake s) \<Longrightarrow> park_wake timedout (tc s) = (Sleeps, flushed, c) \<Longrightarrow>
     cache_step s (Wake t) (s\<lparr>tc := c, awake := remove1 t (awake s), asleep := t # asleep s\<rparr>)"
| flush: "cache_step s (Flush f) (enter_flush f (s\<lparr>tc := flush_begin (tc s)\<rparr>))"
| flush_signal: "flush_signals s \<noteq> 0 \<Longrightarrow> f \<in> set (flush_asleep s) \<Longrightarrow>
     cache_step s (Flush_signal f) (s\<lparr>flush_signals := flush_signals s - 1,
       flush_asleep := remove1 f (flush_asleep s), flush_awake := flush_awake s @ [f]\<rparr>)"
| flush_signal_lost: "flush_signals s \<noteq> 0 \<Longrightarrow> flush_asleep s = [] \<Longrightarrow>
     cache_step s Flush_signal_lost (s\<lparr>flush_signals := flush_signals s - 1\<rparr>)"
| flush_wake: "f \<in> set (flush_awake s) \<Longrightarrow>
     cache_step s (Flush_wake f) (enter_flush f (s\<lparr>flush_awake := remove1 f (flush_awake s)\<rparr>))"
| flush_spurious: "f \<in> set (flush_asleep s) \<Longrightarrow>
     cache_step s (Flush_spurious f)
       (s\<lparr>flush_asleep := remove1 f (flush_asleep s), flush_awake := flush_awake s @ [f]\<rparr>)"
| final_flush: "cache_step s Final_flush (s\<lparr>tc := final_flush_begin (tc s)\<rparr>)"

inductive cache_runs :: "cache_system \<Rightarrow> cache_event list \<Rightarrow> cache_system \<Rightarrow> bool" where
  runs_Nil: "cache_runs s [] s"
| runs_snoc: "cache_runs s es s' \<Longrightarrow> cache_step s' e s'' \<Longrightarrow> cache_runs s (es @ [e]) s''"


section \<open>Accounting\<close>

text \<open>
  Every parked thread is counted once: as a cached thread, or as the thread that owes its waking to
  a request in the list. A request in the list always has a thread that is awake, or a signal that
  is still on its way.
\<close>

definition cache_inv :: "cache_system \<Rightarrow> bool" where
  "cache_inv s \<longleftrightarrow>
     length (asleep s) + length (awake s) = unat (cached_thread_count (tc s)) + length (requests (tc s)) \<and>
     length (asleep s) + length (awake s) < 2 ^ 32 \<and>
     length (requests (tc s)) \<le> length (awake s) + signals s \<and>
     accepted s = served s @ requests (tc s)"

named_theorems cache_defs

lemmas [cache_defs] = tc_enqueue_def park_begin_def park_wake_def flush_begin_def flush_test_def
  final_flush_begin_def serve_def enter_flush_def Let_def

lemma unat_dec: "w \<noteq> 0 \<Longrightarrow> unat (w - 1) = unat w - 1" for w :: uint
  by (metis unat_minus_one)

lemma unat_inc: "unat w + 1 < 2 ^ 32 \<Longrightarrow> unat (w + 1) = unat w + 1" for w :: uint
  by (simp add: unat_word_ariths)

lemma unat_uint_bound: "unat w < 4294967296" for w :: uint
  using unsigned_less [of w, where ?'a = nat] by simp

inductive_simps wakes_simps: "cache_step s (Wake t) s'"
inductive_cases cache_stepE: "cache_step s e s'"

lemma length_remove1_mem: "t \<in> set xs \<Longrightarrow> Suc (length (remove1 t xs)) = length xs"
  using length_pos_if_in_set [of t xs] by (simp add: length_remove1)

lemma enter_flush_inv: "cache_inv s \<Longrightarrow> cache_inv (enter_flush f s)"
  by (cases "cached_thread_count (tc s) = 0") (simp_all add: cache_inv_def enter_flush_def flush_test_def)

lemma cache_inv_start: "cache_inv cache_start"
  by (simp add: cache_inv_def cache_start_def tc_init_def)

lemma cache_step_inv: "cache_step s e s' \<Longrightarrow> cache_inv s \<Longrightarrow> cache_inv s'"
proof (induction rule: cache_step.induct)
  case (enqueue_accepted connect s c)
  then have "unat (cached_thread_count (tc s) - 1) = unat (cached_thread_count (tc s)) - 1"
    "0 < unat (cached_thread_count (tc s))"
    by (auto simp: tc_enqueue_def unat_dec unat_gt_0 split: if_splits)
  then show ?case using enqueue_accepted by (auto simp: tc_enqueue_def cache_inv_def split: if_splits)
next
  case (park_return size s co c t)
  then show ?case
    by (auto simp: park_begin_def serve_def cache_inv_def unat_inc split: if_splits list.splits)
next
  case (park_sleep size s c t)
  then have c: "requests (tc s) = []" "cached_thread_count (tc s) < size"
    "c = tc s\<lparr>cached_thread_count := cached_thread_count (tc s) + 1\<rparr>"
    by (auto simp: cache_defs split: if_splits list.splits)
  have "unat (cached_thread_count (tc s)) + 1 < 2 ^ 32"
    using c(2) unat_uint_bound [of size] by (simp add: word_less_nat_alt)
  then show ?case using park_sleep.prems c by (simp add: cache_inv_def unat_inc)
next
  case (wake_return t s timedout co flushed c)
  have t: "Suc (length (remove1 t (awake s))) = length (awake s)" using wake_return(1) by (rule length_remove1_mem)
  show ?case
  proof (cases "requests (tc s)")
    case Nil
    then have "0 < unat (cached_thread_count (tc s))" using wake_return.prems t by (simp add: cache_inv_def)
    then have "unat (cached_thread_count (tc s) - 1) = unat (cached_thread_count (tc s)) - 1"
      by (intro unat_dec) auto
    moreover from Nil wake_return(2) have "co = None"
      "c = tc s\<lparr>cached_thread_count := cached_thread_count (tc s) - 1\<rparr>"
      by (simp_all add: park_wake_def Let_def split: if_splits)
    moreover have "length (asleep s) + length (remove1 t (awake s)) = unat (cached_thread_count (tc s)) - 1"
      "length (asleep s) + length (remove1 t (awake s)) < 2 ^ 32"
      using Nil wake_return.prems t by (simp_all only: cache_inv_def list.size add_0_right, linarith+)
    ultimately show ?thesis using Nil wake_return.prems by (simp add: cache_inv_def serve_def)
  next
    case (Cons connect rest)
    with wake_return(2) have "co = Some connect" "c = tc s\<lparr>requests := rest\<rparr>"
      by (simp_all add: park_wake_def Let_def)
    then show ?thesis using Cons wake_return.prems t by (simp add: cache_inv_def serve_def)
  qed
next
  case (signal s t)
  then show ?case using length_remove1_mem [OF signal(2)] by (simp add: cache_inv_def)
next
  case (timeout t s)
  then show ?case using length_remove1_mem [OF timeout(1)] by (simp add: cache_inv_def)
next
  case (wake_sleep t s timedout flushed c)
  then show ?case using length_remove1_mem [OF wake_sleep(1)]
    by (simp add: park_wake_def Let_def cache_inv_def split: if_splits list.splits)
next
  case (flush s f)
  then show ?case by (intro enter_flush_inv) (simp add: cache_inv_def flush_begin_def)
next
  case (flush_wake f s)
  then show ?case by (intro enter_flush_inv) (simp add: cache_inv_def)
qed (simp_all add: cache_inv_def tc_enqueue_def final_flush_begin_def split: if_splits)


section \<open>Progress\<close>

text \<open>Steps that the threads of the cache and the delivery of signals make on their own.\<close>

fun of_parked_threads :: "cache_event \<Rightarrow> bool" where
  "of_parked_threads (Wake t) = True"
| "of_parked_threads (Signal t) = True"
| "of_parked_threads Signal_lost = True"
| "of_parked_threads _ = False"

definition cache_busy :: "cache_system \<Rightarrow> nat" where
  "cache_busy s = 2 * signals s + length (awake s)"

lemma serve_fields [simp]:
  "tc (serve co s) = tc s" "asleep (serve co s) = asleep s" "awake (serve co s) = awake s"
  "signals (serve co s) = signals s" "flush_asleep (serve co s) = flush_asleep s"
  "flush_awake (serve co s) = flush_awake s" "flush_signals (serve co s) = flush_signals s"
  "accepted (serve co s) = accepted s"
  by (simp_all add: serve_def split: option.splits)

lemma parked_step_busy: "cache_step s e s' \<Longrightarrow> of_parked_threads e \<Longrightarrow> cache_busy s' < cache_busy s"
  by (induction rule: cache_step.induct)
    (auto simp: cache_busy_def length_remove1 dest: length_pos_if_in_set)

lemma parked_step_accepted: "cache_step s e s' \<Longrightarrow> of_parked_threads e \<Longrightarrow> accepted s' = accepted s"
  by (induction rule: cache_step.induct) auto

lemma parked_runs_busy:
  "cache_runs s es s' \<Longrightarrow> \<forall>e \<in> set es. of_parked_threads e \<Longrightarrow>
   length es + cache_busy s' \<le> cache_busy s \<and> accepted s' = accepted s"
proof (induction rule: cache_runs.induct)
  case (runs_snoc s es s' e s'')
  then show ?case using parked_step_busy [of s' e s''] parked_step_accepted [of s' e s''] by simp
qed simp

lemma cache_runs_inv: "cache_runs s es s' \<Longrightarrow> cache_inv s \<Longrightarrow> cache_inv s'"
  by (induction rule: cache_runs.induct) (auto intro: cache_step_inv)

lemma wake_enabled:
  assumes "t \<in> set (awake s)"
  shows "\<exists>s'. cache_step s (Wake t) s'"
proof -
  have "\<exists>r flushed c. park_wake False (tc s) = (r, flushed, c)" by (metis prod_cases3)
  then obtain r flushed c where w: "park_wake False (tc s) = (r, flushed, c)" by blast
  show ?thesis
  proof (cases r)
    case (Returns co)
    show ?thesis using wake_return [OF assms w [unfolded Returns]] by blast
  next
    case Sleeps
    show ?thesis using wake_sleep [OF assms w [unfolded Sleeps]] by blast
  qed
qed

lemma signal_enabled:
  assumes "signals s \<noteq> 0"
  shows "\<exists>e s'. of_parked_threads e \<and> cache_step s e s'"
proof (cases "asleep s")
  case Nil
  with signal_lost [OF assms this] show ?thesis by (metis of_parked_threads.simps(3))
next
  case (Cons t ts)
  with signal [OF assms, of t] show ?thesis by (metis list.set_intros(1) of_parked_threads.simps(2))
qed

lemma request_progress:
  assumes "cache_inv s" "requests (tc s) \<noteq> []"
  shows "\<exists>e s'. of_parked_threads e \<and> cache_step s e s'"
proof (cases "awake s")
  case Nil
  then have "length (requests (tc s)) \<le> signals s" using assms(1) by (simp add: cache_inv_def)
  moreover have "0 < length (requests (tc s))" using assms(2) by simp
  ultimately have "signals s \<noteq> 0" by linarith
  then show ?thesis by (rule signal_enabled)
next
  case (Cons t ts)
  then obtain s' where "cache_step s (Wake t) s'" using wake_enabled [of t s] by auto
  then show ?thesis by (metis of_parked_threads.simps(1))
qed


section \<open>A flush\<close>

text \<open>
  Runs in which \<open>flush\<close> is called by one caller at a time. As long as that caller waits, no thread
  is asleep, and there is a thread or a signal that will wake it.
\<close>

inductive solo_runs :: "cache_system \<Rightarrow> bool" where
  solo_start: "solo_runs cache_start"
| solo_step: "solo_runs s \<Longrightarrow> cache_step s e s' \<Longrightarrow> e \<noteq> Final_flush \<Longrightarrow>
     (\<forall>f. e = Flush f \<longrightarrow> flush_asleep s @ flush_awake s = []) \<Longrightarrow> solo_runs s'"

definition flush_inv :: "cache_system \<Rightarrow> bool" where
  "flush_inv s \<longleftrightarrow>
     (flush_asleep s @ flush_awake s = [] \<and> kill_cached_threads (tc s) = 0 \<or>
      length (flush_asleep s @ flush_awake s) = 1 \<and> kill_cached_threads (tc s) = 1 \<and> asleep s = []) \<and>
     (flush_asleep s \<noteq> [] \<longrightarrow> awake s \<noteq> [] \<or> flush_signals s \<noteq> 0)"

lemma enter_flush_flush_inv:
  assumes "cache_inv s" "flush_asleep s = []" "flush_awake s = []" "kill_cached_threads (tc s) = 1"
  shows "flush_inv (enter_flush f s)"
proof (cases "cached_thread_count (tc s) = 0")
  case False
  then have "0 < unat (cached_thread_count (tc s))" by (simp add: unat_gt_0)
  then have "length (asleep s) + length (awake s) \<noteq> 0" using assms(1) by (simp add: cache_inv_def)
  then show ?thesis using False assms by (auto simp: flush_inv_def enter_flush_def flush_test_def)
qed (use assms in \<open>simp add: flush_inv_def enter_flush_def flush_test_def\<close>)

lemma remove1_single: "length xs = 1 \<Longrightarrow> x \<in> set xs \<Longrightarrow> remove1 x xs = []"
  by (cases xs) auto

lemma flush_step_inv:
  "cache_step s e s' \<Longrightarrow> e \<noteq> Final_flush \<Longrightarrow> (\<And>f. e = Flush f \<Longrightarrow> flush_asleep s @ flush_awake s = []) \<Longrightarrow>
   cache_inv s \<Longrightarrow> flush_inv s \<Longrightarrow> flush_inv s'"
proof (induction rule: cache_step.induct)
  case (enqueue_accepted connect s c)
  then show ?case by (auto simp: tc_enqueue_def flush_inv_def split: if_splits)
next
  case (enqueue_refused connect s c)
  then show ?case by (auto simp: tc_enqueue_def flush_inv_def split: if_splits)
next
  case (park_return size s co c t)
  then show ?case by (auto simp: park_begin_def flush_inv_def split: if_splits list.splits)
next
  case (park_sleep size s c t)
  then show ?case by (auto simp: park_begin_def flush_inv_def split: if_splits list.splits)
next
  case (wake_return t s timedout co flushed c)
  then have "kill_cached_threads c = kill_cached_threads (tc s)" "flushed \<longleftrightarrow> kill_cached_threads (tc s) \<noteq> 0"
    by (auto simp: park_wake_def Let_def split: if_splits list.splits)
  then show ?case using wake_return.prems(4) by (auto simp: flush_inv_def)
next
  case (wake_sleep t s timedout flushed c)
  then have "c = tc s" "kill_cached_threads (tc s) = 0"
    by (auto simp: park_wake_def Let_def split: if_splits list.splits)
  then show ?case using wake_sleep.prems(4) by (auto simp: flush_inv_def)
next
  case (flush s f)
  then have "flush_asleep s = []" "flush_awake s = []" by auto
  then show ?case using flush.prems
    by (intro enter_flush_flush_inv) (auto simp: flush_begin_def cache_inv_def flush_inv_def)
next
  case (flush_wake f s)
  then have "length (flush_asleep s @ flush_awake s) = 1" "kill_cached_threads (tc s) = 1"
    by (auto simp: flush_inv_def)
  then show ?case using flush_wake.hyps flush_wake.prems
    by (intro enter_flush_flush_inv) (cases "flush_asleep s"; cases "flush_awake s"; auto simp: cache_inv_def)+
next
  case (flush_signal s f)
  then show ?case by (cases "flush_asleep s") (auto simp: flush_inv_def)
next
  case (flush_spurious f s)
  then show ?case by (cases "flush_asleep s") (auto simp: flush_inv_def)
qed (auto simp: flush_inv_def)

lemma solo_runs_inv: "solo_runs s \<Longrightarrow> cache_inv s \<and> flush_inv s"
proof (induction rule: solo_runs.induct)
  case solo_start
  show ?case by (simp add: cache_inv_start) (simp add: flush_inv_def cache_start_def tc_init_def)
next
  case (solo_step s e s')
  then show ?case using cache_step_inv flush_step_inv [of s e s'] by blast
qed


fun of_server :: "cache_event \<Rightarrow> bool" where
  "of_server (Flush_signal f) = True"
| "of_server Flush_signal_lost = True"
| "of_server (Flush_wake f) = True"
| "of_server e = of_parked_threads e"

definition flush_busy :: "cache_system \<Rightarrow> nat" where
  "flush_busy s = 4 * signals s + 3 * length (awake s) + 2 * flush_signals s + length (flush_awake s)"

lemma enter_flush_busy:
  assumes "asleep s = []" "f \<in> set (flush_awake s)"
  shows "flush_busy (enter_flush f (s\<lparr>flush_awake := remove1 f (flush_awake s)\<rparr>)) < flush_busy s"
  using assms length_remove1_mem [OF assms(2)]
  by (simp add: flush_busy_def enter_flush_def flush_test_def)

lemma server_step_busy:
  "cache_step s e s' \<Longrightarrow> of_server e \<Longrightarrow> flush_inv s \<Longrightarrow> flush_busy s' < flush_busy s"
proof (induction rule: cache_step.induct)
  case (flush_wake f s)
  then show ?case by (intro enter_flush_busy) (auto simp: flush_inv_def)
next
  case (signal s t)
  then show ?case using length_remove1_mem [OF signal(2)] by (simp add: flush_busy_def)
next
  case (wake_return t s timedout co flushed c)
  then show ?case using length_remove1_mem [OF wake_return(1)] by (simp add: flush_busy_def)
next
  case (wake_sleep t s timedout flushed c)
  then show ?case using length_remove1_mem [OF wake_sleep(1)] by (simp add: flush_busy_def)
next
  case (flush_signal s f)
  then show ?case using length_remove1_mem [OF flush_signal(2)] by (simp add: flush_busy_def)
qed (simp_all add: flush_busy_def)

lemma server_step_solo: "solo_runs s \<Longrightarrow> cache_step s e s' \<Longrightarrow> of_server e \<Longrightarrow> solo_runs s'"
  by (rule solo_step) auto

lemma server_runs:
  "cache_runs s es s' \<Longrightarrow> \<forall>e \<in> set es. of_server e \<Longrightarrow> solo_runs s \<Longrightarrow>
   solo_runs s' \<and> length es + flush_busy s' \<le> flush_busy s"
proof (induction rule: cache_runs.induct)
  case (runs_snoc s es s' e s'')
  then have "solo_runs s'" "length es + flush_busy s' \<le> flush_busy s" "of_server e" by auto
  moreover have "flush_busy s'' < flush_busy s'"
    using runs_snoc.hyps(2) calculation solo_runs_inv [of s'] by (intro server_step_busy) auto
  ultimately show ?case using server_step_solo [OF _ runs_snoc.hyps(2)] by simp
qed simp

lemma flush_progress:
  assumes "flush_inv s" "flush_asleep s @ flush_awake s \<noteq> []"
  shows "\<exists>e s'. of_server e \<and> cache_step s e s'"
proof (cases "flush_awake s")
  case Nil
  then obtain f fs where f: "flush_asleep s = f # fs" using assms(2) by (cases "flush_asleep s") auto
  with assms(1) have "awake s \<noteq> [] \<or> flush_signals s \<noteq> 0" by (simp add: flush_inv_def)
  then show ?thesis
  proof
    assume "awake s \<noteq> []"
    then obtain t ts where "awake s = t # ts" by (cases "awake s") auto
    then obtain s' where "cache_step s (Wake t) s'" using wake_enabled [of t s] by auto
    then show ?thesis by (metis of_parked_threads.simps(1) of_server.simps(9))
  next
    assume "flush_signals s \<noteq> 0"
    then show ?thesis using flush_signal [of s f] f by (metis list.set_intros(1) of_server.simps(1))
  qed
next
  case (Cons f fs)
  then show ?thesis using flush_wake [of f s] by (metis list.set_intros(1) of_server.simps(3))
qed

text \<open>
  Two callers at once. Both wait for the last parked thread; its one signal wakes the first, which
  leaves without waking the second. From then on nobody parks, so nobody signals again.
\<close>

definition flush_stuck :: "nat \<Rightarrow> cache_system \<Rightarrow> bool" where
  "flush_stuck f s \<longleftrightarrow> f \<in> set (flush_asleep s) \<and> flush_awake s = [] \<and> flush_signals s = 0 \<and>
     tc s = \<lparr>requests = [], cached_thread_count = 0, kill_cached_threads = 1\<rparr> \<and> asleep s = [] \<and> awake s = []"

fun needs_luck :: "cache_event \<Rightarrow> bool" where
  "needs_luck (Flush_spurious f) = True"
| "needs_luck Final_flush = True"
| "needs_luck _ = False"

lemma flush_stuck_step:
  "cache_step s e s' \<Longrightarrow> \<not> needs_luck e \<Longrightarrow> flush_stuck f s \<Longrightarrow> flush_stuck f s'"
  by (induction rule: cache_step.induct) (auto simp: flush_stuck_def cache_defs split: if_splits)

lemma flush_stuck_forever:
  "cache_runs s es s' \<Longrightarrow> \<forall>e \<in> set es. \<not> needs_luck e \<Longrightarrow> flush_stuck f s \<Longrightarrow> flush_stuck f s'"
  by (induction rule: cache_runs.induct) (auto intro: flush_stuck_step)

definition cache_at :: "nat list \<Rightarrow> uint \<Rightarrow> uint \<Rightarrow> nat list \<Rightarrow> nat list \<Rightarrow> nat \<Rightarrow> cache_system" where
  "cache_at conns cached kill sleepers wakers sigs =
     \<lparr>tc = \<lparr>requests = conns, cached_thread_count = cached, kill_cached_threads = kill\<rparr>,
      asleep = sleepers, awake = wakers, signals = sigs, flush_asleep = [], flush_awake = [],
      flush_signals = 0, accepted = conns, served = []\<rparr>"

lemma start_at: "cache_start = cache_at [] 0 0 [] [] 0"
  by (simp add: cache_start_def tc_init_def cache_at_def)

lemma first_park: "cache_step cache_start (Park 1) (cache_at [] 1 0 [1] [] 0)"
  using park_sleep [of 8 cache_start "tc (cache_at [] 1 0 [1] [] 0)" 1]
  by (simp add: cache_defs start_at cache_at_def)

lemma first_enqueue: "cache_step (cache_at [] 1 0 [1] [] 0) (Enqueue 7 True) (cache_at [7] 0 0 [1] [] 1)"
  using enqueue_accepted [of 7 "cache_at [] 1 0 [1] [] 0" "tc (cache_at [7] 0 0 [1] [] 1)"]
  by (simp add: cache_defs cache_at_def)

lemma first_flush: "cache_step (cache_at [] 1 0 [1] [] 0) (Flush 11) (cache_at [] 1 1 [] [1] 0\<lparr>flush_asleep := [11]\<rparr>)"
  using flush [of "cache_at [] 1 0 [1] [] 0" 11] by (simp add: cache_defs cache_at_def)

lemma runs_one: "cache_step s e s' \<Longrightarrow> cache_runs s [e] s'"
  using runs_snoc [OF runs_Nil] by fastforce

lemma runs_add: "cache_runs s es s' \<Longrightarrow> cache_step s' e s'' \<Longrightarrow> es' = es @ [e] \<Longrightarrow> cache_runs s es' s''"
  using runs_snoc by simp

lemma enqueue_run: "cache_runs cache_start [Park 1, Enqueue 7 True] (cache_at [7] 0 0 [1] [] 1)"
  by (rule runs_add [OF runs_one [OF first_park] first_enqueue]) simp

lemma second_flush_hangs:
  "\<exists>es s. cache_runs cache_start es s \<and> (\<forall>e \<in> set es. \<not> needs_luck e) \<and> flush_stuck 12 s"
proof -
  let ?s = "\<lambda>cached kill wakers. cache_at [] cached kill [] wakers 0"
  have 2: "cache_step (?s 1 1 [1]\<lparr>flush_asleep := [11]\<rparr>) (Flush 12) (?s 1 2 [1]\<lparr>flush_asleep := [12, 11]\<rparr>)"
    using flush [of "?s 1 1 [1]\<lparr>flush_asleep := [11]\<rparr>" 12] by (simp add: cache_defs cache_at_def)
  have 3: "cache_step (?s 1 2 [1]\<lparr>flush_asleep := [12, 11]\<rparr>) (Wake 1)
      (?s 0 2 []\<lparr>flush_asleep := [12, 11], flush_signals := 1\<rparr>)"
    using wake_return [of 1 "?s 1 2 [1]\<lparr>flush_asleep := [12, 11]\<rparr>" False None True "tc (?s 0 2 [])"]
    by (simp add: cache_defs cache_at_def)
  have 4: "cache_step (?s 0 2 []\<lparr>flush_asleep := [12, 11], flush_signals := 1\<rparr>) (Flush_signal 11)
      (?s 0 2 []\<lparr>flush_asleep := [12], flush_awake := [11]\<rparr>)"
    using flush_signal [of "?s 0 2 []\<lparr>flush_asleep := [12, 11], flush_signals := 1\<rparr>" 11]
    by (simp add: cache_at_def)
  have 5: "cache_step (?s 0 2 []\<lparr>flush_asleep := [12], flush_awake := [11]\<rparr>) (Flush_wake 11)
      (?s 0 1 []\<lparr>flush_asleep := [12]\<rparr>)"
    using flush_wake [of 11 "?s 0 2 []\<lparr>flush_asleep := [12], flush_awake := [11]\<rparr>"]
    by (simp add: cache_defs cache_at_def)
  have "cache_runs cache_start ([Park 1, Flush 11, Flush 12, Wake 1, Flush_signal 11] @ [Flush_wake 11])
      (?s 0 1 []\<lparr>flush_asleep := [12]\<rparr>)"
    using runs_add [OF runs_add [OF runs_add [OF runs_add [OF runs_one [OF first_park] first_flush refl] 2 refl] 3 refl] 4 refl] 5
    by (intro runs_snoc) simp_all
  moreover have "flush_stuck 12 (?s 0 1 []\<lparr>flush_asleep := [12]\<rparr>)" by (simp add: flush_stuck_def cache_at_def)
  ultimately show ?thesis by (intro exI conjI) auto
qed

section \<open>Properties\<close>

text \<open>
  C23. In every interleaving of connections, parking threads, timeouts and flushes, each thread inside
  \<open>park\<close> is counted exactly once, as a cached thread or as the one a queued connection has claimed;
  the counter never overflows, no connection is dropped or served twice, connections are served in
  the order in which they were accepted, and \<open>destroy\<close> is allowed exactly when no thread is parked.
\<close>

theorem parked_threads_accounted:
  assumes "cache_runs cache_start es s"
  shows "length (asleep s) + length (awake s) = unat (cached_thread_count (tc s)) + length (requests (tc s)) \<and>
    unat (cached_thread_count (tc s)) + length (requests (tc s)) < 2 ^ 32 \<and>
    accepted s = served s @ requests (tc s) \<and>
    (tc_destroy_allowed (tc s) \<longleftrightarrow> asleep s = [] \<and> awake s = [])"
proof -
  have inv: "cache_inv s" using cache_runs_inv [OF assms cache_inv_start] .
  have "tc_destroy_allowed (tc s) \<longleftrightarrow> unat (cached_thread_count (tc s)) + length (requests (tc s)) = 0"
    by (auto simp: tc_destroy_allowed_def unat_eq_0)
  also have "\<dots> \<longleftrightarrow> length (asleep s) + length (awake s) = 0" using inv by (simp add: cache_inv_def)
  finally show ?thesis using inv by (simp add: cache_inv_def)
qed

theorem parked_threads_accounted_witness:
  "length (asleep (cache_at [7] 0 0 [1] [] 1)) + length (awake (cache_at [7] 0 0 [1] [] 1)) =
     unat (cached_thread_count (tc (cache_at [7] 0 0 [1] [] 1))) + length (requests (tc (cache_at [7] 0 0 [1] [] 1)))"
  using parked_threads_accounted [OF enqueue_run] by (rule conjunct1)

text \<open>
  C24. No wake-up is lost: while a connection is queued, a parked thread can take a step, whatever
  happened before. The parked threads and the signals on their way take at most \<open>cache_busy\<close> steps,
  and when they come to rest every connection that was accepted has been served.
\<close>

theorem every_request_is_served:
  assumes "cache_runs cache_start es s" "cache_runs s es' s'" "\<forall>e \<in> set es'. of_parked_threads e"
  shows "(requests (tc s') \<noteq> [] \<longrightarrow> (\<exists>e s''. of_parked_threads e \<and> cache_step s' e s'')) \<and>
    length es' \<le> cache_busy s \<and>
    ((\<nexists>e s''. of_parked_threads e \<and> cache_step s' e s'') \<longrightarrow> requests (tc s') = [] \<and> served s' = accepted s)"
proof -
  have "cache_inv s'" using cache_runs_inv [OF assms(2)] cache_runs_inv [OF assms(1) cache_inv_start] by blast
  then show ?thesis
    using parked_runs_busy [OF assms(2,3)] request_progress [of s'] by (auto simp: cache_inv_def)
qed

theorem every_request_is_served_witness:
  "\<exists>e s'. of_parked_threads e \<and> cache_step (cache_at [7] 0 0 [1] [] 1) e s'"
  using every_request_is_served [OF enqueue_run runs_Nil] by (simp add: cache_at_def)

text \<open>
  C25. With one caller of \<open>flush\<close> at a time, the caller returns: as long as it waits, a step of the
  server is possible, these steps are bounded by \<open>flush_busy\<close>, and when they come to rest nobody
  waits in \<open>flush\<close> and threads may park again. (With two callers this fails, see
  \<open>second_flush_hangs\<close>.)
\<close>

theorem flush_returns:
  assumes "solo_runs s" "cache_runs s es s'" "\<forall>e \<in> set es. of_server e"
  shows "(flush_asleep s' @ flush_awake s' \<noteq> [] \<longrightarrow> (\<exists>e s''. of_server e \<and> cache_step s' e s'')) \<and>
    length es \<le> flush_busy s \<and>
    ((\<nexists>e s''. of_server e \<and> cache_step s' e s'') \<longrightarrow>
      flush_asleep s' @ flush_awake s' = [] \<and> kill_cached_threads (tc s') = 0)"
proof -
  have runs: "solo_runs s'" "length es + flush_busy s' \<le> flush_busy s"
    using server_runs [OF assms(2,3,1)] by auto
  then have inv: "flush_inv s'" using solo_runs_inv by blast
  then have "flush_asleep s' @ flush_awake s' = [] \<Longrightarrow> kill_cached_threads (tc s') = 0"
    by (auto simp: flush_inv_def)
  moreover have "length es \<le> flush_busy s" using runs(2) by simp
  ultimately show ?thesis using flush_progress [OF inv] by blast
qed

lemma solo_flush: "solo_runs (cache_at [] 1 1 [] [1] 0\<lparr>flush_asleep := [11]\<rparr>)"
  by (rule solo_step [OF solo_step [OF solo_start first_park] first_flush]) (simp_all add: cache_at_def)

theorem flush_returns_witness:
  "\<exists>e s'. of_server e \<and> cache_step (cache_at [] 1 1 [] [1] 0\<lparr>flush_asleep := [11]\<rparr>) e s'"
  using flush_returns [OF solo_flush runs_Nil] by simp

end
