(* ===== verification/Json_Trace.thy ===== *)
theory Json_Trace
  imports Voting_Prelude "HOL-Library.Monad_Syntax"
begin

text \<open>
  The writers of the optimizer trace of \<open>my_json_writer.h\<close>: the output with a size limit, and the
  objects whose constructors and destructors open and close the objects and arrays of a JSON
  document. The functions of \<open>Json_writer\<close> itself are only declared there; what is modelled is
  which of them are called, in which order and on which writer. Reading these calls back gives the
  document that the nesting of the scopes describes.
\<close>

section \<open>String_with_limit\<close>

text \<open>The string is the list of its bytes. Its \<open>append\<close>, which may run out of memory, is a parameter.\<close>

type_synonym str_append = "uchar list \<Rightarrow> uchar list \<Rightarrow> uchar list"

record String_with_limit =
  str :: "uchar list"
  size_limit :: size_t
  truncated_len :: size_t

definition swl_new :: String_with_limit where
  "swl_new = \<lparr>str = [], size_limit = -1, truncated_len = 0\<rparr>"

definition swl_length :: "String_with_limit \<Rightarrow> size_t" where
  "swl_length s = of_nat (length (str s))"

text \<open>The assertion compares with the old limit.\<close>

definition set_size_limit :: "size_t \<Rightarrow> String_with_limit \<Rightarrow> String_with_limit option" where
  "set_size_limit limit_arg s = (if swl_length s < size_limit s then Some (s\<lparr>size_limit := limit_arg\<rparr>) else None)"

definition swl_append :: "str_append \<Rightarrow> uchar list \<Rightarrow> size_t \<Rightarrow> String_with_limit \<Rightarrow> String_with_limit" where
  "swl_append A s len w =
     (if swl_length w + len \<le> size_limit w then w\<lparr>str := A (str w) (take (unat len) s)\<rparr>
      else if swl_length w < size_limit w
      then let bytes_to_add = size_limit w - swl_length w
           in w\<lparr>str := A (str w) (take (unat bytes_to_add) s), truncated_len := truncated_len w + (len - bytes_to_add)\<rparr>
      else w\<lparr>truncated_len := truncated_len w + len\<rparr>)"

definition swl_append_cstr :: "str_append \<Rightarrow> uchar list \<Rightarrow> String_with_limit \<Rightarrow> String_with_limit" where
  "swl_append_cstr A s w = swl_append A s (of_nat (length (takeWhile (\<lambda>c. c \<noteq> 0) s))) w"

definition swl_append_char :: "str_append \<Rightarrow> uchar \<Rightarrow> String_with_limit \<Rightarrow> String_with_limit" where
  "swl_append_char A c w =
     (if swl_length w + 1 > size_limit w then w\<lparr>truncated_len := truncated_len w + 1\<rparr>
      else w\<lparr>str := A (str w) [c]\<rparr>)"

datatype piece = Bytes "uchar list" | Text "uchar list" | Byte uchar

fun append_piece :: "str_append \<Rightarrow> piece \<Rightarrow> String_with_limit \<Rightarrow> String_with_limit" where
  "append_piece A (Bytes s) w = swl_append A s (of_nat (length s)) w"
| "append_piece A (Text s) w = swl_append_cstr A s w"
| "append_piece A (Byte c) w = swl_append_char A c w"

section \<open>Calls of Json_writer\<close>

text \<open>The functions of \<open>Json_writer\<close>, with their arguments; items and tables are addresses, a double
  is its bit pattern.\<close>

datatype json_call = Add_member string | Add_str string | Add_str_n string size_t | Add_item nat
  | Add_ll ulonglong | Add_ull ulonglong | Add_size ulonglong | Add_double ulonglong | Add_bool bool
  | Add_null | Add_join_tab nat | Add_table nat | Start_object | End_object | Start_array | End_array

text \<open>Per writer address the calls it got. A call through the null pointer gives \<open>None\<close>.\<close>

type_synonym writers = "nat \<Rightarrow> json_call list"

definition call :: "nat \<Rightarrow> json_call \<Rightarrow> writers \<Rightarrow> writers option" where
  "call w c ws = (if w = 0 then None else Some (ws(w := ws w @ [c])))"

record LEX_CSTRING =
  lex_str :: string
  lex_length :: size_t

section \<open>Json_value_helper\<close>

record Json_value_helper =
  writer :: nat

definition helper_init :: "nat \<Rightarrow> Json_value_helper" where
  "helper_init my_writer = \<lparr>writer = my_writer\<rparr>"

definition helper_add_str :: "string \<Rightarrow> Json_value_helper \<Rightarrow> writers \<Rightarrow> writers option" where
  "helper_add_str val h = call (writer h) (Add_str val)"

definition helper_add_str_n :: "string \<Rightarrow> size_t \<Rightarrow> Json_value_helper \<Rightarrow> writers \<Rightarrow> writers option" where
  "helper_add_str_n val len h = call (writer h) (Add_str_n val len)"

definition helper_add_string :: "string \<Rightarrow> Json_value_helper \<Rightarrow> writers \<Rightarrow> writers option" where
  "helper_add_string s h = call (writer h) (Add_str_n s (of_nat (length s)))"

definition helper_add_lex :: "LEX_CSTRING \<Rightarrow> Json_value_helper \<Rightarrow> writers \<Rightarrow> writers option" where
  "helper_add_lex s h = call (writer h) (Add_str_n (lex_str s) (lex_length s))"

definition helper_add_item :: "nat \<Rightarrow> Json_value_helper \<Rightarrow> writers \<Rightarrow> writers option" where
  "helper_add_item item h = call (writer h) (Add_item item)"

definition helper_add_ll :: "ulonglong \<Rightarrow> Json_value_helper \<Rightarrow> writers \<Rightarrow> writers option" where
  "helper_add_ll val h = call (writer h) (Add_ll val)"

definition helper_add_size :: "ulonglong \<Rightarrow> Json_value_helper \<Rightarrow> writers \<Rightarrow> writers option" where
  "helper_add_size val h = call (writer h) (Add_size val)"

definition helper_add_double :: "ulonglong \<Rightarrow> Json_value_helper \<Rightarrow> writers \<Rightarrow> writers option" where
  "helper_add_double val h = call (writer h) (Add_double val)"

definition helper_add_bool :: "bool \<Rightarrow> Json_value_helper \<Rightarrow> writers \<Rightarrow> writers option" where
  "helper_add_bool val h = call (writer h) (Add_bool val)"

definition helper_add_null :: "Json_value_helper \<Rightarrow> writers \<Rightarrow> writers option" where
  "helper_add_null h = call (writer h) Add_null"

definition helper_add_join_tab :: "nat \<Rightarrow> Json_value_helper \<Rightarrow> writers \<Rightarrow> writers option" where
  "helper_add_join_tab tab h = call (writer h) (Add_join_tab tab)"

definition helper_add_table :: "nat \<Rightarrow> Json_value_helper \<Rightarrow> writers \<Rightarrow> writers option" where
  "helper_add_table table h = call (writer h) (Add_table table)"

section \<open>Json_writer_struct\<close>

record Json_writer_struct =
  my_writer :: nat
  context_helper :: Json_value_helper
  closed :: bool

definition struct_new :: "nat \<Rightarrow> Json_writer_struct" where
  "struct_new w = \<lparr>my_writer = w, context_helper = helper_init w, closed = False\<rparr>"

definition trace_started :: "Json_writer_struct \<Rightarrow> bool" where
  "trace_started s \<longleftrightarrow> my_writer s \<noteq> 0"

section \<open>Json_writer_object\<close>

definition json_add_member :: "string \<Rightarrow> Json_writer_struct \<Rightarrow> writers \<Rightarrow> writers option" where
  "json_add_member name s = call (my_writer s) (Add_member name)"

definition object_new :: "nat \<Rightarrow> string option \<Rightarrow> writers \<Rightarrow> (Json_writer_struct \<times> writers) option" where
  "object_new w name ws =
     (let s = struct_new w
      in if my_writer s \<noteq> 0
         then do { ws \<leftarrow> (case name of None \<Rightarrow> Some ws | Some n \<Rightarrow> call (my_writer s) (Add_member n) ws);
                   ws \<leftarrow> call (my_writer s) Start_object ws;
                   Some (s, ws) }
         else Some (s, ws))"

definition object_delete :: "Json_writer_struct \<Rightarrow> writers \<Rightarrow> writers option" where
  "object_delete s ws = (if my_writer s \<noteq> 0 \<and> \<not> closed s then call (my_writer s) End_object ws else Some ws)"

definition object_add_bool :: "string \<Rightarrow> bool \<Rightarrow> Json_writer_struct \<Rightarrow> writers \<Rightarrow> writers option" where
  "object_add_bool name v s ws =
     (if closed s then None
      else if my_writer s \<noteq> 0 then do { ws \<leftarrow> json_add_member name s ws; helper_add_bool v (context_helper s) ws }
      else Some ws)"

definition object_add_ull :: "string \<Rightarrow> ulonglong \<Rightarrow> Json_writer_struct \<Rightarrow> writers \<Rightarrow> writers option" where
  "object_add_ull name v s ws =
     (if closed s then None
      else if my_writer s \<noteq> 0 then do { ws \<leftarrow> json_add_member name s ws; call (my_writer s) (Add_ull v) ws }
      else Some ws)"

definition object_add_int :: "string \<Rightarrow> int \<Rightarrow> Json_writer_struct \<Rightarrow> writers \<Rightarrow> writers option" where
  "object_add_int name v s ws =
     (if closed s then None
      else if my_writer s \<noteq> 0
      then do { ws \<leftarrow> json_add_member name s ws; helper_add_ll (word_of_int v) (context_helper s) ws }
      else Some ws)"

definition object_add_double :: "string \<Rightarrow> ulonglong \<Rightarrow> Json_writer_struct \<Rightarrow> writers \<Rightarrow> writers option" where
  "object_add_double name v s ws =
     (if closed s then None
      else if my_writer s \<noteq> 0 then do { ws \<leftarrow> json_add_member name s ws; helper_add_double v (context_helper s) ws }
      else Some ws)"

definition object_add_str :: "string \<Rightarrow> string \<Rightarrow> Json_writer_struct \<Rightarrow> writers \<Rightarrow> writers option" where
  "object_add_str name v s ws =
     (if closed s then None
      else if my_writer s \<noteq> 0 then do { ws \<leftarrow> json_add_member name s ws; helper_add_str v (context_helper s) ws }
      else Some ws)"

text \<open>This one asks neither for a writer nor for being open.\<close>

definition object_add_str_n :: "string \<Rightarrow> string \<Rightarrow> size_t \<Rightarrow> Json_writer_struct \<Rightarrow> writers \<Rightarrow> writers option" where
  "object_add_str_n name v num_bytes s ws =
     do { ws \<leftarrow> json_add_member name s ws; helper_add_str_n v num_bytes (context_helper s) ws }"

definition object_add_lex :: "string \<Rightarrow> LEX_CSTRING \<Rightarrow> Json_writer_struct \<Rightarrow> writers \<Rightarrow> writers option" where
  "object_add_lex name v s ws =
     (if closed s then None
      else if my_writer s \<noteq> 0
      then do { ws \<leftarrow> json_add_member name s ws; helper_add_str_n (lex_str v) (lex_length v) (context_helper s) ws }
      else Some ws)"

definition object_add_item :: "string \<Rightarrow> nat \<Rightarrow> Json_writer_struct \<Rightarrow> writers \<Rightarrow> writers option" where
  "object_add_item name v s ws =
     (if closed s then None
      else if my_writer s \<noteq> 0 then do { ws \<leftarrow> json_add_member name s ws; helper_add_item v (context_helper s) ws }
      else Some ws)"

definition object_add_null :: "string \<Rightarrow> Json_writer_struct \<Rightarrow> writers \<Rightarrow> writers option" where
  "object_add_null name s ws =
     (if closed s then None
      else if my_writer s \<noteq> 0 then do { ws \<leftarrow> json_add_member name s ws; helper_add_null (context_helper s) ws }
      else Some ws)"

definition object_add_join_tab :: "nat \<Rightarrow> Json_writer_struct \<Rightarrow> writers \<Rightarrow> writers option" where
  "object_add_join_tab tab s ws =
     (if closed s then None
      else if my_writer s \<noteq> 0
      then do { ws \<leftarrow> json_add_member ''table'' s ws; helper_add_join_tab tab (context_helper s) ws }
      else Some ws)"

definition object_add_table :: "nat \<Rightarrow> Json_writer_struct \<Rightarrow> writers \<Rightarrow> writers option" where
  "object_add_table table s ws =
     (if closed s then None
      else if my_writer s \<noteq> 0
      then do { ws \<leftarrow> json_add_member ''table'' s ws; helper_add_table table (context_helper s) ws }
      else Some ws)"

definition FAKE_SELECT_LEX_ID :: uint where
  "FAKE_SELECT_LEX_ID = 4294967295"

definition object_add_select_number :: "uint \<Rightarrow> Json_writer_struct \<Rightarrow> writers \<Rightarrow> writers option" where
  "object_add_select_number select_number s ws =
     (if closed s then None
      else if my_writer s \<noteq> 0
      then do { ws \<leftarrow> json_add_member ''select_id'' s ws;
                if select_number = FAKE_SELECT_LEX_ID then helper_add_str ''fake'' (context_helper s) ws
                else helper_add_ll (ucast select_number) (context_helper s) ws }
      else Some ws)"

definition object_end :: "Json_writer_struct \<Rightarrow> writers \<Rightarrow> (Json_writer_struct \<times> writers) option" where
  "object_end s ws =
     (if closed s then None
      else do { ws \<leftarrow> (if my_writer s \<noteq> 0 then call (my_writer s) End_object ws else Some ws);
                Some (s\<lparr>closed := True\<rparr>, ws) })"

section \<open>Json_writer_array\<close>

definition array_new :: "nat \<Rightarrow> string option \<Rightarrow> writers \<Rightarrow> (Json_writer_struct \<times> writers) option" where
  "array_new w name ws =
     (let s = struct_new w
      in if my_writer s \<noteq> 0
         then do { ws \<leftarrow> (case name of None \<Rightarrow> Some ws | Some n \<Rightarrow> call (my_writer s) (Add_member n) ws);
                   ws \<leftarrow> call (my_writer s) Start_array ws;
                   Some (s, ws) }
         else Some (s, ws))"

definition array_delete :: "Json_writer_struct \<Rightarrow> writers \<Rightarrow> writers option" where
  "array_delete s ws = (if my_writer s \<noteq> 0 \<and> \<not> closed s then call (my_writer s) End_array ws else Some ws)"

definition array_end :: "Json_writer_struct \<Rightarrow> writers \<Rightarrow> (Json_writer_struct \<times> writers) option" where
  "array_end s ws =
     (if closed s then None
      else do { ws \<leftarrow> (if my_writer s \<noteq> 0 then call (my_writer s) End_array ws else Some ws);
                Some (s\<lparr>closed := True\<rparr>, ws) })"

definition array_add_bool :: "bool \<Rightarrow> Json_writer_struct \<Rightarrow> writers \<Rightarrow> writers option" where
  "array_add_bool v s ws =
     (if closed s then None else if my_writer s \<noteq> 0 then helper_add_bool v (context_helper s) ws else Some ws)"

definition array_add_ull :: "ulonglong \<Rightarrow> Json_writer_struct \<Rightarrow> writers \<Rightarrow> writers option" where
  "array_add_ull v s ws =
     (if closed s then None else if my_writer s \<noteq> 0 then helper_add_ll v (context_helper s) ws else Some ws)"

definition array_add_ll :: "ulonglong \<Rightarrow> Json_writer_struct \<Rightarrow> writers \<Rightarrow> writers option" where
  "array_add_ll v s ws =
     (if closed s then None else if my_writer s \<noteq> 0 then helper_add_ll v (context_helper s) ws else Some ws)"

definition array_add_double :: "ulonglong \<Rightarrow> Json_writer_struct \<Rightarrow> writers \<Rightarrow> writers option" where
  "array_add_double v s ws =
     (if closed s then None else if my_writer s \<noteq> 0 then helper_add_double v (context_helper s) ws else Some ws)"

definition array_add_str :: "string \<Rightarrow> Json_writer_struct \<Rightarrow> writers \<Rightarrow> writers option" where
  "array_add_str v s ws =
     (if closed s then None else if my_writer s \<noteq> 0 then helper_add_str v (context_helper s) ws else Some ws)"

definition array_add_str_n :: "string \<Rightarrow> size_t \<Rightarrow> Json_writer_struct \<Rightarrow> writers \<Rightarrow> writers option" where
  "array_add_str_n v num_bytes s ws =
     (if closed s then None
      else if my_writer s \<noteq> 0 then helper_add_str_n v num_bytes (context_helper s) ws else Some ws)"

definition array_add_lex :: "LEX_CSTRING \<Rightarrow> Json_writer_struct \<Rightarrow> writers \<Rightarrow> writers option" where
  "array_add_lex v s ws =
     (if closed s then None
      else if my_writer s \<noteq> 0 then helper_add_str_n (lex_str v) (lex_length v) (context_helper s) ws else Some ws)"

definition array_add_item :: "nat \<Rightarrow> Json_writer_struct \<Rightarrow> writers \<Rightarrow> writers option" where
  "array_add_item v s ws =
     (if closed s then None else if my_writer s \<noteq> 0 then helper_add_item v (context_helper s) ws else Some ws)"

definition array_add_null :: "Json_writer_struct \<Rightarrow> writers \<Rightarrow> writers option" where
  "array_add_null s ws =
     (if closed s then None else if my_writer s \<noteq> 0 then helper_add_null (context_helper s) ws else Some ws)"

definition array_add_join_tab :: "nat \<Rightarrow> Json_writer_struct \<Rightarrow> writers \<Rightarrow> writers option" where
  "array_add_join_tab tab s ws =
     (if closed s then None else if my_writer s \<noteq> 0 then helper_add_join_tab tab (context_helper s) ws else Some ws)"

definition array_add_table :: "nat \<Rightarrow> Json_writer_struct \<Rightarrow> writers \<Rightarrow> writers option" where
  "array_add_table table s ws =
     (if closed s then None else if my_writer s \<noteq> 0 then helper_add_table table (context_helper s) ws else Some ws)"

section \<open>Scopes\<close>

text \<open>A use of these classes is a tree of scopes: the values added and the inner scopes, in order, and
  whether a scope is ended before its destructor runs.\<close>

datatype object_arg = O_bool bool | O_ull ulonglong | O_int int | O_double ulonglong | O_str string
  | O_str_n string size_t | O_lex LEX_CSTRING | O_item nat | O_null | O_join_tab nat | O_table nat | O_select uint

datatype array_arg = A_bool bool | A_ull ulonglong | A_ll ulonglong | A_double ulonglong | A_str string
  | A_str_n string size_t | A_lex LEX_CSTRING | A_item nat | A_null | A_join_tab nat | A_table nat

fun object_add :: "string \<Rightarrow> object_arg \<Rightarrow> Json_writer_struct \<Rightarrow> writers \<Rightarrow> writers option" where
  "object_add n (O_bool v) = object_add_bool n v"
| "object_add n (O_ull v) = object_add_ull n v"
| "object_add n (O_int v) = object_add_int n v"
| "object_add n (O_double v) = object_add_double n v"
| "object_add n (O_str v) = object_add_str n v"
| "object_add n (O_str_n v l) = object_add_str_n n v l"
| "object_add n (O_lex v) = object_add_lex n v"
| "object_add n (O_item v) = object_add_item n v"
| "object_add n O_null = object_add_null n"
| "object_add n (O_join_tab v) = object_add_join_tab v"
| "object_add n (O_table v) = object_add_table v"
| "object_add n (O_select v) = object_add_select_number v"

fun array_add :: "array_arg \<Rightarrow> Json_writer_struct \<Rightarrow> writers \<Rightarrow> writers option" where
  "array_add (A_bool v) = array_add_bool v"
| "array_add (A_ull v) = array_add_ull v"
| "array_add (A_ll v) = array_add_ll v"
| "array_add (A_double v) = array_add_double v"
| "array_add (A_str v) = array_add_str v"
| "array_add (A_str_n v l) = array_add_str_n v l"
| "array_add (A_lex v) = array_add_lex v"
| "array_add (A_item v) = array_add_item v"
| "array_add A_null = array_add_null"
| "array_add (A_join_tab v) = array_add_join_tab v"
| "array_add (A_table v) = array_add_table v"

datatype scope = Object_scope bool object_body | Array_scope bool array_body
and object_body = O_done | O_value string object_arg object_body | O_child string scope object_body
and array_body = A_done | A_value array_arg array_body | A_child scope array_body

fun run_scope :: "nat \<Rightarrow> string option \<Rightarrow> scope \<Rightarrow> writers \<Rightarrow> writers option"
  and run_object :: "nat \<Rightarrow> Json_writer_struct \<Rightarrow> object_body \<Rightarrow> writers \<Rightarrow> writers option"
  and run_array :: "nat \<Rightarrow> Json_writer_struct \<Rightarrow> array_body \<Rightarrow> writers \<Rightarrow> writers option" where
  "run_scope w name (Object_scope early body) ws =
     do { (s, ws) \<leftarrow> object_new w name ws;
          ws \<leftarrow> run_object w s body ws;
          (s, ws) \<leftarrow> (if early then object_end s ws else Some (s, ws));
          object_delete s ws }"
| "run_scope w name (Array_scope early body) ws =
     do { (s, ws) \<leftarrow> array_new w name ws;
          ws \<leftarrow> run_array w s body ws;
          (s, ws) \<leftarrow> (if early then array_end s ws else Some (s, ws));
          array_delete s ws }"
| "run_object w s O_done ws = Some ws"
| "run_object w s (O_value n a rest) ws = do { ws \<leftarrow> object_add n a s ws; run_object w s rest ws }"
| "run_object w s (O_child n c rest) ws = do { ws \<leftarrow> run_scope w (Some n) c ws; run_object w s rest ws }"
| "run_array w s A_done ws = Some ws"
| "run_array w s (A_value a rest) ws = do { ws \<leftarrow> array_add a s ws; run_array w s rest ws }"
| "run_array w s (A_child c rest) ws = do { ws \<leftarrow> run_scope w None c ws; run_array w s rest ws }"

section \<open>The document\<close>

datatype json = J_value json_call | J_object "(string \<times> json) list" | J_array "json list"

text \<open>Reading the calls back: a stack of the open objects, each with the name of a member whose value
  is still to come, and arrays. Members of objects must have a name, elements of arrays must not.\<close>

datatype frame = F_object "string option" "(string \<times> json) list" | F_array "json list"

fun put_json :: "json \<Rightarrow> frame list \<Rightarrow> frame list option" where
  "put_json v (F_object (Some n) ms # st) = Some (F_object None (ms @ [(n, v)]) # st)"
| "put_json v (F_array es # st) = Some (F_array (es @ [v]) # st)"
| "put_json v st = None"

fun read_call :: "json_call \<Rightarrow> frame list \<Rightarrow> frame list option" where
  "read_call (Add_member n) (F_object None ms # st) = Some (F_object (Some n) ms # st)"
| "read_call (Add_member n) st = None"
| "read_call Start_object st = Some (F_object None [] # st)"
| "read_call Start_array st = Some (F_array [] # st)"
| "read_call End_object (F_object None ms # st) = put_json (J_object ms) st"
| "read_call End_object st = None"
| "read_call End_array (F_array es # st) = put_json (J_array es) st"
| "read_call End_array st = None"
| "read_call c st = put_json (J_value c) st"

fun read_calls :: "json_call list \<Rightarrow> frame list \<Rightarrow> frame list option" where
  "read_calls [] st = Some st"
| "read_calls (c # cs) st = do { st \<leftarrow> read_call c st; read_calls cs st }"

text \<open>A document, that is one value at the outermost level.\<close>

definition read_document :: "json_call list \<Rightarrow> json option" where
  "read_document cs = (case read_calls cs [F_array []] of Some [F_array [j]] \<Rightarrow> Some j | _ \<Rightarrow> None)"

text \<open>What a tree of scopes means.\<close>

fun object_value :: "object_arg \<Rightarrow> json_call" where
  "object_value (O_bool v) = Add_bool v"
| "object_value (O_ull v) = Add_ull v"
| "object_value (O_int v) = Add_ll (word_of_int v)"
| "object_value (O_double v) = Add_double v"
| "object_value (O_str v) = Add_str v"
| "object_value (O_str_n v l) = Add_str_n v l"
| "object_value (O_lex v) = Add_str_n (lex_str v) (lex_length v)"
| "object_value (O_item v) = Add_item v"
| "object_value O_null = Add_null"
| "object_value (O_join_tab v) = Add_join_tab v"
| "object_value (O_table v) = Add_table v"
| "object_value (O_select v) = (if v = FAKE_SELECT_LEX_ID then Add_str ''fake'' else Add_ll (ucast v))"

definition member_name :: "string \<Rightarrow> object_arg \<Rightarrow> string" where
  "member_name n a = (case a of O_join_tab _ \<Rightarrow> ''table'' | O_table _ \<Rightarrow> ''table'' | O_select _ \<Rightarrow> ''select_id'' | _ \<Rightarrow> n)"

fun array_value :: "array_arg \<Rightarrow> json_call" where
  "array_value (A_bool v) = Add_bool v"
| "array_value (A_ull v) = Add_ll v"
| "array_value (A_ll v) = Add_ll v"
| "array_value (A_double v) = Add_double v"
| "array_value (A_str v) = Add_str v"
| "array_value (A_str_n v l) = Add_str_n v l"
| "array_value (A_lex v) = Add_str_n (lex_str v) (lex_length v)"
| "array_value (A_item v) = Add_item v"
| "array_value A_null = Add_null"
| "array_value (A_join_tab v) = Add_join_tab v"
| "array_value (A_table v) = Add_table v"

fun scope_json :: "scope \<Rightarrow> json"
  and object_json :: "object_body \<Rightarrow> (string \<times> json) list"
  and array_json :: "array_body \<Rightarrow> json list" where
  "scope_json (Object_scope _ b) = J_object (object_json b)"
| "scope_json (Array_scope _ b) = J_array (array_json b)"
| "object_json O_done = []"
| "object_json (O_value n a rest) = (member_name n a, J_value (object_value a)) # object_json rest"
| "object_json (O_child n c rest) = (n, scope_json c) # object_json rest"
| "array_json A_done = []"
| "array_json (A_value a rest) = J_value (array_value a) # array_json rest"
| "array_json (A_child c rest) = scope_json c # array_json rest"

section \<open>Facts\<close>

lemma call_writer: "w \<noteq> 0 \<Longrightarrow> call w c ws = Some (ws(w := ws w @ [c]))"
  by (simp add: call_def)

lemma struct_new_simps [simp]: "my_writer (struct_new w) = w" "writer (context_helper (struct_new w)) = w" "closed (struct_new w) = False"
  by (simp_all add: struct_new_def helper_init_def)

lemmas helper_defs = helper_add_str_def helper_add_str_n_def helper_add_string_def helper_add_lex_def helper_add_item_def
  helper_add_ll_def helper_add_size_def helper_add_double_def helper_add_bool_def helper_add_null_def
  helper_add_join_tab_def helper_add_table_def json_add_member_def

lemmas object_defs = object_add_bool_def object_add_ull_def object_add_int_def object_add_double_def object_add_str_def
  object_add_str_n_def object_add_lex_def object_add_item_def object_add_null_def object_add_join_tab_def
  object_add_table_def object_add_select_number_def

lemmas array_defs = array_add_bool_def array_add_ull_def array_add_ll_def array_add_double_def array_add_str_def
  array_add_str_n_def array_add_lex_def array_add_item_def array_add_null_def array_add_join_tab_def array_add_table_def

lemma object_add_calls:
  "w \<noteq> 0 \<Longrightarrow> object_add n a (struct_new w) ws = Some (ws(w := ws w @ [Add_member (member_name n a), object_value a]))"
  by (cases a) (simp_all add: object_defs helper_defs call_writer member_name_def)

lemma array_add_calls: "w \<noteq> 0 \<Longrightarrow> array_add a (struct_new w) ws = Some (ws(w := ws w @ [array_value a]))"
  by (cases a) (simp_all add: array_defs helper_defs call_writer)

lemma read_calls_Nil: "read_calls [] = Some"
  by (simp add: fun_eq_iff)

lemma read_calls_append: "read_calls (cs @ ds) st = do { st \<leftarrow> read_calls cs st; read_calls ds st }"
  by (induction cs arbitrary: st) (auto simp: bind_assoc split: bind_split)

lemma read_object_value [simp]: "read_call (object_value a) st = put_json (J_value (object_value a)) st"
  by (cases a) simp_all

lemma read_array_value [simp]: "read_call (array_value a) st = put_json (J_value (array_value a)) st"
  by (cases a) simp_all

definition name_calls :: "string option \<Rightarrow> json_call list" where
  "name_calls name = (case name of None \<Rightarrow> [] | Some n \<Rightarrow> [Add_member n])"

lemma scopes_written:
  assumes "w \<noteq> 0"
  shows "\<exists>cs. run_scope w name t ws = Some (ws(w := ws w @ name_calls name @ cs)) \<and>
      (\<forall>st. read_calls cs st = put_json (scope_json t) st)"
    and "\<exists>cs. run_object w (struct_new w) ob ws = Some (ws(w := ws w @ cs)) \<and>
      (\<forall>ms st. read_calls cs (F_object None ms # st) = Some (F_object None (ms @ object_json ob) # st))"
    and "\<exists>cs. run_array w (struct_new w) ab ws = Some (ws(w := ws w @ cs)) \<and>
      (\<forall>es st. read_calls cs (F_array es # st) = Some (F_array (es @ array_json ab) # st))"
proof (induction t and ob and ab arbitrary: name ws and ws and ws)
  case (Object_scope early b)
  let ?ws = "ws(w := ws w @ name_calls name @ [Start_object])"
  have new: "object_new w name ws = Some (struct_new w, ?ws)"
    using assms by (auto simp: object_new_def Let_def call_writer name_calls_def split: option.splits)
  obtain cs where cs: "run_object w (struct_new w) b ?ws = Some (?ws(w := ?ws w @ cs))"
    "\<forall>ms st. read_calls cs (F_object None ms # st) = Some (F_object None (ms @ object_json b) # st)"
    using Object_scope.IH [of ?ws] by blast
  have "run_scope w name (Object_scope early b) ws = Some (ws(w := ws w @ name_calls name @ Start_object # cs @ [End_object]))"
    using assms by (simp add: new cs(1) object_end_def object_delete_def call_writer)
  moreover have "read_calls (Start_object # cs @ [End_object]) st = put_json (scope_json (Object_scope early b)) st" for st
    by (simp add: read_calls_append cs(2) read_calls_Nil)
  ultimately show ?case by blast
next
  case (Array_scope early b)
  let ?ws = "ws(w := ws w @ name_calls name @ [Start_array])"
  have new: "array_new w name ws = Some (struct_new w, ?ws)"
    using assms by (auto simp: array_new_def Let_def call_writer name_calls_def split: option.splits)
  obtain cs where cs: "run_array w (struct_new w) b ?ws = Some (?ws(w := ?ws w @ cs))"
    "\<forall>es st. read_calls cs (F_array es # st) = Some (F_array (es @ array_json b) # st)"
    using Array_scope.IH [of ?ws] by blast
  have "run_scope w name (Array_scope early b) ws = Some (ws(w := ws w @ name_calls name @ Start_array # cs @ [End_array]))"
    using assms by (simp add: new cs(1) array_end_def array_delete_def call_writer)
  moreover have "read_calls (Start_array # cs @ [End_array]) st = put_json (scope_json (Array_scope early b)) st" for st
    by (simp add: read_calls_append cs(2) read_calls_Nil)
  ultimately show ?case by blast
next
  case (O_value n a rest)
  let ?ws = "ws(w := ws w @ [Add_member (member_name n a), object_value a])"
  obtain cs where cs: "run_object w (struct_new w) rest ?ws = Some (?ws(w := ?ws w @ cs))"
    "\<forall>ms st. read_calls cs (F_object None ms # st) = Some (F_object None (ms @ object_json rest) # st)"
    using O_value.IH [of ?ws] by blast
  then show ?case using assms
    by (intro exI [of _ "Add_member (member_name n a) # object_value a # cs"]) (auto simp: object_add_calls fun_eq_iff)
next
  case (O_child n c rest)
  obtain cs where cs: "run_scope w (Some n) c ws = Some (ws(w := ws w @ name_calls (Some n) @ cs))"
    "\<forall>st. read_calls cs st = put_json (scope_json c) st" using O_child.IH(1) by blast
  let ?ws = "ws(w := ws w @ name_calls (Some n) @ cs)"
  obtain ds where ds: "run_object w (struct_new w) rest ?ws = Some (?ws(w := ?ws w @ ds))"
    "\<forall>ms st. read_calls ds (F_object None ms # st) = Some (F_object None (ms @ object_json rest) # st)"
    using O_child.IH(2) [of ?ws] by blast
  then show ?case using cs
    by (intro exI [of _ "Add_member n # cs @ ds"]) (auto simp: name_calls_def read_calls_append fun_eq_iff)
next
  case (A_value a rest)
  let ?ws = "ws(w := ws w @ [array_value a])"
  obtain cs where cs: "run_array w (struct_new w) rest ?ws = Some (?ws(w := ?ws w @ cs))"
    "\<forall>es st. read_calls cs (F_array es # st) = Some (F_array (es @ array_json rest) # st)"
    using A_value.IH [of ?ws] by blast
  then show ?case using assms by (intro exI [of _ "array_value a # cs"]) (auto simp: array_add_calls fun_eq_iff)
next
  case (A_child c rest)
  obtain cs where cs: "run_scope w None c ws = Some (ws(w := ws w @ name_calls None @ cs))"
    "\<forall>st. read_calls cs st = put_json (scope_json c) st" using A_child.IH(1) by blast
  let ?ws = "ws(w := ws w @ name_calls None @ cs)"
  obtain ds where ds: "run_array w (struct_new w) rest ?ws = Some (?ws(w := ?ws w @ ds))"
    "\<forall>es st. read_calls ds (F_array es # st) = Some (F_array (es @ array_json rest) # st)"
    using A_child.IH(2) [of ?ws] by blast
  then show ?case using cs
    by (intro exI [of _ "cs @ ds"]) (auto simp: name_calls_def read_calls_append fun_eq_iff)
qed (auto intro: exI [of _ "[]"])

text \<open>In the ignore mode the strings with a length in objects are the calls that need a writer.\<close>

fun null_safe :: "scope \<Rightarrow> bool" and null_safe_object :: "object_body \<Rightarrow> bool" and null_safe_array :: "array_body \<Rightarrow> bool" where
  "null_safe (Object_scope _ b) \<longleftrightarrow> null_safe_object b"
| "null_safe (Array_scope _ b) \<longleftrightarrow> null_safe_array b"
| "null_safe_object O_done \<longleftrightarrow> True"
| "null_safe_object (O_value n a rest) \<longleftrightarrow> (\<forall>v l. a \<noteq> O_str_n v l) \<and> null_safe_object rest"
| "null_safe_object (O_child n c rest) \<longleftrightarrow> null_safe c \<and> null_safe_object rest"
| "null_safe_array A_done \<longleftrightarrow> True"
| "null_safe_array (A_value a rest) \<longleftrightarrow> null_safe_array rest"
| "null_safe_array (A_child c rest) \<longleftrightarrow> null_safe c \<and> null_safe_array rest"

lemma object_add_ignored:
  "object_add n a (struct_new 0) ws = (case a of O_str_n _ _ \<Rightarrow> None | _ \<Rightarrow> Some ws)"
  by (cases a) (simp_all add: object_defs helper_defs call_def)

lemma array_add_ignored: "array_add a (struct_new 0) ws = Some ws"
  by (cases a) (simp_all add: array_defs)

lemma scopes_ignored:
  "run_scope 0 name t ws = (if null_safe t then Some ws else None)"
  "run_object 0 (struct_new 0) ob ws = (if null_safe_object ob then Some ws else None)"
  "run_array 0 (struct_new 0) ab ws = (if null_safe_array ab then Some ws else None)"
proof (induction t and ob and ab arbitrary: name ws and ws and ws)
  case (O_value n a rest)
  then show ?case by (cases a) (simp_all add: object_add_ignored del: object_add.simps)
qed (auto simp: object_new_def array_new_def object_end_def array_end_def object_delete_def array_delete_def Let_def array_add_ignored)

section \<open>The limit\<close>

definition append_ok :: "str_append \<Rightarrow> bool" where
  "append_ok A \<longleftrightarrow> (\<forall>s t. A s t = s @ t \<or> A s t = s)"

fun piece_bytes :: "piece \<Rightarrow> uchar list" where
  "piece_bytes (Bytes s) = s"
| "piece_bytes (Text s) = takeWhile (\<lambda>c. c \<noteq> 0) s"
| "piece_bytes (Byte c) = [c]"

definition appended :: "str_append \<Rightarrow> uchar list \<Rightarrow> String_with_limit \<Rightarrow> String_with_limit \<Rightarrow> bool" where
  "appended A s w w' \<longleftrightarrow>
     (let kept = take (unat (size_limit w) - length (str w)) s
      in (str w' = str w \<and> A \<noteq> (@) \<or> str w' = str w @ kept) \<and> size_limit w' = size_limit w \<and>
         truncated_len w' = truncated_len w + of_nat (length s - length kept))"

lemma unat_len: "n < 2 ^ 64 \<Longrightarrow> unat (of_nat n :: size_t) = n"
  by (simp add: unsigned_of_nat take_bit_nat_eq_self)

lemma swl_append_appended:
  assumes "append_ok A" "length (str w) \<le> unat (size_limit w)" "length (str w) + n < 2 ^ 64" "n \<le> length s"
  shows "appended A (take n s) w (swl_append A s (of_nat n) w)"
proof -
  let ?n = "length (str w)" and ?l = "size_limit w"
  have A: "A s t = s @ t \<or> A s t = s \<and> A \<noteq> (@)" for s t using assms(1) by (auto simp: append_ok_def)
  have u: "unat (swl_length w) = ?n" "unat (of_nat n :: size_t) = n" "unat (swl_length w + of_nat n) = ?n + n"
    using assms(3) unat_word_ariths(1) [of "swl_length w" "of_nat n"] by (simp_all add: swl_length_def unat_len)
  consider (fits) "?n + n \<le> unat ?l" | (part) "unat ?l < ?n + n" "?n < unat ?l" | (full) "unat ?l < ?n + n" "?n = unat ?l"
    using assms(2) by linarith
  then show ?thesis
  proof cases
    case fits
    then show ?thesis using u A [of "str w" "take n s"] assms(4)
      by (auto simp: swl_append_def appended_def word_le_nat_alt Let_def)
  next
    case part
    then have d: "unat (?l - swl_length w) = unat ?l - ?n" using u by (simp add: unat_sub_if')
    have "of_nat (n - (unat ?l - ?n)) = of_nat n - (of_nat (unat (?l - swl_length w)) :: size_t)"
      using part unfolding d by (intro of_nat_diff) simp
    then have "of_nat n - (?l - swl_length w) = of_nat (n - (unat ?l - ?n))" by simp
    then show ?thesis using part u d A [of "str w" "take (unat ?l - ?n) s"] assms(4)
      by (auto simp: swl_append_def appended_def word_le_nat_alt word_less_nat_alt Let_def)
  next
    case full
    then show ?thesis using u assms(4) by (auto simp: swl_append_def appended_def word_le_nat_alt word_less_nat_alt)
  qed
qed

lemma swl_append_char_appended:
  assumes "append_ok A" "length (str w) \<le> unat (size_limit w)" "length (str w) + 1 < 2 ^ 64"
  shows "appended A [c] w (swl_append_char A c w)"
proof -
  have "unat (swl_length w + 1) = length (str w) + 1"
    using assms(3) unat_len [of "length (str w) + 1"] by (simp add: swl_length_def add.commute)
  moreover have "A (str w) [c] = str w @ [c] \<or> A (str w) [c] = str w \<and> A \<noteq> (@)" using assms(1) by (auto simp: append_ok_def)
  ultimately show ?thesis using assms(2)
    by (cases "length (str w) = unat (size_limit w)")
      (auto simp: swl_append_char_def appended_def word_less_nat_alt take_Cons')
qed

lemma append_piece_appended:
  assumes "append_ok A" "length (str w) \<le> unat (size_limit w)" "length (str w) + length (piece_bytes p) < 2 ^ 64"
  shows "appended A (piece_bytes p) w (append_piece A p w)"
proof (cases p)
  case (Bytes s)
  then show ?thesis using swl_append_appended [of A w "length s" s] assms by simp
next
  case (Text s)
  moreover have "take (length (takeWhile (\<lambda>c. c \<noteq> 0) s)) s = takeWhile (\<lambda>c. c \<noteq> 0) s"
    by (rule takeWhile_eq_take [symmetric])
  ultimately show ?thesis
    using swl_append_appended [of A w "length (takeWhile (\<lambda>c. c \<noteq> 0) s)" s] assms
    by (simp add: swl_append_cstr_def length_takeWhile_le)
next
  case (Byte c)
  then show ?thesis using swl_append_char_appended [of A w c] assms by simp
qed

lemma appends_limited:
  assumes "append_ok A" "length (str w) \<le> unat (size_limit w)" "length (str w) + length (concat (map piece_bytes ps)) < 2 ^ 64"
  shows "length (str (fold (append_piece A) ps w)) \<le> unat (size_limit w) \<and> size_limit (fold (append_piece A) ps w) = size_limit w \<and>
    (A = (@) \<longrightarrow> str (fold (append_piece A) ps w) = take (unat (size_limit w)) (str w @ concat (map piece_bytes ps)) \<and>
      truncated_len (fold (append_piece A) ps w) =
        truncated_len w + of_nat (length (str w @ concat (map piece_bytes ps)) - unat (size_limit w)))"
  using assms(2,3)
proof (induction ps arbitrary: w)
  case (Cons p ps)
  let ?w = "append_piece A p w" and ?s = "piece_bytes p" and ?r = "unat (size_limit w) - length (str w)"
  have a: "appended A ?s w ?w" using append_piece_appended [OF assms(1)] Cons.prems by simp
  then have len: "length (str ?w) \<le> unat (size_limit ?w)" "size_limit ?w = size_limit w"
    "length (str ?w) + length (concat (map piece_bytes ps)) < 2 ^ 64"
    using Cons.prems by (auto simp: appended_def Let_def)
  note IH = Cons.IH [OF len(1,3)]
  show ?case
  proof (intro conjI impI)
    show "length (str (fold (append_piece A) (p # ps) w)) \<le> unat (size_limit w)"
      "size_limit (fold (append_piece A) (p # ps) w) = size_limit w" using IH len(2) by simp_all
    assume "A = (@)"
    then have w: "str ?w = str w @ take ?r ?s" "truncated_len ?w = truncated_len w + of_nat (length ?s - ?r)"
      using a by (auto simp: appended_def Let_def min_def)
    show "str (fold (append_piece A) (p # ps) w) = take (unat (size_limit w)) (str w @ concat (map piece_bytes (p # ps)))"
      using IH \<open>A = (@)\<close> w(1) len(2) Cons.prems(1) by (simp add: min_def)
    show "truncated_len (fold (append_piece A) (p # ps) w) =
        truncated_len w + of_nat (length (str w @ concat (map piece_bytes (p # ps))) - unat (size_limit w))"
      using IH \<open>A = (@)\<close> w len(2) Cons.prems(1) by (cases "length ?s \<le> ?r") (auto simp: ac_simps)
  qed
qed simp

section \<open>Properties\<close>

text \<open>
  The output never gets longer than its limit, whatever is appended in whatever pieces and even
  when memory runs out; if it does not, the output is the beginning of all that was appended up to the
  limit, and the bytes that are missing were counted.
\<close>

theorem json_output_limit:
  assumes "append_ok A" "length (str w) \<le> unat (size_limit w)"
    and "unat (truncated_len w) + length (str w) + length (concat (map piece_bytes ps)) < 2 ^ 64"
  shows "length (str (fold (append_piece A) ps w)) \<le> unat (size_limit w) \<and>
    (A = (@) \<longrightarrow> str (fold (append_piece A) ps w) = take (unat (size_limit w)) (str w @ concat (map piece_bytes ps)) \<and>
      length (str (fold (append_piece A) ps w)) + unat (truncated_len (fold (append_piece A) ps w)) =
        length (str w) + unat (truncated_len w) + length (concat (map piece_bytes ps)))"
proof -
  let ?all = "str w @ concat (map piece_bytes ps)" and ?w = "fold (append_piece A) ps w" and ?l = "unat (size_limit w)"
  have lim: "length (str ?w) \<le> ?l" and exact: "A = (@) \<Longrightarrow> str ?w = take ?l ?all"
    "A = (@) \<Longrightarrow> truncated_len ?w = truncated_len w + of_nat (length ?all - ?l)"
    using appends_limited [OF assms(1,2)] assms(3) by auto
  have "unat (truncated_len w + of_nat (length ?all - ?l)) = unat (truncated_len w) + (length ?all - ?l)"
    using assms(3) unat_len [of "length ?all - ?l"] unat_word_ariths(1) [of "truncated_len w" "of_nat (length ?all - ?l)"]
    by simp
  then show ?thesis using lim exact assms(2) by (auto simp: min_def)
qed

theorem json_output_limit_witness:
  "str (fold (append_piece (@)) [Bytes [1, 2], Byte 3, Text [4, 0, 9], Byte 5] (swl_new\<lparr>size_limit := 3\<rparr>)) = [1, 2, 3] \<and>
   append_ok (@)"
  using json_output_limit [of "(@)" "swl_new\<lparr>size_limit := 3\<rparr>" "[Bytes [1, 2], Byte 3, Text [4, 0, 9], Byte 5]"]
  by (simp add: append_ok_def swl_new_def)

text \<open>
  C31. Nested scopes write a well-formed document. Whatever values and inner scopes are added, and
  whether or not each scope is ended before it is destroyed, the calls that arrive at the writer read
  back as the document of the nesting: every object and array is closed once, at its place, members
  are named and elements are not. Other writers get no call. Without a writer nothing happens, except
  that adding a string with a length to an object, and this alone, goes through the null pointer.
\<close>

theorem json_scopes_write_document:
  "(w \<noteq> 0 \<longrightarrow> (\<exists>cs. run_scope w None t ws = Some (ws(w := ws w @ cs)) \<and> read_document cs = Some (scope_json t))) \<and>
   (w = 0 \<longrightarrow> run_scope w name t ws = (if null_safe t then Some ws else None))"
proof (intro conjI impI)
  assume "w \<noteq> 0"
  then obtain cs where "run_scope w None t ws = Some (ws(w := ws w @ name_calls None @ cs))"
    "\<forall>st. read_calls cs st = put_json (scope_json t) st" using scopes_written(1) by blast
  then show "\<exists>cs. run_scope w None t ws = Some (ws(w := ws w @ cs)) \<and> read_document cs = Some (scope_json t)"
    by (auto simp: name_calls_def read_document_def)
qed (simp add: scopes_ignored)

definition plan_scope :: scope where
  "plan_scope = Object_scope True (O_value ''rows'' (O_int 2) (O_value ''x'' (O_table 7)
     (O_child ''ids'' (Array_scope False (A_value (A_ll 1) (A_value A_null A_done))) O_done)))"

theorem json_scopes_write_document_witness:
  "\<exists>cs. run_scope 1 None plan_scope (\<lambda>_. []) = Some ((\<lambda>_. [])(1 := cs)) \<and>
    read_document cs = Some (J_object [(''rows'', J_value (Add_ll 2)), (''table'', J_value (Add_table 7)),
      (''ids'', J_array [J_value (Add_ll 1), J_value Add_null])]) \<and>
    run_scope 0 None plan_scope (\<lambda>_. []) = Some (\<lambda>_. [])"
  using json_scopes_write_document [of 1 plan_scope "\<lambda>_. []" None] json_scopes_write_document [of 0 plan_scope "\<lambda>_. []" None]
  by (simp add: plan_scope_def member_name_def del: run_scope.simps)

end
