(* ===== verification/Sql_States.thy ===== *)
theory Sql_States
  imports Voting_Prelude
begin

text \<open>
  The error numbers of the server and of its storage engines, and the tables that give each its
  SQLSTATE and its message: \<open>mysqld_error.h\<close> (the numbers that have an SQLSTATE of their own),
  \<open>sql_state.h\<close>, the handler errors of \<open>my_base.h\<close>, \<open>handler_state.h\<close> and
  \<open>my_handler_errors.h\<close>.
  A row of a table is an error number, the SQLSTATE of ODBC and that of JDBC.
\<close>

section \<open>Handler errors\<close>

definition HA_ERR_FIRST :: nat where "HA_ERR_FIRST = 120"
definition HA_ERR_KEY_NOT_FOUND :: nat where "HA_ERR_KEY_NOT_FOUND = 120"
definition HA_ERR_FOUND_DUPP_KEY :: nat where "HA_ERR_FOUND_DUPP_KEY = 121"
definition HA_ERR_INTERNAL_ERROR :: nat where "HA_ERR_INTERNAL_ERROR = 122"
definition HA_ERR_RECORD_CHANGED :: nat where "HA_ERR_RECORD_CHANGED = 123"
definition HA_ERR_WRONG_INDEX :: nat where "HA_ERR_WRONG_INDEX = 124"
definition HA_ERR_CRASHED :: nat where "HA_ERR_CRASHED = 126"
definition HA_ERR_WRONG_IN_RECORD :: nat where "HA_ERR_WRONG_IN_RECORD = 127"
definition HA_ERR_OUT_OF_MEM :: nat where "HA_ERR_OUT_OF_MEM = 128"
definition HA_ERR_NOT_A_TABLE :: nat where "HA_ERR_NOT_A_TABLE = 130"
definition HA_ERR_WRONG_COMMAND :: nat where "HA_ERR_WRONG_COMMAND = 131"
definition HA_ERR_OLD_FILE :: nat where "HA_ERR_OLD_FILE = 132"
definition HA_ERR_NO_ACTIVE_RECORD :: nat where "HA_ERR_NO_ACTIVE_RECORD = 133"
definition HA_ERR_RECORD_DELETED :: nat where "HA_ERR_RECORD_DELETED = 134"
definition HA_ERR_RECORD_FILE_FULL :: nat where "HA_ERR_RECORD_FILE_FULL = 135"
definition HA_ERR_INDEX_FILE_FULL :: nat where "HA_ERR_INDEX_FILE_FULL = 136"
definition HA_ERR_END_OF_FILE :: nat where "HA_ERR_END_OF_FILE = 137"
definition HA_ERR_UNSUPPORTED :: nat where "HA_ERR_UNSUPPORTED = 138"
definition HA_ERR_TO_BIG_ROW :: nat where "HA_ERR_TO_BIG_ROW = 139"
definition HA_WRONG_CREATE_OPTION :: nat where "HA_WRONG_CREATE_OPTION = 140"
definition HA_ERR_FOUND_DUPP_UNIQUE :: nat where "HA_ERR_FOUND_DUPP_UNIQUE = 141"
definition HA_ERR_UNKNOWN_CHARSET :: nat where "HA_ERR_UNKNOWN_CHARSET = 142"
definition HA_ERR_WRONG_MRG_TABLE_DEF :: nat where "HA_ERR_WRONG_MRG_TABLE_DEF = 143"
definition HA_ERR_CRASHED_ON_REPAIR :: nat where "HA_ERR_CRASHED_ON_REPAIR = 144"
definition HA_ERR_CRASHED_ON_USAGE :: nat where "HA_ERR_CRASHED_ON_USAGE = 145"
definition HA_ERR_LOCK_WAIT_TIMEOUT :: nat where "HA_ERR_LOCK_WAIT_TIMEOUT = 146"
definition HA_ERR_LOCK_TABLE_FULL :: nat where "HA_ERR_LOCK_TABLE_FULL = 147"
definition HA_ERR_READ_ONLY_TRANSACTION :: nat where "HA_ERR_READ_ONLY_TRANSACTION = 148"
definition HA_ERR_LOCK_DEADLOCK :: nat where "HA_ERR_LOCK_DEADLOCK = 149"
definition HA_ERR_CANNOT_ADD_FOREIGN :: nat where "HA_ERR_CANNOT_ADD_FOREIGN = 150"
definition HA_ERR_NO_REFERENCED_ROW :: nat where "HA_ERR_NO_REFERENCED_ROW = 151"
definition HA_ERR_ROW_IS_REFERENCED :: nat where "HA_ERR_ROW_IS_REFERENCED = 152"
definition HA_ERR_NO_SAVEPOINT :: nat where "HA_ERR_NO_SAVEPOINT = 153"
definition HA_ERR_NON_UNIQUE_BLOCK_SIZE :: nat where "HA_ERR_NON_UNIQUE_BLOCK_SIZE = 154"
definition HA_ERR_NO_SUCH_TABLE :: nat where "HA_ERR_NO_SUCH_TABLE = 155"
definition HA_ERR_TABLE_EXIST :: nat where "HA_ERR_TABLE_EXIST = 156"
definition HA_ERR_NO_CONNECTION :: nat where "HA_ERR_NO_CONNECTION = 157"
definition HA_ERR_NULL_IN_SPATIAL :: nat where "HA_ERR_NULL_IN_SPATIAL = 158"
definition HA_ERR_TABLE_DEF_CHANGED :: nat where "HA_ERR_TABLE_DEF_CHANGED = 159"
definition HA_ERR_NO_PARTITION_FOUND :: nat where "HA_ERR_NO_PARTITION_FOUND = 160"
definition HA_ERR_RBR_LOGGING_FAILED :: nat where "HA_ERR_RBR_LOGGING_FAILED = 161"
definition HA_ERR_DROP_INDEX_FK :: nat where "HA_ERR_DROP_INDEX_FK = 162"
definition HA_ERR_FOREIGN_DUPLICATE_KEY :: nat where "HA_ERR_FOREIGN_DUPLICATE_KEY = 163"
definition HA_ERR_TABLE_NEEDS_UPGRADE :: nat where "HA_ERR_TABLE_NEEDS_UPGRADE = 164"
definition HA_ERR_TABLE_READONLY :: nat where "HA_ERR_TABLE_READONLY = 165"
definition HA_ERR_AUTOINC_READ_FAILED :: nat where "HA_ERR_AUTOINC_READ_FAILED = 166"
definition HA_ERR_AUTOINC_ERANGE :: nat where "HA_ERR_AUTOINC_ERANGE = 167"
definition HA_ERR_GENERIC :: nat where "HA_ERR_GENERIC = 168"
definition HA_ERR_RECORD_IS_THE_SAME :: nat where "HA_ERR_RECORD_IS_THE_SAME = 169"
definition HA_ERR_LOGGING_IMPOSSIBLE :: nat where "HA_ERR_LOGGING_IMPOSSIBLE = 170"
definition HA_ERR_CORRUPT_EVENT :: nat where "HA_ERR_CORRUPT_EVENT = 171"
definition HA_ERR_NEW_FILE :: nat where "HA_ERR_NEW_FILE = 172"
definition HA_ERR_ROWS_EVENT_APPLY :: nat where "HA_ERR_ROWS_EVENT_APPLY = 173"
definition HA_ERR_INITIALIZATION :: nat where "HA_ERR_INITIALIZATION = 174"
definition HA_ERR_FILE_TOO_SHORT :: nat where "HA_ERR_FILE_TOO_SHORT = 175"
definition HA_ERR_WRONG_CRC :: nat where "HA_ERR_WRONG_CRC = 176"
definition HA_ERR_TOO_MANY_CONCURRENT_TRXS :: nat where "HA_ERR_TOO_MANY_CONCURRENT_TRXS = 177"
definition HA_ERR_NOT_IN_LOCK_PARTITIONS :: nat where "HA_ERR_NOT_IN_LOCK_PARTITIONS = 178"
definition HA_ERR_INDEX_COL_TOO_LONG :: nat where "HA_ERR_INDEX_COL_TOO_LONG = 179"
definition HA_ERR_INDEX_CORRUPT :: nat where "HA_ERR_INDEX_CORRUPT = 180"
definition HA_ERR_UNDO_REC_TOO_BIG :: nat where "HA_ERR_UNDO_REC_TOO_BIG = 181"
definition HA_FTS_INVALID_DOCID :: nat where "HA_FTS_INVALID_DOCID = 182"
definition HA_ERR_TABLESPACE_EXISTS :: nat where "HA_ERR_TABLESPACE_EXISTS = 184"
definition HA_ERR_TOO_MANY_FIELDS :: nat where "HA_ERR_TOO_MANY_FIELDS = 185"
definition HA_ERR_ROW_IN_WRONG_PARTITION :: nat where "HA_ERR_ROW_IN_WRONG_PARTITION = 186"
definition HA_ERR_ROW_NOT_VISIBLE :: nat where "HA_ERR_ROW_NOT_VISIBLE = 187"
definition HA_ERR_ABORTED_BY_USER :: nat where "HA_ERR_ABORTED_BY_USER = 188"
definition HA_ERR_DISK_FULL :: nat where "HA_ERR_DISK_FULL = 189"
definition HA_ERR_INCOMPATIBLE_DEFINITION :: nat where "HA_ERR_INCOMPATIBLE_DEFINITION = 190"
definition HA_ERR_FTS_TOO_MANY_WORDS_IN_PHRASE :: nat where "HA_ERR_FTS_TOO_MANY_WORDS_IN_PHRASE = 191"
definition HA_ERR_DECRYPTION_FAILED :: nat where "HA_ERR_DECRYPTION_FAILED = 192"
definition HA_ERR_FK_DEPTH_EXCEEDED :: nat where "HA_ERR_FK_DEPTH_EXCEEDED = 193"
definition HA_ERR_TABLESPACE_MISSING :: nat where "HA_ERR_TABLESPACE_MISSING = 194"
definition HA_ERR_SEQUENCE_INVALID_DATA :: nat where "HA_ERR_SEQUENCE_INVALID_DATA = 195"
definition HA_ERR_SEQUENCE_RUN_OUT :: nat where "HA_ERR_SEQUENCE_RUN_OUT = 196"
definition HA_ERR_COMMIT_ERROR :: nat where "HA_ERR_COMMIT_ERROR = 197"
definition HA_ERR_PARTITION_LIST :: nat where "HA_ERR_PARTITION_LIST = 198"
definition HA_ERR_LAST :: nat where "HA_ERR_LAST = 198"
definition HA_ERR_ERRORS :: nat where "HA_ERR_ERRORS = HA_ERR_LAST - HA_ERR_FIRST + 1"

lemmas ha_err_defs =
  HA_ERR_FIRST_def
  HA_ERR_KEY_NOT_FOUND_def
  HA_ERR_FOUND_DUPP_KEY_def
  HA_ERR_INTERNAL_ERROR_def
  HA_ERR_RECORD_CHANGED_def
  HA_ERR_WRONG_INDEX_def
  HA_ERR_CRASHED_def
  HA_ERR_WRONG_IN_RECORD_def
  HA_ERR_OUT_OF_MEM_def
  HA_ERR_NOT_A_TABLE_def
  HA_ERR_WRONG_COMMAND_def
  HA_ERR_OLD_FILE_def
  HA_ERR_NO_ACTIVE_RECORD_def
  HA_ERR_RECORD_DELETED_def
  HA_ERR_RECORD_FILE_FULL_def
  HA_ERR_INDEX_FILE_FULL_def
  HA_ERR_END_OF_FILE_def
  HA_ERR_UNSUPPORTED_def
  HA_ERR_TO_BIG_ROW_def
  HA_WRONG_CREATE_OPTION_def
  HA_ERR_FOUND_DUPP_UNIQUE_def
  HA_ERR_UNKNOWN_CHARSET_def
  HA_ERR_WRONG_MRG_TABLE_DEF_def
  HA_ERR_CRASHED_ON_REPAIR_def
  HA_ERR_CRASHED_ON_USAGE_def
  HA_ERR_LOCK_WAIT_TIMEOUT_def
  HA_ERR_LOCK_TABLE_FULL_def
  HA_ERR_READ_ONLY_TRANSACTION_def
  HA_ERR_LOCK_DEADLOCK_def
  HA_ERR_CANNOT_ADD_FOREIGN_def
  HA_ERR_NO_REFERENCED_ROW_def
  HA_ERR_ROW_IS_REFERENCED_def
  HA_ERR_NO_SAVEPOINT_def
  HA_ERR_NON_UNIQUE_BLOCK_SIZE_def
  HA_ERR_NO_SUCH_TABLE_def
  HA_ERR_TABLE_EXIST_def
  HA_ERR_NO_CONNECTION_def
  HA_ERR_NULL_IN_SPATIAL_def
  HA_ERR_TABLE_DEF_CHANGED_def
  HA_ERR_NO_PARTITION_FOUND_def
  HA_ERR_RBR_LOGGING_FAILED_def
  HA_ERR_DROP_INDEX_FK_def
  HA_ERR_FOREIGN_DUPLICATE_KEY_def
  HA_ERR_TABLE_NEEDS_UPGRADE_def
  HA_ERR_TABLE_READONLY_def
  HA_ERR_AUTOINC_READ_FAILED_def
  HA_ERR_AUTOINC_ERANGE_def
  HA_ERR_GENERIC_def
  HA_ERR_RECORD_IS_THE_SAME_def
  HA_ERR_LOGGING_IMPOSSIBLE_def
  HA_ERR_CORRUPT_EVENT_def
  HA_ERR_NEW_FILE_def
  HA_ERR_ROWS_EVENT_APPLY_def
  HA_ERR_INITIALIZATION_def
  HA_ERR_FILE_TOO_SHORT_def
  HA_ERR_WRONG_CRC_def
  HA_ERR_TOO_MANY_CONCURRENT_TRXS_def
  HA_ERR_NOT_IN_LOCK_PARTITIONS_def
  HA_ERR_INDEX_COL_TOO_LONG_def
  HA_ERR_INDEX_CORRUPT_def
  HA_ERR_UNDO_REC_TOO_BIG_def
  HA_FTS_INVALID_DOCID_def
  HA_ERR_TABLESPACE_EXISTS_def
  HA_ERR_TOO_MANY_FIELDS_def
  HA_ERR_ROW_IN_WRONG_PARTITION_def
  HA_ERR_ROW_NOT_VISIBLE_def
  HA_ERR_ABORTED_BY_USER_def
  HA_ERR_DISK_FULL_def
  HA_ERR_INCOMPATIBLE_DEFINITION_def
  HA_ERR_FTS_TOO_MANY_WORDS_IN_PHRASE_def
  HA_ERR_DECRYPTION_FAILED_def
  HA_ERR_FK_DEPTH_EXCEEDED_def
  HA_ERR_TABLESPACE_MISSING_def
  HA_ERR_SEQUENCE_INVALID_DATA_def
  HA_ERR_SEQUENCE_RUN_OUT_def
  HA_ERR_COMMIT_ERROR_def
  HA_ERR_PARTITION_LIST_def
  HA_ERR_LAST_def
  HA_ERR_ERRORS_def

definition handler_state :: "(nat \<times> string \<times> string) list" where
  "handler_state =
    [(HA_ERR_KEY_NOT_FOUND, ''02000'', ''''),
     (HA_ERR_FOUND_DUPP_KEY, ''23000'', ''''),
     (HA_ERR_WRONG_COMMAND, ''0A000'', ''''),
     (HA_ERR_UNSUPPORTED, ''0A000'', ''''),
     (HA_WRONG_CREATE_OPTION, ''0A000'', ''''),
     (HA_ERR_FOUND_DUPP_UNIQUE, ''23000'', ''''),
     (HA_ERR_UNKNOWN_CHARSET, ''0A000'', ''''),
     (HA_ERR_READ_ONLY_TRANSACTION, ''25000'', ''''),
     (HA_ERR_LOCK_DEADLOCK, ''40001'', ''''),
     (HA_ERR_NO_REFERENCED_ROW, ''23000'', ''''),
     (HA_ERR_ROW_IS_REFERENCED, ''23000'', ''''),
     (HA_ERR_TABLE_EXIST, ''42S01'', ''''),
     (HA_ERR_FOREIGN_DUPLICATE_KEY, ''23000'', ''''),
     (HA_ERR_TABLE_READONLY, ''25000'', ''''),
     (HA_ERR_AUTOINC_ERANGE, ''22003'', '''')]"

definition handler_error_messages :: "string list" where
  "handler_error_messages =
    [''Didn't find the key on read or update'',
     ''Duplicate key on write or update'',
     ''Internal (unspecified) error in handler'',
     ''Someone has changed the row since it was read (even though the table was locked to prevent it)'',
     ''Wrong index given to a function'',
     ''Undefined handler error 125'',
     ''Index is corrupted'',
     ''Table file is corrupted'',
     ''Out of memory in engine'',
     ''Undefined handler error 129'',
     ''Incorrect file format'',
     ''Command not supported by the engine'',
     ''Old database file'',
     ''No record read before update'',
     ''Record was already deleted (or record file crashed)'',
     ''No more room in record file'',
     ''No more room in index file'',
     ''No more records (read after end of file)'',
     ''Unsupported extension used for table'',
     ''Too big row'',
     ''Wrong create options'',
     ''Duplicate unique key on write or update'',
     ''Unknown character set used in table'',
     ''Conflicting table definitions in sub-tables of MERGE table'',
     ''Table is crashed and last repair failed'',
     ''Table was marked as crashed and should be repaired'',
     ''Lock timed out; Retry transaction'',
     ''Lock table is full;  Restart program with a larger lock table'',
     ''Updates are not allowed under a read only transactions'',
     ''Lock deadlock; Retry transaction'',
     ''Foreign key constraint is incorrectly formed'',
     ''Cannot add a child row'',
     ''Cannot delete a parent row'',
     ''No savepoint with that name'',
     ''Non unique key block size'',
     ''The table does not exist in the storage engine'',
     ''The table already existed in the storage engine'',
     ''Could not connect to the storage engine'',
     ''Unexpected null pointer found when using spatial index'',
     ''The table changed in the storage engine'',
     ''There's no partition in the table for the given value'',
     ''Row-based binary logging of row failed'',
     ''Index needed in foreign key constraint'',
     ''Upholding foreign key constraints would lead to a duplicate key error in some other table'',
     ''Table needs to be upgraded before it can be used'',
     ''Table is read only'',
     ''Failed to get next auto increment value'',
     ''Failed to set row auto increment value'',
     ''Unknown (generic) error from engine'',
     ''Record was not updated. New values were the same as original values'',
     ''It is not possible to log this statement'',
     ''The event was corrupt, leading to illegal data being read'',
     ''The table is of a new format not supported by this version'',
     ''The event could not be processed. No other handler error happened'',
     ''Fatal error during initialization of handler'',
     ''File too short; Expected more data in file'',
     ''Read page with wrong checksum'',
     ''Too many active concurrent transactions'',
     ''Record not matching the given partition set'',
     ''Index column length exceeds limit'',
     ''Index corrupted'',
     ''Undo record too big'',
     ''Invalid InnoDB FTS Doc ID'',
     ''Table is being used in foreign key check'',
     ''Tablespace already exists'',
     ''Too many columns'',
     ''Row in wrong partition'',
     ''Row is not visible by the current transaction'',
     ''Operation was interrupted by end user (probably kill command?)'',
     ''Disk full'',
     ''Incompatible key or row definition between the MariaDB .frm file and the information in the storage engine. You may have retry or dump and restore the table to fix this'',
     ''Too many words in a FTS phrase or proximity search'',
     ''Table encrypted but decryption failed. This could be because correct encryption management plugin is not loaded, used encryption key is not available or encryption method does not match.'',
     ''Foreign key cascade delete/update exceeds max depth'',
     ''Tablespace is missing for a table'',
     ''Sequence has been run out'',
     ''Sequence values are conflicting'',
     ''Error during commit'',
     ''Cannot select partitions'']"

section \<open>Server errors\<close>

definition ER_DUP_KEY :: nat where "ER_DUP_KEY = 1022"
definition ER_OUTOFMEMORY :: nat where "ER_OUTOFMEMORY = 1037"
definition ER_OUT_OF_SORTMEMORY :: nat where "ER_OUT_OF_SORTMEMORY = 1038"
definition ER_CON_COUNT_ERROR :: nat where "ER_CON_COUNT_ERROR = 1040"
definition ER_BAD_HOST_ERROR :: nat where "ER_BAD_HOST_ERROR = 1042"
definition ER_HANDSHAKE_ERROR :: nat where "ER_HANDSHAKE_ERROR = 1043"
definition ER_DBACCESS_DENIED_ERROR :: nat where "ER_DBACCESS_DENIED_ERROR = 1044"
definition ER_ACCESS_DENIED_ERROR :: nat where "ER_ACCESS_DENIED_ERROR = 1045"
definition ER_NO_DB_ERROR :: nat where "ER_NO_DB_ERROR = 1046"
definition ER_UNKNOWN_COM_ERROR :: nat where "ER_UNKNOWN_COM_ERROR = 1047"
definition ER_BAD_NULL_ERROR :: nat where "ER_BAD_NULL_ERROR = 1048"
definition ER_BAD_DB_ERROR :: nat where "ER_BAD_DB_ERROR = 1049"
definition ER_TABLE_EXISTS_ERROR :: nat where "ER_TABLE_EXISTS_ERROR = 1050"
definition ER_BAD_TABLE_ERROR :: nat where "ER_BAD_TABLE_ERROR = 1051"
definition ER_NON_UNIQ_ERROR :: nat where "ER_NON_UNIQ_ERROR = 1052"
definition ER_SERVER_SHUTDOWN :: nat where "ER_SERVER_SHUTDOWN = 1053"
definition ER_BAD_FIELD_ERROR :: nat where "ER_BAD_FIELD_ERROR = 1054"
definition ER_WRONG_FIELD_WITH_GROUP :: nat where "ER_WRONG_FIELD_WITH_GROUP = 1055"
definition ER_WRONG_GROUP_FIELD :: nat where "ER_WRONG_GROUP_FIELD = 1056"
definition ER_WRONG_SUM_SELECT :: nat where "ER_WRONG_SUM_SELECT = 1057"
definition ER_WRONG_VALUE_COUNT :: nat where "ER_WRONG_VALUE_COUNT = 1058"
definition ER_TOO_LONG_IDENT :: nat where "ER_TOO_LONG_IDENT = 1059"
definition ER_DUP_FIELDNAME :: nat where "ER_DUP_FIELDNAME = 1060"
definition ER_DUP_KEYNAME :: nat where "ER_DUP_KEYNAME = 1061"
definition ER_DUP_ENTRY :: nat where "ER_DUP_ENTRY = 1062"
definition ER_WRONG_FIELD_SPEC :: nat where "ER_WRONG_FIELD_SPEC = 1063"
definition ER_PARSE_ERROR :: nat where "ER_PARSE_ERROR = 1064"
definition ER_EMPTY_QUERY :: nat where "ER_EMPTY_QUERY = 1065"
definition ER_NONUNIQ_TABLE :: nat where "ER_NONUNIQ_TABLE = 1066"
definition ER_INVALID_DEFAULT :: nat where "ER_INVALID_DEFAULT = 1067"
definition ER_MULTIPLE_PRI_KEY :: nat where "ER_MULTIPLE_PRI_KEY = 1068"
definition ER_TOO_MANY_KEYS :: nat where "ER_TOO_MANY_KEYS = 1069"
definition ER_TOO_MANY_KEY_PARTS :: nat where "ER_TOO_MANY_KEY_PARTS = 1070"
definition ER_TOO_LONG_KEY :: nat where "ER_TOO_LONG_KEY = 1071"
definition ER_KEY_COLUMN_DOES_NOT_EXITS :: nat where "ER_KEY_COLUMN_DOES_NOT_EXITS = 1072"
definition ER_BLOB_USED_AS_KEY :: nat where "ER_BLOB_USED_AS_KEY = 1073"
definition ER_TOO_BIG_FIELDLENGTH :: nat where "ER_TOO_BIG_FIELDLENGTH = 1074"
definition ER_WRONG_AUTO_KEY :: nat where "ER_WRONG_AUTO_KEY = 1075"
definition ER_FORCING_CLOSE :: nat where "ER_FORCING_CLOSE = 1080"
definition ER_IPSOCK_ERROR :: nat where "ER_IPSOCK_ERROR = 1081"
definition ER_NO_SUCH_INDEX :: nat where "ER_NO_SUCH_INDEX = 1082"
definition ER_WRONG_FIELD_TERMINATORS :: nat where "ER_WRONG_FIELD_TERMINATORS = 1083"
definition ER_BLOBS_AND_NO_TERMINATED :: nat where "ER_BLOBS_AND_NO_TERMINATED = 1084"
definition ER_CANT_REMOVE_ALL_FIELDS :: nat where "ER_CANT_REMOVE_ALL_FIELDS = 1090"
definition ER_CANT_DROP_FIELD_OR_KEY :: nat where "ER_CANT_DROP_FIELD_OR_KEY = 1091"
definition ER_WRONG_DB_NAME :: nat where "ER_WRONG_DB_NAME = 1102"
definition ER_WRONG_TABLE_NAME :: nat where "ER_WRONG_TABLE_NAME = 1103"
definition ER_TOO_BIG_SELECT :: nat where "ER_TOO_BIG_SELECT = 1104"
definition ER_UNKNOWN_PROCEDURE :: nat where "ER_UNKNOWN_PROCEDURE = 1106"
definition ER_WRONG_PARAMCOUNT_TO_PROCEDURE :: nat where "ER_WRONG_PARAMCOUNT_TO_PROCEDURE = 1107"
definition ER_UNKNOWN_TABLE :: nat where "ER_UNKNOWN_TABLE = 1109"
definition ER_FIELD_SPECIFIED_TWICE :: nat where "ER_FIELD_SPECIFIED_TWICE = 1110"
definition ER_UNSUPPORTED_EXTENSION :: nat where "ER_UNSUPPORTED_EXTENSION = 1112"
definition ER_TABLE_MUST_HAVE_COLUMNS :: nat where "ER_TABLE_MUST_HAVE_COLUMNS = 1113"
definition ER_UNKNOWN_CHARACTER_SET :: nat where "ER_UNKNOWN_CHARACTER_SET = 1115"
definition ER_TOO_BIG_ROWSIZE :: nat where "ER_TOO_BIG_ROWSIZE = 1118"
definition ER_WRONG_OUTER_JOIN :: nat where "ER_WRONG_OUTER_JOIN = 1120"
definition ER_NULL_COLUMN_IN_INDEX :: nat where "ER_NULL_COLUMN_IN_INDEX = 1121"
definition ER_PASSWORD_ANONYMOUS_USER :: nat where "ER_PASSWORD_ANONYMOUS_USER = 1131"
definition ER_PASSWORD_NOT_ALLOWED :: nat where "ER_PASSWORD_NOT_ALLOWED = 1132"
definition ER_PASSWORD_NO_MATCH :: nat where "ER_PASSWORD_NO_MATCH = 1133"
definition ER_WRONG_VALUE_COUNT_ON_ROW :: nat where "ER_WRONG_VALUE_COUNT_ON_ROW = 1136"
definition ER_INVALID_USE_OF_NULL :: nat where "ER_INVALID_USE_OF_NULL = 1138"
definition ER_REGEXP_ERROR :: nat where "ER_REGEXP_ERROR = 1139"
definition ER_MIX_OF_GROUP_FUNC_AND_FIELDS :: nat where "ER_MIX_OF_GROUP_FUNC_AND_FIELDS = 1140"
definition ER_NONEXISTING_GRANT :: nat where "ER_NONEXISTING_GRANT = 1141"
definition ER_TABLEACCESS_DENIED_ERROR :: nat where "ER_TABLEACCESS_DENIED_ERROR = 1142"
definition ER_COLUMNACCESS_DENIED_ERROR :: nat where "ER_COLUMNACCESS_DENIED_ERROR = 1143"
definition ER_ILLEGAL_GRANT_FOR_TABLE :: nat where "ER_ILLEGAL_GRANT_FOR_TABLE = 1144"
definition ER_GRANT_WRONG_HOST_OR_USER :: nat where "ER_GRANT_WRONG_HOST_OR_USER = 1145"
definition ER_NO_SUCH_TABLE :: nat where "ER_NO_SUCH_TABLE = 1146"
definition ER_NONEXISTING_TABLE_GRANT :: nat where "ER_NONEXISTING_TABLE_GRANT = 1147"
definition ER_NOT_ALLOWED_COMMAND :: nat where "ER_NOT_ALLOWED_COMMAND = 1148"
definition ER_SYNTAX_ERROR :: nat where "ER_SYNTAX_ERROR = 1149"
definition ER_ABORTING_CONNECTION :: nat where "ER_ABORTING_CONNECTION = 1152"
definition ER_NET_PACKET_TOO_LARGE :: nat where "ER_NET_PACKET_TOO_LARGE = 1153"
definition ER_NET_READ_ERROR_FROM_PIPE :: nat where "ER_NET_READ_ERROR_FROM_PIPE = 1154"
definition ER_NET_FCNTL_ERROR :: nat where "ER_NET_FCNTL_ERROR = 1155"
definition ER_NET_PACKETS_OUT_OF_ORDER :: nat where "ER_NET_PACKETS_OUT_OF_ORDER = 1156"
definition ER_NET_UNCOMPRESS_ERROR :: nat where "ER_NET_UNCOMPRESS_ERROR = 1157"
definition ER_NET_READ_ERROR :: nat where "ER_NET_READ_ERROR = 1158"
definition ER_NET_READ_INTERRUPTED :: nat where "ER_NET_READ_INTERRUPTED = 1159"
definition ER_NET_ERROR_ON_WRITE :: nat where "ER_NET_ERROR_ON_WRITE = 1160"
definition ER_NET_WRITE_INTERRUPTED :: nat where "ER_NET_WRITE_INTERRUPTED = 1161"
definition ER_TOO_LONG_STRING :: nat where "ER_TOO_LONG_STRING = 1162"
definition ER_TABLE_CANT_HANDLE_BLOB :: nat where "ER_TABLE_CANT_HANDLE_BLOB = 1163"
definition ER_TABLE_CANT_HANDLE_AUTO_INCREMENT :: nat where "ER_TABLE_CANT_HANDLE_AUTO_INCREMENT = 1164"
definition ER_WRONG_COLUMN_NAME :: nat where "ER_WRONG_COLUMN_NAME = 1166"
definition ER_WRONG_KEY_COLUMN :: nat where "ER_WRONG_KEY_COLUMN = 1167"
definition ER_DUP_UNIQUE :: nat where "ER_DUP_UNIQUE = 1169"
definition ER_BLOB_KEY_WITHOUT_LENGTH :: nat where "ER_BLOB_KEY_WITHOUT_LENGTH = 1170"
definition ER_PRIMARY_CANT_HAVE_NULL :: nat where "ER_PRIMARY_CANT_HAVE_NULL = 1171"
definition ER_TOO_MANY_ROWS :: nat where "ER_TOO_MANY_ROWS = 1172"
definition ER_REQUIRES_PRIMARY_KEY :: nat where "ER_REQUIRES_PRIMARY_KEY = 1173"
definition ER_KEY_DOES_NOT_EXISTS :: nat where "ER_KEY_DOES_NOT_EXISTS = 1176"
definition ER_CHECK_NO_SUCH_TABLE :: nat where "ER_CHECK_NO_SUCH_TABLE = 1177"
definition ER_CHECK_NOT_IMPLEMENTED :: nat where "ER_CHECK_NOT_IMPLEMENTED = 1178"
definition ER_CANT_DO_THIS_DURING_AN_TRANSACTION :: nat where "ER_CANT_DO_THIS_DURING_AN_TRANSACTION = 1179"
definition ER_NEW_ABORTING_CONNECTION :: nat where "ER_NEW_ABORTING_CONNECTION = 1184"
definition ER_MASTER_NET_READ :: nat where "ER_MASTER_NET_READ = 1189"
definition ER_MASTER_NET_WRITE :: nat where "ER_MASTER_NET_WRITE = 1190"
definition ER_TOO_MANY_USER_CONNECTIONS :: nat where "ER_TOO_MANY_USER_CONNECTIONS = 1203"
definition ER_READ_ONLY_TRANSACTION :: nat where "ER_READ_ONLY_TRANSACTION = 1207"
definition ER_NO_PERMISSION_TO_CREATE_USER :: nat where "ER_NO_PERMISSION_TO_CREATE_USER = 1211"
definition ER_LOCK_DEADLOCK :: nat where "ER_LOCK_DEADLOCK = 1213"
definition ER_NO_REFERENCED_ROW :: nat where "ER_NO_REFERENCED_ROW = 1216"
definition ER_ROW_IS_REFERENCED :: nat where "ER_ROW_IS_REFERENCED = 1217"
definition ER_CONNECT_TO_MASTER :: nat where "ER_CONNECT_TO_MASTER = 1218"
definition ER_WRONG_NUMBER_OF_COLUMNS_IN_SELECT :: nat where "ER_WRONG_NUMBER_OF_COLUMNS_IN_SELECT = 1222"
definition ER_USER_LIMIT_REACHED :: nat where "ER_USER_LIMIT_REACHED = 1226"
definition ER_SPECIFIC_ACCESS_DENIED_ERROR :: nat where "ER_SPECIFIC_ACCESS_DENIED_ERROR = 1227"
definition ER_NO_DEFAULT :: nat where "ER_NO_DEFAULT = 1230"
definition ER_WRONG_VALUE_FOR_VAR :: nat where "ER_WRONG_VALUE_FOR_VAR = 1231"
definition ER_WRONG_TYPE_FOR_VAR :: nat where "ER_WRONG_TYPE_FOR_VAR = 1232"
definition ER_CANT_USE_OPTION_HERE :: nat where "ER_CANT_USE_OPTION_HERE = 1234"
definition ER_NOT_SUPPORTED_YET :: nat where "ER_NOT_SUPPORTED_YET = 1235"
definition ER_WRONG_FK_DEF :: nat where "ER_WRONG_FK_DEF = 1239"
definition ER_OPERAND_COLUMNS :: nat where "ER_OPERAND_COLUMNS = 1241"
definition ER_SUBQUERY_NO_1_ROW :: nat where "ER_SUBQUERY_NO_1_ROW = 1242"
definition ER_ILLEGAL_REFERENCE :: nat where "ER_ILLEGAL_REFERENCE = 1247"
definition ER_DERIVED_MUST_HAVE_ALIAS :: nat where "ER_DERIVED_MUST_HAVE_ALIAS = 1248"
definition ER_SELECT_REDUCED :: nat where "ER_SELECT_REDUCED = 1249"
definition ER_TABLENAME_NOT_ALLOWED_HERE :: nat where "ER_TABLENAME_NOT_ALLOWED_HERE = 1250"
definition ER_NOT_SUPPORTED_AUTH_MODE :: nat where "ER_NOT_SUPPORTED_AUTH_MODE = 1251"
definition ER_SPATIAL_CANT_HAVE_NULL :: nat where "ER_SPATIAL_CANT_HAVE_NULL = 1252"
definition ER_COLLATION_CHARSET_MISMATCH :: nat where "ER_COLLATION_CHARSET_MISMATCH = 1253"
definition ER_WARN_TOO_FEW_RECORDS :: nat where "ER_WARN_TOO_FEW_RECORDS = 1261"
definition ER_WARN_TOO_MANY_RECORDS :: nat where "ER_WARN_TOO_MANY_RECORDS = 1262"
definition ER_WARN_NULL_TO_NOTNULL :: nat where "ER_WARN_NULL_TO_NOTNULL = 1263"
definition ER_WARN_DATA_OUT_OF_RANGE :: nat where "ER_WARN_DATA_OUT_OF_RANGE = 1264"
definition WARN_DATA_TRUNCATED :: nat where "WARN_DATA_TRUNCATED = 1265"
definition ER_WRONG_NAME_FOR_INDEX :: nat where "ER_WRONG_NAME_FOR_INDEX = 1280"
definition ER_WRONG_NAME_FOR_CATALOG :: nat where "ER_WRONG_NAME_FOR_CATALOG = 1281"
definition ER_UNKNOWN_STORAGE_ENGINE :: nat where "ER_UNKNOWN_STORAGE_ENGINE = 1286"
definition ER_TRUNCATED_WRONG_VALUE :: nat where "ER_TRUNCATED_WRONG_VALUE = 1292"
definition ER_SP_NO_RECURSIVE_CREATE :: nat where "ER_SP_NO_RECURSIVE_CREATE = 1303"
definition ER_SP_ALREADY_EXISTS :: nat where "ER_SP_ALREADY_EXISTS = 1304"
definition ER_SP_DOES_NOT_EXIST :: nat where "ER_SP_DOES_NOT_EXIST = 1305"
definition ER_SP_LILABEL_MISMATCH :: nat where "ER_SP_LILABEL_MISMATCH = 1308"
definition ER_SP_LABEL_REDEFINE :: nat where "ER_SP_LABEL_REDEFINE = 1309"
definition ER_SP_LABEL_MISMATCH :: nat where "ER_SP_LABEL_MISMATCH = 1310"
definition ER_SP_UNINIT_VAR :: nat where "ER_SP_UNINIT_VAR = 1311"
definition ER_SP_BADSELECT :: nat where "ER_SP_BADSELECT = 1312"
definition ER_SP_BADRETURN :: nat where "ER_SP_BADRETURN = 1313"
definition ER_SP_BADSTATEMENT :: nat where "ER_SP_BADSTATEMENT = 1314"
definition ER_UPDATE_LOG_DEPRECATED_IGNORED :: nat where "ER_UPDATE_LOG_DEPRECATED_IGNORED = 1315"
definition ER_UPDATE_LOG_DEPRECATED_TRANSLATED :: nat where "ER_UPDATE_LOG_DEPRECATED_TRANSLATED = 1316"
definition ER_QUERY_INTERRUPTED :: nat where "ER_QUERY_INTERRUPTED = 1317"
definition ER_SP_WRONG_NO_OF_ARGS :: nat where "ER_SP_WRONG_NO_OF_ARGS = 1318"
definition ER_SP_COND_MISMATCH :: nat where "ER_SP_COND_MISMATCH = 1319"
definition ER_SP_NORETURN :: nat where "ER_SP_NORETURN = 1320"
definition ER_SP_NORETURNEND :: nat where "ER_SP_NORETURNEND = 1321"
definition ER_SP_BAD_CURSOR_QUERY :: nat where "ER_SP_BAD_CURSOR_QUERY = 1322"
definition ER_SP_BAD_CURSOR_SELECT :: nat where "ER_SP_BAD_CURSOR_SELECT = 1323"
definition ER_SP_CURSOR_MISMATCH :: nat where "ER_SP_CURSOR_MISMATCH = 1324"
definition ER_SP_CURSOR_ALREADY_OPEN :: nat where "ER_SP_CURSOR_ALREADY_OPEN = 1325"
definition ER_SP_CURSOR_NOT_OPEN :: nat where "ER_SP_CURSOR_NOT_OPEN = 1326"
definition ER_SP_UNDECLARED_VAR :: nat where "ER_SP_UNDECLARED_VAR = 1327"
definition ER_SP_FETCH_NO_DATA :: nat where "ER_SP_FETCH_NO_DATA = 1329"
definition ER_SP_DUP_PARAM :: nat where "ER_SP_DUP_PARAM = 1330"
definition ER_SP_DUP_VAR :: nat where "ER_SP_DUP_VAR = 1331"
definition ER_SP_DUP_COND :: nat where "ER_SP_DUP_COND = 1332"
definition ER_SP_DUP_CURS :: nat where "ER_SP_DUP_CURS = 1333"
definition ER_SP_SUBSELECT_NYI :: nat where "ER_SP_SUBSELECT_NYI = 1335"
definition ER_STMT_NOT_ALLOWED_IN_SF_OR_TRG :: nat where "ER_STMT_NOT_ALLOWED_IN_SF_OR_TRG = 1336"
definition ER_SP_VARCOND_AFTER_CURSHNDLR :: nat where "ER_SP_VARCOND_AFTER_CURSHNDLR = 1337"
definition ER_SP_CURSOR_AFTER_HANDLER :: nat where "ER_SP_CURSOR_AFTER_HANDLER = 1338"
definition ER_SP_CASE_NOT_FOUND :: nat where "ER_SP_CASE_NOT_FOUND = 1339"
definition ER_DIVISION_BY_ZERO :: nat where "ER_DIVISION_BY_ZERO = 1365"
definition ER_TRUNCATED_WRONG_VALUE_FOR_FIELD :: nat where "ER_TRUNCATED_WRONG_VALUE_FOR_FIELD = 1366"
definition ER_ILLEGAL_VALUE_FOR_TYPE :: nat where "ER_ILLEGAL_VALUE_FOR_TYPE = 1367"
definition ER_VIEW_CHECK_FAILED :: nat where "ER_VIEW_CHECK_FAILED = 1369"
definition ER_PROCACCESS_DENIED_ERROR :: nat where "ER_PROCACCESS_DENIED_ERROR = 1370"
definition ER_XAER_NOTA :: nat where "ER_XAER_NOTA = 1397"
definition ER_XAER_INVAL :: nat where "ER_XAER_INVAL = 1398"
definition ER_XAER_RMFAIL :: nat where "ER_XAER_RMFAIL = 1399"
definition ER_XAER_OUTSIDE :: nat where "ER_XAER_OUTSIDE = 1400"
definition ER_XAER_RMERR :: nat where "ER_XAER_RMERR = 1401"
definition ER_XA_RBROLLBACK :: nat where "ER_XA_RBROLLBACK = 1402"
definition ER_NONEXISTING_PROC_GRANT :: nat where "ER_NONEXISTING_PROC_GRANT = 1403"
definition ER_DATA_TOO_LONG :: nat where "ER_DATA_TOO_LONG = 1406"
definition ER_SP_BAD_SQLSTATE :: nat where "ER_SP_BAD_SQLSTATE = 1407"
definition ER_CANT_CREATE_USER_WITH_GRANT :: nat where "ER_CANT_CREATE_USER_WITH_GRANT = 1410"
definition ER_SP_DUP_HANDLER :: nat where "ER_SP_DUP_HANDLER = 1413"
definition ER_SP_NOT_VAR_ARG :: nat where "ER_SP_NOT_VAR_ARG = 1414"
definition ER_SP_NO_RETSET :: nat where "ER_SP_NO_RETSET = 1415"
definition ER_CANT_CREATE_GEOMETRY_OBJECT :: nat where "ER_CANT_CREATE_GEOMETRY_OBJECT = 1416"
definition ER_TOO_BIG_SCALE :: nat where "ER_TOO_BIG_SCALE = 1425"
definition ER_TOO_BIG_PRECISION :: nat where "ER_TOO_BIG_PRECISION = 1426"
definition ER_M_BIGGER_THAN_D :: nat where "ER_M_BIGGER_THAN_D = 1427"
definition ER_TOO_LONG_BODY :: nat where "ER_TOO_LONG_BODY = 1437"
definition ER_TOO_BIG_DISPLAYWIDTH :: nat where "ER_TOO_BIG_DISPLAYWIDTH = 1439"
definition ER_XAER_DUPID :: nat where "ER_XAER_DUPID = 1440"
definition ER_DATETIME_FUNCTION_OVERFLOW :: nat where "ER_DATETIME_FUNCTION_OVERFLOW = 1441"
definition ER_MALFORMED_DEFINER :: nat where "ER_MALFORMED_DEFINER = 1446"
definition ER_ROW_IS_REFERENCED_2 :: nat where "ER_ROW_IS_REFERENCED_2 = 1451"
definition ER_NO_REFERENCED_ROW_2 :: nat where "ER_NO_REFERENCED_ROW_2 = 1452"
definition ER_SP_BAD_VAR_SHADOW :: nat where "ER_SP_BAD_VAR_SHADOW = 1453"
definition ER_SP_WRONG_NAME :: nat where "ER_SP_WRONG_NAME = 1458"
definition ER_SP_NO_AGGREGATE :: nat where "ER_SP_NO_AGGREGATE = 1460"
definition ER_MAX_PREPARED_STMT_COUNT_REACHED :: nat where "ER_MAX_PREPARED_STMT_COUNT_REACHED = 1461"
definition ER_NON_GROUPING_FIELD_USED :: nat where "ER_NON_GROUPING_FIELD_USED = 1463"
definition ER_CANT_CHANGE_TX_CHARACTERISTICS :: nat where "ER_CANT_CHANGE_TX_CHARACTERISTICS = 1568"
definition ER_WRONG_PARAMCOUNT_TO_NATIVE_FCT :: nat where "ER_WRONG_PARAMCOUNT_TO_NATIVE_FCT = 1582"
definition ER_WRONG_PARAMETERS_TO_NATIVE_FCT :: nat where "ER_WRONG_PARAMETERS_TO_NATIVE_FCT = 1583"
definition ER_WRONG_PARAMETERS_TO_STORED_FCT :: nat where "ER_WRONG_PARAMETERS_TO_STORED_FCT = 1584"
definition ER_DUP_ENTRY_WITH_KEY_NAME :: nat where "ER_DUP_ENTRY_WITH_KEY_NAME = 1586"
definition ER_XA_RBTIMEOUT :: nat where "ER_XA_RBTIMEOUT = 1613"
definition ER_XA_RBDEADLOCK :: nat where "ER_XA_RBDEADLOCK = 1614"
definition ER_FUNC_INEXISTENT_NAME_COLLISION :: nat where "ER_FUNC_INEXISTENT_NAME_COLLISION = 1630"
definition ER_DUP_SIGNAL_SET :: nat where "ER_DUP_SIGNAL_SET = 1641"
definition ER_SIGNAL_WARN :: nat where "ER_SIGNAL_WARN = 1642"
definition ER_SIGNAL_NOT_FOUND :: nat where "ER_SIGNAL_NOT_FOUND = 1643"
definition ER_SIGNAL_EXCEPTION :: nat where "ER_SIGNAL_EXCEPTION = 1644"
definition ER_RESIGNAL_WITHOUT_ACTIVE_HANDLER :: nat where "ER_RESIGNAL_WITHOUT_ACTIVE_HANDLER = 1645"
definition ER_SPATIAL_MUST_HAVE_GEOM_COL :: nat where "ER_SPATIAL_MUST_HAVE_GEOM_COL = 1687"
definition ER_DATA_OUT_OF_RANGE :: nat where "ER_DATA_OUT_OF_RANGE = 1690"
definition ER_ACCESS_DENIED_NO_PASSWORD_ERROR :: nat where "ER_ACCESS_DENIED_NO_PASSWORD_ERROR = 1698"
definition ER_TRUNCATE_ILLEGAL_FK :: nat where "ER_TRUNCATE_ILLEGAL_FK = 1701"
definition ER_DA_INVALID_CONDITION_NUMBER :: nat where "ER_DA_INVALID_CONDITION_NUMBER = 1758"
definition ER_FOREIGN_DUPLICATE_KEY_WITH_CHILD_INFO :: nat where "ER_FOREIGN_DUPLICATE_KEY_WITH_CHILD_INFO = 1761"
definition ER_FOREIGN_DUPLICATE_KEY_WITHOUT_CHILD_INFO :: nat where "ER_FOREIGN_DUPLICATE_KEY_WITHOUT_CHILD_INFO = 1762"
definition ER_CANT_EXECUTE_IN_READ_ONLY_TRANSACTION :: nat where "ER_CANT_EXECUTE_IN_READ_ONLY_TRANSACTION = 1792"
definition ER_ALTER_OPERATION_NOT_SUPPORTED :: nat where "ER_ALTER_OPERATION_NOT_SUPPORTED = 1845"
definition ER_ALTER_OPERATION_NOT_SUPPORTED_REASON :: nat where "ER_ALTER_OPERATION_NOT_SUPPORTED_REASON = 1846"
definition ER_DUP_UNKNOWN_IN_INDEX :: nat where "ER_DUP_UNKNOWN_IN_INDEX = 1859"
definition ER_ACCESS_DENIED_CHANGE_USER_ERROR :: nat where "ER_ACCESS_DENIED_CHANGE_USER_ERROR = 1873"
definition ER_DATA_OVERFLOW :: nat where "ER_DATA_OVERFLOW = 1916"
definition ER_DATA_TRUNCATED :: nat where "ER_DATA_TRUNCATED = 1917"
definition ER_BAD_DATA :: nat where "ER_BAD_DATA = 1918"
definition ER_DYN_COL_DATA :: nat where "ER_DYN_COL_DATA = 1921"
definition ER_CONNECTION_KILLED :: nat where "ER_CONNECTION_KILLED = 1927"
definition ER_NO_SUCH_TABLE_IN_ENGINE :: nat where "ER_NO_SUCH_TABLE_IN_ENGINE = 1932"
definition ER_INVALID_ROLE :: nat where "ER_INVALID_ROLE = 1959"
definition ER_INVALID_CURRENT_USER :: nat where "ER_INVALID_CURRENT_USER = 1960"
definition ER_IT_IS_A_VIEW :: nat where "ER_IT_IS_A_VIEW = 1965"
definition ER_STATEMENT_TIMEOUT :: nat where "ER_STATEMENT_TIMEOUT = 1969"
definition ER_SUBQUERIES_NOT_SUPPORTED :: nat where "ER_SUBQUERIES_NOT_SUPPORTED = 1970"
definition ER_SET_STATEMENT_NOT_SUPPORTED :: nat where "ER_SET_STATEMENT_NOT_SUPPORTED = 1971"
definition ER_INVALID_DEFAULT_VALUE_FOR_FIELD :: nat where "ER_INVALID_DEFAULT_VALUE_FOR_FIELD = 1978"
definition ER_GET_STACKED_DA_WITHOUT_ACTIVE_HANDLER :: nat where "ER_GET_STACKED_DA_WITHOUT_ACTIVE_HANDLER = 3004"
definition ER_INVALID_ARGUMENT_FOR_LOGARITHM :: nat where "ER_INVALID_ARGUMENT_FOR_LOGARITHM = 3020"
definition ER_GIS_INVALID_DATA :: nat where "ER_GIS_INVALID_DATA = 3037"
definition ER_USER_LOCK_WRONG_NAME :: nat where "ER_USER_LOCK_WRONG_NAME = 3057"
definition ER_UNUSED_26 :: nat where "ER_UNUSED_26 = 4000"
definition ER_CONSTRAINT_FAILED :: nat where "ER_CONSTRAINT_FAILED = 4025"
definition ER_EXPRESSION_REFERS_TO_UNINIT_FIELD :: nat where "ER_EXPRESSION_REFERS_TO_UNINIT_FIELD = 4029"
definition ER_WRONG_PARAMCOUNT_TO_CURSOR :: nat where "ER_WRONG_PARAMCOUNT_TO_CURSOR = 4080"
definition ER_NOT_SEQUENCE :: nat where "ER_NOT_SEQUENCE = 4089"
definition ER_NOT_SEQUENCE2 :: nat where "ER_NOT_SEQUENCE2 = 4090"
definition ER_UNKNOWN_SEQUENCES :: nat where "ER_UNKNOWN_SEQUENCES = 4091"
definition ER_UNKNOWN_VIEW :: nat where "ER_UNKNOWN_VIEW = 4092"
definition ER_TOO_LONG_KEYPART :: nat where "ER_TOO_LONG_KEYPART = 4159"

lemmas er_defs =
  ER_DUP_KEY_def
  ER_OUTOFMEMORY_def
  ER_OUT_OF_SORTMEMORY_def
  ER_CON_COUNT_ERROR_def
  ER_BAD_HOST_ERROR_def
  ER_HANDSHAKE_ERROR_def
  ER_DBACCESS_DENIED_ERROR_def
  ER_ACCESS_DENIED_ERROR_def
  ER_NO_DB_ERROR_def
  ER_UNKNOWN_COM_ERROR_def
  ER_BAD_NULL_ERROR_def
  ER_BAD_DB_ERROR_def
  ER_TABLE_EXISTS_ERROR_def
  ER_BAD_TABLE_ERROR_def
  ER_NON_UNIQ_ERROR_def
  ER_SERVER_SHUTDOWN_def
  ER_BAD_FIELD_ERROR_def
  ER_WRONG_FIELD_WITH_GROUP_def
  ER_WRONG_GROUP_FIELD_def
  ER_WRONG_SUM_SELECT_def
  ER_WRONG_VALUE_COUNT_def
  ER_TOO_LONG_IDENT_def
  ER_DUP_FIELDNAME_def
  ER_DUP_KEYNAME_def
  ER_DUP_ENTRY_def
  ER_WRONG_FIELD_SPEC_def
  ER_PARSE_ERROR_def
  ER_EMPTY_QUERY_def
  ER_NONUNIQ_TABLE_def
  ER_INVALID_DEFAULT_def
  ER_MULTIPLE_PRI_KEY_def
  ER_TOO_MANY_KEYS_def
  ER_TOO_MANY_KEY_PARTS_def
  ER_TOO_LONG_KEY_def
  ER_KEY_COLUMN_DOES_NOT_EXITS_def
  ER_BLOB_USED_AS_KEY_def
  ER_TOO_BIG_FIELDLENGTH_def
  ER_WRONG_AUTO_KEY_def
  ER_FORCING_CLOSE_def
  ER_IPSOCK_ERROR_def
  ER_NO_SUCH_INDEX_def
  ER_WRONG_FIELD_TERMINATORS_def
  ER_BLOBS_AND_NO_TERMINATED_def
  ER_CANT_REMOVE_ALL_FIELDS_def
  ER_CANT_DROP_FIELD_OR_KEY_def
  ER_WRONG_DB_NAME_def
  ER_WRONG_TABLE_NAME_def
  ER_TOO_BIG_SELECT_def
  ER_UNKNOWN_PROCEDURE_def
  ER_WRONG_PARAMCOUNT_TO_PROCEDURE_def
  ER_UNKNOWN_TABLE_def
  ER_FIELD_SPECIFIED_TWICE_def
  ER_UNSUPPORTED_EXTENSION_def
  ER_TABLE_MUST_HAVE_COLUMNS_def
  ER_UNKNOWN_CHARACTER_SET_def
  ER_TOO_BIG_ROWSIZE_def
  ER_WRONG_OUTER_JOIN_def
  ER_NULL_COLUMN_IN_INDEX_def
  ER_PASSWORD_ANONYMOUS_USER_def
  ER_PASSWORD_NOT_ALLOWED_def
  ER_PASSWORD_NO_MATCH_def
  ER_WRONG_VALUE_COUNT_ON_ROW_def
  ER_INVALID_USE_OF_NULL_def
  ER_REGEXP_ERROR_def
  ER_MIX_OF_GROUP_FUNC_AND_FIELDS_def
  ER_NONEXISTING_GRANT_def
  ER_TABLEACCESS_DENIED_ERROR_def
  ER_COLUMNACCESS_DENIED_ERROR_def
  ER_ILLEGAL_GRANT_FOR_TABLE_def
  ER_GRANT_WRONG_HOST_OR_USER_def
  ER_NO_SUCH_TABLE_def
  ER_NONEXISTING_TABLE_GRANT_def
  ER_NOT_ALLOWED_COMMAND_def
  ER_SYNTAX_ERROR_def
  ER_ABORTING_CONNECTION_def
  ER_NET_PACKET_TOO_LARGE_def
  ER_NET_READ_ERROR_FROM_PIPE_def
  ER_NET_FCNTL_ERROR_def
  ER_NET_PACKETS_OUT_OF_ORDER_def
  ER_NET_UNCOMPRESS_ERROR_def
  ER_NET_READ_ERROR_def
  ER_NET_READ_INTERRUPTED_def
  ER_NET_ERROR_ON_WRITE_def
  ER_NET_WRITE_INTERRUPTED_def
  ER_TOO_LONG_STRING_def
  ER_TABLE_CANT_HANDLE_BLOB_def
  ER_TABLE_CANT_HANDLE_AUTO_INCREMENT_def
  ER_WRONG_COLUMN_NAME_def
  ER_WRONG_KEY_COLUMN_def
  ER_DUP_UNIQUE_def
  ER_BLOB_KEY_WITHOUT_LENGTH_def
  ER_PRIMARY_CANT_HAVE_NULL_def
  ER_TOO_MANY_ROWS_def
  ER_REQUIRES_PRIMARY_KEY_def
  ER_KEY_DOES_NOT_EXISTS_def
  ER_CHECK_NO_SUCH_TABLE_def
  ER_CHECK_NOT_IMPLEMENTED_def
  ER_CANT_DO_THIS_DURING_AN_TRANSACTION_def
  ER_NEW_ABORTING_CONNECTION_def
  ER_MASTER_NET_READ_def
  ER_MASTER_NET_WRITE_def
  ER_TOO_MANY_USER_CONNECTIONS_def
  ER_READ_ONLY_TRANSACTION_def
  ER_NO_PERMISSION_TO_CREATE_USER_def
  ER_LOCK_DEADLOCK_def
  ER_NO_REFERENCED_ROW_def
  ER_ROW_IS_REFERENCED_def
  ER_CONNECT_TO_MASTER_def
  ER_WRONG_NUMBER_OF_COLUMNS_IN_SELECT_def
  ER_USER_LIMIT_REACHED_def
  ER_SPECIFIC_ACCESS_DENIED_ERROR_def
  ER_NO_DEFAULT_def
  ER_WRONG_VALUE_FOR_VAR_def
  ER_WRONG_TYPE_FOR_VAR_def
  ER_CANT_USE_OPTION_HERE_def
  ER_NOT_SUPPORTED_YET_def
  ER_WRONG_FK_DEF_def
  ER_OPERAND_COLUMNS_def
  ER_SUBQUERY_NO_1_ROW_def
  ER_ILLEGAL_REFERENCE_def
  ER_DERIVED_MUST_HAVE_ALIAS_def
  ER_SELECT_REDUCED_def
  ER_TABLENAME_NOT_ALLOWED_HERE_def
  ER_NOT_SUPPORTED_AUTH_MODE_def
  ER_SPATIAL_CANT_HAVE_NULL_def
  ER_COLLATION_CHARSET_MISMATCH_def
  ER_WARN_TOO_FEW_RECORDS_def
  ER_WARN_TOO_MANY_RECORDS_def
  ER_WARN_NULL_TO_NOTNULL_def
  ER_WARN_DATA_OUT_OF_RANGE_def
  WARN_DATA_TRUNCATED_def
  ER_WRONG_NAME_FOR_INDEX_def
  ER_WRONG_NAME_FOR_CATALOG_def
  ER_UNKNOWN_STORAGE_ENGINE_def
  ER_TRUNCATED_WRONG_VALUE_def
  ER_SP_NO_RECURSIVE_CREATE_def
  ER_SP_ALREADY_EXISTS_def
  ER_SP_DOES_NOT_EXIST_def
  ER_SP_LILABEL_MISMATCH_def
  ER_SP_LABEL_REDEFINE_def
  ER_SP_LABEL_MISMATCH_def
  ER_SP_UNINIT_VAR_def
  ER_SP_BADSELECT_def
  ER_SP_BADRETURN_def
  ER_SP_BADSTATEMENT_def
  ER_UPDATE_LOG_DEPRECATED_IGNORED_def
  ER_UPDATE_LOG_DEPRECATED_TRANSLATED_def
  ER_QUERY_INTERRUPTED_def
  ER_SP_WRONG_NO_OF_ARGS_def
  ER_SP_COND_MISMATCH_def
  ER_SP_NORETURN_def
  ER_SP_NORETURNEND_def
  ER_SP_BAD_CURSOR_QUERY_def
  ER_SP_BAD_CURSOR_SELECT_def
  ER_SP_CURSOR_MISMATCH_def
  ER_SP_CURSOR_ALREADY_OPEN_def
  ER_SP_CURSOR_NOT_OPEN_def
  ER_SP_UNDECLARED_VAR_def
  ER_SP_FETCH_NO_DATA_def
  ER_SP_DUP_PARAM_def
  ER_SP_DUP_VAR_def
  ER_SP_DUP_COND_def
  ER_SP_DUP_CURS_def
  ER_SP_SUBSELECT_NYI_def
  ER_STMT_NOT_ALLOWED_IN_SF_OR_TRG_def
  ER_SP_VARCOND_AFTER_CURSHNDLR_def
  ER_SP_CURSOR_AFTER_HANDLER_def
  ER_SP_CASE_NOT_FOUND_def
  ER_DIVISION_BY_ZERO_def
  ER_TRUNCATED_WRONG_VALUE_FOR_FIELD_def
  ER_ILLEGAL_VALUE_FOR_TYPE_def
  ER_VIEW_CHECK_FAILED_def
  ER_PROCACCESS_DENIED_ERROR_def
  ER_XAER_NOTA_def
  ER_XAER_INVAL_def
  ER_XAER_RMFAIL_def
  ER_XAER_OUTSIDE_def
  ER_XAER_RMERR_def
  ER_XA_RBROLLBACK_def
  ER_NONEXISTING_PROC_GRANT_def
  ER_DATA_TOO_LONG_def
  ER_SP_BAD_SQLSTATE_def
  ER_CANT_CREATE_USER_WITH_GRANT_def
  ER_SP_DUP_HANDLER_def
  ER_SP_NOT_VAR_ARG_def
  ER_SP_NO_RETSET_def
  ER_CANT_CREATE_GEOMETRY_OBJECT_def
  ER_TOO_BIG_SCALE_def
  ER_TOO_BIG_PRECISION_def
  ER_M_BIGGER_THAN_D_def
  ER_TOO_LONG_BODY_def
  ER_TOO_BIG_DISPLAYWIDTH_def
  ER_XAER_DUPID_def
  ER_DATETIME_FUNCTION_OVERFLOW_def
  ER_MALFORMED_DEFINER_def
  ER_ROW_IS_REFERENCED_2_def
  ER_NO_REFERENCED_ROW_2_def
  ER_SP_BAD_VAR_SHADOW_def
  ER_SP_WRONG_NAME_def
  ER_SP_NO_AGGREGATE_def
  ER_MAX_PREPARED_STMT_COUNT_REACHED_def
  ER_NON_GROUPING_FIELD_USED_def
  ER_CANT_CHANGE_TX_CHARACTERISTICS_def
  ER_WRONG_PARAMCOUNT_TO_NATIVE_FCT_def
  ER_WRONG_PARAMETERS_TO_NATIVE_FCT_def
  ER_WRONG_PARAMETERS_TO_STORED_FCT_def
  ER_DUP_ENTRY_WITH_KEY_NAME_def
  ER_XA_RBTIMEOUT_def
  ER_XA_RBDEADLOCK_def
  ER_FUNC_INEXISTENT_NAME_COLLISION_def
  ER_DUP_SIGNAL_SET_def
  ER_SIGNAL_WARN_def
  ER_SIGNAL_NOT_FOUND_def
  ER_SIGNAL_EXCEPTION_def
  ER_RESIGNAL_WITHOUT_ACTIVE_HANDLER_def
  ER_SPATIAL_MUST_HAVE_GEOM_COL_def
  ER_DATA_OUT_OF_RANGE_def
  ER_ACCESS_DENIED_NO_PASSWORD_ERROR_def
  ER_TRUNCATE_ILLEGAL_FK_def
  ER_DA_INVALID_CONDITION_NUMBER_def
  ER_FOREIGN_DUPLICATE_KEY_WITH_CHILD_INFO_def
  ER_FOREIGN_DUPLICATE_KEY_WITHOUT_CHILD_INFO_def
  ER_CANT_EXECUTE_IN_READ_ONLY_TRANSACTION_def
  ER_ALTER_OPERATION_NOT_SUPPORTED_def
  ER_ALTER_OPERATION_NOT_SUPPORTED_REASON_def
  ER_DUP_UNKNOWN_IN_INDEX_def
  ER_ACCESS_DENIED_CHANGE_USER_ERROR_def
  ER_DATA_OVERFLOW_def
  ER_DATA_TRUNCATED_def
  ER_BAD_DATA_def
  ER_DYN_COL_DATA_def
  ER_CONNECTION_KILLED_def
  ER_NO_SUCH_TABLE_IN_ENGINE_def
  ER_INVALID_ROLE_def
  ER_INVALID_CURRENT_USER_def
  ER_IT_IS_A_VIEW_def
  ER_STATEMENT_TIMEOUT_def
  ER_SUBQUERIES_NOT_SUPPORTED_def
  ER_SET_STATEMENT_NOT_SUPPORTED_def
  ER_INVALID_DEFAULT_VALUE_FOR_FIELD_def
  ER_GET_STACKED_DA_WITHOUT_ACTIVE_HANDLER_def
  ER_INVALID_ARGUMENT_FOR_LOGARITHM_def
  ER_GIS_INVALID_DATA_def
  ER_USER_LOCK_WRONG_NAME_def
  ER_UNUSED_26_def
  ER_CONSTRAINT_FAILED_def
  ER_EXPRESSION_REFERS_TO_UNINIT_FIELD_def
  ER_WRONG_PARAMCOUNT_TO_CURSOR_def
  ER_NOT_SEQUENCE_def
  ER_NOT_SEQUENCE2_def
  ER_UNKNOWN_SEQUENCES_def
  ER_UNKNOWN_VIEW_def
  ER_TOO_LONG_KEYPART_def

definition sql_state_1 :: "(nat \<times> string \<times> string) list" where
  "sql_state_1 =
    [(ER_DUP_KEY, ''23000'', ''''),
     (ER_OUTOFMEMORY, ''HY001'', ''S1001''),
     (ER_OUT_OF_SORTMEMORY, ''HY001'', ''S1001''),
     (ER_CON_COUNT_ERROR, ''08004'', ''''),
     (ER_BAD_HOST_ERROR, ''08S01'', ''''),
     (ER_HANDSHAKE_ERROR, ''08S01'', ''''),
     (ER_DBACCESS_DENIED_ERROR, ''42000'', ''''),
     (ER_ACCESS_DENIED_ERROR, ''28000'', ''''),
     (ER_NO_DB_ERROR, ''3D000'', ''''),
     (ER_UNKNOWN_COM_ERROR, ''08S01'', ''''),
     (ER_BAD_NULL_ERROR, ''23000'', ''''),
     (ER_BAD_DB_ERROR, ''42000'', ''''),
     (ER_TABLE_EXISTS_ERROR, ''42S01'', ''''),
     (ER_BAD_TABLE_ERROR, ''42S02'', ''''),
     (ER_NON_UNIQ_ERROR, ''23000'', ''''),
     (ER_SERVER_SHUTDOWN, ''08S01'', ''''),
     (ER_BAD_FIELD_ERROR, ''42S22'', ''S0022''),
     (ER_WRONG_FIELD_WITH_GROUP, ''42000'', ''S1009''),
     (ER_WRONG_GROUP_FIELD, ''42000'', ''S1009''),
     (ER_WRONG_SUM_SELECT, ''42000'', ''S1009''),
     (ER_WRONG_VALUE_COUNT, ''21S01'', ''''),
     (ER_TOO_LONG_IDENT, ''42000'', ''S1009''),
     (ER_DUP_FIELDNAME, ''42S21'', ''S1009''),
     (ER_DUP_KEYNAME, ''42000'', ''S1009''),
     (ER_DUP_ENTRY, ''23000'', ''S1009''),
     (ER_WRONG_FIELD_SPEC, ''42000'', ''S1009''),
     (ER_PARSE_ERROR, ''42000'', ''s1009''),
     (ER_EMPTY_QUERY, ''42000'', ''''),
     (ER_NONUNIQ_TABLE, ''42000'', ''S1009''),
     (ER_INVALID_DEFAULT, ''42000'', ''S1009''),
     (ER_MULTIPLE_PRI_KEY, ''42000'', ''S1009''),
     (ER_TOO_MANY_KEYS, ''42000'', ''S1009''),
     (ER_TOO_MANY_KEY_PARTS, ''42000'', ''S1009''),
     (ER_TOO_LONG_KEY, ''42000'', ''S1009''),
     (ER_KEY_COLUMN_DOES_NOT_EXITS, ''42000'', ''S1009''),
     (ER_BLOB_USED_AS_KEY, ''42000'', ''S1009''),
     (ER_TOO_BIG_FIELDLENGTH, ''42000'', ''S1009''),
     (ER_WRONG_AUTO_KEY, ''42000'', ''S1009''),
     (ER_FORCING_CLOSE, ''08S01'', ''''),
     (ER_IPSOCK_ERROR, ''08S01'', ''''),
     (ER_NO_SUCH_INDEX, ''42S12'', ''S1009''),
     (ER_WRONG_FIELD_TERMINATORS, ''42000'', ''S1009''),
     (ER_BLOBS_AND_NO_TERMINATED, ''42000'', ''S1009''),
     (ER_CANT_REMOVE_ALL_FIELDS, ''42000'', ''''),
     (ER_CANT_DROP_FIELD_OR_KEY, ''42000'', ''''),
     (ER_WRONG_DB_NAME, ''42000'', ''''),
     (ER_WRONG_TABLE_NAME, ''42000'', ''''),
     (ER_TOO_BIG_SELECT, ''42000'', ''''),
     (ER_UNKNOWN_PROCEDURE, ''42000'', ''''),
     (ER_WRONG_PARAMCOUNT_TO_PROCEDURE, ''42000'', ''''),
     (ER_UNKNOWN_TABLE, ''42S02'', ''''),
     (ER_FIELD_SPECIFIED_TWICE, ''42000'', ''''),
     (ER_UNSUPPORTED_EXTENSION, ''42000'', ''''),
     (ER_TABLE_MUST_HAVE_COLUMNS, ''42000'', ''''),
     (ER_UNKNOWN_CHARACTER_SET, ''42000'', ''''),
     (ER_TOO_BIG_ROWSIZE, ''42000'', ''''),
     (ER_WRONG_OUTER_JOIN, ''42000'', ''''),
     (ER_NULL_COLUMN_IN_INDEX, ''42000'', ''''),
     (ER_PASSWORD_ANONYMOUS_USER, ''42000'', ''''),
     (ER_PASSWORD_NOT_ALLOWED, ''42000'', ''''),
     (ER_PASSWORD_NO_MATCH, ''28000'', ''''),
     (ER_WRONG_VALUE_COUNT_ON_ROW, ''21S01'', ''''),
     (ER_INVALID_USE_OF_NULL, ''22004'', ''''),
     (ER_REGEXP_ERROR, ''42000'', ''''),
     (ER_MIX_OF_GROUP_FUNC_AND_FIELDS, ''42000'', ''''),
     (ER_NONEXISTING_GRANT, ''42000'', ''''),
     (ER_TABLEACCESS_DENIED_ERROR, ''42000'', ''''),
     (ER_COLUMNACCESS_DENIED_ERROR, ''42000'', ''''),
     (ER_ILLEGAL_GRANT_FOR_TABLE, ''42000'', ''''),
     (ER_GRANT_WRONG_HOST_OR_USER, ''42000'', ''''),
     (ER_NO_SUCH_TABLE, ''42S02'', ''''),
     (ER_NONEXISTING_TABLE_GRANT, ''42000'', ''''),
     (ER_NOT_ALLOWED_COMMAND, ''42000'', ''''),
     (ER_SYNTAX_ERROR, ''42000'', ''''),
     (ER_ABORTING_CONNECTION, ''08S01'', ''''),
     (ER_NET_PACKET_TOO_LARGE, ''08S01'', ''''),
     (ER_NET_READ_ERROR_FROM_PIPE, ''08S01'', ''''),
     (ER_NET_FCNTL_ERROR, ''08S01'', ''''),
     (ER_NET_PACKETS_OUT_OF_ORDER, ''08S01'', ''''),
     (ER_NET_UNCOMPRESS_ERROR, ''08S01'', ''''),
     (ER_NET_READ_ERROR, ''08S01'', ''''),
     (ER_NET_READ_INTERRUPTED, ''08S01'', ''''),
     (ER_NET_ERROR_ON_WRITE, ''08S01'', ''''),
     (ER_NET_WRITE_INTERRUPTED, ''08S01'', ''''),
     (ER_TOO_LONG_STRING, ''42000'', ''''),
     (ER_TABLE_CANT_HANDLE_BLOB, ''42000'', ''''),
     (ER_TABLE_CANT_HANDLE_AUTO_INCREMENT, ''42000'', ''''),
     (ER_WRONG_COLUMN_NAME, ''42000'', ''''),
     (ER_WRONG_KEY_COLUMN, ''42000'', ''''),
     (ER_DUP_UNIQUE, ''23000'', ''''),
     (ER_BLOB_KEY_WITHOUT_LENGTH, ''42000'', ''''),
     (ER_PRIMARY_CANT_HAVE_NULL, ''42000'', ''''),
     (ER_TOO_MANY_ROWS, ''42000'', ''''),
     (ER_REQUIRES_PRIMARY_KEY, ''42000'', ''''),
     (ER_KEY_DOES_NOT_EXISTS, ''42000'', ''S1009''),
     (ER_CHECK_NO_SUCH_TABLE, ''42000'', ''''),
     (ER_CHECK_NOT_IMPLEMENTED, ''42000'', ''''),
     (ER_CANT_DO_THIS_DURING_AN_TRANSACTION, ''25000'', ''''),
     (ER_NEW_ABORTING_CONNECTION, ''08S01'', ''''),
     (ER_MASTER_NET_READ, ''08S01'', ''''),
     (ER_MASTER_NET_WRITE, ''08S01'', ''''),
     (ER_TOO_MANY_USER_CONNECTIONS, ''42000'', ''''),
     (ER_READ_ONLY_TRANSACTION, ''25000'', ''''),
     (ER_NO_PERMISSION_TO_CREATE_USER, ''42000'', ''''),
     (ER_LOCK_DEADLOCK, ''40001'', ''''),
     (ER_NO_REFERENCED_ROW, ''23000'', ''''),
     (ER_ROW_IS_REFERENCED, ''23000'', ''''),
     (ER_CONNECT_TO_MASTER, ''08S01'', ''''),
     (ER_WRONG_NUMBER_OF_COLUMNS_IN_SELECT, ''21000'', ''''),
     (ER_USER_LIMIT_REACHED, ''42000'', ''''),
     (ER_SPECIFIC_ACCESS_DENIED_ERROR, ''42000'', ''''),
     (ER_NO_DEFAULT, ''42000'', ''''),
     (ER_WRONG_VALUE_FOR_VAR, ''42000'', ''''),
     (ER_WRONG_TYPE_FOR_VAR, ''42000'', ''''),
     (ER_CANT_USE_OPTION_HERE, ''42000'', ''''),
     (ER_NOT_SUPPORTED_YET, ''42000'', ''''),
     (ER_WRONG_FK_DEF, ''42000'', ''''),
     (ER_OPERAND_COLUMNS, ''21000'', ''''),
     (ER_SUBQUERY_NO_1_ROW, ''21000'', ''''),
     (ER_ILLEGAL_REFERENCE, ''42S22'', ''''),
     (ER_DERIVED_MUST_HAVE_ALIAS, ''42000'', ''''),
     (ER_SELECT_REDUCED, ''01000'', ''''),
     (ER_TABLENAME_NOT_ALLOWED_HERE, ''42000'', ''''),
     (ER_NOT_SUPPORTED_AUTH_MODE, ''08004'', ''''),
     (ER_SPATIAL_CANT_HAVE_NULL, ''42000'', ''''),
     (ER_COLLATION_CHARSET_MISMATCH, ''42000'', ''''),
     (ER_WARN_TOO_FEW_RECORDS, ''01000'', ''''),
     (ER_WARN_TOO_MANY_RECORDS, ''01000'', '''')]"

definition sql_state_2 :: "(nat \<times> string \<times> string) list" where
  "sql_state_2 =
    [(ER_WARN_NULL_TO_NOTNULL, ''22004'', ''''),
     (ER_WARN_DATA_OUT_OF_RANGE, ''22003'', ''''),
     (WARN_DATA_TRUNCATED, ''01000'', ''''),
     (ER_WRONG_NAME_FOR_INDEX, ''42000'', ''''),
     (ER_WRONG_NAME_FOR_CATALOG, ''42000'', ''''),
     (ER_UNKNOWN_STORAGE_ENGINE, ''42000'', ''''),
     (ER_TRUNCATED_WRONG_VALUE, ''22007'', ''''),
     (ER_SP_NO_RECURSIVE_CREATE, ''2F003'', ''''),
     (ER_SP_ALREADY_EXISTS, ''42000'', ''''),
     (ER_SP_DOES_NOT_EXIST, ''42000'', ''''),
     (ER_SP_LILABEL_MISMATCH, ''42000'', ''''),
     (ER_SP_LABEL_REDEFINE, ''42000'', ''''),
     (ER_SP_LABEL_MISMATCH, ''42000'', ''''),
     (ER_SP_UNINIT_VAR, ''01000'', ''''),
     (ER_SP_BADSELECT, ''0A000'', ''''),
     (ER_SP_BADRETURN, ''42000'', ''''),
     (ER_SP_BADSTATEMENT, ''0A000'', ''''),
     (ER_UPDATE_LOG_DEPRECATED_IGNORED, ''42000'', ''''),
     (ER_UPDATE_LOG_DEPRECATED_TRANSLATED, ''42000'', ''''),
     (ER_QUERY_INTERRUPTED, ''70100'', ''''),
     (ER_SP_WRONG_NO_OF_ARGS, ''42000'', ''''),
     (ER_SP_COND_MISMATCH, ''42000'', ''''),
     (ER_SP_NORETURN, ''42000'', ''''),
     (ER_SP_NORETURNEND, ''2F005'', ''''),
     (ER_SP_BAD_CURSOR_QUERY, ''42000'', ''''),
     (ER_SP_BAD_CURSOR_SELECT, ''42000'', ''''),
     (ER_SP_CURSOR_MISMATCH, ''42000'', ''''),
     (ER_SP_CURSOR_ALREADY_OPEN, ''24000'', ''''),
     (ER_SP_CURSOR_NOT_OPEN, ''24000'', ''''),
     (ER_SP_UNDECLARED_VAR, ''42000'', ''''),
     (ER_SP_FETCH_NO_DATA, ''02000'', ''''),
     (ER_SP_DUP_PARAM, ''42000'', ''''),
     (ER_SP_DUP_VAR, ''42000'', ''''),
     (ER_SP_DUP_COND, ''42000'', ''''),
     (ER_SP_DUP_CURS, ''42000'', ''''),
     (ER_SP_SUBSELECT_NYI, ''0A000'', ''''),
     (ER_STMT_NOT_ALLOWED_IN_SF_OR_TRG, ''0A000'', ''''),
     (ER_SP_VARCOND_AFTER_CURSHNDLR, ''42000'', ''''),
     (ER_SP_CURSOR_AFTER_HANDLER, ''42000'', ''''),
     (ER_SP_CASE_NOT_FOUND, ''20000'', ''''),
     (ER_DIVISION_BY_ZERO, ''22012'', ''''),
     (ER_TRUNCATED_WRONG_VALUE_FOR_FIELD, ''22007'', ''''),
     (ER_ILLEGAL_VALUE_FOR_TYPE, ''22007'', ''''),
     (ER_VIEW_CHECK_FAILED, ''44000'', ''''),
     (ER_PROCACCESS_DENIED_ERROR, ''42000'', ''''),
     (ER_XAER_NOTA, ''XAE04'', ''''),
     (ER_XAER_INVAL, ''XAE05'', ''''),
     (ER_XAER_RMFAIL, ''XAE07'', ''''),
     (ER_XAER_OUTSIDE, ''XAE09'', ''''),
     (ER_XAER_RMERR, ''XAE03'', ''''),
     (ER_XA_RBROLLBACK, ''XA100'', ''''),
     (ER_NONEXISTING_PROC_GRANT, ''42000'', ''''),
     (ER_DATA_TOO_LONG, ''22001'', ''''),
     (ER_SP_BAD_SQLSTATE, ''42000'', ''''),
     (ER_CANT_CREATE_USER_WITH_GRANT, ''42000'', ''''),
     (ER_SP_DUP_HANDLER, ''42000'', ''''),
     (ER_SP_NOT_VAR_ARG, ''42000'', ''''),
     (ER_SP_NO_RETSET, ''0A000'', ''''),
     (ER_CANT_CREATE_GEOMETRY_OBJECT, ''22003'', ''''),
     (ER_TOO_BIG_SCALE, ''42000'', ''S1009''),
     (ER_TOO_BIG_PRECISION, ''42000'', ''S1009''),
     (ER_M_BIGGER_THAN_D, ''42000'', ''S1009''),
     (ER_TOO_LONG_BODY, ''42000'', ''S1009''),
     (ER_TOO_BIG_DISPLAYWIDTH, ''42000'', ''S1009''),
     (ER_XAER_DUPID, ''XAE08'', ''''),
     (ER_DATETIME_FUNCTION_OVERFLOW, ''22008'', ''''),
     (ER_MALFORMED_DEFINER, ''0L000'', ''''),
     (ER_ROW_IS_REFERENCED_2, ''23000'', ''''),
     (ER_NO_REFERENCED_ROW_2, ''23000'', ''''),
     (ER_SP_BAD_VAR_SHADOW, ''42000'', ''''),
     (ER_SP_WRONG_NAME, ''42000'', ''''),
     (ER_SP_NO_AGGREGATE, ''42000'', ''''),
     (ER_MAX_PREPARED_STMT_COUNT_REACHED, ''42000'', ''''),
     (ER_NON_GROUPING_FIELD_USED, ''42000'', ''''),
     (ER_CANT_CHANGE_TX_CHARACTERISTICS, ''25001'', ''''),
     (ER_WRONG_PARAMCOUNT_TO_NATIVE_FCT, ''42000'', ''''),
     (ER_WRONG_PARAMETERS_TO_NATIVE_FCT, ''42000'', ''''),
     (ER_WRONG_PARAMETERS_TO_STORED_FCT, ''42000'', ''''),
     (ER_DUP_ENTRY_WITH_KEY_NAME, ''23000'', ''S1009''),
     (ER_XA_RBTIMEOUT, ''XA106'', ''''),
     (ER_XA_RBDEADLOCK, ''XA102'', ''''),
     (ER_FUNC_INEXISTENT_NAME_COLLISION, ''42000'', ''''),
     (ER_DUP_SIGNAL_SET, ''42000'', ''''),
     (ER_SIGNAL_WARN, ''01000'', ''''),
     (ER_SIGNAL_NOT_FOUND, ''02000'', ''''),
     (ER_SIGNAL_EXCEPTION, ''HY000'', ''''),
     (ER_RESIGNAL_WITHOUT_ACTIVE_HANDLER, ''0K000'', ''''),
     (ER_SPATIAL_MUST_HAVE_GEOM_COL, ''42000'', ''''),
     (ER_DATA_OUT_OF_RANGE, ''22003'', ''''),
     (ER_ACCESS_DENIED_NO_PASSWORD_ERROR, ''28000'', ''''),
     (ER_TRUNCATE_ILLEGAL_FK, ''42000'', ''''),
     (ER_DA_INVALID_CONDITION_NUMBER, ''35000'', ''''),
     (ER_FOREIGN_DUPLICATE_KEY_WITH_CHILD_INFO, ''23000'', ''S1009''),
     (ER_FOREIGN_DUPLICATE_KEY_WITHOUT_CHILD_INFO, ''23000'', ''S1009''),
     (ER_CANT_EXECUTE_IN_READ_ONLY_TRANSACTION, ''25006'', ''''),
     (ER_ALTER_OPERATION_NOT_SUPPORTED, ''0A000'', ''''),
     (ER_ALTER_OPERATION_NOT_SUPPORTED_REASON, ''0A000'', ''''),
     (ER_DUP_UNKNOWN_IN_INDEX, ''23000'', ''''),
     (ER_ACCESS_DENIED_CHANGE_USER_ERROR, ''28000'', ''''),
     (ER_DATA_OVERFLOW, ''22003'', ''''),
     (ER_DATA_TRUNCATED, ''22003'', ''''),
     (ER_BAD_DATA, ''22007'', ''''),
     (ER_DYN_COL_DATA, ''22007'', ''''),
     (ER_CONNECTION_KILLED, ''70100'', ''''),
     (ER_NO_SUCH_TABLE_IN_ENGINE, ''42S02'', ''''),
     (ER_INVALID_ROLE, ''OP000'', ''''),
     (ER_INVALID_CURRENT_USER, ''0L000'', ''''),
     (ER_IT_IS_A_VIEW, ''42S02'', ''''),
     (ER_STATEMENT_TIMEOUT, ''70100'', ''''),
     (ER_SUBQUERIES_NOT_SUPPORTED, ''42000'', ''''),
     (ER_SET_STATEMENT_NOT_SUPPORTED, ''42000'', ''''),
     (ER_INVALID_DEFAULT_VALUE_FOR_FIELD, ''22007'', ''''),
     (ER_GET_STACKED_DA_WITHOUT_ACTIVE_HANDLER, ''0Z002'', ''''),
     (ER_INVALID_ARGUMENT_FOR_LOGARITHM, ''2201E'', ''''),
     (ER_GIS_INVALID_DATA, ''22023'', ''''),
     (ER_USER_LOCK_WRONG_NAME, ''42000'', ''''),
     (ER_UNUSED_26, ''0A000'', ''''),
     (ER_CONSTRAINT_FAILED, ''23000'', ''''),
     (ER_EXPRESSION_REFERS_TO_UNINIT_FIELD, ''01000'', ''''),
     (ER_WRONG_PARAMCOUNT_TO_CURSOR, ''42000'', ''''),
     (ER_NOT_SEQUENCE, ''42S02'', ''''),
     (ER_NOT_SEQUENCE2, ''42S02'', ''''),
     (ER_UNKNOWN_SEQUENCES, ''42S02'', ''''),
     (ER_UNKNOWN_VIEW, ''42S02'', ''''),
     (ER_TOO_LONG_KEYPART, ''42000'', ''S1009'')]"

definition sql_state :: "(nat \<times> string \<times> string) list" where
  "sql_state = sql_state_1 @ sql_state_2"

end
