(* ===== verification/Sql_State_Lookup.thy ===== *)
theory Sql_State_Lookup
  imports Sql_States
begin

text \<open>
  The order of the SQLSTATE tables, which their users search by halving, and the rows of the
  constraint violations that the voting schema can raise.
\<close>

section \<open>Increasing lists\<close>

fun increasing :: "nat list \<Rightarrow> bool" where
  "increasing (x # y # zs) \<longleftrightarrow> x < y \<and> increasing (y # zs)"
| "increasing zs \<longleftrightarrow> True"

lemma increasing_sorted: "increasing xs \<Longrightarrow> sorted_wrt (<) xs"
proof (induction xs rule: increasing.induct)
  case (1 x y zs)
  then show ?case by auto
qed auto

lemma sorted_rows_unique:
  fixes rows :: "(nat \<times> 'b) list"
  assumes "sorted_wrt (<) (map fst rows)" "(n, s) \<in> set rows"
  shows "map_of rows n = Some s"
proof -
  have "distinct (map fst rows)" using assms(1) by (simp add: strict_sorted_iff)
  then show ?thesis using assms(2) by simp
qed

section \<open>The tables in order\<close>

lemma handler_state_increasing: "increasing (map fst handler_state)"
  by (simp add: handler_state_def ha_err_defs)

lemma sql_state_increasing: "increasing (map fst sql_state)"
  by (simp add: sql_state_def sql_state_1_def sql_state_2_def er_defs)

text \<open>An SQLSTATE is five characters, digits or upper-case letters.\<close>

definition state_char :: "char \<Rightarrow> bool" where
  "state_char c \<longleftrightarrow> c \<in> set ''0123456789ABCDEFGHIJKLMNOPQRSTUVWXYZ''"

definition state_ok :: "string \<Rightarrow> bool" where
  "state_ok s \<longleftrightarrow> length s = 5 \<and> list_all state_char s"

lemma handler_states_ok: "list_all (\<lambda>(n, s, j). state_ok s) handler_state"
  by (simp add: handler_state_def state_ok_def state_char_def)

lemma sql_states_ok: "list_all (\<lambda>(n, s, j). state_ok s) sql_state"
  by (simp add: sql_state_def sql_state_1_def sql_state_2_def state_ok_def state_char_def)

text \<open>One SQLSTATE of JDBC is written with a lower-case letter.\<close>

lemma jdbc_states_ok:
  "filter (\<lambda>(n, s, j). \<not> (j = '''' \<or> state_ok j)) sql_state = [(ER_PARSE_ERROR, ''42000'', ''s1009'')]"
  by (simp add: sql_state_def sql_state_1_def sql_state_2_def state_ok_def state_char_def)

text \<open>The messages of two errors of sequences stand in each other's place.\<close>

lemma sequence_messages_swapped:
  "handler_error_messages ! (HA_ERR_SEQUENCE_RUN_OUT - HA_ERR_FIRST) = ''Sequence values are conflicting'' \<and>
   handler_error_messages ! (HA_ERR_SEQUENCE_INVALID_DATA - HA_ERR_FIRST) = ''Sequence has been run out''"
  by (simp add: handler_error_messages_def ha_err_defs)

lemma handler_messages_length: "length handler_error_messages = HA_ERR_ERRORS"
  by (simp add: handler_error_messages_def ha_err_defs)

section \<open>Property\<close>

text \<open>
  Both tables of SQLSTATEs are in strictly increasing order of their error numbers, so that
  searching by halving finds the one row of a number, and every SQLSTATE is well-formed. The
  constraint violations of the voting schema, a duplicate key and a missing or referenced row,
  all have the SQLSTATE of integrity violations, from the server as from the storage
  engine, and every handler error has a message.
\<close>

theorem sql_state_tables:
  "sorted_wrt (<) (map fst sql_state) \<and> sorted_wrt (<) (map fst handler_state) \<and>
   list_all (\<lambda>(n, s, j). state_ok s) sql_state \<and> list_all (\<lambda>(n, s, j). state_ok s) handler_state \<and>
   map_of sql_state ER_DUP_ENTRY = Some (''23000'', ''S1009'') \<and>
   map (map_of sql_state) [ER_DUP_KEY, ER_NO_REFERENCED_ROW_2, ER_ROW_IS_REFERENCED_2] =
     replicate 3 (Some (''23000'', '''')) \<and>
   map (map_of handler_state) [HA_ERR_FOUND_DUPP_KEY, HA_ERR_FOUND_DUPP_UNIQUE, HA_ERR_NO_REFERENCED_ROW,
     HA_ERR_ROW_IS_REFERENCED, HA_ERR_FOREIGN_DUPLICATE_KEY] = replicate 5 (Some (''23000'', '''')) \<and>
   length handler_error_messages = HA_ERR_ERRORS"
proof -
  note sorted = increasing_sorted [OF sql_state_increasing] increasing_sorted [OF handler_state_increasing]
  have "(ER_DUP_ENTRY, ''23000'', ''S1009'') \<in> set sql_state"
    by (simp add: sql_state_def sql_state_1_def sql_state_2_def)
  moreover have "(ER_DUP_KEY, ''23000'', '''') \<in> set sql_state \<and> (ER_NO_REFERENCED_ROW_2, ''23000'', '''') \<in> set sql_state \<and>
      (ER_ROW_IS_REFERENCED_2, ''23000'', '''') \<in> set sql_state"
    by (simp add: sql_state_def sql_state_1_def sql_state_2_def)
  moreover have "(HA_ERR_FOUND_DUPP_KEY, ''23000'', '''') \<in> set handler_state \<and>
      (HA_ERR_FOUND_DUPP_UNIQUE, ''23000'', '''') \<in> set handler_state \<and> (HA_ERR_NO_REFERENCED_ROW, ''23000'', '''') \<in> set handler_state \<and>
      (HA_ERR_ROW_IS_REFERENCED, ''23000'', '''') \<in> set handler_state \<and> (HA_ERR_FOREIGN_DUPLICATE_KEY, ''23000'', '''') \<in> set handler_state"
    by (simp add: handler_state_def)
  ultimately show ?thesis
    using sorted sql_states_ok handler_states_ok handler_messages_length
    by (simp add: sorted_rows_unique numeral_eq_Suc)
qed

end
