(* ===== verification/Sql_String.thy ===== *)
theory Sql_String
  imports Byte_Codecs
begin

text \<open>
  The string buffer \<open>Binary_string\<close> of \<open>sql_string.h\<close> over the byte memory of the byte-order
  headers, and the tables of collation changes of \<open>Charset\<close>. \<open>Ptr\<close> is an address with 0 for null;
  \<open>my_free\<close> does not change memory. Assertions of debug builds are left out of the operations.
  \<open>realloc_raw\<close> and \<open>real_alloc\<close>, which the server implements elsewhere, are parameters.
\<close>

section \<open>Collation changes\<close>

definition MY_PAGE2_COLLATION_ID_UTF8 :: uint where "MY_PAGE2_COLLATION_ID_UTF8 = 0x240"
definition MY_PAGE2_COLLATION_ID_UTF8MB4 :: uint where "MY_PAGE2_COLLATION_ID_UTF8MB4 = 0x260"
definition MY_PAGE2_COLLATION_ID_UCS2 :: uint where "MY_PAGE2_COLLATION_ID_UCS2 = 0x280"
definition MY_PAGE2_COLLATION_ID_UTF16 :: uint where "MY_PAGE2_COLLATION_ID_UTF16 = 0x2A0"
definition MY_PAGE2_COLLATION_ID_UTF32 :: uint where "MY_PAGE2_COLLATION_ID_UTF32 = 0x2E0"

definition latest_mariadb_version_with_collation_change :: "32 word" where
  "latest_mariadb_version_with_collation_change = 110002"

definition collation_changed_order :: "32 word \<Rightarrow> uint \<Rightarrow> bool" where
  "collation_changed_order mysql_version cs_number =
     (if (mysql_version < 50048 \<and>
            (cs_number = 11 \<or> cs_number = 41 \<or> cs_number = 42 \<or> cs_number = 20 \<or> cs_number = 21 \<or>
             cs_number = 22 \<or> cs_number = 23 \<or> cs_number = 26)) \<or>
         (mysql_version < 50124 \<and> (cs_number = 33 \<or> cs_number = 35))
      then True
      else if cs_number = 159 \<and>
         ((100400 \<le> mysql_version \<and> mysql_version < 100429) \<or>
          (100500 \<le> mysql_version \<and> mysql_version < 100520) \<or>
          (100600 \<le> mysql_version \<and> mysql_version < 100613) \<or>
          (100700 \<le> mysql_version \<and> mysql_version < 100708) \<or>
          (100800 \<le> mysql_version \<and> mysql_version < 100808) \<or>
          (100900 \<le> mysql_version \<and> mysql_version < 100906) \<or>
          (101000 \<le> mysql_version \<and> mysql_version < 101004) \<or>
          (101100 \<le> mysql_version \<and> mysql_version < 101103) \<or>
          (110000 \<le> mysql_version \<and> mysql_version < 110002))
      then True
      else False)"

definition upgrade_collation_id :: "32 word \<Rightarrow> uint \<Rightarrow> uint" where
  "upgrade_collation_id mysql_version cs_number =
     (if 50300 \<le> mysql_version \<and> mysql_version \<le> 50399 \<and> cs_number = 149 then MY_PAGE2_COLLATION_ID_UCS2
      else if 50300 \<le> mysql_version \<and> mysql_version \<le> 50399 \<and> cs_number = 213 then MY_PAGE2_COLLATION_ID_UTF8
      else if (50500 \<le> mysql_version \<and> mysql_version \<le> 50599) \<or> (100000 \<le> mysql_version \<and> mysql_version \<le> 100005)
      then if cs_number = 149 then MY_PAGE2_COLLATION_ID_UCS2
           else if cs_number = 213 then MY_PAGE2_COLLATION_ID_UTF8
           else if cs_number = 214 then MY_PAGE2_COLLATION_ID_UTF32
           else if cs_number = 215 then MY_PAGE2_COLLATION_ID_UTF16
           else if cs_number = 245 then MY_PAGE2_COLLATION_ID_UTF8MB4
           else cs_number
      else cs_number)"

section \<open>Binary_string\<close>

record Binary_string =
  Ptr :: nat
  str_length :: uint32
  Alloced_length :: uint32
  extra_alloc :: uint32
  alloced :: bool
  thread_specific :: bool

definition init_private_data :: Binary_string where
  "init_private_data = \<lparr>Ptr = 0, str_length = 0, Alloced_length = 0, extra_alloc = 0, alloced = False, thread_specific = False\<rparr>"

definition free_buffer :: "Binary_string \<Rightarrow> Binary_string" where
  "free_buffer b = (if alloced b then b\<lparr>alloced := False\<rparr> else b)"

definition Binary_string_const :: "nat \<Rightarrow> size_t \<Rightarrow> Binary_string" where
  "Binary_string_const str len =
     \<lparr>Ptr = str, str_length = ucast len, Alloced_length = 0, extra_alloc = 0, alloced = False, thread_specific = False\<rparr>"

definition Binary_string_buffer :: "nat \<Rightarrow> size_t \<Rightarrow> Binary_string" where
  "Binary_string_buffer str len =
     \<lparr>Ptr = str, str_length = ucast len, Alloced_length = ucast len, extra_alloc = 0, alloced = False, thread_specific = False\<rparr>"

definition Binary_string_copy :: "Binary_string \<Rightarrow> Binary_string" where
  "Binary_string_copy str = str\<lparr>extra_alloc := 0, alloced := False, thread_specific := False\<rparr>"

definition bs_set_length :: "size_t \<Rightarrow> Binary_string \<Rightarrow> Binary_string" where
  "bs_set_length len b = b\<lparr>str_length := ucast len\<rparr>"

definition bs_is_empty :: "Binary_string \<Rightarrow> bool" where
  "bs_is_empty b \<longleftrightarrow> str_length b = 0"

definition bs_end :: "Binary_string \<Rightarrow> nat" where
  "bs_end b = Ptr b + unat (str_length b)"

text \<open>\<open>my_isascii\<close> on a byte; the loop over the bytes of the string.\<close>

definition my_isascii :: "uchar \<Rightarrow> bool" where
  "my_isascii c \<longleftrightarrow> c AND NOT 0x7F = 0"

fun has_8bit_from :: "memory \<Rightarrow> nat \<Rightarrow> nat \<Rightarrow> bool" where
  "has_8bit_from m c 0 = False"
| "has_8bit_from m c (Suc k) = (if \<not> my_isascii (m c) then True else has_8bit_from m (c + 1) k)"

definition has_8bit_bytes :: "Binary_string \<Rightarrow> memory \<Rightarrow> bool" where
  "has_8bit_bytes b m = has_8bit_from m (Ptr b) (unat (str_length b))"

definition bin_eq :: "Binary_string \<Rightarrow> Binary_string \<Rightarrow> memory \<Rightarrow> bool" where
  "bin_eq b other m \<longleftrightarrow> str_length b = str_length other \<and>
     (\<forall>i < unat (str_length b). m (Ptr b + i) = m (Ptr other + i))"

definition bs_chop :: "Binary_string \<Rightarrow> memory \<Rightarrow> Binary_string \<times> memory" where
  "bs_chop b m =
     (if str_length b \<noteq> 0
      then (b\<lparr>str_length := str_length b - 1\<rparr>, m(Ptr b + unat (str_length b - 1) := 0))
      else (b, m))"

definition q_append_char :: "uchar \<Rightarrow> Binary_string \<Rightarrow> memory \<Rightarrow> Binary_string \<times> memory" where
  "q_append_char c b m = (b\<lparr>str_length := str_length b + 1\<rparr>, m(bs_end b := c))"

definition q_append2b :: "uint32 \<Rightarrow> Binary_string \<Rightarrow> memory \<Rightarrow> Binary_string \<times> memory" where
  "q_append2b n b m = (b\<lparr>str_length := str_length b + 2\<rparr>, int2store m (bs_end b) n)"

definition q_append_uint32 :: "uint32 \<Rightarrow> Binary_string \<Rightarrow> memory \<Rightarrow> Binary_string \<times> memory" where
  "q_append_uint32 n b m = (b\<lparr>str_length := str_length b + 4\<rparr>, int4store m (bs_end b) n)"

text \<open>The double is in memory at address \<open>d\<close>.\<close>

definition q_append_double :: "nat \<Rightarrow> Binary_string \<Rightarrow> memory \<Rightarrow> Binary_string \<times> memory" where
  "q_append_double d b m = (b\<lparr>str_length := str_length b + 8\<rparr>, le_doublestore m (bs_end b) d)"

definition q_append_data :: "nat \<Rightarrow> size_t \<Rightarrow> Binary_string \<Rightarrow> memory \<Rightarrow> Binary_string \<times> memory" where
  "q_append_data d data_len b m =
     (let m = (if data_len \<noteq> 0 then memcpy m (bs_end b) d (unat data_len) else m)
      in (b\<lparr>str_length := str_length b + ucast data_len\<rparr>, m))"

definition write_at_position :: "uint32 \<Rightarrow> uint32 \<Rightarrow> Binary_string \<Rightarrow> memory \<Rightarrow> memory" where
  "write_at_position position value b m = int4store m (Ptr b + unat position) value"

definition set_thread_specific :: "Binary_string \<Rightarrow> Binary_string" where
  "set_thread_specific b = (if \<not> alloced b then b\<lparr>thread_specific := True\<rparr> else b)"

definition extra_allocation :: "size_t \<Rightarrow> Binary_string \<Rightarrow> Binary_string" where
  "extra_allocation len b = b\<lparr>extra_alloc := ucast len\<rparr>"

definition mark_as_const :: "Binary_string \<Rightarrow> Binary_string" where
  "mark_as_const b = b\<lparr>Alloced_length := 0\<rparr>"

definition uses_buffer_owned_by :: "Binary_string \<Rightarrow> Binary_string \<Rightarrow> bool" where
  "uses_buffer_owned_by b s \<longleftrightarrow> alloced s \<and> Ptr s \<le> Ptr b \<and> Ptr b < Ptr s + unat (Alloced_length s)"

definition bs_swap :: "Binary_string \<Rightarrow> Binary_string \<Rightarrow> Binary_string \<times> Binary_string" where
  "bs_swap b s =
     (b\<lparr>Ptr := Ptr s, str_length := str_length s, Alloced_length := Alloced_length s, alloced := alloced s\<rparr>,
      s\<lparr>Ptr := Ptr b, str_length := str_length b, Alloced_length := Alloced_length b, alloced := alloced b\<rparr>)"

definition set_alloced :: "nat \<Rightarrow> size_t \<Rightarrow> size_t \<Rightarrow> Binary_string \<Rightarrow> Binary_string" where
  "set_alloced str len alloced_length b =
     (let b = free_buffer b
      in b\<lparr>Ptr := str, str_length := ucast len, Alloced_length := ucast alloced_length\<rparr>)"

definition bs_set :: "nat \<Rightarrow> size_t \<Rightarrow> Binary_string \<Rightarrow> Binary_string" where
  "bs_set str arg_length = set_alloced str arg_length arg_length"

definition bs_set_const :: "nat \<Rightarrow> size_t \<Rightarrow> Binary_string \<Rightarrow> Binary_string" where
  "bs_set_const str len b = (free_buffer b)\<lparr>Ptr := str, str_length := ucast len, Alloced_length := 0\<rparr>"

definition bs_set_sub :: "Binary_string \<Rightarrow> size_t \<Rightarrow> size_t \<Rightarrow> Binary_string \<Rightarrow> Binary_string" where
  "bs_set_sub str offset len b =
     (let b = (free_buffer b)\<lparr>Ptr := Ptr str + unat offset, str_length := ucast len, Alloced_length := 0\<rparr>
      in if Alloced_length str \<noteq> 0
         then b\<lparr>Alloced_length := ucast (ucast (Alloced_length str) - offset)\<rparr> else b)"

definition bs_reset :: "nat \<Rightarrow> size_t \<Rightarrow> size_t \<Rightarrow> Binary_string \<Rightarrow> Binary_string" where
  "bs_reset ptr_arg length_arg alloced_length_arg b =
     (set_alloced ptr_arg length_arg alloced_length_arg b)\<lparr>alloced := ptr_arg \<noteq> 0\<rparr>"

definition bs_release :: "Binary_string \<Rightarrow> nat \<times> Binary_string" where
  "bs_release b = (Ptr b, init_private_data)"

definition set_buffer_if_not_allocated :: "nat \<Rightarrow> size_t \<Rightarrow> Binary_string \<Rightarrow> Binary_string" where
  "set_buffer_if_not_allocated str arg_length b =
     (if \<not> alloced b then b\<lparr>Ptr := str, str_length := ucast arg_length, Alloced_length := ucast arg_length\<rparr> else b)"

definition bs_free :: "Binary_string \<Rightarrow> Binary_string" where
  "bs_free b = (free_buffer b)\<lparr>Ptr := 0, str_length := 0, Alloced_length := 0, extra_alloc := 0\<rparr>"

definition bs_move :: "Binary_string \<Rightarrow> Binary_string \<Rightarrow> Binary_string \<times> Binary_string" where
  "bs_move s b =
     (let b = set_alloced (Ptr s) (ucast (str_length s)) (ucast (Alloced_length s)) b
      in (b\<lparr>extra_alloc := extra_alloc s, alloced := alloced s, thread_specific := thread_specific s\<rparr>, s\<lparr>alloced := False\<rparr>))"

section \<open>Growing the buffer\<close>

type_synonym realloc_fun = "size_t \<Rightarrow> Binary_string \<Rightarrow> memory \<Rightarrow> bool \<times> Binary_string \<times> memory"

definition bs_alloc :: "realloc_fun \<Rightarrow> size_t \<Rightarrow> Binary_string \<Rightarrow> memory \<Rightarrow> bool \<times> Binary_string \<times> memory" where
  "bs_alloc real_alloc arg_length b m =
     (if arg_length \<le> ucast (Alloced_length b) \<and> Alloced_length b \<noteq> 0 then (False, b, m)
      else real_alloc arg_length b m)"

definition bs_realloc :: "realloc_fun \<Rightarrow> size_t \<Rightarrow> Binary_string \<Rightarrow> memory \<Rightarrow> bool \<times> Binary_string \<times> memory" where
  "bs_realloc realloc_raw arg_length b m =
     (let (oom, b, m) = realloc_raw (arg_length + 1) b m
      in if oom then (True, b, m) else (False, b, m(Ptr b + unat arg_length := 0)))"

definition realloc_with_extra :: "realloc_fun \<Rightarrow> size_t \<Rightarrow> Binary_string \<Rightarrow> memory \<Rightarrow> bool \<times> Binary_string \<times> memory" where
  "realloc_with_extra realloc_raw arg_length b m =
     (let b = (if extra_alloc b < 4096 then b\<lparr>extra_alloc := extra_alloc b * 2 + 128\<rparr> else b);
          (oom, b, m) = realloc_raw (arg_length + ucast (extra_alloc b)) b m
      in if oom then (True, b, m) else (False, b, m(Ptr b + unat arg_length := 0)))"

definition realloc_with_extra_if_needed :: "realloc_fun \<Rightarrow> size_t \<Rightarrow> Binary_string \<Rightarrow> memory \<Rightarrow> bool \<times> Binary_string \<times> memory" where
  "realloc_with_extra_if_needed realloc_raw arg_length b m =
     (if arg_length < ucast (Alloced_length b) then (False, b, m(Ptr b + unat arg_length := 0))
      else realloc_with_extra realloc_raw arg_length b m)"

definition bs_append :: "realloc_fun \<Rightarrow> nat \<Rightarrow> size_t \<Rightarrow> Binary_string \<Rightarrow> memory \<Rightarrow> bool \<times> Binary_string \<times> memory" where
  "bs_append realloc_raw s len b m =
     (if len = 0 then (False, b, m)
      else let (oom, b, m) = realloc_with_extra_if_needed realloc_raw (ucast (str_length b) + len) b m
           in if oom then (True, b, m) else (False, q_append_data s len b m))"

definition append_char :: "realloc_fun \<Rightarrow> uchar \<Rightarrow> Binary_string \<Rightarrow> memory \<Rightarrow> bool \<times> Binary_string \<times> memory" where
  "append_char realloc_raw chr b m =
     (if str_length b < Alloced_length b then (False, q_append_char chr b m)
      else let (oom, b, m) = realloc_with_extra realloc_raw (ucast (str_length b + 1)) b m
           in if oom then (True, b, m) else (False, q_append_char chr b m))"

text \<open>
  The table of digits \<open>_dig_vec_lower\<close> is a parameter. The source is read from memory as it is when
  each digit is appended.
\<close>

fun append_hex :: "(nat \<Rightarrow> uchar) \<Rightarrow> realloc_fun \<Rightarrow> nat \<Rightarrow> nat \<Rightarrow> Binary_string \<Rightarrow> memory \<Rightarrow> bool \<times> Binary_string \<times> memory" where
  "append_hex dig_vec_lower realloc_raw src 0 b m = (False, b, m)"
| "append_hex dig_vec_lower realloc_raw src (Suc k) b m =
     (let (oom, b, m) = append_char realloc_raw (dig_vec_lower (unat (drop_bit 4 (m src)))) b m
      in if oom then (True, b, m)
         else let (oom, b, m) = append_char realloc_raw (dig_vec_lower (unat (m src AND 0x0F))) b m
              in if oom then (True, b, m) else append_hex dig_vec_lower realloc_raw (src + 1) k b m)"

definition append_with_step :: "realloc_fun \<Rightarrow> nat \<Rightarrow> uint32 \<Rightarrow> uint32 \<Rightarrow> Binary_string \<Rightarrow> memory \<Rightarrow> bool \<times> Binary_string \<times> memory" where
  "append_with_step realloc_raw s arg_length step_alloc b m =
     (let new_length = arg_length + str_length b;
          (oom, b, m) = (if Alloced_length b < new_length then bs_realloc realloc_raw (ucast (new_length + step_alloc)) b m
                         else (False, b, m))
      in if oom then (True, b, m) else (False, q_append_data s (ucast arg_length) b m))"

definition c_ptr_safe :: "realloc_fun \<Rightarrow> Binary_string \<Rightarrow> memory \<Rightarrow> nat \<times> Binary_string \<times> memory" where
  "c_ptr_safe realloc_raw b m =
     (if Ptr b \<noteq> 0 \<and> str_length b < Alloced_length b then (Ptr b, b, m(bs_end b := 0))
      else let (_, b, m) = bs_realloc realloc_raw (ucast (str_length b)) b m in (Ptr b, b, m))"

text \<open>The empty C string that \<open>c_ptr\<close> returns for a null buffer is at address \<open>empty_str\<close>.\<close>

definition c_ptr :: "realloc_fun \<Rightarrow> nat \<Rightarrow> Binary_string \<Rightarrow> memory \<Rightarrow> nat \<times> Binary_string \<times> memory" where
  "c_ptr realloc_raw empty_str b m =
     (if Ptr b = 0 then (empty_str, b, m)
      else if \<not> alloced b \<and> m (bs_end b) = 0 then (Ptr b, b, m)
      else if str_length b < Alloced_length b then (Ptr b, b, m(bs_end b := 0))
      else let (_, b, m) = bs_realloc realloc_raw (ucast (str_length b)) b m in (Ptr b, b, m))"

definition bs_reserve :: "realloc_fun \<Rightarrow> size_t \<Rightarrow> Binary_string \<Rightarrow> memory \<Rightarrow> bool \<times> Binary_string \<times> memory" where
  "bs_reserve realloc_raw space_needed b m = bs_realloc realloc_raw (ucast (str_length b) + space_needed) b m"

definition prep_append :: "realloc_fun \<Rightarrow> uint32 \<Rightarrow> uint32 \<Rightarrow> Binary_string \<Rightarrow> memory \<Rightarrow> nat \<times> Binary_string \<times> memory" where
  "prep_append realloc_raw arg_length step_alloc b m =
     (let new_length = arg_length + str_length b;
          (oom, b, m) = (if Alloced_length b < new_length then bs_realloc realloc_raw (ucast (new_length + step_alloc)) b m
                         else (False, b, m))
      in if oom then (0, b, m)
         else (bs_end b, b\<lparr>str_length := str_length b + arg_length\<rparr>, m))"

section \<open>The bytes of a string\<close>

definition content :: "Binary_string \<Rightarrow> memory \<Rightarrow> uchar list" where
  "content b m = map m [Ptr b..<Ptr b + unat (str_length b)]"

text \<open>
  What a reallocation promises: when it is asked for more than the string it keeps the string,
  makes the buffer at least as large and writes to nothing but the buffer; a failed one changes
  nothing.
\<close>

definition realloc_ok :: "realloc_fun \<Rightarrow> bool" where
  "realloc_ok realloc_raw \<longleftrightarrow> (\<forall>n b m. case realloc_raw n b m of (oom, b', m') \<Rightarrow>
     if oom then b' = b \<and> m' = m
     else unat (str_length b) < unat n \<longrightarrow>
       unat n \<le> unat (Alloced_length b') \<and> Ptr b' \<noteq> 0 \<and> str_length b' = str_length b \<and> content b' m' = content b m \<and>
       agree_outside (Ptr b') (unat (Alloced_length b')) m m')"

text \<open>The buffer after an operation holds the string, has room for one more byte than \<open>n\<close> and a zero there.\<close>

definition grown :: "nat \<Rightarrow> Binary_string \<Rightarrow> memory \<Rightarrow> Binary_string \<Rightarrow> memory \<Rightarrow> bool" where
  "grown n b m b' m' \<longleftrightarrow> n < unat (Alloced_length b') \<and> str_length b' = str_length b \<and> content b' m' = content b m \<and>
     m' (Ptr b' + n) = 0 \<and> agree_outside (Ptr b') (unat (Alloced_length b')) m m'"

definition apart :: "nat \<Rightarrow> nat \<Rightarrow> Binary_string \<Rightarrow> bool" where
  "apart s n b \<longleftrightarrow> s + n \<le> Ptr b \<or> Ptr b + unat (Alloced_length b) \<le> s"

lemma content_beyond: "Ptr b + unat (str_length b) \<le> p \<Longrightarrow> content b (m(p := v)) = content b m"
  by (simp add: content_def)

lemma content_eq: "str_length b = str_length b' \<Longrightarrow> Ptr b = Ptr b' \<Longrightarrow> content b m = content b' m"
  by (simp add: content_def)

lemma agree_outside_upd:
  "agree_outside p n m m' \<Longrightarrow> p \<le> q \<Longrightarrow> q < p + n \<Longrightarrow> agree_outside p n m (m'(q := v))"
  by (auto simp: agree_outside_def)

lemma unat_ucast32 [simp]: "unat (ucast w :: size_t) = unat w" for w :: uint32
  by (simp add: unsigned_ucast_eq take_bit_nat_eq_self order.strict_trans [OF unsigned_less])

lemma extra_alloc_pos: "0 < unat (if e < 4096 then e * 2 + 128 else e)" for e :: uint32
proof (cases "e < 4096")
  case True
  then have "unat e < 4096" by (simp add: word_less_nat_alt)
  then have "unat (e * 2 + 128) = unat e * 2 + 128" by (simp add: unat_word_ariths)
  then show ?thesis using True by simp
next
  case False
  then show ?thesis by (auto simp: word_less_nat_alt)
qed

lemma realloc_with_extra_grown:
  assumes "realloc_ok rr" "unat (str_length b) \<le> unat n" "unat n < 2 ^ 63" "realloc_with_extra rr n b m = (False, b', m')"
  shows "grown (unat n) b m b' m'"
proof -
  define e where "e = (if extra_alloc b < 4096 then extra_alloc b * 2 + 128 else extra_alloc b)"
  define c where "c = b\<lparr>extra_alloc := e\<rparr>"
  obtain m1 where r: "rr (n + ucast e) c m = (False, b', m1)" and m': "m' = m1(Ptr b' + unat n := 0)"
    using assms(4) by (auto simp: realloc_with_extra_def Let_def e_def c_def split: prod.splits if_splits)
  have e: "0 < unat e" unfolding e_def by (rule extra_alloc_pos)
  have "unat e < 2 ^ 32" using unsigned_less [of e] by simp
  then have ne: "unat (n + ucast e) = unat n + unat e" using assms(3) by (simp add: unat_word_ariths)
  have c: "str_length c = str_length b" "content c m = content b m" by (simp_all add: c_def content_def)
  have "unat (n + ucast e) \<le> unat (Alloced_length b') \<and> str_length b' = str_length c \<and> content b' m1 = content c m \<and>
      agree_outside (Ptr b') (unat (Alloced_length b')) m m1"
    using assms(1,2) e r unfolding realloc_ok_def
    by (auto simp: ne c dest!: spec [of _ "n + ucast e"] spec [of _ c] spec [of _ m])
  then show ?thesis
    using e assms(2) by (simp add: grown_def c m' ne content_beyond agree_outside_upd)
qed

lemma realloc_if_needed_grown:
  assumes "realloc_ok rr" "unat (str_length b) \<le> unat n" "unat n < 2 ^ 63" "realloc_with_extra_if_needed rr n b m = (False, b', m')"
  shows "grown (unat n) b m b' m'"
proof (cases "n < ucast (Alloced_length b)")
  case True
  then have "unat n < unat (Alloced_length b)" by (simp add: word_less_nat_alt)
  with True assms show ?thesis
    by (auto simp: realloc_with_extra_if_needed_def grown_def content_beyond agree_outside_def)
next
  case False
  with assms show ?thesis by (intro realloc_with_extra_grown) (auto simp: realloc_with_extra_if_needed_def)
qed

lemma realloc_with_extra_failed:
  assumes "realloc_ok rr" "realloc_with_extra rr n b m = (True, b', m')"
  shows "content b' m' = content b m \<and> m' = m"
proof -
  define c where "c = (if extra_alloc b < 4096 then b\<lparr>extra_alloc := extra_alloc b * 2 + 128\<rparr> else b)"
  have "rr (n + ucast (extra_alloc c)) c m = (True, b', m')"
    using assms(2) by (auto simp: realloc_with_extra_def Let_def c_def split: prod.splits if_splits)
  then have "b' = c \<and> m' = m"
    using assms(1) unfolding realloc_ok_def by (auto dest!: spec [of _ "n + ucast (extra_alloc c)"] spec [of _ c] spec [of _ m])
  then show ?thesis by (simp add: c_def content_def)
qed

text \<open>Writing behind the string, inside the buffer.\<close>

lemma q_append_data_grown:
  assumes "grown (unat (str_length b) + unat len) b m b1 m1" "apart s (unat len) b1" "q_append_data s len b1 m1 = (b', m')"
  shows "content b' m' = content b m @ map m [s..<s + unat len] \<and> m' (bs_end b') = 0 \<and>
    agree_outside (Ptr b') (unat (Alloced_length b')) m m'"
proof -
  let ?L = "unat (str_length b)"
  have g: "?L + unat len < unat (Alloced_length b1)" "str_length b1 = str_length b" "content b1 m1 = content b m"
    "m1 (Ptr b1 + (?L + unat len)) = 0" "agree_outside (Ptr b1) (unat (Alloced_length b1)) m m1"
    using assms(1) by (auto simp: grown_def)
  have m': "m' = memcpy m1 (Ptr b1 + ?L) s (unat len)" and b': "b' = b1\<lparr>str_length := str_length b + ucast len\<rparr>"
    using assms(3) g(2) by (auto simp: q_append_data_def Let_def bs_end_def split: if_splits)
  have "unat (Alloced_length b1) < 2 ^ 32" using unsigned_less [of "Alloced_length b1"] by simp
  then have "unat len < 2 ^ 32" "?L + unat len < 2 ^ 32" using g(1) by simp_all
  then have L: "unat (str_length b + ucast len :: uint32) = ?L + unat len"
    by (simp add: unat_word_ariths unsigned_ucast_eq take_bit_nat_eq_self)
  have src: "map m1 [s..<s + unat len] = map m [s..<s + unat len]"
    using g(5) assms(2) by (auto simp: agree_outside_def apart_def)
  have "map m' [Ptr b1..<Ptr b1 + ?L] = content b m"
    using g(2) unfolding g(3) [symmetric] by (auto simp: m' memcpy_def content_def)
  moreover have "map m' [Ptr b1 + ?L..<Ptr b1 + ?L + unat len] = map m1 [s..<s + unat len]"
    by (intro nth_equalityI) (auto simp: m' memcpy_def)
  moreover have "[Ptr b1..<Ptr b1 + (?L + unat len)] = [Ptr b1..<Ptr b1 + ?L] @ [Ptr b1 + ?L..<Ptr b1 + ?L + unat len]"
    by (metis add.assoc le_add1 upt_add_eq_append)
  ultimately have "content b' m' = content b m @ map m [s..<s + unat len]"
    by (simp add: content_def b' L src)
  moreover have "m' (bs_end b') = 0" using g(4) by (simp add: bs_end_def b' L m' memcpy_def)
  moreover have "agree_outside (Ptr b') (unat (Alloced_length b')) m m'"
    using g(1,5) by (auto simp: agree_outside_def b' m' memcpy_def)
  ultimately show ?thesis by blast
qed

lemma append_char_content:
  assumes "realloc_ok rr" "unat (str_length b) + 1 < 2 ^ 32" "str_length b \<le> Alloced_length b" "append_char rr c b m = (False, b', m')"
  shows "content b' m' = content b m @ [c] \<and> str_length b' = str_length b + 1 \<and> str_length b' \<le> Alloced_length b' \<and>
    agree_outside (Ptr b') (unat (Alloced_length b')) m m'"
proof -
  have s1: "unat (str_length b + 1) = unat (str_length b) + 1" using assms(2) by (simp add: unat_word_ariths)
  have put: "content (d\<lparr>str_length := str_length d + 1\<rparr>) (k(bs_end d := c)) = content d k @ [c]"
    if "unat (str_length d + 1) = unat (str_length d) + 1" for d k
    using that by (simp add: content_def bs_end_def)
  show ?thesis
  proof (cases "str_length b < Alloced_length b")
    case True
    then show ?thesis
      using assms(4) s1 put [of b m] by (auto simp: append_char_def q_append_char_def agree_outside_def bs_end_def word_less_nat_alt word_le_nat_alt)
  next
    case False
    then obtain d k where r: "realloc_with_extra rr (ucast (str_length b + 1)) b m = (False, d, k)" and
      b': "b' = d\<lparr>str_length := str_length d + 1\<rparr>" "m' = k(bs_end d := c)"
      using assms(4) by (auto simp: append_char_def q_append_char_def Let_def split: prod.splits if_splits)
    have "grown (unat (str_length b) + 1) b m d k"
      using realloc_with_extra_grown [OF assms(1) _ _ r] assms(2) s1 by simp
    then show ?thesis
      using put [of d k] s1 by (auto simp: b' grown_def bs_end_def word_le_nat_alt agree_outside_upd)
  qed
qed

text \<open>Numbers appended in binary form are read back with the macros of the byte-order headers.\<close>

lemma q_append_numbers:
  "uint2korr (snd (q_append2b n b m)) (bs_end b) = ucast n" "uint4korr (snd (q_append_uint32 n b m)) (bs_end b) = n"
  "uint4korr (write_at_position p n b m) (Ptr b + unat p) = n"
  by (simp_all add: q_append2b_def q_append_uint32_def write_at_position_def le2.load_store le4.load_store)

lemma bs_chop_content:
  assumes "str_length b \<noteq> 0" "bs_chop b m = (b', m')"
  shows "content b' m' = butlast (content b m) \<and> m' (bs_end b') = 0"
proof -
  have "unat (str_length b - 1) = unat (str_length b) - 1" "0 < unat (str_length b)"
    using assms(1) by (simp_all add: unat_minus_one unat_gt_0)
  moreover have "butlast (map m [Ptr b..<Ptr b + unat (str_length b)]) = map m [Ptr b..<Ptr b + (unat (str_length b) - 1)]"
    using calculation(2) by (simp add: butlast_conv_take take_map take_upt)
  ultimately show ?thesis
    using assms by (auto simp: bs_chop_def content_def bs_end_def split: if_splits)
qed

section \<open>Properties\<close>

text \<open>
  C22. Appending bytes to a string buffer gives the old bytes followed by the new ones with a zero
  byte after them, and writes nothing outside the buffer, whether the bytes fit or the buffer has
  to grow; when memory is exhausted the append reports it and the string and memory are as before.
\<close>

theorem string_append_bytes:
  assumes "realloc_ok rr" "unat (str_length b) + unat len < 2 ^ 63" "bs_append rr s len b m = (oom, b', m')" "len \<noteq> 0"
  shows "(oom \<longrightarrow> content b' m' = content b m \<and> m' = m) \<and>
    (\<not> oom \<longrightarrow> apart s (unat len) b' \<longrightarrow> content b' m' = content b m @ map m [s..<s + unat len] \<and>
       m' (bs_end b') = 0 \<and> agree_outside (Ptr b') (unat (Alloced_length b')) m m')"
proof -
  let ?n = "ucast (str_length b) + len"
  have n: "unat ?n = unat (str_length b) + unat len" using assms(2) by (simp add: unat_word_ariths)
  obtain oom1 b1 m1 where r: "realloc_with_extra_if_needed rr ?n b m = (oom1, b1, m1)" by (metis prod_cases3)
  show ?thesis
  proof (cases oom1)
    case True
    then have "realloc_with_extra rr ?n b m = (True, b1, m1)"
      using r by (auto simp: realloc_with_extra_if_needed_def split: if_splits)
    then show ?thesis using realloc_with_extra_failed [OF assms(1)] assms(3,4) r True by (auto simp: bs_append_def)
  next
    case False
    then have "realloc_with_extra_if_needed rr ?n b m = (False, b1, m1)" using r by simp
    from realloc_if_needed_grown [OF assms(1) _ _ this]
    have g: "grown (unat (str_length b) + unat len) b m b1 m1" using n assms(2) by simp
    have q: "\<not> oom" "q_append_data s len b1 m1 = (b', m')" using assms(3,4) r False by (auto simp: bs_append_def)
    then have "apart s (unat len) b' = apart s (unat len) b1"
      by (auto simp: q_append_data_def Let_def apart_def)
    then show ?thesis using q_append_data_grown [OF g _ q(2)] q(1) by blast
  qed
qed

text \<open>A reallocation that moves a string that needs more room to address 100.\<close>

definition realloc_example :: realloc_fun where
  "realloc_example n b m =
     (if unat n \<le> unat (Alloced_length b) \<and> Ptr b \<noteq> 0 \<or> 2 ^ 32 \<le> unat n then (2 ^ 32 \<le> unat n, b, m)
      else (False, b\<lparr>Ptr := 100, Alloced_length := ucast n\<rparr>, memcpy m 100 (Ptr b) (unat (str_length b))))"

lemma realloc_example_ok: "realloc_ok realloc_example"
  unfolding realloc_ok_def
  by (auto simp: realloc_example_def content_def memcpy_def agree_outside_def unsigned_ucast_eq take_bit_nat_eq_self
      intro!: nth_equalityI)

theorem string_append_bytes_witness:
  "\<exists>b' m'. bs_append realloc_example 1 2 (Binary_string_const 1 2) (\<lambda>x. of_nat (64 + x)) = (False, b', m') \<and>
     content b' m' = [65, 66, 65, 66]"
proof -
  obtain oom b' m' where r: "bs_append realloc_example 1 2 (Binary_string_const 1 2) (\<lambda>x. of_nat (64 + x)) = (oom, b', m')"
    by (metis prod_cases3)
  then have "\<not> oom \<and> apart 1 2 b'"
    by (auto simp: bs_append_def realloc_with_extra_if_needed_def realloc_with_extra_def realloc_example_def
        Binary_string_const_def q_append_data_def apart_def Let_def split: if_splits)
  then show ?thesis
    using string_append_bytes [OF realloc_example_ok _ r] r
    by (simp add: Binary_string_const_def content_def upt_rec)
qed

end
