(* ===== verification/Sql_Modes.thy ===== *)
theory Sql_Modes
  imports My_Bit
begin

text \<open>
  Flag words and dates: the date conversion and rounding modes of \<open>sql_basic_types.h\<close>, the
  dependency of expressions on SQL modes of \<open>sql_mode.h\<close>, and the date functions of \<open>my_time.h\<close> on
  the structure of \<open>mysql_time.h\<close>. An enumeration is stored in 32 bits and is signed when it is
  widened; \<open>log_10_int\<close>, the table of powers of ten, is a parameter.
\<close>

section \<open>Date conversion modes\<close>

type_synonym mode_value = "32 word"

definition CONV_NONE :: mode_value where "CONV_NONE = 0"
definition FUZZY_DATES :: mode_value where "FUZZY_DATES = 1"
definition TIME_ONLY :: mode_value where "TIME_ONLY = 4"
definition INTERVAL_hhmmssff :: mode_value where "INTERVAL_hhmmssff = 8"
definition MODE_INTERVAL_DAY :: mode_value where "MODE_INTERVAL_DAY = 16"
definition RANGE0_LAST :: mode_value where "RANGE0_LAST = MODE_INTERVAL_DAY"
definition NO_ZERO_IN_DATE :: mode_value where "NO_ZERO_IN_DATE = push_bit 23 1"
definition NO_ZERO_DATE :: mode_value where "NO_ZERO_DATE = push_bit 24 1"
definition INVALID_DATES :: mode_value where "INVALID_DATES = push_bit 25 1"

definition CONV_KNOWN_MODES :: mode_value where
  "CONV_KNOWN_MODES = FUZZY_DATES OR TIME_ONLY OR INTERVAL_hhmmssff OR MODE_INTERVAL_DAY OR
     NO_ZERO_IN_DATE OR NO_ZERO_DATE OR INVALID_DATES"

definition FRAC_NONE :: mode_value where "FRAC_NONE = 0"
definition FRAC_TRUNCATE :: mode_value where "FRAC_TRUNCATE = push_bit 1 RANGE0_LAST"
definition FRAC_ROUND :: mode_value where "FRAC_ROUND = push_bit 2 RANGE0_LAST"

definition ROUND_KNOWN_MODES :: mode_value where
  "ROUND_KNOWN_MODES = FRAC_TRUNCATE OR FRAC_ROUND"

record date_conv_mode_t =
  conv_mode :: mode_value

record time_round_mode_t =
  round_mode :: mode_value

record date_mode_t =
  date_mode :: mode_value

definition date_conv_mode :: "ulonglong \<Rightarrow> date_conv_mode_t" where
  "date_conv_mode fuzzydate = \<lparr>conv_mode = ucast fuzzydate\<rparr>"

definition conv_ulonglong :: "date_conv_mode_t \<Rightarrow> ulonglong" where
  "conv_ulonglong a = scast (conv_mode a)"

definition conv_bool :: "date_conv_mode_t \<Rightarrow> bool" where
  "conv_bool a \<longleftrightarrow> conv_mode a \<noteq> 0"

definition conv_not :: "date_conv_mode_t \<Rightarrow> ulonglong" where
  "conv_not a = scast (NOT (conv_mode a))"

definition conv_and :: "date_conv_mode_t \<Rightarrow> date_conv_mode_t \<Rightarrow> date_conv_mode_t" where
  "conv_and a other = date_conv_mode (scast (conv_mode a AND conv_mode other))"

definition conv_and_ulonglong :: "date_conv_mode_t \<Rightarrow> ulonglong \<Rightarrow> date_conv_mode_t" where
  "conv_and_ulonglong a other = date_conv_mode (scast (conv_mode a) AND other)"

definition conv_or :: "date_conv_mode_t \<Rightarrow> date_conv_mode_t \<Rightarrow> date_conv_mode_t" where
  "conv_or a other = date_conv_mode (scast (conv_mode a OR conv_mode other))"

definition conv_and_assign :: "date_conv_mode_t \<Rightarrow> date_conv_mode_t \<Rightarrow> date_conv_mode_t" where
  "conv_and_assign other a = a\<lparr>conv_mode := conv_mode a AND conv_mode other\<rparr>"

definition conv_or_assign :: "date_conv_mode_t \<Rightarrow> date_conv_mode_t \<Rightarrow> date_conv_mode_t" where
  "conv_or_assign other a = a\<lparr>conv_mode := conv_mode a OR conv_mode other\<rparr>"

definition time_round_mode :: "ulonglong \<Rightarrow> time_round_mode_t" where
  "time_round_mode mode = \<lparr>round_mode = ucast mode\<rparr>"

definition round_ulonglong :: "time_round_mode_t \<Rightarrow> ulonglong" where
  "round_ulonglong a = scast (round_mode a)"

definition round_equal :: "time_round_mode_t \<Rightarrow> time_round_mode_t \<Rightarrow> bool" where
  "round_equal a other \<longleftrightarrow> round_mode a = round_mode other"

definition date_mode_of :: "ulonglong \<Rightarrow> date_mode_t" where
  "date_mode_of fuzzydate = \<lparr>date_mode = ucast fuzzydate\<rparr>"

definition date_ulonglong :: "date_mode_t \<Rightarrow> ulonglong" where
  "date_ulonglong a = scast (date_mode a)"

definition date_bool :: "date_mode_t \<Rightarrow> bool" where
  "date_bool a \<longleftrightarrow> date_mode a \<noteq> 0"

definition date_to_conv :: "date_mode_t \<Rightarrow> date_conv_mode_t" where
  "date_to_conv a = date_conv_mode (scast (date_mode a) AND scast CONV_KNOWN_MODES)"

definition date_to_round :: "date_mode_t \<Rightarrow> time_round_mode_t" where
  "date_to_round a = time_round_mode (scast (date_mode a) AND scast ROUND_KNOWN_MODES)"

definition date_not :: "date_mode_t \<Rightarrow> ulonglong" where
  "date_not a = scast (NOT (date_mode a))"

definition date_is_zero :: "date_mode_t \<Rightarrow> bool" where
  "date_is_zero a \<longleftrightarrow> date_mode a = 0"

definition date_and :: "date_mode_t \<Rightarrow> date_mode_t \<Rightarrow> date_mode_t" where
  "date_and a other = date_mode_of (scast (date_mode a AND date_mode other))"

definition date_and_ulonglong :: "date_mode_t \<Rightarrow> ulonglong \<Rightarrow> date_mode_t" where
  "date_and_ulonglong a other = date_mode_of (scast (date_mode a) AND other)"

definition date_or :: "date_mode_t \<Rightarrow> date_mode_t \<Rightarrow> date_mode_t" where
  "date_or a other = date_mode_of (scast (date_mode a OR date_mode other))"

definition date_and_assign :: "date_mode_t \<Rightarrow> date_mode_t \<Rightarrow> date_mode_t" where
  "date_and_assign other a = a\<lparr>date_mode := date_mode a AND date_mode other\<rparr>"

definition date_or_assign :: "date_mode_t \<Rightarrow> date_mode_t \<Rightarrow> date_mode_t" where
  "date_or_assign other a = a\<lparr>date_mode := date_mode a OR date_mode other\<rparr>"

definition date_or_assign_conv :: "date_conv_mode_t \<Rightarrow> date_mode_t \<Rightarrow> date_mode_t" where
  "date_or_assign_conv other a = a\<lparr>date_mode := ucast (scast (date_mode a) OR conv_ulonglong other)\<rparr>"

definition or_date_conv :: "date_mode_t \<Rightarrow> date_conv_mode_t \<Rightarrow> date_mode_t" where
  "or_date_conv a b = date_mode_of (date_ulonglong a OR conv_ulonglong b)"

definition or_conv_round :: "date_conv_mode_t \<Rightarrow> time_round_mode_t \<Rightarrow> date_mode_t" where
  "or_conv_round a b = date_mode_of (conv_ulonglong a OR round_ulonglong b)"

definition or_conv_date :: "date_conv_mode_t \<Rightarrow> date_mode_t \<Rightarrow> date_mode_t" where
  "or_conv_date a b = date_mode_of (conv_ulonglong a OR date_ulonglong b)"

definition and_date_conv :: "date_mode_t \<Rightarrow> date_conv_mode_t \<Rightarrow> date_conv_mode_t" where
  "and_date_conv a b = date_conv_mode (date_ulonglong a AND conv_ulonglong b)"

definition and_conv_date :: "date_conv_mode_t \<Rightarrow> date_mode_t \<Rightarrow> date_conv_mode_t" where
  "and_conv_date a b = date_conv_mode (conv_ulonglong a AND date_ulonglong b)"

definition and_sql_conv :: "ulonglong \<Rightarrow> date_conv_mode_t \<Rightarrow> date_conv_mode_t" where
  "and_sql_conv a b = date_conv_mode (a AND conv_ulonglong b)"

definition TIME_CONV_NONE :: date_conv_mode_t where "TIME_CONV_NONE = \<lparr>conv_mode = CONV_NONE\<rparr>"
definition TIME_FUZZY_DATES :: date_conv_mode_t where "TIME_FUZZY_DATES = \<lparr>conv_mode = FUZZY_DATES\<rparr>"
definition TIME_TIME_ONLY :: date_conv_mode_t where "TIME_TIME_ONLY = \<lparr>conv_mode = TIME_ONLY\<rparr>"
definition TIME_INTERVAL_hhmmssff :: date_conv_mode_t where "TIME_INTERVAL_hhmmssff = \<lparr>conv_mode = INTERVAL_hhmmssff\<rparr>"
definition TIME_INTERVAL_DAY :: date_conv_mode_t where "TIME_INTERVAL_DAY = \<lparr>conv_mode = MODE_INTERVAL_DAY\<rparr>"
definition TIME_NO_ZERO_IN_DATE :: date_conv_mode_t where "TIME_NO_ZERO_IN_DATE = \<lparr>conv_mode = NO_ZERO_IN_DATE\<rparr>"
definition TIME_NO_ZERO_DATE :: date_conv_mode_t where "TIME_NO_ZERO_DATE = \<lparr>conv_mode = NO_ZERO_DATE\<rparr>"
definition TIME_INVALID_DATES :: date_conv_mode_t where "TIME_INVALID_DATES = \<lparr>conv_mode = INVALID_DATES\<rparr>"
definition TIME_NO_ZEROS :: date_conv_mode_t where "TIME_NO_ZEROS = \<lparr>conv_mode = NO_ZERO_DATE OR NO_ZERO_IN_DATE\<rparr>"
definition TIME_MODE_FOR_XXX_TO_DATE :: date_conv_mode_t where
  "TIME_MODE_FOR_XXX_TO_DATE = \<lparr>conv_mode = NO_ZERO_IN_DATE OR NO_ZERO_DATE OR INVALID_DATES\<rparr>"
definition TIME_FRAC_NONE :: time_round_mode_t where "TIME_FRAC_NONE = \<lparr>round_mode = FRAC_NONE\<rparr>"
definition TIME_FRAC_TRUNCATE :: time_round_mode_t where "TIME_FRAC_TRUNCATE = \<lparr>round_mode = FRAC_TRUNCATE\<rparr>"
definition TIME_FRAC_ROUND :: time_round_mode_t where "TIME_FRAC_ROUND = \<lparr>round_mode = FRAC_ROUND\<rparr>"

section \<open>Dependency on SQL modes\<close>

record Sql_mode_dependency =
  m_hard :: ulonglong
  m_soft :: ulonglong

definition dep_init :: Sql_mode_dependency where
  "dep_init = \<lparr>m_hard = 0, m_soft = 0\<rparr>"

definition dep_bool :: "Sql_mode_dependency \<Rightarrow> bool" where
  "dep_bool d \<longleftrightarrow> 0 < m_hard d \<or> 0 < m_soft d"

definition dep_or :: "Sql_mode_dependency \<Rightarrow> Sql_mode_dependency \<Rightarrow> Sql_mode_dependency" where
  "dep_or d other = \<lparr>m_hard = m_hard d OR m_hard other, m_soft = m_soft d OR m_soft other\<rparr>"

definition dep_and :: "Sql_mode_dependency \<Rightarrow> Sql_mode_dependency \<Rightarrow> Sql_mode_dependency" where
  "dep_and d other = \<lparr>m_hard = m_hard d AND m_hard other, m_soft = m_soft d AND m_soft other\<rparr>"

definition dep_or_assign :: "Sql_mode_dependency \<Rightarrow> Sql_mode_dependency \<Rightarrow> Sql_mode_dependency" where
  "dep_or_assign other d = d\<lparr>m_hard := m_hard d OR m_hard other, m_soft := m_soft d OR m_soft other\<rparr>"

definition dep_and_assign :: "Sql_mode_dependency \<Rightarrow> Sql_mode_dependency \<Rightarrow> Sql_mode_dependency" where
  "dep_and_assign other d = d\<lparr>m_hard := m_hard d AND m_hard other, m_soft := m_soft d AND m_soft other\<rparr>"

definition soft_to_hard :: "Sql_mode_dependency \<Rightarrow> Sql_mode_dependency" where
  "soft_to_hard d = d\<lparr>m_hard := m_hard d OR m_soft d, m_soft := 0\<rparr>"

section \<open>Dates and times\<close>

datatype enum_mysql_timestamp_type =
  MYSQL_TIMESTAMP_NONE | MYSQL_TIMESTAMP_ERROR | MYSQL_TIMESTAMP_DATE | MYSQL_TIMESTAMP_DATETIME | MYSQL_TIMESTAMP_TIME

record MYSQL_TIME =
  year :: uint
  month :: uint
  day :: uint
  hour :: uint
  minute :: uint
  second :: uint
  second_part :: "32 word"
  neg :: bool
  time_type :: enum_mysql_timestamp_type

definition YY_PART_YEAR :: uint where "YY_PART_YEAR = 70"
definition TIMESTAMP_MAX_YEAR :: uint where "TIMESTAMP_MAX_YEAR = 2038"
definition TIMESTAMP_MIN_YEAR :: uint where "TIMESTAMP_MIN_YEAR = 1900 + YY_PART_YEAR - 1"
definition TIMESTAMP_MAX_VALUE :: int where "TIMESTAMP_MAX_VALUE = 0x7FFFFFFF"
definition TIMESTAMP_MIN_VALUE :: int where "TIMESTAMP_MIN_VALUE = 0"

definition IS_TIME_T_VALID_FOR_TIMESTAMP :: "int \<Rightarrow> bool" where
  "IS_TIME_T_VALID_FOR_TIMESTAMP x \<longleftrightarrow> x \<le> TIMESTAMP_MAX_VALUE \<and> x \<ge> TIMESTAMP_MIN_VALUE"

definition MYSQL_TIME_WARN_TRUNCATED :: uint where "MYSQL_TIME_WARN_TRUNCATED = 1"
definition MYSQL_TIME_WARN_OUT_OF_RANGE :: uint where "MYSQL_TIME_WARN_OUT_OF_RANGE = 2"
definition MYSQL_TIME_WARN_EDOM :: uint where "MYSQL_TIME_WARN_EDOM = 4"
definition MYSQL_TIME_WARN_ZERO_DATE :: uint where "MYSQL_TIME_WARN_ZERO_DATE = 8"
definition MYSQL_TIME_NOTE_TRUNCATED :: uint where "MYSQL_TIME_NOTE_TRUNCATED = 16"

definition MYSQL_TIME_WARN_WARNINGS :: uint where
  "MYSQL_TIME_WARN_WARNINGS = MYSQL_TIME_WARN_TRUNCATED OR MYSQL_TIME_WARN_OUT_OF_RANGE OR MYSQL_TIME_WARN_EDOM OR
     MYSQL_TIME_WARN_ZERO_DATE"

definition MYSQL_TIME_WARN_NOTES :: uint where "MYSQL_TIME_WARN_NOTES = MYSQL_TIME_NOTE_TRUNCATED"

definition MYSQL_TIME_WARN_HAVE_WARNINGS :: "uint \<Rightarrow> bool" where
  "MYSQL_TIME_WARN_HAVE_WARNINGS x \<longleftrightarrow> x AND MYSQL_TIME_WARN_WARNINGS \<noteq> 0"

definition MYSQL_TIME_WARN_HAVE_NOTES :: "uint \<Rightarrow> bool" where
  "MYSQL_TIME_WARN_HAVE_NOTES x \<longleftrightarrow> x AND MYSQL_TIME_WARN_NOTES \<noteq> 0"

definition TIME_MAX_HOUR :: int where "TIME_MAX_HOUR = 838"
definition TIME_MAX_MINUTE :: int where "TIME_MAX_MINUTE = 59"
definition TIME_MAX_SECOND :: int where "TIME_MAX_SECOND = 59"
definition TIME_MAX_SECOND_PART :: int where "TIME_MAX_SECOND_PART = 999999"
definition TIME_SECOND_PART_FACTOR :: int where "TIME_SECOND_PART_FACTOR = TIME_MAX_SECOND_PART + 1"
definition TIME_SECOND_PART_DIGITS :: nat where "TIME_SECOND_PART_DIGITS = 6"
definition TIME_MAX_VALUE :: int where
  "TIME_MAX_VALUE = TIME_MAX_HOUR * 10000 + TIME_MAX_MINUTE * 100 + TIME_MAX_SECOND"
definition TIME_MAX_VALUE_SECONDS :: int where
  "TIME_MAX_VALUE_SECONDS = TIME_MAX_HOUR * 3600 + TIME_MAX_MINUTE * 60 + TIME_MAX_SECOND"

record MYSQL_TIME_STATUS =
  warnings :: "32 word"
  precision :: uint
  nanoseconds :: uint

definition my_time_status_init :: "MYSQL_TIME_STATUS \<Rightarrow> MYSQL_TIME_STATUS" where
  "my_time_status_init status = status\<lparr>warnings := 0, precision := 0, nanoseconds := 0\<rparr>"

definition validate_timestamp_range :: "MYSQL_TIME \<Rightarrow> bool" where
  "validate_timestamp_range t =
     (if (TIMESTAMP_MAX_YEAR < year t \<or> year t < TIMESTAMP_MIN_YEAR) \<or>
         (year t = TIMESTAMP_MAX_YEAR \<and> (1 < month t \<or> 19 < day t)) \<or>
         (year t = TIMESTAMP_MIN_YEAR \<and> (month t < 12 \<or> day t < 31))
      then False else True)"

text \<open>Division of signed numbers truncates; a second part is not negative where it is used.\<close>

definition sec_part_shift :: "(nat \<Rightarrow> int) \<Rightarrow> int \<Rightarrow> nat \<Rightarrow> int" where
  "sec_part_shift log_10_int part digits =
     sgn part * sgn (log_10_int (TIME_SECOND_PART_DIGITS - digits)) *
       (\<bar>part\<bar> div \<bar>log_10_int (TIME_SECOND_PART_DIGITS - digits)\<bar>)"

definition sec_part_unshift :: "(nat \<Rightarrow> int) \<Rightarrow> int \<Rightarrow> nat \<Rightarrow> int" where
  "sec_part_unshift log_10_int part digits = part * log_10_int (TIME_SECOND_PART_DIGITS - digits)"

definition my_time_fraction_remainder :: "(nat \<Rightarrow> int) \<Rightarrow> int \<Rightarrow> nat \<Rightarrow> int" where
  "my_time_fraction_remainder log_10_int nr decimals =
     sgn nr * (\<bar>nr\<bar> mod \<bar>log_10_int (TIME_SECOND_PART_DIGITS - decimals)\<bar>)"

definition my_datetime_trunc :: "(nat \<Rightarrow> int) \<Rightarrow> nat \<Rightarrow> MYSQL_TIME \<Rightarrow> MYSQL_TIME" where
  "my_datetime_trunc log_10_int decimals ltime =
     ltime\<lparr>second_part := second_part ltime - word_of_int (my_time_fraction_remainder log_10_int (sint (second_part ltime)) decimals)\<rparr>"

definition my_time_trunc :: "(nat \<Rightarrow> int) \<Rightarrow> nat \<Rightarrow> MYSQL_TIME \<Rightarrow> MYSQL_TIME" where
  "my_time_trunc log_10_int decimals ltime =
     (let ltime = ltime\<lparr>second_part := second_part ltime - word_of_int (my_time_fraction_remainder log_10_int (sint (second_part ltime)) decimals)\<rparr>
      in if second_part ltime = 0 \<and> neg ltime \<and> hour ltime = 0 \<and> minute ltime = 0 \<and> second ltime = 0
         then ltime\<lparr>neg := False\<rparr> else ltime)"

section \<open>Flags survive the conversions\<close>

lemma bit_scast64: "n < 32 \<Longrightarrow> bit (scast x :: ulonglong) n = bit x n" for x :: mode_value
  by (cases "n = 31") (auto simp: bit_signed_iff min_def)

lemma ucast_scast64:
  fixes x y :: mode_value
  shows "ucast (scast x :: ulonglong) = x" "ucast (scast x AND scast y :: ulonglong) = x AND y"
    "ucast (scast x OR scast y :: ulonglong) = x OR y" "ucast (scast x AND scast (NOT y) :: ulonglong) = x AND NOT y"
  by (rule bit_word_eqI; simp add: bit_ucast_iff bit_and_iff bit_or_iff bit_not_iff bit_scast64)+

lemmas mode_defs = CONV_KNOWN_MODES_def ROUND_KNOWN_MODES_def FUZZY_DATES_def TIME_ONLY_def INTERVAL_hhmmssff_def
  MODE_INTERVAL_DAY_def RANGE0_LAST_def NO_ZERO_IN_DATE_def NO_ZERO_DATE_def INVALID_DATES_def FRAC_TRUNCATE_def FRAC_ROUND_def

lemma known_modes: "CONV_KNOWN_MODES = 0x380001D" "ROUND_KNOWN_MODES = 0x60" "CONV_KNOWN_MODES AND ROUND_KNOWN_MODES = 0"
  by (simp_all add: mode_defs)

lemma to_conv_round: "conv_mode (date_to_conv a) = date_mode a AND CONV_KNOWN_MODES"
    "round_mode (date_to_round a) = date_mode a AND ROUND_KNOWN_MODES"
  by (simp_all add: date_to_conv_def date_to_round_def date_conv_mode_def time_round_mode_def ucast_scast64)

lemma or_conv_round_mode: "date_mode (or_conv_round a b) = conv_mode a OR round_mode b"
  by (simp add: or_conv_round_def date_mode_of_def conv_ulonglong_def round_ulonglong_def ucast_scast64)

section \<open>Truncating a fraction\<close>

text \<open>What \<open>log_10_int\<close> holds.\<close>

definition powers_of_ten :: "(nat \<Rightarrow> int) \<Rightarrow> bool" where
  "powers_of_ten log_10_int \<longleftrightarrow> (\<forall>i < 20. log_10_int i = 10 ^ i)"

lemma powers_of_ten_iff: "powers_of_ten f \<longleftrightarrow> (\<forall>i \<in> {..<20}. f i = 10 ^ i)"
  by (auto simp: powers_of_ten_def)

lemma sint_small: "unat w < 2 ^ 31 \<Longrightarrow> sint w = int (unat w)" for w :: "32 word"
proof -
  assume "unat w < 2 ^ 31"
  then have "int (unat w) < int (2 ^ 31)" by (simp only: of_nat_less_iff)
  moreover obtain x where x: "uint w = x" "0 \<le> x" "int (unat w) = x" by simp
  ultimately have lt: "x < 2 ^ 31" by simp
  then have "x div 2 ^ 31 = 0" "x mod 2 ^ 32 = x"
    using x(2) by (auto intro: div_pos_pos_trivial mod_pos_pos_trivial)
  then have "sint w = x"
    using x(1) by (simp add: sint_uint signed_take_bit_eq_take_bit_minus bit_iff_odd take_bit_eq_mod)
  then show ?thesis by (simp only: x)
qed

lemma fraction_remainder_nat:
  assumes "powers_of_ten f" "d \<le> 6"
  shows "my_time_fraction_remainder f (int n) d = int (n mod 10 ^ (6 - d))"
proof -
  have "f (6 - d) = 10 ^ (6 - d)" using assms(1) by (simp add: powers_of_ten_def)
  then show ?thesis
    by (cases "n = 0") (simp_all add: my_time_fraction_remainder_def TIME_SECOND_PART_DIGITS_def zmod_int)
qed

lemma second_part_trunc:
  assumes "powers_of_ten f" "d \<le> 6" "unat (second_part t) < 1000000"
  shows "unat (second_part (my_datetime_trunc f d t)) = unat (second_part t) div 10 ^ (6 - d) * 10 ^ (6 - d)"
proof -
  let ?s = "unat (second_part t)" and ?p = "10 ^ (6 - d) :: nat"
  have s: "sint (second_part t) = int ?s" by (rule sint_small) (use assms(3) in simp)
  have w: "second_part (my_datetime_trunc f d t) = second_part t - of_nat (?s mod ?p)"
    unfolding my_datetime_trunc_def s fraction_remainder_nat [OF assms(1,2)] by simp
  have "?s mod ?p < 2 ^ 32" using assms(3) by (rule le_less_trans [OF mod_less_eq_dividend less_trans]) simp
  then have "unat (of_nat (?s mod ?p) :: 32 word) = ?s mod ?p" by (simp add: unat_of_nat)
  then have "unat (second_part t - of_nat (?s mod ?p)) = ?s - ?s mod ?p"
    using mod_less_eq_dividend [of ?s ?p] by (simp add: unat_sub word_le_nat_alt)
  then show ?thesis unfolding w by (simp add: minus_mod_eq_div_mult)
qed

lemma my_time_trunc_simp:
  "my_time_trunc f d t =
     (let u = my_datetime_trunc f d t
      in if second_part u = 0 \<and> neg t \<and> hour t = 0 \<and> minute t = 0 \<and> second t = 0 then u\<lparr>neg := False\<rparr> else u)"
  by (simp add: my_time_trunc_def my_datetime_trunc_def Let_def)

section \<open>Properties\<close>

text \<open>
  A date mode is exactly its conversion flags and its rounding flags: no bit is in both
  groups, splitting a mode and joining the parts gives the mode back, masking with the complement
  of a mode clears exactly its flags, and escalating a dependency on SQL modes keeps all of it.
\<close>

theorem date_mode_parts:
  "CONV_KNOWN_MODES AND ROUND_KNOWN_MODES = 0 \<and>
   date_mode (or_conv_round (date_to_conv a) (date_to_round a)) = date_mode a AND (CONV_KNOWN_MODES OR ROUND_KNOWN_MODES) \<and>
   date_to_conv (date_mode_of (date_ulonglong a)) = date_to_conv a \<and>
   conv_mode (conv_and_ulonglong c (conv_not e)) = conv_mode c AND NOT (conv_mode e) \<and>
   conv_mode (conv_or c e) = conv_mode c OR conv_mode e \<and> conv_mode (conv_and c e) = conv_mode c AND conv_mode e \<and>
   m_hard (soft_to_hard d) OR m_soft (soft_to_hard d) = m_hard d OR m_soft d \<and> m_soft (soft_to_hard d) = 0 \<and>
   (dep_bool (soft_to_hard d) \<longleftrightarrow> dep_bool d)"
proof -
  have "0 < m_hard d OR m_soft d \<longleftrightarrow> 0 < m_hard d \<or> 0 < m_soft d" by (simp add: word_greater_zero_iff or_eq_0_iff)
  then show ?thesis
    by (simp add: known_modes(3) or_conv_round_mode to_conv_round bit.conj_disj_distrib date_ulonglong_def date_mode_of_def
        ucast_scast64 conv_and_ulonglong_def conv_not_def date_conv_mode_def conv_or_def conv_and_def soft_to_hard_def dep_bool_def)
qed

text \<open>
  Truncating a time to a number of decimals rounds its fraction down to a multiple of the
  corresponding power of ten, changes nothing else, and gives no negative zero: a time that
  becomes zero loses its sign. Truncating again changes nothing.
\<close>

theorem my_time_trunc_rounds_down:
  assumes "powers_of_ten f" "d \<le> 6" "unat (second_part t) < 1000000" "my_time_trunc f d t = u"
  shows "unat (second_part u) = unat (second_part t) div 10 ^ (6 - d) * 10 ^ (6 - d) \<and>
    hour u = hour t \<and> minute u = minute t \<and> second u = second t \<and>
    (neg u \<longleftrightarrow> neg t \<and> \<not> (second_part u = 0 \<and> hour t = 0 \<and> minute t = 0 \<and> second t = 0)) \<and>
    unat (second_part (my_time_trunc f d u)) = unat (second_part u)"
proof -
  let ?p = "10 ^ (6 - d) :: nat"
  have sp: "second_part (my_time_trunc f d v) = second_part (my_datetime_trunc f d v)" for v
    by (simp add: my_time_trunc_simp Let_def)
  have u: "unat (second_part u) = unat (second_part t) div ?p * ?p"
    using second_part_trunc [OF assms(1-3)] assms(4) sp by auto
  have "unat (second_part u) \<le> unat (second_part t)" unfolding u by simp
  then have "unat (second_part u) < 1000000" using assms(3) by simp
  from second_part_trunc [OF assms(1,2) this] have "unat (second_part (my_time_trunc f d u)) = unat (second_part u)"
    by (simp add: sp u)
  moreover have "hour u = hour t \<and> minute u = minute t \<and> second u = second t \<and>
      (neg u \<longleftrightarrow> neg t \<and> \<not> (second_part u = 0 \<and> hour t = 0 \<and> minute t = 0 \<and> second t = 0))"
    unfolding assms(4) [symmetric] by (auto simp: my_time_trunc_simp Let_def my_datetime_trunc_def)
  ultimately show ?thesis using u by blast
qed

definition tiny_negative_time :: MYSQL_TIME where
  "tiny_negative_time = \<lparr>year = 0, month = 0, day = 0, hour = 0, minute = 0, second = 0, second_part = 999,
     neg = True, time_type = MYSQL_TIMESTAMP_TIME\<rparr>"

theorem my_time_trunc_rounds_down_witness:
  "\<not> neg (my_time_trunc (\<lambda>i. 10 ^ i) 3 tiny_negative_time) \<and>
   unat (second_part (my_time_trunc (\<lambda>i. 10 ^ i) 3 tiny_negative_time)) = 0"
proof -
  have "powers_of_ten (\<lambda>i. 10 ^ i)" by (simp add: powers_of_ten_def)
  from my_time_trunc_rounds_down [OF this _ _ refl, of 3 tiny_negative_time] show ?thesis
    by (simp add: tiny_negative_time_def unat_eq_zero)
qed

end
