(* ===== verification/Sql_Conditions.thy ===== *)
theory Sql_Conditions
  imports Sql_State_Lookup Sql_String Sql_Numbers Sql_Modes
begin

text \<open>
  The conditions of \<open>sql_error.h\<close>: SQLSTATEs and their classes, the identity, the items and the text of
  a condition, and the buffers that values are converted to for error messages. Inheritance is
  record extension; a second base class is a field. The functions that format values are declared
  elsewhere and are parameters.
\<close>

section \<open>Sql_state\<close>

definition SQLSTATE_LENGTH :: nat where
  "SQLSTATE_LENGTH = 5"

record Sql_state =
  m_sqlstate :: string

definition Sql_state_new :: Sql_state where
  "Sql_state_new = \<lparr>m_sqlstate = replicate (SQLSTATE_LENGTH + 1) (CHR 0x00)\<rparr>"

text \<open>A string argument is a C string without its zero. Copying reads five bytes, of which the zero
  may be one; \<open>None\<close> stands for reading behind it.\<close>

definition set_sqlstate :: "string \<Rightarrow> 'a Sql_state_scheme \<Rightarrow> 'a Sql_state_scheme option" where
  "set_sqlstate sqlstate s =
     (if SQLSTATE_LENGTH \<le> length sqlstate + 1
      then Some (s\<lparr>m_sqlstate := take SQLSTATE_LENGTH (sqlstate @ [CHR 0x00]) @ [CHR 0x00]\<rparr>) else None)"

definition Sql_state_of :: "string \<Rightarrow> Sql_state option" where
  "Sql_state_of sqlstate = set_sqlstate sqlstate Sql_state_new"

definition set_sqlstate_from :: "Sql_state \<Rightarrow> 'a Sql_state_scheme \<Rightarrow> 'a Sql_state_scheme" where
  "set_sqlstate_from other s = s\<lparr>m_sqlstate := m_sqlstate other\<rparr>"

text \<open>The text of a character array up to its first zero, as \<open>strcmp\<close> and printing see it.\<close>

definition c_text :: "string \<Rightarrow> string" where
  "c_text s = takeWhile (\<lambda>c. c \<noteq> CHR 0x00) s"

definition get_sqlstate :: "'a Sql_state_scheme \<Rightarrow> string" where
  "get_sqlstate s = c_text (m_sqlstate s)"

definition sqlstate_eq :: "'a Sql_state_scheme \<Rightarrow> 'b Sql_state_scheme \<Rightarrow> bool" where
  "sqlstate_eq s other \<longleftrightarrow> c_text (m_sqlstate s) = c_text (m_sqlstate other)"

definition has_sql_state :: "'a Sql_state_scheme \<Rightarrow> bool" where
  "has_sql_state s \<longleftrightarrow> m_sqlstate s ! 0 \<noteq> CHR 0x00"

definition is_warning :: "'a Sql_state_scheme \<Rightarrow> bool" where
  "is_warning s \<longleftrightarrow> m_sqlstate s ! 0 = CHR ''0'' \<and> m_sqlstate s ! 1 = CHR ''1''"

definition is_not_found :: "'a Sql_state_scheme \<Rightarrow> bool" where
  "is_not_found s \<longleftrightarrow> m_sqlstate s ! 0 = CHR ''0'' \<and> m_sqlstate s ! 1 = CHR ''2''"

definition is_exception :: "'a Sql_state_scheme \<Rightarrow> bool" where
  "is_exception s \<longleftrightarrow> m_sqlstate s ! 0 \<noteq> CHR ''0'' \<or> of_char (m_sqlstate s ! 1) > (of_char (CHR ''2'') :: nat)"

definition is_sqlstate_completion :: "string \<Rightarrow> bool" where
  "is_sqlstate_completion s \<longleftrightarrow> s ! 0 = CHR ''0'' \<and> s ! 1 = CHR ''0''"

section \<open>Sql_state_errno and its level\<close>

record Sql_state_errno = Sql_state +
  m_sql_errno :: uint

definition Sql_state_errno_new :: "uint \<Rightarrow> Sql_state_errno" where
  "Sql_state_errno_new sql_errno = Sql_state.extend Sql_state_new \<lparr>m_sql_errno = sql_errno\<rparr>"

definition Sql_state_errno_of :: "uint \<Rightarrow> string \<Rightarrow> Sql_state_errno option" where
  "Sql_state_errno_of sql_errno sqlstate = set_sqlstate sqlstate (Sql_state_errno_new sql_errno)"

definition get_sql_errno :: "'a Sql_state_errno_scheme \<Rightarrow> uint" where
  "get_sql_errno s = m_sql_errno s"

definition errno_set :: "uint \<Rightarrow> string \<Rightarrow> 'a Sql_state_errno_scheme \<Rightarrow> 'a Sql_state_errno_scheme option" where
  "errno_set sql_errno sqlstate s = set_sqlstate sqlstate (s\<lparr>m_sql_errno := sql_errno\<rparr>)"

text \<open>Clearing keeps the SQLSTATE.\<close>

definition errno_clear :: "'a Sql_state_errno_scheme \<Rightarrow> 'a Sql_state_errno_scheme" where
  "errno_clear s = s\<lparr>m_sql_errno := 0\<rparr>"

datatype enum_warning_level = WARN_LEVEL_NOTE | WARN_LEVEL_WARN | WARN_LEVEL_ERROR | WARN_LEVEL_END

record Sql_state_errno_level = Sql_state_errno +
  m_level :: enum_warning_level

definition get_level :: "'a Sql_state_errno_level_scheme \<Rightarrow> enum_warning_level" where
  "get_level s = m_level s"

definition level_new :: Sql_state_errno_level where
  "level_new = Sql_state_errno.extend (Sql_state_errno_new 0) \<lparr>m_level = WARN_LEVEL_ERROR\<rparr>"

definition level_from :: "Sql_state_errno \<Rightarrow> enum_warning_level \<Rightarrow> Sql_state_errno_level" where
  "level_from state_errno level = Sql_state_errno.extend state_errno \<lparr>m_level = level\<rparr>"

definition level_of :: "uint \<Rightarrow> string \<Rightarrow> enum_warning_level \<Rightarrow> Sql_state_errno_level option" where
  "level_of sqlerrno sqlstate level = map_option (\<lambda>s. level_from s level) (Sql_state_errno_of sqlerrno sqlstate)"

definition level_clear :: "'a Sql_state_errno_level_scheme \<Rightarrow> 'a Sql_state_errno_level_scheme" where
  "level_clear s = errno_clear (s\<lparr>m_level := WARN_LEVEL_ERROR\<rparr>)"

section \<open>Identities of conditions\<close>

text \<open>The address of the condition value of the parser, 0 if none.\<close>

record Sql_user_condition_identity =
  m_user_condition_value :: nat

definition ucid_none :: Sql_user_condition_identity where
  "ucid_none = \<lparr>m_user_condition_value = 0\<rparr>"

definition ucid_of :: "nat \<Rightarrow> Sql_user_condition_identity" where
  "ucid_of value = \<lparr>m_user_condition_value = value\<rparr>"

definition get_user_condition_value :: "Sql_user_condition_identity \<Rightarrow> nat" where
  "get_user_condition_value u = m_user_condition_value u"

definition ucid_set :: "Sql_user_condition_identity \<Rightarrow> Sql_user_condition_identity \<Rightarrow> Sql_user_condition_identity" where
  "ucid_set identity u = identity"

definition ucid_clear :: "Sql_user_condition_identity \<Rightarrow> Sql_user_condition_identity" where
  "ucid_clear u = u\<lparr>m_user_condition_value := 0\<rparr>"

record Sql_condition_identity = Sql_state_errno_level +
  ucid :: Sql_user_condition_identity

definition identity_from :: "Sql_state_errno_level \<Rightarrow> Sql_user_condition_identity \<Rightarrow> Sql_condition_identity" where
  "identity_from st u = Sql_state_errno_level.extend st \<lparr>ucid = u\<rparr>"

definition identity_at_level ::
    "Sql_state_errno \<Rightarrow> enum_warning_level \<Rightarrow> Sql_user_condition_identity \<Rightarrow> Sql_condition_identity" where
  "identity_at_level st level u = identity_from (level_from st level) u"

definition identity_of ::
    "uint \<Rightarrow> string \<Rightarrow> enum_warning_level \<Rightarrow> Sql_user_condition_identity \<Rightarrow> Sql_condition_identity option" where
  "identity_of sqlerrno sqlstate level u = map_option (\<lambda>s. identity_from s u) (level_of sqlerrno sqlstate level)"

definition identity_clear :: "'a Sql_condition_identity_scheme \<Rightarrow> 'a Sql_condition_identity_scheme" where
  "identity_clear c = (let c = level_clear c in c\<lparr>ucid := ucid_clear (ucid c)\<rparr>)"

section \<open>Items and text\<close>

record Sql_condition_items =
  m_class_origin :: Binary_string
  m_subclass_origin :: Binary_string
  m_constraint_catalog :: Binary_string
  m_constraint_schema :: Binary_string
  m_constraint_name :: Binary_string
  m_catalog_name :: Binary_string
  m_schema_name :: Binary_string
  m_table_name :: Binary_string
  m_column_name :: Binary_string
  m_cursor_name :: Binary_string

definition items_new :: Sql_condition_items where
  "items_new =
     (let s = Binary_string_const 0 0
      in \<lparr>m_class_origin = s, m_subclass_origin = s, m_constraint_catalog = s, m_constraint_schema = s,
          m_constraint_name = s, m_catalog_name = s, m_schema_name = s, m_table_name = s, m_column_name = s,
          m_cursor_name = s\<rparr>)"

definition items_clear :: "Sql_condition_items \<Rightarrow> Sql_condition_items" where
  "items_clear i = i
     \<lparr>m_class_origin := bs_set_length 0 (m_class_origin i),
      m_subclass_origin := bs_set_length 0 (m_subclass_origin i),
      m_constraint_catalog := bs_set_length 0 (m_constraint_catalog i),
      m_constraint_schema := bs_set_length 0 (m_constraint_schema i),
      m_constraint_name := bs_set_length 0 (m_constraint_name i),
      m_catalog_name := bs_set_length 0 (m_catalog_name i),
      m_schema_name := bs_set_length 0 (m_schema_name i),
      m_table_name := bs_set_length 0 (m_table_name i),
      m_column_name := bs_set_length 0 (m_column_name i),
      m_cursor_name := bs_set_length 0 (m_cursor_name i)\<rparr>"

text \<open>The pointers of the list of conditions belong to the heap of \<open>Sql_Plist\<close>. The memory root is an
  address.\<close>

record Sql_condition = Sql_condition_identity +
  cond_items :: Sql_condition_items
  m_message_text :: Binary_string
  m_mem_root :: nat

definition time_warn_level :: "uint \<Rightarrow> enum_warning_level" where
  "time_warn_level w = (if MYSQL_TIME_WARN_HAVE_WARNINGS w then WARN_LEVEL_WARN else WARN_LEVEL_NOTE)"

definition condition_from :: "Sql_condition_identity \<Rightarrow> nat \<Rightarrow> Sql_condition" where
  "condition_from identity mem_root =
     Sql_condition_identity.extend identity
       \<lparr>cond_items = items_new, m_message_text = init_private_data, m_mem_root = mem_root\<rparr>"

definition condition_new :: Sql_condition where
  "condition_new = condition_from (identity_from level_new ucid_none) 0"

definition condition_init :: "nat \<Rightarrow> Sql_condition \<Rightarrow> Sql_condition option" where
  "condition_init mem_root c =
     (if mem_root = 0 \<or> m_mem_root c \<noteq> 0 then None else Some (c\<lparr>m_mem_root := mem_root\<rparr>))"

definition condition_at :: "nat \<Rightarrow> Sql_condition option" where
  "condition_at mem_root = (if mem_root = 0 then None else Some (condition_from (identity_from level_new ucid_none) mem_root))"

definition condition_user :: "nat \<Rightarrow> Sql_user_condition_identity \<Rightarrow> Sql_condition option" where
  "condition_user mem_root u = (if mem_root = 0 then None else Some (condition_from (identity_from level_new u) mem_root))"

text \<open>Setting the text is declared elsewhere.\<close>

definition condition_with_text ::
    "(string \<Rightarrow> Sql_condition \<Rightarrow> Sql_condition) \<Rightarrow> nat \<Rightarrow> Sql_condition_identity \<Rightarrow> string option \<Rightarrow> Sql_condition option" where
  "condition_with_text set_builtin_message_text mem_root value msg =
     (if mem_root = 0 \<or> get_sql_errno value = 0 then None
      else case msg of None \<Rightarrow> None | Some m \<Rightarrow> Some (set_builtin_message_text m (condition_from value mem_root)))"

definition condition_clear :: "Sql_condition \<Rightarrow> Sql_condition" where
  "condition_clear c =
     (let c = identity_clear c;
          c = c\<lparr>cond_items := items_clear (cond_items c)\<rparr>
      in c\<lparr>m_message_text := bs_set_length 0 (m_message_text c)\<rparr>)"

section \<open>Values in error messages\<close>

definition MYSQL_ERRMSG_SIZE :: uint where
  "MYSQL_ERRMSG_SIZE = 512"

text \<open>What the conversions write into the buffer, and with it the length they return; negative or
  missing lengths fail the assertions.\<close>

record value_formats =
  longlong10_to_str :: "ulonglong \<Rightarrow> int \<Rightarrow> string"
  my_gcvt :: "ulonglong \<Rightarrow> uint \<Rightarrow> string"
  decimal2string :: "nat \<Rightarrow> uint \<Rightarrow> string"
  err_conv :: "uint \<Rightarrow> string \<Rightarrow> uint \<Rightarrow> nat \<Rightarrow> string"
  my_TIME_to_str :: "MYSQL_TIME \<Rightarrow> string"

record ErrBuff =
  err_buffer :: string

definition ErrBuff_new :: ErrBuff where
  "ErrBuff_new = \<lparr>err_buffer = ''''\<rparr>"

text \<open>Each sets the buffer and returns the buffer with the length of the text.\<close>

definition set_longlong :: "value_formats \<Rightarrow> Longlong_hybrid \<Rightarrow> ErrBuff \<Rightarrow> (string \<times> nat) \<times> ErrBuff" where
  "set_longlong F nr b =
     (let radix = (if m_unsigned nr then 10 else -10);
          text = longlong10_to_str F (h_value nr) radix
      in ((text, length text), b\<lparr>err_buffer := text\<rparr>))"

definition set_double :: "value_formats \<Rightarrow> ulonglong \<Rightarrow> ErrBuff \<Rightarrow> (string \<times> nat) \<times> ErrBuff" where
  "set_double F nr b =
     (let text = my_gcvt F nr MYSQL_ERRMSG_SIZE in ((text, length text), b\<lparr>err_buffer := text\<rparr>))"

definition set_decimal :: "value_formats \<Rightarrow> nat \<Rightarrow> ErrBuff \<Rightarrow> (string \<times> nat) \<times> ErrBuff" where
  "set_decimal F d b =
     (let text = decimal2string F d MYSQL_ERRMSG_SIZE in ((text, length text), b\<lparr>err_buffer := text\<rparr>))"

definition set_str :: "value_formats \<Rightarrow> string \<Rightarrow> size_t \<Rightarrow> nat \<Rightarrow> ErrBuff \<Rightarrow> ((string \<times> nat) \<times> ErrBuff) option" where
  "set_str F s len cs b =
     (if len < 0xFFFFFFFF
      then let text = err_conv F MYSQL_ERRMSG_SIZE s (ucast len) cs
           in Some ((text, length text), b\<lparr>err_buffer := text\<rparr>)
      else None)"

definition set_mysql_time :: "value_formats \<Rightarrow> MYSQL_TIME \<Rightarrow> ErrBuff \<Rightarrow> (string \<times> nat) \<times> ErrBuff" where
  "set_mysql_time F ltime b =
     (let text = my_TIME_to_str F ltime in ((text, length text), b\<lparr>err_buffer := text\<rparr>))"

text \<open>The subclasses of \<open>ErrConv\<close>, by the value they hold; \<open>lex_cstring\<close> is their virtual function.\<close>

datatype ErrConv = ErrConvString string size_t nat | ErrConvInteger Longlong_hybrid | ErrConvDouble ulonglong
  | ErrConvTime MYSQL_TIME | ErrConvDecimal nat

definition ErrConvString_cstr :: "string \<Rightarrow> nat \<Rightarrow> ErrConv" where
  "ErrConvString_cstr s cs = ErrConvString s (of_nat (length s)) cs"

fun lex_cstring :: "value_formats \<Rightarrow> ErrConv \<Rightarrow> ErrBuff \<Rightarrow> ((string \<times> nat) \<times> ErrBuff) option" where
  "lex_cstring F (ErrConvString s len cs) b = set_str F s len cs b"
| "lex_cstring F (ErrConvInteger nr) b = Some (set_longlong F nr b)"
| "lex_cstring F (ErrConvDouble num) b = Some (set_double F num b)"
| "lex_cstring F (ErrConvTime ltime) b = Some (set_mysql_time F ltime b)"
| "lex_cstring F (ErrConvDecimal d) b = Some (set_decimal F d b)"

definition errconv_ptr :: "value_formats \<Rightarrow> ErrConv \<Rightarrow> ErrBuff \<Rightarrow> (string \<times> ErrBuff) option" where
  "errconv_ptr F c b = map_option (\<lambda>((text, len), b). (text, b)) (lex_cstring F c b)"

section \<open>Facts\<close>

text \<open>Some accessors of a condition that was made and then cleared.\<close>

lemma condition_clear_simps:
  "m_sqlstate (condition_clear c) = m_sqlstate c" "get_sql_errno (condition_clear c) = 0"
  "get_level (condition_clear c) = WARN_LEVEL_ERROR" "ucid (condition_clear c) = ucid_none"
  "m_mem_root (condition_clear c) = m_mem_root c" "bs_is_empty (m_message_text (condition_clear c))"
  by (simp_all add: condition_clear_def identity_clear_def level_clear_def errno_clear_def get_sql_errno_def get_level_def
      ucid_clear_def ucid_none_def Let_def bs_is_empty_def bs_set_length_def)

lemma state_ok_chars:
  assumes "state_ok s"
  obtains a b c d e where "s = [a, b, c, d, e]" "state_char a" "state_char b" "state_char c" "state_char d" "state_char e"
  using assms unfolding state_ok_def by (auto simp: length_Suc_conv eval_nat_numeral)

lemma state_char_code:
  "state_char c \<Longrightarrow> c \<noteq> CHR 0x00"
  "state_char c \<Longrightarrow> c \<noteq> CHR ''0'' \<Longrightarrow> c \<noteq> CHR ''1'' \<Longrightarrow> c \<noteq> CHR ''2'' \<Longrightarrow> 50 < (of_char c :: nat)"
proof -
  let ?S = "''0123456789ABCDEFGHIJKLMNOPQRSTUVWXYZ''"
  have "list_all (\<lambda>c. c \<noteq> CHR 0x00) ?S"
    "list_all (\<lambda>c. c = CHR ''0'' \<or> c = CHR ''1'' \<or> c = CHR ''2'' \<or> 50 < (of_char c :: nat)) ?S" by simp_all
  then show "state_char c \<Longrightarrow> c \<noteq> CHR 0x00"
    "state_char c \<Longrightarrow> c \<noteq> CHR ''0'' \<Longrightarrow> c \<noteq> CHR ''1'' \<Longrightarrow> c \<noteq> CHR ''2'' \<Longrightarrow> 50 < (of_char c :: nat)"
    unfolding state_char_def list_all_iff by blast+
qed

lemma Sql_state_of_ok:
  assumes "state_ok s"
  shows "Sql_state_of s = Some \<lparr>m_sqlstate = s @ [CHR 0x00]\<rparr>" "c_text (s @ [CHR 0x00]) = s"
  using assms by (auto elim!: state_ok_chars dest: state_char_code(1)
      simp: Sql_state_of_def set_sqlstate_def Sql_state_new_def SQLSTATE_LENGTH_def c_text_def)

definition class_count :: "string \<Rightarrow> Sql_state \<Rightarrow> nat" where
  "class_count s a = of_bool (is_sqlstate_completion s) + of_bool (is_warning a) + of_bool (is_not_found a) + of_bool (is_exception a)"

lemma one_class:
  assumes "state_ok s"
  shows "class_count s \<lparr>m_sqlstate = s @ [CHR 0x00]\<rparr> = 1"
proof -
  obtain a b c d e where s: "s = [a, b, c, d, e]" "state_char b" using assms by (rule state_ok_chars)
  consider "a \<noteq> CHR ''0''" | "a = CHR ''0''" "b = CHR ''0''" | "a = CHR ''0''" "b = CHR ''1''" | "a = CHR ''0''" "b = CHR ''2''"
    | "a = CHR ''0''" "b \<noteq> CHR ''0''" "b \<noteq> CHR ''1''" "b \<noteq> CHR ''2''" by blast
  then show ?thesis
  proof cases
    case 5
    then show ?thesis using state_char_code(2) [OF s(2)] unfolding s
      by (simp add: class_count_def is_sqlstate_completion_def is_warning_def is_not_found_def is_exception_def)
  qed (simp_all add: s class_count_def is_sqlstate_completion_def is_warning_def is_not_found_def is_exception_def)
qed

lemma table_classes:
  "map fst (filter (\<lambda>(n, s, j). \<not> is_exception \<lparr>m_sqlstate = s @ [CHR 0x00]\<rparr>) sql_state) =
     [ER_SELECT_REDUCED, ER_WARN_TOO_FEW_RECORDS, ER_WARN_TOO_MANY_RECORDS, WARN_DATA_TRUNCATED, ER_SP_UNINIT_VAR,
      ER_SP_FETCH_NO_DATA, ER_SIGNAL_WARN, ER_SIGNAL_NOT_FOUND, ER_EXPRESSION_REFERS_TO_UNINIT_FIELD]"
  by (simp add: sql_state_def sql_state_1_def sql_state_2_def is_exception_def)

lemma errconv_integer_text:
  assumes "\<And>v. longlong10_to_str F v 10 = show_int (uint v)" "\<And>v. longlong10_to_str F v (-10) = show_int (sint v)"
  shows "errconv_ptr F (ErrConvInteger nr) b = Some (show_int (hyb_val nr), \<lparr>err_buffer = show_int (hyb_val nr)\<rparr>)"
  using assms by (simp add: errconv_ptr_def set_longlong_def hyb_val_def Let_def)

section \<open>Property\<close>

text \<open>
  C32. Every valid SQLSTATE belongs to exactly one class: completion, warning, not found or exception. A
  state set from it gives it back, and two states are equal only if their SQLSTATEs are. Of the errors in
  the server's table exactly the nine named below are no exceptions; the constraint violations of the
  voting schema are among the exceptions.
\<close>

theorem sqlstate_classes:
  assumes "state_ok s" "state_ok t"
  shows "(\<exists>a b. Sql_state_of s = Some a \<and> Sql_state_of t = Some b \<and> get_sqlstate a = s \<and> has_sql_state a \<and>
      (sqlstate_eq a b \<longleftrightarrow> s = t) \<and>
      class_count s a = 1) \<and>
    map fst (filter (\<lambda>(n, st, j). \<exists>a. Sql_state_of st = Some a \<and> \<not> is_exception a) sql_state) =
      [ER_SELECT_REDUCED, ER_WARN_TOO_FEW_RECORDS, ER_WARN_TOO_MANY_RECORDS, WARN_DATA_TRUNCATED, ER_SP_UNINIT_VAR,
       ER_SP_FETCH_NO_DATA, ER_SIGNAL_WARN, ER_SIGNAL_NOT_FOUND, ER_EXPRESSION_REFERS_TO_UNINIT_FIELD]"
proof
  let ?a = "\<lparr>m_sqlstate = s @ [CHR 0x00]\<rparr> :: Sql_state" and ?b = "\<lparr>m_sqlstate = t @ [CHR 0x00]\<rparr> :: Sql_state"
  have "has_sql_state ?a" using assms(1) by (auto elim!: state_ok_chars dest: state_char_code(1) simp: has_sql_state_def)
  then show "\<exists>a b. Sql_state_of s = Some a \<and> Sql_state_of t = Some b \<and> get_sqlstate a = s \<and> has_sql_state a \<and>
      (sqlstate_eq a b \<longleftrightarrow> s = t) \<and>
      class_count s a = 1"
    using one_class [OF assms(1)] Sql_state_of_ok [OF assms(1)] Sql_state_of_ok [OF assms(2)]
    by (intro exI [of _ ?a] exI [of _ ?b]) (simp add: get_sqlstate_def sqlstate_eq_def)
  have "filter (\<lambda>(n, st, j). \<exists>a. Sql_state_of st = Some a \<and> \<not> is_exception a) sql_state =
      filter (\<lambda>(n, s, j). \<not> is_exception \<lparr>m_sqlstate = s @ [CHR 0x00]\<rparr>) sql_state"
    using sql_states_ok by (intro filter_cong) (auto simp: list_all_iff Sql_state_of_ok)
  then show "map fst (filter (\<lambda>(n, st, j). \<exists>a. Sql_state_of st = Some a \<and> \<not> is_exception a) sql_state) =
      [ER_SELECT_REDUCED, ER_WARN_TOO_FEW_RECORDS, ER_WARN_TOO_MANY_RECORDS, WARN_DATA_TRUNCATED, ER_SP_UNINIT_VAR,
       ER_SP_FETCH_NO_DATA, ER_SIGNAL_WARN, ER_SIGNAL_NOT_FOUND, ER_EXPRESSION_REFERS_TO_UNINIT_FIELD]"
    using table_classes by simp
qed

theorem sqlstate_classes_witness:
  "\<exists>a b. Sql_state_of ''23000'' = Some a \<and> Sql_state_of ''02000'' = Some b \<and> is_exception a \<and> \<not> sqlstate_eq a b"
proof -
  have ok: "state_ok ''23000''" "state_ok ''02000''" by (simp_all add: state_ok_def state_char_def)
  then obtain a b where ab: "Sql_state_of ''23000'' = Some a" "Sql_state_of ''02000'' = Some b" "\<not> sqlstate_eq a b"
    using sqlstate_classes [of "''23000''" "''02000''"] by auto
  then have "is_exception a" by (auto simp: is_exception_def Sql_state_of_ok [OF ok(1)])
  then show ?thesis using ab by blast
qed

end
