(* ===== verification/Diagnostics_Area.thy ===== *)
theory Diagnostics_Area
  imports Sql_Conditions Sql_Plist Sql_List
begin

text \<open>
  The diagnostics area of \<open>sql_error.h\<close>: the status of the statement and a stack of warning
  informations, of which the top is the one that every operation works on. The stack and the lists
  of conditions are intrusive lists of \<open>Sql_Plist\<close>, the conditions marked for removal a list of
  \<open>Sql_List\<close>. The functions of \<open>Warning_info\<close> that are only declared are the parameter
  \<open>wi_functions\<close>.
\<close>

section \<open>Warning_info\<close>

text \<open>Indices of the counters are the levels below \<open>WARN_LEVEL_END\<close>; an \<open>ulong\<close> has 32 bits here. A
  condition is an address.\<close>

record Warning_info =
  m_warn_count :: "enum_warning_level \<Rightarrow> uint"
  m_current_statement_warn_count :: uint
  m_current_row_for_warning :: uint32
  m_warn_id :: ulonglong
  m_error_condition :: nat
  m_allow_unlimited_warnings :: bool
  initialized :: bool
  m_read_only :: bool

text \<open>The memory: warning informations by address, the links of conditions (the list \<open>m_warn_list\<close> of
  the one at address \<open>w\<close> is list \<open>w\<close>), the nodes of the marked conditions (again list \<open>w\<close>), and the
  links of the stacks.\<close>

record wi_memory =
  infos :: "nat \<Rightarrow> Warning_info"
  cond_links :: plheap
  marked :: lheap
  wi_links :: plheap

definition upd_info :: "nat \<Rightarrow> (Warning_info \<Rightarrow> Warning_info) \<Rightarrow> wi_memory \<Rightarrow> wi_memory" where
  "upd_info w f M = M\<lparr>infos := (infos M)(w := f (infos M w))\<rparr>"

text \<open>The functions that are only declared, on a warning information at an address. Pushing gives the
  address of the new condition.\<close>

record wi_functions =
  wi_clear :: "ulonglong \<Rightarrow> nat \<Rightarrow> wi_memory \<Rightarrow> wi_memory"
  wi_append :: "nat \<Rightarrow> nat \<Rightarrow> wi_memory \<Rightarrow> wi_memory"
  wi_reserve_space :: "uint \<Rightarrow> nat \<Rightarrow> wi_memory \<Rightarrow> wi_memory"
  wi_push_identity :: "Sql_condition_identity \<Rightarrow> string \<Rightarrow> nat \<Rightarrow> wi_memory \<Rightarrow> nat \<times> wi_memory"
  wi_push_condition :: "nat \<Rightarrow> nat \<Rightarrow> wi_memory \<Rightarrow> nat \<times> wi_memory"
  wi_mark_conditions :: "nat \<Rightarrow> wi_memory \<Rightarrow> wi_memory"
  wi_remove_marked :: "nat \<Rightarrow> wi_memory \<Rightarrow> wi_memory"
  wi_has_condition :: "string \<Rightarrow> nat \<Rightarrow> wi_memory \<Rightarrow> bool"

definition wi_opt_clear :: "wi_functions \<Rightarrow> ulonglong \<Rightarrow> nat \<Rightarrow> wi_memory \<Rightarrow> wi_memory" where
  "wi_opt_clear F query_id w M = (if query_id \<noteq> m_warn_id (infos M w) then wi_clear F query_id w M else M)"

definition wi_reset_for_next_command :: "Warning_info \<Rightarrow> Warning_info" where
  "wi_reset_for_next_command i = i\<lparr>m_current_statement_warn_count := 0\<rparr>"

definition unmark_sql_conditions :: "nat \<Rightarrow> wi_memory \<Rightarrow> wi_memory" where
  "unmark_sql_conditions w M = M\<lparr>marked := bl_empty w (marked M)\<rparr>"

text \<open>The node of the marked list is allocated on the memory root.\<close>

definition mark_condition_for_removal :: "nat \<Rightarrow> nat \<Rightarrow> nat \<Rightarrow> wi_memory \<Rightarrow> wi_memory" where
  "mark_condition_for_removal node cond w M = M\<lparr>marked := snd (bl_push_back node cond w (marked M))\<rparr>"

definition wi_warn_count :: "Warning_info \<Rightarrow> uint32" where
  "wi_warn_count i = m_warn_count i WARN_LEVEL_NOTE + m_warn_count i WARN_LEVEL_ERROR + m_warn_count i WARN_LEVEL_WARN"

definition wi_error_count :: "Warning_info \<Rightarrow> uint32" where
  "wi_error_count i = m_warn_count i WARN_LEVEL_ERROR"

definition wi_cond_count :: "nat \<Rightarrow> wi_memory \<Rightarrow> uint" where
  "wi_cond_count w M = plist_elements w (cond_links M)"

definition wi_id :: "Warning_info \<Rightarrow> ulonglong" where
  "wi_id i = m_warn_id i"

definition wi_set_id :: "ulonglong \<Rightarrow> Warning_info \<Rightarrow> Warning_info" where
  "wi_set_id id_arg i = i\<lparr>m_warn_id := id_arg\<rparr>"

definition wi_is_empty :: "nat \<Rightarrow> wi_memory \<Rightarrow> bool" where
  "wi_is_empty w M = plist_is_empty w (cond_links M)"

definition wi_inc_current_row :: "Warning_info \<Rightarrow> Warning_info" where
  "wi_inc_current_row i = i\<lparr>m_current_row_for_warning := m_current_row_for_warning i + 1\<rparr>"

definition wi_reset_current_row :: "Warning_info \<Rightarrow> Warning_info" where
  "wi_reset_current_row i = i\<lparr>m_current_row_for_warning := 1\<rparr>"

definition wi_set_current_row :: "uint32 \<Rightarrow> Warning_info \<Rightarrow> uint32 \<times> Warning_info" where
  "wi_set_current_row row i = (let old_row = m_current_row_for_warning i in (old_row, i\<lparr>m_current_row_for_warning := row\<rparr>))"

definition wi_current_row :: "Warning_info \<Rightarrow> uint32" where
  "wi_current_row i = m_current_row_for_warning i"

definition wi_current_statement_warn_count :: "Warning_info \<Rightarrow> uint32" where
  "wi_current_statement_warn_count i = m_current_statement_warn_count i"

definition wi_set_read_only :: "bool \<Rightarrow> Warning_info \<Rightarrow> Warning_info" where
  "wi_set_read_only read_only_arg i = i\<lparr>m_read_only := read_only_arg\<rparr>"

definition wi_is_read_only :: "Warning_info \<Rightarrow> bool" where
  "wi_is_read_only i = m_read_only i"

definition wi_get_error_condition :: "Warning_info \<Rightarrow> nat" where
  "wi_get_error_condition i = m_error_condition i"

definition wi_set_error_condition :: "nat \<Rightarrow> Warning_info \<Rightarrow> Warning_info" where
  "wi_set_error_condition error_condition i = i\<lparr>m_error_condition := error_condition\<rparr>"

definition wi_clear_error_condition :: "Warning_info \<Rightarrow> Warning_info" where
  "wi_clear_error_condition i = i\<lparr>m_error_condition := 0\<rparr>"

section \<open>Status of the statement\<close>

datatype enum_diagnostics_status = DA_EMPTY | DA_OK | DA_EOF | DA_OK_BULK | DA_EOF_BULK | DA_ERROR | DA_DISABLED

record Diagnostics_area = Sql_state_errno +
  da_ucid :: Sql_user_condition_identity
  m_is_sent :: bool
  m_can_overwrite_status :: bool
  m_message :: string
  m_affected_rows :: ulonglong
  m_last_insert_id :: ulonglong
  m_statement_warn_count :: uint
  m_status :: enum_diagnostics_status
  is_bulk_execution :: bool
  m_main_wi :: nat
  m_wi_stack :: nat

definition set_overwrite_status :: "bool \<Rightarrow> Diagnostics_area \<Rightarrow> Diagnostics_area" where
  "set_overwrite_status can_overwrite_status d = d\<lparr>m_can_overwrite_status := can_overwrite_status\<rparr>"

definition is_sent :: "Diagnostics_area \<Rightarrow> bool" where
  "is_sent d = m_is_sent d"

definition set_is_sent :: "bool \<Rightarrow> Diagnostics_area \<Rightarrow> Diagnostics_area" where
  "set_is_sent is_sent_arg d = d\<lparr>m_is_sent := is_sent_arg\<rparr>"

text \<open>The error without an identity of a user condition is set through the full one, which is declared only.\<close>

definition set_error_status_no_ucid ::
    "(uint \<Rightarrow> string \<Rightarrow> string \<Rightarrow> Sql_user_condition_identity \<Rightarrow> nat \<Rightarrow> 'd \<Rightarrow> 'd) \<Rightarrow> uint \<Rightarrow> string \<Rightarrow> string \<Rightarrow> nat \<Rightarrow> 'd \<Rightarrow> 'd" where
  "set_error_status_no_ucid set_error_status sqlerrno message sqlstate error_condition =
     set_error_status sqlerrno message sqlstate ucid_none error_condition"

definition is_set_status :: "Diagnostics_area \<Rightarrow> bool" where
  "is_set_status d \<longleftrightarrow> m_status d \<noteq> DA_EMPTY"

definition is_error :: "Diagnostics_area \<Rightarrow> bool" where
  "is_error d \<longleftrightarrow> m_status d = DA_ERROR"

definition is_eof :: "Diagnostics_area \<Rightarrow> bool" where
  "is_eof d \<longleftrightarrow> m_status d = DA_EOF"

definition is_ok :: "Diagnostics_area \<Rightarrow> bool" where
  "is_ok d \<longleftrightarrow> m_status d = DA_OK"

definition is_disabled :: "Diagnostics_area \<Rightarrow> bool" where
  "is_disabled d \<longleftrightarrow> m_status d = DA_DISABLED"

definition set_bulk_execution :: "bool \<Rightarrow> Diagnostics_area \<Rightarrow> Diagnostics_area" where
  "set_bulk_execution bulk d = d\<lparr>is_bulk_execution := bulk\<rparr>"

definition is_bulk_op :: "Diagnostics_area \<Rightarrow> bool" where
  "is_bulk_op d = is_bulk_execution d"

definition da_status :: "Diagnostics_area \<Rightarrow> enum_diagnostics_status" where
  "da_status d = m_status d"

definition da_message :: "Diagnostics_area \<Rightarrow> string option" where
  "da_message d = (if m_status d \<in> {DA_ERROR, DA_OK, DA_OK_BULK, DA_EOF_BULK} then Some (m_message d) else None)"

definition da_sql_errno :: "Diagnostics_area \<Rightarrow> uint option" where
  "da_sql_errno d = (if m_status d = DA_ERROR then Some (get_sql_errno d) else None)"

definition da_get_sqlstate :: "Diagnostics_area \<Rightarrow> string option" where
  "da_get_sqlstate d = (if m_status d = DA_ERROR then Some (get_sqlstate d) else None)"

definition affected_rows :: "Diagnostics_area \<Rightarrow> ulonglong option" where
  "affected_rows d = (if m_status d \<in> {DA_OK, DA_OK_BULK} then Some (m_affected_rows d) else None)"

definition last_insert_id :: "Diagnostics_area \<Rightarrow> ulonglong option" where
  "last_insert_id d = (if m_status d \<in> {DA_OK, DA_OK_BULK} then Some (m_last_insert_id d) else None)"

definition statement_warn_count :: "Diagnostics_area \<Rightarrow> uint option" where
  "statement_warn_count d =
     (if m_status d \<in> {DA_OK, DA_OK_BULK, DA_EOF, DA_EOF_BULK} then Some (m_statement_warn_count d) else None)"

definition get_error_condition_identity :: "Diagnostics_area \<Rightarrow> Sql_condition_identity option" where
  "get_error_condition_identity d =
     (if m_status d = DA_ERROR
      then Some (identity_at_level \<lparr>m_sqlstate = m_sqlstate d, m_sql_errno = m_sql_errno d\<rparr> WARN_LEVEL_ERROR (da_ucid d))
      else None)"

definition increment_warning :: "Diagnostics_area \<Rightarrow> Diagnostics_area" where
  "increment_warning d =
     (if m_status d \<noteq> DA_EMPTY then d\<lparr>m_statement_warn_count := m_statement_warn_count d + 1\<rparr> else d)"

section \<open>The stack of warning informations\<close>

definition get_warning_info :: "Diagnostics_area \<Rightarrow> wi_memory \<Rightarrow> nat" where
  "get_warning_info d M = plist_front (m_wi_stack d) (wi_links M)"

definition push_warning_info :: "nat \<Rightarrow> Diagnostics_area \<Rightarrow> wi_memory \<Rightarrow> wi_memory" where
  "push_warning_info wi d M =
     M\<lparr>wi_links := plist_push_front I_P_List_counter I_P_List_fast_push_back wi (m_wi_stack d) (wi_links M)\<rparr>"

definition pop_warning_info :: "Diagnostics_area \<Rightarrow> wi_memory \<Rightarrow> wi_memory option" where
  "pop_warning_info d M =
     (if plist_elements (m_wi_stack d) (wi_links M) > 0
      then Some (M\<lparr>wi_links := plist_remove I_P_List_counter I_P_List_fast_push_back
             (plist_front (m_wi_stack d) (wi_links M)) (m_wi_stack d) (wi_links M)\<rparr>)
      else None)"

text \<open>A call on the current warning information; on the null pointer it is \<open>None\<close>.\<close>

definition on_current :: "Diagnostics_area \<Rightarrow> (nat \<Rightarrow> wi_memory \<Rightarrow> 'r) \<Rightarrow> wi_memory \<Rightarrow> 'r option" where
  "on_current d f M = (let w = get_warning_info d M in if w = 0 then None else Some (f w M))"

definition set_warning_info_id :: "ulonglong \<Rightarrow> Diagnostics_area \<Rightarrow> wi_memory \<Rightarrow> wi_memory option" where
  "set_warning_info_id i d = on_current d (\<lambda>w. upd_info w (wi_set_id i))"

definition warning_info_id :: "Diagnostics_area \<Rightarrow> wi_memory \<Rightarrow> ulonglong option" where
  "warning_info_id d = on_current d (\<lambda>w M. wi_id (infos M w))"

definition warning_info_changed :: "nat \<Rightarrow> Diagnostics_area \<Rightarrow> wi_memory \<Rightarrow> bool option" where
  "warning_info_changed wi d = on_current d (\<lambda>w M. wi_id (infos M w) \<noteq> wi_id (infos M wi))"

definition is_warning_info_empty :: "Diagnostics_area \<Rightarrow> wi_memory \<Rightarrow> bool option" where
  "is_warning_info_empty d = on_current d wi_is_empty"

definition current_statement_warn_count :: "Diagnostics_area \<Rightarrow> wi_memory \<Rightarrow> uint32 option" where
  "current_statement_warn_count d = on_current d (\<lambda>w M. wi_current_statement_warn_count (infos M w))"

definition has_sql_condition :: "wi_functions \<Rightarrow> string \<Rightarrow> Diagnostics_area \<Rightarrow> wi_memory \<Rightarrow> bool option" where
  "has_sql_condition F message d = on_current d (wi_has_condition F message)"

definition reset_for_next_command :: "Diagnostics_area \<Rightarrow> wi_memory \<Rightarrow> wi_memory option" where
  "reset_for_next_command d = on_current d (\<lambda>w. upd_info w wi_reset_for_next_command)"

definition clear_warning_info :: "wi_functions \<Rightarrow> ulonglong \<Rightarrow> Diagnostics_area \<Rightarrow> wi_memory \<Rightarrow> wi_memory option" where
  "clear_warning_info F i d = on_current d (wi_clear F i)"

definition opt_clear_warning_info :: "wi_functions \<Rightarrow> ulonglong \<Rightarrow> Diagnostics_area \<Rightarrow> wi_memory \<Rightarrow> wi_memory option" where
  "opt_clear_warning_info F query_id d = on_current d (wi_opt_clear F query_id)"

definition set_current_row_for_warning :: "uint32 \<Rightarrow> Diagnostics_area \<Rightarrow> wi_memory \<Rightarrow> (uint32 \<times> wi_memory) option" where
  "set_current_row_for_warning row d =
     on_current d (\<lambda>w M. (fst (wi_set_current_row row (infos M w)), upd_info w (\<lambda>i. snd (wi_set_current_row row i)) M))"

definition current_row_for_warning :: "Diagnostics_area \<Rightarrow> wi_memory \<Rightarrow> uint32 option" where
  "current_row_for_warning d = on_current d (\<lambda>w M. wi_current_row (infos M w))"

definition inc_current_row_for_warning :: "Diagnostics_area \<Rightarrow> wi_memory \<Rightarrow> wi_memory option" where
  "inc_current_row_for_warning d = on_current d (\<lambda>w. upd_info w wi_inc_current_row)"

definition reset_current_row_for_warning :: "Diagnostics_area \<Rightarrow> wi_memory \<Rightarrow> wi_memory option" where
  "reset_current_row_for_warning d = on_current d (\<lambda>w. upd_info w wi_reset_current_row)"

definition is_warning_info_read_only :: "Diagnostics_area \<Rightarrow> wi_memory \<Rightarrow> bool option" where
  "is_warning_info_read_only d = on_current d (\<lambda>w M. wi_is_read_only (infos M w))"

definition set_warning_info_read_only :: "bool \<Rightarrow> Diagnostics_area \<Rightarrow> wi_memory \<Rightarrow> wi_memory option" where
  "set_warning_info_read_only read_only_arg d = on_current d (\<lambda>w. upd_info w (wi_set_read_only read_only_arg))"

definition error_count :: "Diagnostics_area \<Rightarrow> wi_memory \<Rightarrow> uint32 option" where
  "error_count d = on_current d (\<lambda>w M. wi_error_count (infos M w))"

definition warn_count :: "Diagnostics_area \<Rightarrow> wi_memory \<Rightarrow> uint32 option" where
  "warn_count d = on_current d (\<lambda>w M. wi_warn_count (infos M w))"

definition cond_count :: "Diagnostics_area \<Rightarrow> wi_memory \<Rightarrow> uint option" where
  "cond_count d = on_current d wi_cond_count"

definition sql_conditions :: "Diagnostics_area \<Rightarrow> wi_memory \<Rightarrow> I_P_List_iterator option" where
  "sql_conditions d = on_current d (\<lambda>w M. pit_init w (cond_links M))"

definition reserve_space :: "wi_functions \<Rightarrow> uint \<Rightarrow> Diagnostics_area \<Rightarrow> wi_memory \<Rightarrow> wi_memory option" where
  "reserve_space F n d = on_current d (wi_reserve_space F n)"

definition push_warning_condition :: "wi_functions \<Rightarrow> nat \<Rightarrow> Diagnostics_area \<Rightarrow> wi_memory \<Rightarrow> (nat \<times> wi_memory) option" where
  "push_warning_condition F sql_condition d = on_current d (wi_push_condition F sql_condition)"

definition push_warning_user :: "wi_functions \<Rightarrow> uint \<Rightarrow> string \<Rightarrow> enum_warning_level \<Rightarrow> Sql_user_condition_identity \<Rightarrow> string \<Rightarrow>
    Diagnostics_area \<Rightarrow> wi_memory \<Rightarrow> (nat \<times> wi_memory) option" where
  "push_warning_user F sql_errno_arg sqlstate level u msg d M =
     (case identity_of sql_errno_arg sqlstate level u of
        None \<Rightarrow> None
      | Some tmp \<Rightarrow> on_current d (wi_push_identity F tmp msg) M)"

definition push_warning :: "wi_functions \<Rightarrow> uint \<Rightarrow> string \<Rightarrow> enum_warning_level \<Rightarrow> string \<Rightarrow>
    Diagnostics_area \<Rightarrow> wi_memory \<Rightarrow> (nat \<times> wi_memory) option" where
  "push_warning F sqlerrno sqlstate level msg = push_warning_user F sqlerrno sqlstate level ucid_none msg"

definition mark_sql_conditions_for_removal :: "wi_functions \<Rightarrow> Diagnostics_area \<Rightarrow> wi_memory \<Rightarrow> wi_memory option" where
  "mark_sql_conditions_for_removal F d = on_current d (wi_mark_conditions F)"

definition unmark_sql_conditions_from_removal :: "Diagnostics_area \<Rightarrow> wi_memory \<Rightarrow> wi_memory option" where
  "unmark_sql_conditions_from_removal d = on_current d unmark_sql_conditions"

definition remove_marked_sql_conditions :: "wi_functions \<Rightarrow> Diagnostics_area \<Rightarrow> wi_memory \<Rightarrow> wi_memory option" where
  "remove_marked_sql_conditions F d = on_current d (wi_remove_marked F)"

definition get_error_condition :: "Diagnostics_area \<Rightarrow> wi_memory \<Rightarrow> nat option" where
  "get_error_condition d = on_current d (\<lambda>w M. wi_get_error_condition (infos M w))"

definition copy_sql_conditions_to_wi :: "wi_functions \<Rightarrow> nat \<Rightarrow> Diagnostics_area \<Rightarrow> wi_memory \<Rightarrow> wi_memory option" where
  "copy_sql_conditions_to_wi F dst_wi d M =
     (if dst_wi = 0 then None else Some (wi_append F (get_warning_info d M) dst_wi M))"

definition copy_sql_conditions_from_wi :: "wi_functions \<Rightarrow> nat \<Rightarrow> Diagnostics_area \<Rightarrow> wi_memory \<Rightarrow> wi_memory option" where
  "copy_sql_conditions_from_wi F src_wi d = on_current d (wi_append F src_wi)"

section \<open>The contract of the declared functions\<close>

definition cond_list :: "wi_memory \<Rightarrow> nat \<Rightarrow> nat list \<Rightarrow> bool" where
  "cond_list M w cs \<longleftrightarrow> plist_rep I_P_List_counter I_P_List_fast_push_back (cond_links M) w cs"

text \<open>Only the warning information at \<open>w\<close> may differ.\<close>

definition only_info :: "nat \<Rightarrow> wi_memory \<Rightarrow> wi_memory \<Rightarrow> bool" where
  "only_info w M M' \<longleftrightarrow> wi_links M' = wi_links M \<and>
     (\<forall>v. v \<noteq> w \<longrightarrow> infos M' v = infos M v \<and> (\<forall>cs. cond_list M v cs \<longrightarrow> cond_list M' v cs))"

definition counted :: "enum_warning_level \<Rightarrow> Warning_info \<Rightarrow> Warning_info" where
  "counted level i =
     i\<lparr>m_warn_count := (m_warn_count i)(level := m_warn_count i level + 1),
       m_current_statement_warn_count := m_current_statement_warn_count i + 1\<rparr>"

text \<open>Each function works on the object it is called on; pushing counts, unless the area is read-only and
  left untouched.\<close>

definition wi_functions_ok :: "wi_functions \<Rightarrow> bool" where
  "wi_functions_ok F \<longleftrightarrow>
     (\<forall>i w M. only_info w M (wi_clear F i w M)) \<and> (\<forall>s w M. only_info w M (wi_append F s w M)) \<and>
     (\<forall>n w M. only_info w M (wi_reserve_space F n w M)) \<and>
     (\<forall>c w M. only_info w M (snd (wi_push_condition F c w M))) \<and>
     (\<forall>w M. only_info w M (wi_mark_conditions F w M)) \<and> (\<forall>w M. only_info w M (wi_remove_marked F w M)) \<and>
     (\<forall>c m w M. only_info w M (snd (wi_push_identity F c m w M)) \<and>
        infos (snd (wi_push_identity F c m w M)) w =
          (if m_read_only (infos M w) then infos M w else counted (m_level c) (infos M w)))"

section \<open>Operations on the current area\<close>

datatype da_op = Op_id ulonglong | Op_reset | Op_clear ulonglong | Op_opt_clear ulonglong | Op_row uint32
  | Op_inc_row | Op_reset_row | Op_read_only bool | Op_reserve uint | Op_push_condition nat
  | Op_push uint string enum_warning_level string | Op_mark | Op_unmark | Op_remove_marked | Op_copy_from nat

fun da_run :: "wi_functions \<Rightarrow> da_op \<Rightarrow> Diagnostics_area \<Rightarrow> wi_memory \<Rightarrow> wi_memory option" where
  "da_run F (Op_id i) d M = set_warning_info_id i d M"
| "da_run F Op_reset d M = reset_for_next_command d M"
| "da_run F (Op_clear i) d M = clear_warning_info F i d M"
| "da_run F (Op_opt_clear i) d M = opt_clear_warning_info F i d M"
| "da_run F (Op_row row) d M = map_option snd (set_current_row_for_warning row d M)"
| "da_run F Op_inc_row d M = inc_current_row_for_warning d M"
| "da_run F Op_reset_row d M = reset_current_row_for_warning d M"
| "da_run F (Op_read_only b) d M = set_warning_info_read_only b d M"
| "da_run F (Op_reserve n) d M = reserve_space F n d M"
| "da_run F (Op_push_condition c) d M = map_option snd (push_warning_condition F c d M)"
| "da_run F (Op_push n s l m) d M = map_option snd (push_warning F n s l m d M)"
| "da_run F Op_mark d M = mark_sql_conditions_for_removal F d M"
| "da_run F Op_unmark d M = unmark_sql_conditions_from_removal d M"
| "da_run F Op_remove_marked d M = remove_marked_sql_conditions F d M"
| "da_run F (Op_copy_from w) d M = copy_sql_conditions_from_wi F w d M"

fun da_runs :: "wi_functions \<Rightarrow> da_op list \<Rightarrow> Diagnostics_area \<Rightarrow> wi_memory \<Rightarrow> wi_memory option" where
  "da_runs F [] d M = Some M"
| "da_runs F (op # ops) d M = (case da_run F op d M of None \<Rightarrow> None | Some M \<Rightarrow> da_runs F ops d M)"

fun op_ok :: "da_op \<Rightarrow> bool" where
  "op_ok (Op_push n s l m) \<longleftrightarrow> state_ok s"
| "op_ok _ \<longleftrightarrow> True"

lemmas da_op_defs = set_warning_info_id_def reset_for_next_command_def clear_warning_info_def opt_clear_warning_info_def
  set_current_row_for_warning_def inc_current_row_for_warning_def reset_current_row_for_warning_def
  set_warning_info_read_only_def reserve_space_def push_warning_condition_def push_warning_def push_warning_user_def
  mark_sql_conditions_for_removal_def unmark_sql_conditions_from_removal_def remove_marked_sql_conditions_def
  copy_sql_conditions_from_wi_def

definition da_stack :: "Diagnostics_area \<Rightarrow> wi_memory \<Rightarrow> nat list \<Rightarrow> bool" where
  "da_stack d M ws \<longleftrightarrow> plist_rep I_P_List_counter I_P_List_fast_push_back (wi_links M) (m_wi_stack d) ws"

lemma only_info_refl: "only_info w M M"
  by (simp add: only_info_def)

lemma only_info_trans: "only_info w M M' \<Longrightarrow> only_info w M' M'' \<Longrightarrow> only_info w M M''"
  by (simp add: only_info_def)

lemma only_info_upd [simp]: "only_info w M (upd_info w f M)"
  by (simp add: only_info_def upd_info_def cond_list_def)

lemma only_info_unmark [simp]: "only_info w M (unmark_sql_conditions w M)"
  by (simp add: only_info_def unmark_sql_conditions_def cond_list_def)

lemma unat_of_nat_len: "n < 2 ^ 32 \<Longrightarrow> unat (of_nat n :: uint) = n"
  by (simp add: unsigned_of_nat take_bit_nat_eq_self)

lemma current_of_stack: "da_stack d M ws \<Longrightarrow> get_warning_info d M = first_of ws"
  by (auto simp: da_stack_def get_warning_info_def dest: plist_ends(1))

lemma identity_of_ok:
  assumes "state_ok s"
  obtains c where "identity_of n s l u = Some c" "m_level c = l"
proof -
  have "SQLSTATE_LENGTH \<le> length s + 1" using assms by (simp add: state_ok_def SQLSTATE_LENGTH_def)
  then show ?thesis
    by (intro that) (auto simp: identity_of_def level_of_def Sql_state_errno_of_def set_sqlstate_def identity_from_def
        level_from_def Sql_state_errno_level.defs Sql_state_errno.defs)
qed

lemma da_run_current:
  assumes "wi_functions_ok F" "op_ok op" "get_warning_info d M \<noteq> 0"
  shows "\<exists>M'. da_run F op d M = Some M' \<and> only_info (get_warning_info d M) M M'"
proof (cases op)
  case (Op_push n s l m)
  then obtain c where "identity_of n s l ucid_none = Some c" using assms(2) identity_of_ok by (metis op_ok.simps(1))
  then show ?thesis using assms Op_push by (auto simp: da_op_defs on_current_def Let_def wi_functions_ok_def)
qed (use assms in \<open>auto simp: da_op_defs on_current_def Let_def wi_functions_ok_def wi_opt_clear_def only_info_refl\<close>)

lemma da_runs_current:
  assumes "wi_functions_ok F" "list_all op_ok ops" "get_warning_info d M \<noteq> 0"
  shows "\<exists>M'. da_runs F ops d M = Some M' \<and> only_info (get_warning_info d M) M M'"
  using assms(2,3)
proof (induction ops arbitrary: M)
  case (Cons op ops)
  obtain M1 where M1: "da_run F op d M = Some M1" "only_info (get_warning_info d M) M M1"
    using da_run_current [OF assms(1)] Cons.prems by fastforce
  then have "get_warning_info d M1 = get_warning_info d M" by (simp add: only_info_def get_warning_info_def)
  then show ?case using Cons.IH [of M1] Cons.prems M1 only_info_trans by fastforce
qed (simp add: only_info_refl)

section \<open>Properties\<close>

text \<open>
  C33. The diagnostics area is a stack of warning informations. After a push, any sequence of the
  operations works on the new one: it runs through, and the matching pop gives back the stack as it was,
  with the counters, rows, flags and condition lists of all warning informations below untouched. On an
  empty stack every operation fails on the null pointer, and pop on its assertion.
\<close>

theorem diagnostics_stack:
  assumes "wi_functions_ok F" "da_stack d M ws" "w \<notin> set ws" "w \<noteq> 0" "list_all op_ok ops" "length ws < 2 ^ 32 - 1"
  shows "(\<exists>M' M''. da_runs F ops d (push_warning_info w d M) = Some M' \<and> get_warning_info d M' = w \<and>
      pop_warning_info d M' = Some M'' \<and> da_stack d M'' ws \<and>
      (\<forall>v. v \<noteq> w \<longrightarrow> infos M'' v = infos M v \<and> (\<forall>cs. cond_list M v cs \<longrightarrow> cond_list M'' v cs))) \<and>
    (ws = [] \<longrightarrow> da_run F op d M = None \<and> pop_warning_info d M = None)"
proof (intro conjI impI)
  let ?M = "push_warning_info w d M"
  have top: "da_stack d ?M (w # ws)"
    using assms(2-4) plist_push_front_rep by (simp add: da_stack_def push_warning_info_def)
  then obtain M' where M': "da_runs F ops d ?M = Some M'" "only_info w ?M M'"
    using da_runs_current [OF assms(1,5), of d ?M] assms(4) current_of_stack [OF top] by auto
  then have top': "da_stack d M' (w # ws)" using top by (simp add: only_info_def da_stack_def)
  have "plist_elements (m_wi_stack d) (wi_links M') = of_nat (length ws + 1)"
    using top' by (simp add: da_stack_def plist_rep_def plist_elements_def)
  moreover have "unat (of_nat (length ws + 1) :: uint) = length ws + 1"
    using assms(6) by (intro unat_of_nat_len) simp
  ultimately have "plist_elements (m_wi_stack d) (wi_links M') > 0" by (simp add: word_less_nat_alt del: of_nat_add)
  then obtain M'' where M'': "pop_warning_info d M' = Some M''"
    "M'' = M'\<lparr>wi_links := plist_remove I_P_List_counter I_P_List_fast_push_back w (m_wi_stack d) (wi_links M')\<rparr>"
    using current_of_stack [OF top'] by (simp add: pop_warning_info_def get_warning_info_def)
  have "da_stack d M'' ws"
    using plist_remove_rep [of I_P_List_counter I_P_List_fast_push_back "wi_links M'" "m_wi_stack d" "[]" w ws] top' M''(2)
    by (simp add: da_stack_def)
  moreover have "infos M'' v = infos M v \<and> (\<forall>cs. cond_list M v cs \<longrightarrow> cond_list M'' v cs)" if "v \<noteq> w" for v
    using M'(2) M''(2) that by (simp add: only_info_def push_warning_info_def cond_list_def)
  ultimately show "\<exists>M' M''. da_runs F ops d ?M = Some M' \<and> get_warning_info d M' = w \<and>
      pop_warning_info d M' = Some M'' \<and> da_stack d M'' ws \<and>
      (\<forall>v. v \<noteq> w \<longrightarrow> infos M'' v = infos M v \<and> (\<forall>cs. cond_list M v cs \<longrightarrow> cond_list M'' v cs))"
    using M'(1) M''(1) current_of_stack [OF top'] by auto
next
  assume "ws = []"
  then have none: "get_warning_info d M = 0" "plist_elements (m_wi_stack d) (wi_links M) = 0"
    using current_of_stack [OF assms(2)] assms(2) by (simp_all add: da_stack_def plist_rep_def plist_elements_def)
  then show "da_run F op d M = None"
    by (cases op) (simp_all add: da_op_defs on_current_def Let_def split: option.split)
  show "pop_warning_info d M = None" using none by (simp add: pop_warning_info_def)
qed

text \<open>Functions that do nothing beyond counting, and an area with an empty stack.\<close>

definition witness_functions :: wi_functions where
  "witness_functions = \<lparr>wi_clear = \<lambda>_ _ M. M, wi_append = \<lambda>_ _ M. M, wi_reserve_space = \<lambda>_ _ M. M,
     wi_push_identity = (\<lambda>c m w M. (0, if m_read_only (infos M w) then M else upd_info w (counted (m_level c)) M)),
     wi_push_condition = (\<lambda>_ _ M. (0, M)), wi_mark_conditions = \<lambda>_ M. M, wi_remove_marked = \<lambda>_ M. M,
     wi_has_condition = (\<lambda>_ _ _. False)\<rparr>"

lemma witness_functions_ok: "wi_functions_ok witness_functions"
  unfolding wi_functions_ok_def witness_functions_def by (simp add: only_info_refl) (simp add: upd_info_def)
definition witness_links :: plheap where
  "witness_links = plist_init I_P_List_counter I_P_List_fast_push_back 1
     \<lparr>next_field = id, prev_field = Next_of, plists = \<lambda>_. \<lparr>m_first = 3, m_counter = 4, m_last = First_of 9\<rparr>\<rparr>"

definition witness_info :: Warning_info where
  "witness_info = \<lparr>m_warn_count = \<lambda>_. 0, m_current_statement_warn_count = 0, m_current_row_for_warning = 1, m_warn_id = 0,
     m_error_condition = 0, m_allow_unlimited_warnings = False, initialized = True, m_read_only = False\<rparr>"

definition witness_memory :: wi_memory where
  "witness_memory = \<lparr>infos = \<lambda>_. witness_info, cond_links = witness_links,
     marked = \<lparr>next_of = id, info = id, lists = \<lambda>_. \<lparr>bl_first = 1, bl_last = FirstOf 1, bl_elements = 0\<rparr>\<rparr>,
     wi_links = witness_links\<rparr>"

definition witness_area :: Diagnostics_area where
  "witness_area = \<lparr>m_sqlstate = ''00000'' @ [CHR 0x00], m_sql_errno = 0, da_ucid = ucid_none, m_is_sent = False,
     m_can_overwrite_status = False, m_message = '''', m_affected_rows = 0, m_last_insert_id = 0,
     m_statement_warn_count = 0, m_status = DA_EMPTY, is_bulk_execution = False, m_main_wi = 5, m_wi_stack = 1\<rparr>"

lemma witness_stack: "da_stack witness_area witness_memory []"
  by (simp add: da_stack_def witness_area_def witness_memory_def witness_links_def plist_empty_rep(2))

theorem diagnostics_stack_witness:
  "(\<exists>M' M''. da_runs witness_functions [Op_push 1062 ''23000'' WARN_LEVEL_ERROR ''m'', Op_inc_row] witness_area
       (push_warning_info 7 witness_area witness_memory) = Some M' \<and> get_warning_info witness_area M' = 7 \<and>
     pop_warning_info witness_area M' = Some M'' \<and> da_stack witness_area M'' []) \<and>
   da_run witness_functions Op_reset witness_area witness_memory = None"
  using diagnostics_stack [OF witness_functions_ok witness_stack, of 7 "[Op_push 1062 ''23000'' WARN_LEVEL_ERROR ''m'', Op_inc_row]" Op_reset]
  by (simp add: state_ok_def state_char_def del: da_runs.simps da_run.simps) blast

lemma pushes_counted:
  assumes "wi_functions_ok F" "get_warning_info d M = w" "w \<noteq> 0" "list_all (\<lambda>(n, s, l, m). state_ok s) ps"
  shows "\<exists>M'. da_runs F (map (\<lambda>(n, s, l, m). Op_push n s l m) ps) d M = Some M' \<and> get_warning_info d M' = w \<and>
    infos M' w = (if m_read_only (infos M w) then infos M w else fold (\<lambda>(n, s, l, m). counted l) ps (infos M w))"
  using assms(2,4)
proof (induction ps arbitrary: M)
  case (Cons p ps)
  obtain n s l m where p: "p = (n, s, l, m)" by (metis prod_cases4)
  have "state_ok s" using Cons.prems(2) p by simp
  then obtain c where c: "identity_of n s l ucid_none = Some c" "m_level c = l" using identity_of_ok by metis
  let ?M = "snd (wi_push_identity F c m w M)"
  have run: "da_run F (Op_push n s l m) d M = Some ?M"
    using c(1) Cons.prems(1) assms(3) by (simp add: da_op_defs on_current_def)
  have M: "only_info w M ?M" "infos ?M w = (if m_read_only (infos M w) then infos M w else counted l (infos M w))"
    using assms(1) c(2) by (simp_all add: wi_functions_ok_def)
  have "get_warning_info d ?M = w" using M(1) Cons.prems(1) by (simp add: only_info_def get_warning_info_def)
  then obtain M' where M': "da_runs F (map (\<lambda>(n, s, l, m). Op_push n s l m) ps) d ?M = Some M'" "get_warning_info d M' = w"
    "infos M' w = (if m_read_only (infos ?M w) then infos ?M w else fold (\<lambda>(n, s, l, m). counted l) ps (infos ?M w))"
    using Cons.IH [of ?M] Cons.prems(2) by auto
  have "m_read_only (infos ?M w) = m_read_only (infos M w)" by (simp add: M(2) counted_def)
  then show ?case using M' M(2) run by (intro exI [of _ M']) (simp add: p del: da_run.simps)
qed simp

definition errors_among :: "(uint \<times> string \<times> enum_warning_level \<times> string) list \<Rightarrow> nat" where
  "errors_among ps = length (filter (\<lambda>(n, s, l, m). l = WARN_LEVEL_ERROR) ps)"

lemma fold_counted:
  assumes "list_all (\<lambda>(n, s, l, m). l \<noteq> WARN_LEVEL_END) ps"
  shows "wi_error_count (fold (\<lambda>(n, s, l, m). counted l) ps i) = wi_error_count i + of_nat (errors_among ps) \<and>
    wi_warn_count (fold (\<lambda>(n, s, l, m). counted l) ps i) = wi_warn_count i + of_nat (length ps) \<and>
    wi_current_statement_warn_count (fold (\<lambda>(n, s, l, m). counted l) ps i) =
      wi_current_statement_warn_count i + of_nat (length ps)"
  using assms
proof (induction ps arbitrary: i)
  case (Cons p ps)
  obtain n s l m where p: "p = (n, s, l, m)" by (metis prod_cases4)
  have one: "wi_error_count (counted l i) = wi_error_count i + of_bool (l = WARN_LEVEL_ERROR)"
    "wi_current_statement_warn_count (counted l i) = wi_current_statement_warn_count i + 1"
    "wi_warn_count (counted l i) = wi_warn_count i + 1"
    using Cons.prems by (cases l; auto simp: p wi_error_count_def wi_warn_count_def wi_current_statement_warn_count_def counted_def)+
  then show ?case using Cons by (simp add: p errors_among_def ac_simps)
qed (simp add: errors_among_def)

text \<open>
  Warnings are counted once. After any warnings are pushed to the diagnostics area, the number of
  errors, the number of all warnings and that of the current statement are those before plus those
  pushed of the kind, at the width of the counters; while the current area is read-only, as during the
  diagnostics statements, pushing changes none of them. The levels of warnings from time conversions are
  counted, too.
\<close>

theorem warnings_counted:
  assumes "wi_functions_ok F" "get_warning_info d M \<noteq> 0"
    and "list_all (\<lambda>(n, s, l, m). state_ok s \<and> l \<noteq> WARN_LEVEL_END) ps"
  shows "(\<exists>M'. da_runs F (Op_read_only ro # map (\<lambda>(n, s, l, m). Op_push n s l m) ps) d M = Some M' \<and>
      error_count d M' = map_option (\<lambda>n. n + (if ro then 0 else of_nat (errors_among ps))) (error_count d M) \<and>
      warn_count d M' = map_option (\<lambda>n. n + (if ro then 0 else of_nat (length ps))) (warn_count d M) \<and>
      current_statement_warn_count d M' =
        map_option (\<lambda>n. n + (if ro then 0 else of_nat (length ps))) (current_statement_warn_count d M)) \<and>
    time_warn_level t \<noteq> WARN_LEVEL_END"
proof -
  let ?w = "get_warning_info d M" and ?M = "upd_info (get_warning_info d M) (wi_set_read_only ro) M"
  have ps: "list_all (\<lambda>(n, s, l, m). state_ok s) ps" "list_all (\<lambda>(n, s, l, m). l \<noteq> WARN_LEVEL_END) ps"
    using assms(3) by (auto simp: list_all_iff)
  have M: "get_warning_info d ?M = ?w" "m_read_only (infos ?M ?w) = ro"
    "da_run F (Op_read_only ro) d M = Some ?M"
    using assms(2) by (simp_all add: get_warning_info_def upd_info_def wi_set_read_only_def da_op_defs on_current_def Let_def)
  obtain M' where M': "da_runs F (map (\<lambda>(n, s, l, m). Op_push n s l m) ps) d ?M = Some M'" "get_warning_info d M' = ?w"
    "infos M' ?w = (if ro then infos ?M ?w else fold (\<lambda>(n, s, l, m). counted l) ps (infos ?M ?w))"
    using pushes_counted [OF assms(1) M(1) assms(2) ps(1)] M(2) by auto
  have same: "wi_error_count (infos ?M ?w) = wi_error_count (infos M ?w)" "wi_warn_count (infos ?M ?w) = wi_warn_count (infos M ?w)"
    "wi_current_statement_warn_count (infos ?M ?w) = wi_current_statement_warn_count (infos M ?w)"
    by (simp_all add: upd_info_def wi_set_read_only_def wi_error_count_def wi_warn_count_def wi_current_statement_warn_count_def)
  have "error_count d M' = map_option (\<lambda>n. n + (if ro then 0 else of_nat (errors_among ps))) (error_count d M)"
    "warn_count d M' = map_option (\<lambda>n. n + (if ro then 0 else of_nat (length ps))) (warn_count d M)"
    "current_statement_warn_count d M' =
        map_option (\<lambda>n. n + (if ro then 0 else of_nat (length ps))) (current_statement_warn_count d M)"
    using M'(2,3) assms(2) fold_counted [OF ps(2), of "infos ?M ?w"] same
    by (cases ro; simp add: error_count_def warn_count_def current_statement_warn_count_def on_current_def Let_def)+
  then show ?thesis using M(3) M'(1) by (auto simp: time_warn_level_def)
qed

theorem warnings_counted_witness:
  "\<exists>M'. da_runs witness_functions [Op_read_only False, Op_push 1062 ''23000'' WARN_LEVEL_ERROR ''m'',
       Op_push 1265 ''01000'' WARN_LEVEL_WARN ''t''] witness_area (push_warning_info 7 witness_area witness_memory) = Some M' \<and>
     error_count witness_area M' = Some 1 \<and> warn_count witness_area M' = Some 2"
proof -
  let ?M = "push_warning_info 7 witness_area witness_memory"
    and ?ps = "[(1062, ''23000'', WARN_LEVEL_ERROR, ''m''), (1265, ''01000'', WARN_LEVEL_WARN, ''t'')]"
  have "da_stack witness_area ?M [7]"
    using plist_push_front_rep [OF witness_stack [unfolded da_stack_def], of 7]
    by (simp add: da_stack_def push_warning_info_def)
  then have top: "get_warning_info witness_area ?M = 7" using current_of_stack by fastforce
  moreover have "infos ?M 7 = witness_info" by (simp add: push_warning_info_def witness_memory_def)
  ultimately have "error_count witness_area ?M = Some 0" "warn_count witness_area ?M = Some 0"
    by (simp_all add: error_count_def warn_count_def on_current_def wi_error_count_def wi_warn_count_def witness_info_def)
  moreover have "state_ok ''23000''" "state_ok ''01000''" by (simp_all add: state_ok_def state_char_def)
  ultimately show ?thesis
    using warnings_counted [OF witness_functions_ok, of witness_area ?M ?ps False] top
    by (simp add: errors_among_def del: da_runs.simps da_run.simps) blast
qed

end
