(* ===== verification/Sql_Arrays.thy ===== *)
theory Sql_Arrays
  imports My_Bit
begin

text \<open>
  The arrays of the server headers: views of memory (\<open>span.h\<close>, \<open>Bounds_checked_array\<close> of
  \<open>sql_array.h\<close>) and the growing array \<open>Mem_root_array\<close> of \<open>mem_root_array.h\<close>. Sizes are words of
  64 bits. An assertion that fails is the result \<open>None\<close>.
\<close>

section \<open>span\<close>

text \<open>A view is an address and a number of elements; memory is indexed by elements.\<close>

record span =
  span_data :: nat
  span_size :: size_t

definition span_empty_init :: span where
  "span_empty_init = \<lparr>span_data = 0, span_size = 0\<rparr>"

definition span_of :: "nat \<Rightarrow> size_t \<Rightarrow> span" where
  "span_of ptr cnt = \<lparr>span_data = ptr, span_size = cnt\<rparr>"

definition span_range :: "nat \<Rightarrow> nat \<Rightarrow> span" where
  "span_range first last_ptr = \<lparr>span_data = first, span_size = of_nat last_ptr - of_nat first\<rparr>"

definition span_assign :: "span \<Rightarrow> span \<Rightarrow> span" where
  "span_assign s other = s\<lparr>span_data := span_data other, span_size := span_size other\<rparr>"

definition span_empty :: "span \<Rightarrow> bool" where
  "span_empty s \<longleftrightarrow> span_size s = 0"

definition span_first :: "size_t \<Rightarrow> span \<Rightarrow> span option" where
  "span_first cnt s = (if span_empty s then None else Some (span_of (span_data s) 1))"

definition span_last :: "size_t \<Rightarrow> span \<Rightarrow> span option" where
  "span_last cnt s = (if span_empty s then None else Some (span_of (span_data s + unat (span_size s) - 1) 1))"

definition subspan :: "size_t \<Rightarrow> size_t \<Rightarrow> span \<Rightarrow> span option" where
  "subspan offset cnt s =
     (if span_empty s then None
      else if \<not> offset + cnt \<le> span_size s then None
      else Some (span_of (span_data s + unat offset) cnt))"

definition size_bytes :: "size_t \<Rightarrow> span \<Rightarrow> size_t" where
  "size_bytes sizeof s = span_size s * sizeof"

definition span_at :: "(nat \<Rightarrow> 'a) \<Rightarrow> span \<Rightarrow> size_t \<Rightarrow> 'a option" where
  "span_at mem s idx = (if idx < span_size s then Some (mem (span_data s + unat idx)) else None)"

definition span_front :: "(nat \<Rightarrow> 'a) \<Rightarrow> span \<Rightarrow> 'a option" where
  "span_front mem s = (if span_empty s then None else Some (mem (span_data s)))"

definition span_back :: "(nat \<Rightarrow> 'a) \<Rightarrow> span \<Rightarrow> 'a option" where
  "span_back mem s = (if span_empty s then None else Some (mem (span_data s + unat (span_size s - 1))))"

definition span_end :: "span \<Rightarrow> nat" where
  "span_end s = span_data s + unat (span_size s)"

section \<open>Bounds_checked_array\<close>

record Bounds_checked_array =
  bca_array :: nat
  bca_size :: size_t

definition bca_reset :: "Bounds_checked_array \<Rightarrow> Bounds_checked_array" where
  "bca_reset a = a\<lparr>bca_array := 0, bca_size := 0\<rparr>"

definition bca_reset_to :: "nat \<Rightarrow> size_t \<Rightarrow> Bounds_checked_array \<Rightarrow> Bounds_checked_array" where
  "bca_reset_to array_arg size_arg a = a\<lparr>bca_array := array_arg, bca_size := size_arg\<rparr>"

definition bca_resize :: "size_t \<Rightarrow> Bounds_checked_array \<Rightarrow> Bounds_checked_array option" where
  "bca_resize new_size a = (if new_size \<le> bca_size a then Some (a\<lparr>bca_size := new_size\<rparr>) else None)"

definition bca_at :: "(nat \<Rightarrow> 'a) \<Rightarrow> Bounds_checked_array \<Rightarrow> size_t \<Rightarrow> 'a option" where
  "bca_at mem a n = (if n < bca_size a then Some (mem (bca_array a + unat n)) else None)"

definition bca_is_null :: "Bounds_checked_array \<Rightarrow> bool" where
  "bca_is_null a \<longleftrightarrow> bca_array a = 0"

definition bca_pop_front :: "Bounds_checked_array \<Rightarrow> Bounds_checked_array option" where
  "bca_pop_front a = (if 0 < bca_size a then Some (a\<lparr>bca_array := bca_array a + 1, bca_size := bca_size a - 1\<rparr>) else None)"

definition bca_end :: "Bounds_checked_array \<Rightarrow> nat" where
  "bca_end a = bca_array a + unat (bca_size a)"

definition bca_equal :: "Bounds_checked_array \<Rightarrow> Bounds_checked_array \<Rightarrow> bool" where
  "bca_equal a b \<longleftrightarrow> bca_array a = bca_array b \<and> bca_size a = bca_size b"

section \<open>Mem_root_array\<close>

text \<open>
  The block of the array is the list of its places. \<open>alloc_root\<close> is a parameter: it is given a
  number of bytes and returns the places of a new block or fails. The element size and whether
  the destructor is trivial are template parameters; the destructors that run are recorded in
  order in \<open>destroyed\<close>.
\<close>

record 'a Mem_root_array =
  m_array :: "'a list"
  m_size :: size_t
  m_capacity :: size_t
  destroyed :: "'a list"

definition mra_init :: "'a Mem_root_array" where
  "mra_init = \<lparr>m_array = [], m_size = 0, m_capacity = 0, destroyed = []\<rparr>"

definition mra_at :: "'a Mem_root_array \<Rightarrow> size_t \<Rightarrow> 'a option" where
  "mra_at a n = (if n < m_size a then Some (m_array a ! unat n) else None)"

definition mra_back :: "'a Mem_root_array \<Rightarrow> 'a option" where
  "mra_back a = mra_at a (m_size a - 1)"

definition mra_empty :: "'a Mem_root_array \<Rightarrow> bool" where
  "mra_empty a \<longleftrightarrow> m_size a = 0"

definition mra_chop :: "bool \<Rightarrow> size_t \<Rightarrow> 'a Mem_root_array \<Rightarrow> 'a Mem_root_array option" where
  "mra_chop has_trivial_destructor pos a =
     (if pos < m_size a
      then let a = (if has_trivial_destructor then a
                    else a\<lparr>destroyed := destroyed a @ map ((!) (m_array a)) [unat pos..<unat (m_size a)]\<rparr>)
           in Some (a\<lparr>m_size := pos\<rparr>)
      else None)"

definition mra_clear :: "bool \<Rightarrow> 'a Mem_root_array \<Rightarrow> 'a Mem_root_array option" where
  "mra_clear has_trivial_destructor a =
     (if \<not> mra_empty a then mra_chop has_trivial_destructor 0 a else Some a)"

definition copy_elements :: "nat \<Rightarrow> 'a list \<Rightarrow> 'a list \<Rightarrow> 'a list" where
  "copy_elements n old new = fold (\<lambda>ix new. new[ix := old ! ix]) [0..<n] new"

definition mra_reserve ::
  "bool \<Rightarrow> size_t \<Rightarrow> (size_t \<Rightarrow> 'a list option) \<Rightarrow> size_t \<Rightarrow> 'a Mem_root_array \<Rightarrow> bool \<times> 'a Mem_root_array" where
  "mra_reserve has_trivial_destructor element_size alloc_root n a =
     (if n \<le> m_capacity a then (False, a)
      else case alloc_root (n * element_size) of
             None \<Rightarrow> (True, a)
           | Some mem \<Rightarrow>
               let array = copy_elements (unat (m_size a)) (m_array a) mem;
                   a = (if has_trivial_destructor then a
                        else a\<lparr>destroyed := destroyed a @ take (unat (m_size a)) (m_array a)\<rparr>)
               in (False, a\<lparr>m_array := array, m_capacity := n\<rparr>))"

definition mra_push_back ::
  "bool \<Rightarrow> size_t \<Rightarrow> (size_t \<Rightarrow> 'a list option) \<Rightarrow> 'a \<Rightarrow> 'a Mem_root_array \<Rightarrow> bool \<times> 'a Mem_root_array" where
  "mra_push_back has_trivial_destructor element_size alloc_root element a =
     (let (oom, a) = (if m_capacity a = 0 then mra_reserve has_trivial_destructor element_size alloc_root 20 a else (False, a))
      in if oom then (True, a)
         else let (oom, a) = (if m_size a = m_capacity a
                then mra_reserve has_trivial_destructor element_size alloc_root (m_capacity a * 2) a else (False, a))
              in if oom then (True, a)
                 else (False, a\<lparr>m_array := (m_array a)[unat (m_size a) := element], m_size := m_size a + 1\<rparr>))"

definition mra_pop_back :: "bool \<Rightarrow> 'a Mem_root_array \<Rightarrow> 'a Mem_root_array option" where
  "mra_pop_back has_trivial_destructor a =
     (if mra_empty a then None
      else let a = (if has_trivial_destructor then a else a\<lparr>destroyed := destroyed a @ [m_array a ! unat (m_size a - 1)]\<rparr>)
           in Some (a\<lparr>m_size := m_size a - 1\<rparr>))"

partial_function (option) push_until ::
  "bool \<Rightarrow> size_t \<Rightarrow> (size_t \<Rightarrow> 'a list option) \<Rightarrow> size_t \<Rightarrow> 'a \<Rightarrow> 'a Mem_root_array \<Rightarrow> 'a Mem_root_array option" where
  "push_until has_trivial_destructor element_size alloc_root n val a =
     (if n \<noteq> m_size a
      then push_until has_trivial_destructor element_size alloc_root n val
             (snd (mra_push_back has_trivial_destructor element_size alloc_root val a))
      else Some a)"

partial_function (option) pop_until :: "bool \<Rightarrow> size_t \<Rightarrow> 'a Mem_root_array \<Rightarrow> 'a Mem_root_array option" where
  "pop_until has_trivial_destructor n a =
     (if n \<noteq> m_size a
      then Option.bind (mra_pop_back has_trivial_destructor a) (pop_until has_trivial_destructor n)
      else Some a)"

definition mra_resize ::
  "bool \<Rightarrow> size_t \<Rightarrow> (size_t \<Rightarrow> 'a list option) \<Rightarrow> size_t \<Rightarrow> 'a \<Rightarrow> 'a Mem_root_array \<Rightarrow> 'a Mem_root_array option" where
  "mra_resize has_trivial_destructor element_size alloc_root n val a =
     (if n = m_size a then Some a
      else if m_size a < n
      then let (oom, a) = mra_reserve has_trivial_destructor element_size alloc_root n a
           in if \<not> oom then push_until has_trivial_destructor element_size alloc_root n val a else Some a
      else Option.bind (if has_trivial_destructor then Some a else pop_until has_trivial_destructor n a)
             (\<lambda>a. Some (a\<lparr>m_size := n\<rparr>)))"

section \<open>Views\<close>

definition view :: "(nat \<Rightarrow> 'a) \<Rightarrow> nat \<Rightarrow> size_t \<Rightarrow> 'a list" where
  "view mem p n = map mem [p..<p + unat n]"

lemma nth_view: "i < unat n \<Longrightarrow> view mem p n ! i = mem (p + i)"
  by (simp add: view_def)

lemma subspan_view:
  assumes "subspan offset cnt s = Some t" "unat offset + unat cnt < 2 ^ 64"
  shows "view mem (span_data t) (span_size t) = take (unat cnt) (drop (unat offset) (view mem (span_data s) (span_size s)))"
proof -
  have "unat (offset + cnt) = unat offset + unat cnt" using assms(2) by (simp add: unat_word_ariths)
  then have "unat offset + unat cnt \<le> unat (span_size s)"
    using assms(1) by (simp add: subspan_def word_le_nat_alt split: if_splits)
  then show ?thesis
    using assms(1) by (auto simp: subspan_def view_def span_of_def drop_map take_map take_upt split: if_splits)
qed

lemma bca_pop_front_view:
  assumes "bca_pop_front a = Some b"
  shows "view mem (bca_array b) (bca_size b) = tl (view mem (bca_array a) (bca_size a))"
proof -
  have "0 < unat (bca_size a)" using assms by (simp add: bca_pop_front_def word_less_nat_alt split: if_splits)
  moreover from this have "unat (bca_size a - 1) = unat (bca_size a) - 1" by (simp add: unat_minus_one unat_gt_0)
  ultimately show ?thesis
    using assms by (auto simp: bca_pop_front_def view_def map_tl [symmetric] tl_upt split: if_splits)
qed

section \<open>Mem_root_array as a sequence\<close>

definition elems :: "'a Mem_root_array \<Rightarrow> 'a list" where
  "elems a = take (unat (m_size a)) (m_array a)"

definition mra_ok :: "'a Mem_root_array \<Rightarrow> bool" where
  "mra_ok a \<longleftrightarrow> m_size a \<le> m_capacity a \<and> length (m_array a) = unat (m_capacity a)"

text \<open>A block has the places that fit into the bytes asked for.\<close>

definition alloc_ok :: "size_t \<Rightarrow> (size_t \<Rightarrow> 'a list option) \<Rightarrow> bool" where
  "alloc_ok element_size alloc_root \<longleftrightarrow> 0 < element_size \<and>
     (\<forall>bytes mem. alloc_root bytes = Some mem \<longrightarrow> length mem = unat bytes div unat element_size)"

lemma length_elems: "mra_ok a \<Longrightarrow> length (elems a) = unat (m_size a)"
  by (simp add: elems_def mra_ok_def word_le_nat_alt)

lemma length_copy_elements [simp]: "length (copy_elements n old new) = length new"
proof -
  have "length (fold (\<lambda>ix new. new[ix := old ! ix]) xs new) = length new" for xs
    by (induction xs arbitrary: new) auto
  then show ?thesis by (simp add: copy_elements_def)
qed

lemma take_copy_elements: "n \<le> length old \<Longrightarrow> n \<le> length new \<Longrightarrow> take n (copy_elements n old new) = take n old"
proof (induction n)
  case (Suc n)
  have "copy_elements (Suc n) old new = (copy_elements n old new)[n := old ! n]" by (simp add: copy_elements_def)
  then show ?case using Suc by (simp add: take_Suc_conv_app_nth)
qed (simp add: copy_elements_def)

lemma unat_size_t: "unat w < 2 ^ 64" for w :: size_t
proof -
  have "unat w < 2 ^ LENGTH(64)" by (rule unsigned_less)
  then show ?thesis by simp
qed

lemma unat_mult_fits: "unat x * unat y < 2 ^ 64 \<Longrightarrow> unat (x * y) = unat x * unat y" for x y :: size_t
  by (simp add: unat_word_ariths)

lemma reserve_ok:
  assumes "mra_ok a" "alloc_ok es al" "unat n * unat es < 2 ^ 64"
  shows "mra_ok (snd (mra_reserve triv es al n a))" "elems (snd (mra_reserve triv es al n a)) = elems a"
    "m_size (snd (mra_reserve triv es al n a)) = m_size a"
    "\<not> fst (mra_reserve triv es al n a) \<Longrightarrow> n \<le> m_capacity (snd (mra_reserve triv es al n a))"
    "fst (mra_reserve triv es al n a) \<Longrightarrow> snd (mra_reserve triv es al n a) = a"
proof -
  have len: "length mem = unat n" if "al (n * es) = Some mem" for mem
    using assms(2,3) that by (auto simp: alloc_ok_def unat_mult_fits word_less_nat_alt)
  have "unat (m_size a) \<le> unat (m_capacity a)" "length (m_array a) = unat (m_capacity a)"
    using assms(1) by (auto simp: mra_ok_def word_le_nat_alt)
  moreover have "\<not> n \<le> m_capacity a \<Longrightarrow> unat (m_capacity a) < unat n" by (simp add: word_le_nat_alt)
  ultimately show "mra_ok (snd (mra_reserve triv es al n a))" "elems (snd (mra_reserve triv es al n a)) = elems a"
    using assms(1) len
    by (auto simp: mra_reserve_def mra_ok_def elems_def Let_def word_le_nat_alt take_copy_elements split: option.splits)
qed (auto simp: mra_reserve_def Let_def split: option.splits if_splits)

lemma reserve_fails: "fst (mra_reserve triv es al n a) \<longleftrightarrow> m_capacity a < n \<and> al (n * es) = None"
  by (auto simp: mra_reserve_def Let_def not_le split: option.split)

lemma reserve_none: "n \<le> m_capacity a \<Longrightarrow> mra_reserve triv es al n a = (False, a)"
  by (simp add: mra_reserve_def)

lemma push_back_room:
  assumes "mra_ok a" "m_size a < m_capacity a" and b: "b = snd (mra_push_back triv es al x a)"
  shows "\<not> fst (mra_push_back triv es al x a)" "mra_ok b" "elems b = elems a @ [x]"
    "m_size b = m_size a + 1" "m_capacity b = m_capacity a"
proof -
  have lt: "unat (m_size a) < unat (m_capacity a)" and c0: "m_capacity a \<noteq> 0" "m_size a \<noteq> m_capacity a"
    using assms(2) by (auto simp: word_less_nat_alt)
  then have push: "mra_push_back triv es al x a = (False, a\<lparr>m_array := (m_array a)[unat (m_size a) := x], m_size := m_size a + 1\<rparr>)"
    by (simp add: mra_push_back_def Let_def)
  have s: "unat (m_size a + 1) = unat (m_size a) + 1"
    using lt unat_size_t [of "m_capacity a"] by (simp add: unat_word_ariths)
  have len: "length (m_array a) = unat (m_capacity a)" using assms(1) by (simp add: mra_ok_def)
  show "\<not> fst (mra_push_back triv es al x a)" "m_size b = m_size a + 1" "m_capacity b = m_capacity a"
    by (simp_all add: b push)
  show "mra_ok b" using len lt s by (simp add: b push mra_ok_def word_le_nat_alt)
  show "elems b = elems a @ [x]" using len lt by (simp add: b push elems_def s take_Suc_conv_app_nth)
qed

lemma push_back_ok:
  assumes "mra_ok a" "alloc_ok es al" "20 * unat es < 2 ^ 64" "2 * unat (m_capacity a) * unat es < 2 ^ 64"
  shows "(fst (mra_push_back triv es al x a) \<longleftrightarrow>
      m_size a = m_capacity a \<and> al ((if m_capacity a = 0 then 20 else m_capacity a * 2) * es) = None) \<and>
    (fst (mra_push_back triv es al x a) \<longrightarrow> snd (mra_push_back triv es al x a) = a) \<and>
    mra_ok (snd (mra_push_back triv es al x a)) \<and>
    (\<not> fst (mra_push_back triv es al x a) \<longrightarrow> elems (snd (mra_push_back triv es al x a)) = elems a @ [x])"
proof -
  let ?p = "mra_push_back triv es al x"
  have es: "0 < unat es" using assms(2) by (simp add: alloc_ok_def word_less_nat_alt)
  consider (zero) "m_capacity a = 0" | (full) "m_capacity a \<noteq> 0" "m_size a = m_capacity a" | (room) "m_size a < m_capacity a"
    using assms(1) by (fastforce simp: mra_ok_def le_less)
  then show ?thesis
  proof cases
    case zero
    let ?r = "mra_reserve triv es al 20 a"
    note r = reserve_ok [OF assms(1,2), of 20 triv]
    have f: "fst ?r \<longleftrightarrow> al (20 * es) = None" using zero by (simp add: reserve_fails)
    have s0: "m_size a = 0" using assms(1) zero by (simp add: mra_ok_def)
    then have lt: "m_size (snd ?r) < m_capacity (snd ?r)" if "\<not> fst ?r"
      using r(3,4) that assms(3) by (fastforce intro: less_le_trans [of _ 20])
    have "?p a = (if fst ?r then (True, snd ?r) else ?p (snd ?r))"
    proof (cases "fst ?r")
      case False
      then have "m_capacity (snd ?r) \<noteq> 0" using lt by auto
      then show ?thesis using False zero by (simp add: mra_push_back_def Let_def case_prod_beta)
    qed (simp add: mra_push_back_def Let_def case_prod_beta zero)
    then show ?thesis using r push_back_room [OF _ lt refl] assms(1,3) f s0 zero by (cases "fst ?r") auto
  next
    case full
    let ?r = "mra_reserve triv es al (m_capacity a * 2) a"
    have "2 * unat (m_capacity a) * 1 \<le> 2 * unat (m_capacity a) * unat es" using es by (intro mult_le_mono) auto
    from le_less_trans [OF this assms(4)] have c2: "unat (m_capacity a * 2) = 2 * unat (m_capacity a)"
      by (simp add: unat_word_ariths)
    then have b: "unat (m_capacity a * 2) * unat es < 2 ^ 64" using assms(4) by simp
    note r = reserve_ok [OF assms(1,2) b, of triv]
    have lt0: "m_capacity a < m_capacity a * 2" using c2 full(1) by (simp add: word_less_nat_alt unat_gt_0)
    then have f: "fst ?r \<longleftrightarrow> al (m_capacity a * 2 * es) = None" by (simp add: reserve_fails)
    from lt0 have lt: "m_size (snd ?r) < m_capacity (snd ?r)" if "\<not> fst ?r"
      using r(3,4) that full(2) less_le_trans by fastforce
    have "?p a = (if fst ?r then (True, snd ?r) else ?p (snd ?r))"
    proof (cases "fst ?r")
      case False
      then have "m_capacity (snd ?r) \<noteq> 0" "m_size (snd ?r) \<noteq> m_capacity (snd ?r)" using lt by auto
      then show ?thesis using False full by (simp add: mra_push_back_def Let_def case_prod_beta)
    qed (simp add: mra_push_back_def Let_def case_prod_beta full)
    then show ?thesis using r push_back_room [OF _ lt refl] assms(1) f full by (cases "fst ?r") auto
  next
    case room
    then show ?thesis using push_back_room [OF assms(1) room refl] by auto
  qed
qed

lemma push_until_ok:
  assumes "mra_ok a" "m_size a \<le> n" "n \<le> m_capacity a"
  shows "\<exists>b. push_until triv es al n x a = Some b \<and> mra_ok b \<and> m_size b = n \<and>
    elems b = elems a @ replicate (unat n - unat (m_size a)) x"
  using assms
proof (induction "unat n - unat (m_size a)" arbitrary: a)
  case 0
  then have "m_size a = n" by (simp add: word_le_nat_alt word_unat_eq_iff)
  then show ?case using 0 by (subst push_until.simps) simp
next
  case (Suc k)
  let ?b = "snd (mra_push_back triv es al x a)"
  have lt: "m_size a < n" using Suc.hyps(2) by (simp add: word_less_nat_alt)
  note b = push_back_room [OF Suc.prems(1) less_le_trans [OF lt Suc.prems(3)] refl, of triv es al x]
  have s: "unat (m_size a + 1) = unat (m_size a) + 1"
    using lt unat_size_t [of n] by (simp add: unat_word_ariths word_less_nat_alt)
  have "k = unat n - unat (m_size ?b)" "m_size ?b \<le> n" "n \<le> m_capacity ?b"
    using Suc.hyps(2) Suc.prems(3) lt s b(4,5) by (simp_all add: word_le_nat_alt word_less_nat_alt)
  then obtain c where c: "push_until triv es al n x ?b = Some c" "mra_ok c" "m_size c = n"
    "elems c = elems ?b @ replicate k x"
    using Suc.hyps(1) [OF _ b(2)] by auto
  have "push_until triv es al n x a = Some c" using lt c(1) by (subst push_until.simps) auto
  moreover have "elems c = elems a @ replicate (unat n - unat (m_size a)) x"
    using c(4) b(3) by (simp flip: Suc.hyps(2) add: replicate_append_same)
  ultimately show ?case using c by blast
qed

lemma pop_back_ok:
  assumes "mra_ok a" "m_size a \<noteq> 0"
  shows "\<exists>b. mra_pop_back triv a = Some b \<and> mra_ok b \<and> m_size b = m_size a - 1 \<and> elems b = butlast (elems a) \<and>
    m_array b = m_array a \<and> (\<not> triv \<longrightarrow> destroyed b = destroyed a @ [last (elems a)])"
proof -
  have s: "unat (m_size a - 1) = unat (m_size a) - 1" "0 < unat (m_size a)" using assms(2) by (simp_all add: unat_minus_one unat_gt_0)
  have len: "unat (m_size a) \<le> length (m_array a)" using assms(1) by (simp add: mra_ok_def word_le_nat_alt)
  then have la: "last (elems a) = m_array a ! (unat (m_size a) - 1)"
    using s by (subst last_conv_nth) (auto simp: elems_def)
  have "unat (m_size a) - 1 \<le> unat (m_capacity a)" using assms(1) by (auto simp: mra_ok_def word_le_nat_alt)
  then show ?thesis
    using assms s len la by (auto simp: mra_pop_back_def mra_empty_def Let_def mra_ok_def elems_def word_le_nat_alt butlast_take)
qed

lemma chop_ok:
  assumes "mra_ok a" "pos < m_size a"
  shows "\<exists>b. mra_chop triv pos a = Some b \<and> mra_ok b \<and> elems b = take (unat pos) (elems a) \<and>
    (\<not> triv \<longrightarrow> destroyed b = destroyed a @ drop (unat pos) (elems a))"
proof -
  have lt: "unat pos < unat (m_size a)" "unat (m_size a) \<le> length (m_array a)"
    using assms by (auto simp: word_less_nat_alt mra_ok_def word_le_nat_alt)
  have "map ((!) (m_array a)) [unat pos..<unat (m_size a)] = drop (unat pos) (elems a)"
    using lt by (intro nth_equalityI) (auto simp: elems_def)
  then show ?thesis
    using assms lt by (auto simp: mra_chop_def Let_def mra_ok_def elems_def word_le_nat_alt word_less_nat_alt min_def)
qed

lemma pop_until_ok:
  assumes "mra_ok a" "n \<le> m_size a"
  shows "\<exists>b. pop_until triv n a = Some b \<and> mra_ok b \<and> m_size b = n \<and> elems b = take (unat n) (elems a)"
  using assms
proof (induction "unat (m_size a) - unat n" arbitrary: a)
  case 0
  then have "m_size a = n" by (simp add: word_le_nat_alt word_unat_eq_iff)
  then show ?case using 0 by (subst pop_until.simps) (simp add: elems_def)
next
  case (Suc k)
  have lt: "unat n < unat (m_size a)" using Suc.hyps(2) by simp
  then have ne: "m_size a \<noteq> 0" "n \<noteq> m_size a" by auto
  obtain b where b: "mra_pop_back triv a = Some b" "mra_ok b" "m_size b = m_size a - 1" "elems b = butlast (elems a)"
    using pop_back_ok [OF Suc.prems(1) ne(1)] by blast
  have s: "unat (m_size a - 1) = unat (m_size a) - 1" using ne by (simp add: unat_minus_one)
  have "k = unat (m_size b) - unat n" "n \<le> m_size b" using Suc.hyps(2) lt s b(3) by (simp_all add: word_le_nat_alt)
  then obtain c where c: "pop_until triv n b = Some c" "mra_ok c" "m_size c = n" "elems c = take (unat n) (elems b)"
    using Suc.hyps(1) [OF _ b(2)] by auto
  have "pop_until triv n a = Some c" using b(1) c(1) ne by (subst pop_until.simps) simp
  moreover have "take (unat n) (butlast (elems a)) = take (unat n) (elems a)"
    using lt length_elems [OF Suc.prems(1)] by (simp add: butlast_conv_take)
  ultimately show ?case using c b(4) by simp
qed

lemma resize_ok:
  assumes "mra_ok a" "alloc_ok es al" "unat n * unat es < 2 ^ 64"
  shows "\<exists>b. mra_resize triv es al n x a = Some b \<and> mra_ok b \<and>
    (if m_capacity a < n \<and> al (n * es) = None then b = a
     else elems b = take (unat n) (elems a) @ replicate (unat n - unat (m_size a)) x)"
proof -
  note r = reserve_ok [OF assms, of triv]
  consider "n = m_size a" | "m_size a < n" "fst (mra_reserve triv es al n a)" | "m_size a < n" "\<not> fst (mra_reserve triv es al n a)" | "n < m_size a"
    by fastforce
  then show ?thesis
  proof cases
    case 1
    then have "\<not> m_capacity a < n" using assms(1) by (simp add: mra_ok_def not_less)
    with 1 show ?thesis using assms(1) by (simp add: mra_resize_def elems_def)
  next
    case 2
    then have "mra_resize triv es al n x a = Some a"
      using r(5) by (auto simp: mra_resize_def Let_def case_prod_beta)
    then show ?thesis using 2 assms(1) by (simp add: reserve_fails)
  next
    case 3
    let ?b = "snd (mra_reserve triv es al n a)"
    obtain c where "push_until triv es al n x ?b = Some c" "mra_ok c" "elems c = elems ?b @ replicate (unat n - unat (m_size ?b)) x"
      using push_until_ok [OF r(1) _ r(4) [OF 3(2)]] 3(1) r(3) by fastforce
    moreover have "take (unat n) (elems a) = elems a" using 3(1) length_elems [OF assms(1)] by (simp add: word_less_nat_alt)
    moreover have "\<not> (m_capacity a < n \<and> al (n * es) = None)" using 3(2) by (simp add: reserve_fails)
    ultimately show ?thesis using 3 r by (auto simp: mra_resize_def Let_def case_prod_beta)
  next
    case 4
    then have lt: "unat n < unat (m_size a)" "n \<le> m_size a" by (auto simp: word_less_nat_alt intro: less_imp_le)
    obtain b where b: "pop_until triv n a = Some b" "mra_ok b" "m_size b = n" "elems b = take (unat n) (elems a)"
      using pop_until_ok [OF assms(1) lt(2)] by blast
    have "b\<lparr>m_size := n\<rparr> = b" using b(3) by simp
    moreover have "mra_ok (a\<lparr>m_size := n\<rparr>)" "elems (a\<lparr>m_size := n\<rparr>) = take (unat n) (elems a)"
      using assms(1) lt by (auto simp: mra_ok_def elems_def min_def)
    moreover have "\<not> m_capacity a < n" using 4 assms(1) by (auto simp: mra_ok_def)
    ultimately show ?thesis using 4 b lt by (cases triv) (auto simp: mra_resize_def)
  qed
qed

section \<open>Property\<close>

text \<open>
  C21. The growing array is a sequence whose elements always lie inside its block. Adding an
  element fails exactly when the block is full and the allocator has no block of twice the places
  (of 20 at first), and then changes nothing; otherwise it appends the element. Removing and
  chopping cut the end off and destroy exactly the elements cut off. Resizing ends; it changes
  nothing exactly when the block is too small and the allocator has none of the size asked for,
  and otherwise gives the first elements, padded with the value.
\<close>

theorem mem_root_array_vector:
  assumes "mra_ok a" "alloc_ok es al" "20 * unat es < 2 ^ 64" "2 * unat (m_capacity a) * unat es < 2 ^ 64"
    and "unat n * unat es < 2 ^ 64"
  shows "mra_ok (snd (mra_push_back triv es al x a)) \<and>
    (fst (mra_push_back triv es al x a) \<longleftrightarrow>
      m_size a = m_capacity a \<and> al ((if m_capacity a = 0 then 20 else m_capacity a * 2) * es) = None) \<and>
    (if fst (mra_push_back triv es al x a) then snd (mra_push_back triv es al x a) = a
     else elems (snd (mra_push_back triv es al x a)) = elems a @ [x]) \<and>
    (m_size a \<noteq> 0 \<longrightarrow> (\<exists>b. mra_pop_back triv a = Some b \<and> mra_ok b \<and> elems b = butlast (elems a) \<and>
       (\<not> triv \<longrightarrow> destroyed b = destroyed a @ [last (elems a)]))) \<and>
    (n < m_size a \<longrightarrow> (\<exists>b. mra_chop triv n a = Some b \<and> mra_ok b \<and> elems b = take (unat n) (elems a) \<and>
       (\<not> triv \<longrightarrow> destroyed b = destroyed a @ drop (unat n) (elems a)))) \<and>
    (\<exists>b. mra_resize triv es al n x a = Some b \<and> mra_ok b \<and>
       (if m_capacity a < n \<and> al (n * es) = None then b = a
     else elems b = take (unat n) (elems a) @ replicate (unat n - unat (m_size a)) x))"
proof (intro conjI impI)
  show "\<exists>b. mra_pop_back triv a = Some b \<and> mra_ok b \<and> elems b = butlast (elems a) \<and>
      (\<not> triv \<longrightarrow> destroyed b = destroyed a @ [last (elems a)])" if "m_size a \<noteq> 0"
    using pop_back_ok [OF assms(1) that, of triv] by blast
  show "\<exists>b. mra_chop triv n a = Some b \<and> mra_ok b \<and> elems b = take (unat n) (elems a) \<and>
      (\<not> triv \<longrightarrow> destroyed b = destroyed a @ drop (unat n) (elems a))" if "n < m_size a"
    by (rule chop_ok [OF assms(1) that])
  show "\<exists>b. mra_resize triv es al n x a = Some b \<and> mra_ok b \<and>
      (if m_capacity a < n \<and> al (n * es) = None then b = a
     else elems b = take (unat n) (elems a) @ replicate (unat n - unat (m_size a)) x)"
    by (rule resize_ok [OF assms(1,2,5)])
qed (use push_back_ok [OF assms(1-4), of triv x] in \<open>simp_all split del: if_split\<close>, simp_all)

theorem mem_root_array_vector_witness:
  "elems (snd (mra_push_back False 8 (\<lambda>bytes. Some (replicate (unat bytes div 8) 0)) 9
     \<lparr>m_array = [7, 8], m_size = 2, m_capacity = 2, destroyed = []\<rparr>)) = [7, 8, 9 :: nat] \<and>
   (\<exists>b. mra_resize False 8 (\<lambda>bytes. Some (replicate (unat bytes div 8) 0)) 4 9
     \<lparr>m_array = [7, 8], m_size = 2, m_capacity = 2, destroyed = []\<rparr> = Some b \<and> elems b = [7, 8, 9, 9 :: nat])"
proof -
  let ?a = "\<lparr>m_array = [7, 8], m_size = 2, m_capacity = 2, destroyed = []\<rparr> :: nat Mem_root_array"
  let ?al = "\<lambda>bytes :: size_t. Some (replicate (unat bytes div 8) (0 :: nat))"
  have a: "mra_ok ?a" and al: "alloc_ok 8 ?al" by (simp_all add: mra_ok_def alloc_ok_def)
  have e: "elems ?a = [7, 8]" by (simp add: elems_def)
  have "replicate 2 (9 :: nat) = [9, 9]" by (simp add: numeral_2_eq_2)
  then show ?thesis using mem_root_array_vector [OF a al, of 4 False 9] e by auto
qed

end
