(* ===== verification/Lifo_Buffer.thy ===== *)
theory Lifo_Buffer
  imports Byte_Memory
begin

text \<open>
  The last-in-first-out key buffers of \<open>sql_lifo_buffer.h\<close>: elements of one or two fixed-size parts,
  stored upwards from the start of the space (\<open>Forward_lifo_buffer\<close>) or downwards from its end
  (\<open>Backward_lifo_buffer\<close>), so that two adjacent buffers can share a space and pass room from one to
  the other. Addresses and sizes are numbers; differences of pointers are integers. A failing
  assertion gives \<open>None\<close>.
\<close>

section \<open>Buffers\<close>

datatype enum_direction = BACKWARD | FORWARD

record Lifo_buffer =
  size1 :: nat
  size2 :: nat
  write_ptr1 :: nat
  write_ptr2 :: nat
  read_ptr1 :: nat
  read_ptr2 :: nat
  space_start :: nat
  space_end :: nat
  lifo_pos :: nat

definition setup_writing :: "nat \<Rightarrow> nat \<Rightarrow> Lifo_buffer \<Rightarrow> Lifo_buffer" where
  "setup_writing len1 len2 b = b\<lparr>size1 := len1, size2 := len2\<rparr>"

definition setup_reading :: "nat \<Rightarrow> nat \<Rightarrow> Lifo_buffer \<Rightarrow> Lifo_buffer option" where
  "setup_reading len1 len2 b = (if len1 = size1 b \<and> len2 = size2 b then Some b else None)"

section \<open>Forward buffers\<close>

definition fw_used_size :: "Lifo_buffer \<Rightarrow> int" where
  "fw_used_size b = int (lifo_pos b) - int (space_start b)"

definition fw_reset :: "Lifo_buffer \<Rightarrow> Lifo_buffer" where
  "fw_reset b = b\<lparr>lifo_pos := space_start b\<rparr>"

definition fw_end_of_space :: "Lifo_buffer \<Rightarrow> nat" where
  "fw_end_of_space b = lifo_pos b"

definition fw_have_space_for :: "nat \<Rightarrow> Lifo_buffer \<Rightarrow> bool" where
  "fw_have_space_for bytes b \<longleftrightarrow> lifo_pos b + bytes < space_end b"

definition fw_write_bytes :: "nat \<Rightarrow> nat \<Rightarrow> Lifo_buffer \<times> memory \<Rightarrow> (Lifo_buffer \<times> memory) option" where
  "fw_write_bytes data bytes = (\<lambda>(b, m).
     if fw_have_space_for bytes b
     then Some (b\<lparr>lifo_pos := lifo_pos b + bytes\<rparr>, memcpy m (lifo_pos b) data bytes)
     else None)"

definition fw_write :: "Lifo_buffer \<times> memory \<Rightarrow> (Lifo_buffer \<times> memory) option" where
  "fw_write s =
     (case fw_write_bytes (write_ptr1 (fst s)) (size1 (fst s)) s of
        None \<Rightarrow> None
      | Some s \<Rightarrow> if size2 (fst s) \<noteq> 0 then fw_write_bytes (write_ptr2 (fst s)) (size2 (fst s)) s else Some s)"

definition fw_have_data :: "nat \<Rightarrow> nat \<Rightarrow> Lifo_buffer \<Rightarrow> bool" where
  "fw_have_data position bytes b \<longleftrightarrow> int position - int (space_start b) \<ge> int bytes"

text \<open>Reading moves a position and yields pointers; the second is set for pairs only. No result is
  the return value \<open>TRUE\<close>, the end of the data. The assertions of \<open>read_bytes\<close> follow from the test.\<close>

definition fw_read_at :: "Lifo_buffer \<Rightarrow> nat \<Rightarrow> (nat \<times> nat \<times> nat option) option" where
  "fw_read_at b position =
     (if \<not> fw_have_data position (size1 b + size2 b) b then None
      else let (position, ptr2) = (if size2 b \<noteq> 0 then (position - size2 b, Some (position - size2 b)) else (position, None));
               position = position - size1 b
           in Some (position, position, ptr2))"

definition fw_grow :: "nat \<Rightarrow> nat \<Rightarrow> Lifo_buffer \<Rightarrow> Lifo_buffer option" where
  "fw_grow unused_start unused_end b =
     (if unused_start \<le> unused_end \<and> space_end b = unused_start then Some (b\<lparr>space_end := unused_end\<rparr>) else None)"

definition fw_used_area :: "Lifo_buffer \<Rightarrow> nat" where
  "fw_used_area b = space_start b"

section \<open>Backward buffers\<close>

definition bw_used_size :: "Lifo_buffer \<Rightarrow> int" where
  "bw_used_size b = int (space_end b) - int (lifo_pos b)"

definition bw_reset :: "Lifo_buffer \<Rightarrow> Lifo_buffer" where
  "bw_reset b = b\<lparr>lifo_pos := space_end b\<rparr>"

definition bw_end_of_space :: "Lifo_buffer \<Rightarrow> nat" where
  "bw_end_of_space b = space_end b"

definition bw_have_space_for :: "nat \<Rightarrow> Lifo_buffer \<Rightarrow> bool" where
  "bw_have_space_for bytes b \<longleftrightarrow> int (lifo_pos b) - int bytes \<ge> int (space_start b)"

definition bw_write_bytes :: "nat \<Rightarrow> nat \<Rightarrow> Lifo_buffer \<times> memory \<Rightarrow> (Lifo_buffer \<times> memory) option" where
  "bw_write_bytes data bytes = (\<lambda>(b, m).
     if bw_have_space_for bytes b
     then let b = b\<lparr>lifo_pos := lifo_pos b - bytes\<rparr> in Some (b, memcpy m (lifo_pos b) data bytes)
     else None)"

definition bw_write :: "Lifo_buffer \<times> memory \<Rightarrow> (Lifo_buffer \<times> memory) option" where
  "bw_write s =
     (case (if write_ptr2 (fst s) \<noteq> 0 then bw_write_bytes (write_ptr2 (fst s)) (size2 (fst s)) s else Some s) of
        None \<Rightarrow> None
      | Some s \<Rightarrow> bw_write_bytes (write_ptr1 (fst s)) (size1 (fst s)) s)"

definition bw_have_data :: "nat \<Rightarrow> nat \<Rightarrow> Lifo_buffer \<Rightarrow> bool" where
  "bw_have_data position bytes b \<longleftrightarrow> int (space_end b) - int position \<ge> int bytes"

definition bw_read_at :: "Lifo_buffer \<Rightarrow> nat \<Rightarrow> (nat \<times> nat \<times> nat option) option" where
  "bw_read_at b position =
     (if \<not> bw_have_data position (size1 b + size2 b) b then None
      else let ptr1 = position; position = position + size1 b
           in if size2 b \<noteq> 0 then Some (position + size2 b, ptr1, Some position) else Some (position, ptr1, None))"

definition bw_remove_unused_space :: "Lifo_buffer \<Rightarrow> nat \<times> nat \<times> Lifo_buffer" where
  "bw_remove_unused_space b = (space_start b, lifo_pos b, b\<lparr>space_start := lifo_pos b\<rparr>)"

definition bw_used_area :: "Lifo_buffer \<Rightarrow> nat" where
  "bw_used_area b = lifo_pos b"

section \<open>Calls through the base class\<close>

fun lifo_used_size :: "enum_direction \<Rightarrow> Lifo_buffer \<Rightarrow> int" where
  "lifo_used_size FORWARD b = fw_used_size b"
| "lifo_used_size BACKWARD b = bw_used_size b"

fun lifo_reset :: "enum_direction \<Rightarrow> Lifo_buffer \<Rightarrow> Lifo_buffer" where
  "lifo_reset FORWARD b = fw_reset b"
| "lifo_reset BACKWARD b = bw_reset b"

fun have_space_for :: "enum_direction \<Rightarrow> nat \<Rightarrow> Lifo_buffer \<Rightarrow> bool" where
  "have_space_for FORWARD bytes b = fw_have_space_for bytes b"
| "have_space_for BACKWARD bytes b = bw_have_space_for bytes b"

fun lifo_write :: "enum_direction \<Rightarrow> Lifo_buffer \<times> memory \<Rightarrow> (Lifo_buffer \<times> memory) option" where
  "lifo_write FORWARD s = fw_write s"
| "lifo_write BACKWARD s = bw_write s"

fun lifo_read_at :: "enum_direction \<Rightarrow> Lifo_buffer \<Rightarrow> nat \<Rightarrow> (nat \<times> nat \<times> nat option) option" where
  "lifo_read_at FORWARD b position = fw_read_at b position"
| "lifo_read_at BACKWARD b position = bw_read_at b position"

definition set_buffer_space :: "enum_direction \<Rightarrow> nat \<Rightarrow> nat \<Rightarrow> Lifo_buffer \<Rightarrow> Lifo_buffer" where
  "set_buffer_space d start_arg end_arg b = lifo_reset d (b\<lparr>space_start := start_arg, space_end := end_arg\<rparr>)"

definition can_write :: "enum_direction \<Rightarrow> Lifo_buffer \<Rightarrow> bool" where
  "can_write d b \<longleftrightarrow> have_space_for d (size1 b + size2 b) b"

definition lifo_is_empty :: "enum_direction \<Rightarrow> Lifo_buffer \<Rightarrow> bool" where
  "lifo_is_empty d b \<longleftrightarrow> lifo_used_size d b = 0"

definition lifo_read :: "enum_direction \<Rightarrow> Lifo_buffer \<Rightarrow> bool \<times> Lifo_buffer" where
  "lifo_read d b =
     (case lifo_read_at d b (lifo_pos b) of
        None \<Rightarrow> (True, b)
      | Some (position, ptr1, ptr2) \<Rightarrow>
          (False, b\<lparr>lifo_pos := position, read_ptr1 := ptr1,
             read_ptr2 := (case ptr2 of None \<Rightarrow> read_ptr2 b | Some p \<Rightarrow> p)\<rparr>))"

record Lifo_buffer_iterator =
  lit_pos :: nat
  lit_ptr1 :: nat
  lit_ptr2 :: nat

definition lit_init :: "Lifo_buffer \<Rightarrow> Lifo_buffer_iterator \<Rightarrow> Lifo_buffer_iterator" where
  "lit_init b it = it\<lparr>lit_pos := lifo_pos b\<rparr>"

definition lit_read :: "enum_direction \<Rightarrow> Lifo_buffer \<Rightarrow> Lifo_buffer_iterator \<Rightarrow> bool \<times> Lifo_buffer_iterator" where
  "lit_read d b it =
     (case lifo_read_at d b (lit_pos it) of
        None \<Rightarrow> (True, it)
      | Some (position, ptr1, ptr2) \<Rightarrow>
          (False, it\<lparr>lit_pos := position, lit_ptr1 := ptr1, lit_ptr2 := (case ptr2 of None \<Rightarrow> lit_ptr2 it | Some p \<Rightarrow> p)\<rparr>))"

section \<open>The stack a buffer holds\<close>

text \<open>Elements are pairs of byte strings; a position cuts the used space at a suffix of the stack.\<close>

definition bytes_at :: "memory \<Rightarrow> nat \<Rightarrow> nat \<Rightarrow> uchar list" where
  "bytes_at m p n = map m [p..<p + n]"

fun stack_at :: "enum_direction \<Rightarrow> Lifo_buffer \<Rightarrow> memory \<Rightarrow> nat \<Rightarrow> (uchar list \<times> uchar list) list \<Rightarrow> bool" where
  "stack_at FORWARD b m p [] \<longleftrightarrow> p = space_start b"
| "stack_at FORWARD b m p ((x, y) # es) \<longleftrightarrow>
     space_start b + (size1 b + size2 b) \<le> p \<and> x = bytes_at m (p - (size1 b + size2 b)) (size1 b) \<and>
     y = bytes_at m (p - size2 b) (size2 b) \<and> stack_at FORWARD b m (p - (size1 b + size2 b)) es"
| "stack_at BACKWARD b m p [] \<longleftrightarrow> p = space_end b"
| "stack_at BACKWARD b m p ((x, y) # es) \<longleftrightarrow>
     p + (size1 b + size2 b) \<le> space_end b \<and> x = bytes_at m p (size1 b) \<and>
     y = bytes_at m (p + size1 b) (size2 b) \<and> stack_at BACKWARD b m (p + (size1 b + size2 b)) es"

definition holds_stack :: "enum_direction \<Rightarrow> Lifo_buffer \<Rightarrow> memory \<Rightarrow> (uchar list \<times> uchar list) list \<Rightarrow> bool" where
  "holds_stack d b m es \<longleftrightarrow> space_start b \<le> lifo_pos b \<and> lifo_pos b \<le> space_end b \<and> stack_at d b m (lifo_pos b) es"

lemma bytes_at_0 [simp]: "bytes_at m p 0 = []"
  by (simp add: bytes_at_def)

lemma bytes_at_cong: "(\<And>x. p \<le> x \<Longrightarrow> x < p + n \<Longrightarrow> m' x = m x) \<Longrightarrow> bytes_at m' p n = bytes_at m p n"
  by (simp add: bytes_at_def)

lemma bytes_at_memcpy: "bytes_at (memcpy m p w n) p n = bytes_at m w n"
  by (rule nth_equalityI) (simp_all add: bytes_at_def memcpy_def)

lemma bytes_at_memcpy_other: "q + k \<le> p \<or> p + n \<le> q \<Longrightarrow> bytes_at (memcpy m p w n) q k = bytes_at m q k"
  by (rule bytes_at_cong) (auto simp: memcpy_def)

lemma stack_at_bounds:
  "stack_at FORWARD b m p es \<Longrightarrow> space_start b \<le> p" "stack_at BACKWARD b m p es \<Longrightarrow> p \<le> space_end b"
  by (cases es; auto)+

lemma stack_forward_frame:
  assumes "stack_at FORWARD b m p es" "space_start b' = space_start b" "size1 b' = size1 b" "size2 b' = size2 b"
    and "\<And>x. space_start b \<le> x \<Longrightarrow> x < p \<Longrightarrow> m' x = m x"
  shows "stack_at FORWARD b' m' p es"
  using assms
proof (induction es arbitrary: p)
  case (Cons e es)
  obtain x y where e: "e = (x, y)" by (cases e)
  let ?q = "p - (size1 b + size2 b)"
  have q: "space_start b \<le> ?q" "space_start b + (size1 b + size2 b) \<le> p" using Cons.prems e by auto
  have "stack_at FORWARD b' m' ?q es" using Cons.prems e by (intro Cons.IH) auto
  moreover have "bytes_at m' ?q (size1 b) = bytes_at m ?q (size1 b)" "bytes_at m' (p - size2 b) (size2 b) = bytes_at m (p - size2 b) (size2 b)"
    using q by (auto intro!: bytes_at_cong Cons.prems(5))
  ultimately show ?case using Cons.prems e by simp
qed simp

lemma stack_backward_frame:
  assumes "stack_at BACKWARD b m p es" "space_end b' = space_end b" "size1 b' = size1 b" "size2 b' = size2 b"
    and "\<And>x. p \<le> x \<Longrightarrow> x < space_end b \<Longrightarrow> m' x = m x"
  shows "stack_at BACKWARD b' m' p es"
  using assms
proof (induction es arbitrary: p)
  case (Cons e es)
  obtain x y where e: "e = (x, y)" by (cases e)
  let ?q = "p + (size1 b + size2 b)"
  have q: "?q \<le> space_end b" using Cons.prems e by auto
  have "stack_at BACKWARD b' m' ?q es" using Cons.prems e by (intro Cons.IH) auto
  moreover have "bytes_at m' p (size1 b) = bytes_at m p (size1 b)" "bytes_at m' (p + size1 b) (size2 b) = bytes_at m (p + size1 b) (size2 b)"
    using q by (auto intro!: bytes_at_cong Cons.prems(5))
  ultimately show ?case using Cons.prems e by simp
qed simp

definition outside :: "Lifo_buffer \<Rightarrow> nat \<Rightarrow> nat \<Rightarrow> bool" where
  "outside b p n \<longleftrightarrow> p + n \<le> space_start b \<or> space_end b \<le> p"

lemma forward_write_stack:
  assumes "holds_stack FORWARD b m es" "can_write FORWARD b"
    and "outside b (write_ptr1 b) (size1 b)" "outside b (write_ptr2 b) (size2 b)"
  shows "\<exists>b' m'. lifo_write FORWARD (b, m) = Some (b', m') \<and>
    holds_stack FORWARD b' m' ((bytes_at m (write_ptr1 b) (size1 b), bytes_at m (write_ptr2 b) (size2 b)) # es) \<and>
    agree_outside (space_start b) (space_end b - space_start b) m m'"
proof -
  let ?p = "lifo_pos b" and ?s1 = "size1 b" and ?s2 = "size2 b"
  define m1 where "m1 = memcpy m ?p (write_ptr1 b) ?s1"
  define m' where "m' = memcpy m1 (?p + ?s1) (write_ptr2 b) ?s2"
  define b' where "b' = b\<lparr>lifo_pos := ?p + ?s1 + ?s2\<rparr>"
  have fit: "?p + (?s1 + ?s2) < space_end b" using assms(2) by (simp add: can_write_def fw_have_space_for_def)
  have st: "space_start b \<le> ?p" "stack_at FORWARD b m ?p es" using assms(1) by (auto simp: holds_stack_def)
  have w: "lifo_write FORWARD (b, m) = Some (b', m')"
    using fit by (auto simp: fw_write_def fw_write_bytes_def fw_have_space_for_def b'_def m'_def m1_def)
  have x: "bytes_at m' ?p ?s1 = bytes_at m (write_ptr1 b) ?s1"
    by (simp add: m'_def m1_def bytes_at_memcpy_other bytes_at_memcpy)
  have "bytes_at m1 (write_ptr2 b) ?s2 = bytes_at m (write_ptr2 b) ?s2"
    unfolding m1_def using assms(4) st(1) fit by (intro bytes_at_memcpy_other) (auto simp: outside_def)
  then have y: "bytes_at m' (?p + ?s1) ?s2 = bytes_at m (write_ptr2 b) ?s2" by (simp add: m'_def bytes_at_memcpy)
  have "stack_at FORWARD b' m' ?p es"
    by (rule stack_forward_frame [OF st(2)]) (auto simp: b'_def m'_def m1_def memcpy_def)
  then have "holds_stack FORWARD b' m' ((bytes_at m (write_ptr1 b) ?s1, bytes_at m (write_ptr2 b) ?s2) # es)"
    using st fit x y by (simp add: holds_stack_def b'_def)
  moreover have "agree_outside (space_start b) (space_end b - space_start b) m m'"
    using fit st(1) by (auto simp: agree_outside_def m'_def m1_def memcpy_def)
  ultimately show ?thesis using w by blast
qed

lemma backward_write_stack:
  assumes "holds_stack BACKWARD b m es" "can_write BACKWARD b"
    and "outside b (write_ptr1 b) (size1 b)" "outside b (write_ptr2 b) (size2 b)" "size2 b \<noteq> 0 \<Longrightarrow> write_ptr2 b \<noteq> 0"
  shows "\<exists>b' m'. lifo_write BACKWARD (b, m) = Some (b', m') \<and>
    holds_stack BACKWARD b' m' ((bytes_at m (write_ptr1 b) (size1 b), bytes_at m (write_ptr2 b) (size2 b)) # es) \<and>
    agree_outside (space_start b) (space_end b - space_start b) m m'"
proof -
  let ?p = "lifo_pos b" and ?s1 = "size1 b" and ?s2 = "size2 b"
  define m1 where "m1 = memcpy m (?p - ?s2) (write_ptr2 b) ?s2"
  define m' where "m' = memcpy m1 (?p - ?s2 - ?s1) (write_ptr1 b) ?s1"
  define b' where "b' = b\<lparr>lifo_pos := ?p - ?s2 - ?s1\<rparr>"
  have fit: "space_start b + (?s1 + ?s2) \<le> ?p" using assms(2) by (simp add: can_write_def bw_have_space_for_def)
  have st: "?p \<le> space_end b" "stack_at BACKWARD b m ?p es" using assms(1) by (auto simp: holds_stack_def)
  have w: "lifo_write BACKWARD (b, m) = Some (b', m')"
    using fit assms(5) by (cases "size2 b = 0") (auto simp: bw_write_def bw_write_bytes_def bw_have_space_for_def b'_def m'_def m1_def Let_def)
  have "bytes_at m1 (write_ptr1 b) ?s1 = bytes_at m (write_ptr1 b) ?s1"
    unfolding m1_def using assms(3) st(1) fit by (intro bytes_at_memcpy_other) (auto simp: outside_def)
  then have x: "bytes_at m' (?p - ?s2 - ?s1) ?s1 = bytes_at m (write_ptr1 b) ?s1" by (simp add: m'_def bytes_at_memcpy)
  have "bytes_at m' (?p - ?s2) ?s2 = bytes_at m1 (?p - ?s2) ?s2"
    unfolding m'_def using fit by (intro bytes_at_memcpy_other) auto
  then have y: "bytes_at m' (?p - ?s2) ?s2 = bytes_at m (write_ptr2 b) ?s2" by (simp add: m1_def bytes_at_memcpy)
  have "stack_at BACKWARD b' m' ?p es"
    by (rule stack_backward_frame [OF st(2)]) (use fit in \<open>auto simp: b'_def m'_def m1_def memcpy_def\<close>)
  then have "holds_stack BACKWARD b' m' ((bytes_at m (write_ptr1 b) ?s1, bytes_at m (write_ptr2 b) ?s2) # es)"
    using st fit x y by (auto simp: holds_stack_def b'_def algebra_simps)
  moreover have "agree_outside (space_start b) (space_end b - space_start b) m m'"
    using fit st(1) by (auto simp: agree_outside_def m'_def m1_def memcpy_def)
  ultimately show ?thesis using w by blast
qed

text \<open>Reading goes back through the stack.\<close>

lemma read_at_stack:
  assumes "stack_at d b m p ((x, y) # es)"
  shows "\<exists>q ptr1 ptr2. lifo_read_at d b p = Some (q, ptr1, ptr2) \<and> stack_at d b m q es \<and>
    bytes_at m ptr1 (size1 b) = x \<and> (case ptr2 of None \<Rightarrow> y = [] \<and> size2 b = 0 | Some r \<Rightarrow> bytes_at m r (size2 b) = y)"
proof (cases d)
  case FORWARD
  then show ?thesis using assms
    by (cases "size2 b = 0") (auto simp: fw_read_at_def fw_have_data_def Let_def algebra_simps)
next
  case BACKWARD
  then show ?thesis using assms
    by (cases "size2 b = 0") (auto simp: bw_read_at_def bw_have_data_def Let_def algebra_simps)
qed

lemma read_at_end:
  assumes "stack_at d b m p []" "size1 b + size2 b \<noteq> 0"
  shows "lifo_read_at d b p = None"
  using assms by (cases d) (auto simp: fw_read_at_def bw_read_at_def fw_have_data_def bw_have_data_def)

lemma stack_at_same:
  "stack_at d b m p es \<Longrightarrow> space_start b' = space_start b \<Longrightarrow> space_end b' = space_end b \<Longrightarrow> size1 b' = size1 b \<Longrightarrow>
   size2 b' = size2 b \<Longrightarrow> stack_at d b' m p es"
  by (cases d) (auto intro: stack_forward_frame stack_backward_frame)

lemma read_holds_stack:
  assumes "holds_stack d b m ((x, y) # es)"
  shows "\<exists>b'. lifo_read d b = (False, b') \<and> holds_stack d b' m es \<and> bytes_at m (read_ptr1 b') (size1 b) = x \<and>
    (size2 b \<noteq> 0 \<longrightarrow> bytes_at m (read_ptr2 b') (size2 b) = y)"
proof -
  obtain q ptr1 ptr2 where q: "lifo_read_at d b (lifo_pos b) = Some (q, ptr1, ptr2)" "stack_at d b m q es"
    "bytes_at m ptr1 (size1 b) = x" "case ptr2 of None \<Rightarrow> y = [] \<and> size2 b = 0 | Some r \<Rightarrow> bytes_at m r (size2 b) = y"
    using read_at_stack [of d b m "lifo_pos b" x y es] assms by (auto simp: holds_stack_def)
  have "space_start b \<le> q" "q \<le> space_end b"
    using q(1) assms stack_at_bounds [of b m q es] q(2)
    by (cases d; auto simp: fw_read_at_def bw_read_at_def Let_def holds_stack_def split: if_splits)+
  then show ?thesis
    using q stack_at_same [OF q(2)] by (auto simp: lifo_read_def holds_stack_def split: option.splits)
qed

lemma read_empty_stack:
  assumes "holds_stack d b m []" "size1 b + size2 b \<noteq> 0"
  shows "lifo_read d b = (True, b)"
  using read_at_end [of d b m "lifo_pos b"] assms by (simp add: lifo_read_def holds_stack_def)

lemma used_size_stack:
  "stack_at d b m p es \<Longrightarrow>
   (case d of FORWARD \<Rightarrow> int p - int (space_start b) | BACKWARD \<Rightarrow> int (space_end b) - int p) =
   int (length es) * (int (size1 b) + int (size2 b))"
  by (induction d b m p es rule: stack_at.induct) (auto simp: algebra_simps of_nat_diff split: enum_direction.splits)

lemma reset_stack:
  assumes "s \<le> e"
  shows "holds_stack d (set_buffer_space d s e b) m []"
  using assms by (cases d) (auto simp: holds_stack_def set_buffer_space_def fw_reset_def bw_reset_def)

text \<open>A backward buffer passes its unused space to the forward buffer in front of it.\<close>

lemma pass_space:
  assumes "holds_stack FORWARD f m es" "holds_stack BACKWARD b m fs" "space_end f = space_start b"
    and "bw_remove_unused_space b = (us, ue, b')"
  shows "\<exists>f'. fw_grow us ue f = Some f' \<and> holds_stack FORWARD f' m es \<and> holds_stack BACKWARD b' m fs \<and>
    space_end f' = space_start b' \<and> space_end f' = lifo_pos b \<and> size1 f' = size1 f \<and> size2 f' = size2 f"
proof -
  have b: "us = space_start b" "ue = lifo_pos b" "b' = b\<lparr>space_start := lifo_pos b\<rparr>"
    using assms(4) by (auto simp: bw_remove_unused_space_def)
  have le: "space_start b \<le> lifo_pos b" "lifo_pos b \<le> space_end b" "stack_at BACKWARD b m (lifo_pos b) fs"
    "space_start f \<le> lifo_pos f" "lifo_pos f \<le> space_start b" "stack_at FORWARD f m (lifo_pos f) es"
    using assms(1,2,3) by (auto simp: holds_stack_def)
  have "stack_at BACKWARD b' m (lifo_pos b) fs" by (rule stack_backward_frame [OF le(3)]) (auto simp: b)
  moreover have "stack_at FORWARD (f\<lparr>space_end := ue\<rparr>) m (lifo_pos f) es" by (rule stack_forward_frame [OF le(6)]) auto
  ultimately show ?thesis using le assms(3) by (auto simp: fw_grow_def b holds_stack_def)
qed

section \<open>Properties\<close>

text \<open>
  C29. In both directions the buffer is a stack: a write that the buffer announces to be possible
  succeeds, stores the bytes of both parts on top of the elements before and changes no byte outside
  the space of the buffer; the next read returns exactly these bytes and uncovers the elements
  before; reading an empty buffer reports the end and changes nothing; and the used size is the
  number of elements times their size.
\<close>

theorem lifo_buffer_is_a_stack:
  assumes s: "holds_stack d b m es" and room: "can_write d b"
    and src: "outside b (write_ptr1 b) (size1 b)" "outside b (write_ptr2 b) (size2 b)" "size2 b \<noteq> 0 \<longrightarrow> write_ptr2 b \<noteq> 0"
  shows "\<exists>b' m'. lifo_write d (b, m) = Some (b', m') \<and>
    holds_stack d b' m' ((bytes_at m (write_ptr1 b) (size1 b), bytes_at m (write_ptr2 b) (size2 b)) # es) \<and>
    agree_outside (space_start b) (space_end b - space_start b) m m' \<and>
    lifo_used_size d b' = int (length es + 1) * (int (size1 b') + int (size2 b')) \<and>
    (\<exists>b''. lifo_read d b' = (False, b'') \<and> holds_stack d b'' m' es \<and>
       bytes_at m' (read_ptr1 b'') (size1 b') = bytes_at m (write_ptr1 b) (size1 b) \<and>
       (size2 b' \<noteq> 0 \<longrightarrow> bytes_at m' (read_ptr2 b'') (size2 b') = bytes_at m (write_ptr2 b) (size2 b))) \<and>
    (es = [] \<and> size1 b + size2 b \<noteq> 0 \<longrightarrow> lifo_read d b = (True, b))"
proof -
  obtain b' m' where w: "lifo_write d (b, m) = Some (b', m')"
    "holds_stack d b' m' ((bytes_at m (write_ptr1 b) (size1 b), bytes_at m (write_ptr2 b) (size2 b)) # es)"
    "agree_outside (space_start b) (space_end b - space_start b) m m'"
    using forward_write_stack [of b m es] backward_write_stack [of b m es] s room src by (cases d) auto
  have used: "lifo_used_size d b' = int (length es + 1) * (int (size1 b') + int (size2 b'))"
    using used_size_stack [OF conjunct2 [OF conjunct2 [OF w(2) [unfolded holds_stack_def]]]]
    by (cases d) (simp_all add: fw_used_size_def bw_used_size_def)
  have empty: "es = [] \<and> size1 b + size2 b \<noteq> 0 \<longrightarrow> lifo_read d b = (True, b)"
    using read_empty_stack [of d b m] s by blast
  show ?thesis
    by (rule exI [of _ b'], rule exI [of _ m'], intro conjI w used empty read_holds_stack [OF w(2)])
qed

definition ex_lifo :: "enum_direction \<Rightarrow> Lifo_buffer" where
  "ex_lifo d = set_buffer_space d 100 120
     \<lparr>size1 = 4, size2 = 2, write_ptr1 = 10, write_ptr2 = 20, read_ptr1 = 0, read_ptr2 = 0,
      space_start = 0, space_end = 0, lifo_pos = 0\<rparr>"

theorem lifo_buffer_is_a_stack_witness:
  "\<exists>b' m'. lifo_write BACKWARD (ex_lifo BACKWARD, \<lambda>x. of_nat x) = Some (b', m') \<and>
     holds_stack BACKWARD b' m' [([10, 11, 12, 13], [20, 21])]"
proof -
  have "bytes_at (\<lambda>x. of_nat x) 10 4 = [10, 11, 12, 13]" "bytes_at (\<lambda>x. of_nat x) 20 2 = [20, 21]"
    by (simp_all add: bytes_at_def upt_rec)
  moreover have "holds_stack BACKWARD (ex_lifo BACKWARD) (\<lambda>x. of_nat x) []" unfolding ex_lifo_def by (rule reset_stack) simp
  ultimately show ?thesis
    using lifo_buffer_is_a_stack [of BACKWARD "ex_lifo BACKWARD" "\<lambda>x. of_nat x" "[]"]
    by (auto simp: can_write_def bw_have_space_for_def outside_def ex_lifo_def set_buffer_space_def bw_reset_def)
qed

end
