(* ===== verification/Sql_Structs.thy ===== *)
theory Sql_Structs
  imports Node_Chains
begin

text \<open>
  Structures of \<open>structs.h\<close>: the intervals of AUTO_INCREMENT values a statement has reserved and
  their list, the options of DDL statements, the counters and bounds the parser keeps for blocks
  and loops, and resource limits.
\<close>

section \<open>Intervals of automatic values\<close>

text \<open>Nodes of the list are numbers, 0 is null.\<close>

record Discrete_interval =
  interval_min :: ulonglong
  interval_values :: ulonglong
  interval_max :: ulonglong
  di_next :: nat

definition ULONGLONG_MAX :: ulonglong where "ULONGLONG_MAX = NOT 0"

definition di_replace :: "ulonglong \<Rightarrow> ulonglong \<Rightarrow> ulonglong \<Rightarrow> Discrete_interval \<Rightarrow> Discrete_interval" where
  "di_replace start val incr i =
     i\<lparr>interval_min := start, interval_values := val,
       interval_max := (if val = ULONGLONG_MAX then val else start + val * incr)\<rparr>"

definition Discrete_interval_of :: "ulonglong \<Rightarrow> ulonglong \<Rightarrow> ulonglong \<Rightarrow> Discrete_interval" where
  "Discrete_interval_of start val incr =
     di_replace start val incr \<lparr>interval_min = 0, interval_values = 0, interval_max = 0, di_next = 0\<rparr>"

definition Discrete_interval_init :: Discrete_interval where
  "Discrete_interval_init = Discrete_interval_of 0 0 0"

text \<open>The result 0 (merged) is \<open>False\<close>.\<close>

definition merge_if_contiguous :: "ulonglong \<Rightarrow> ulonglong \<Rightarrow> ulonglong \<Rightarrow> Discrete_interval \<Rightarrow> bool \<times> Discrete_interval" where
  "merge_if_contiguous start val incr i =
     (if interval_max i = start
      then if val = ULONGLONG_MAX
           then (False, i\<lparr>interval_max := val, interval_values := val\<rparr>)
           else (False, i\<lparr>interval_values := interval_values i + val, interval_max := start + val * incr\<rparr>)
      else (True, i))"

record Discrete_intervals_list =
  dil_head :: nat
  dil_tail :: nat
  dil_current :: nat
  dil_elements :: uint

definition set_members :: "nat \<Rightarrow> nat \<Rightarrow> nat \<Rightarrow> uint \<Rightarrow> Discrete_intervals_list \<Rightarrow> Discrete_intervals_list" where
  "set_members h t c el l = l\<lparr>dil_head := h, dil_tail := t, dil_current := c, dil_elements := el\<rparr>"

definition empty_no_free :: "Discrete_intervals_list \<Rightarrow> Discrete_intervals_list" where
  "empty_no_free = set_members 0 0 0 0"

text \<open>The nodes that \<open>empty\<close> deletes, in order.\<close>

partial_function (option) delete_from :: "(nat \<Rightarrow> Discrete_interval) \<Rightarrow> nat \<Rightarrow> nat list option" where
  "delete_from h i = (if i \<noteq> 0 then Option.bind (delete_from h (di_next (h i))) (\<lambda>ds. Some (i # ds)) else Some [])"

definition dil_empty :: "(nat \<Rightarrow> Discrete_interval) \<Rightarrow> Discrete_intervals_list \<Rightarrow> (nat list \<times> Discrete_intervals_list) option" where
  "dil_empty h l = Option.bind (delete_from h (dil_head l)) (\<lambda>ds. Some (ds, empty_no_free l))"

definition copy_shallow :: "Discrete_intervals_list \<Rightarrow> Discrete_intervals_list \<Rightarrow> Discrete_intervals_list" where
  "copy_shallow dli l =
     l\<lparr>dil_head := dil_head dli, dil_tail := dil_tail dli, dil_current := dil_current dli, dil_elements := dil_elements dli\<rparr>"

definition dil_swap :: "Discrete_intervals_list \<Rightarrow> Discrete_intervals_list \<Rightarrow> Discrete_intervals_list \<times> Discrete_intervals_list" where
  "dil_swap l dli =
     (let h = dil_head dli; t = dil_tail dli; c = dil_current dli; el = dil_elements dli;
          dli = copy_shallow l dli
      in (set_members h t c el l, dli))"

definition dil_get_next :: "(nat \<Rightarrow> Discrete_interval) \<Rightarrow> Discrete_intervals_list \<Rightarrow> nat \<times> Discrete_intervals_list" where
  "dil_get_next h l =
     (let tmp = dil_current l
      in (tmp, if dil_current l \<noteq> 0 then l\<lparr>dil_current := di_next (h (dil_current l))\<rparr> else l))"

definition dil_minimum :: "(nat \<Rightarrow> Discrete_interval) \<Rightarrow> Discrete_intervals_list \<Rightarrow> ulonglong" where
  "dil_minimum h l = (if dil_head l \<noteq> 0 then interval_min (h (dil_head l)) else 0)"

definition dil_maximum :: "(nat \<Rightarrow> Discrete_interval) \<Rightarrow> Discrete_intervals_list \<Rightarrow> ulonglong" where
  "dil_maximum h l = (if dil_head l \<noteq> 0 then interval_max (h (dil_tail l)) else 0)"

section \<open>DDL options\<close>

type_synonym Options = uint

definition OPT_NONE :: Options where "OPT_NONE = 0"
definition OPT_IF_NOT_EXISTS :: Options where "OPT_IF_NOT_EXISTS = 2"
definition OPT_LIKE :: Options where "OPT_LIKE = 4"
definition OPT_OR_REPLACE :: Options where "OPT_OR_REPLACE = 16"
definition OPT_OR_REPLACE_SLAVE_GENERATED :: Options where "OPT_OR_REPLACE_SLAVE_GENERATED = 32"
definition OPT_IF_EXISTS :: Options where "OPT_IF_EXISTS = 64"
definition OPT_CREATE_SELECT :: Options where "OPT_CREATE_SELECT = 128"

record DDL_options_st =
  m_options :: Options

definition create_like_options :: "DDL_options_st \<Rightarrow> Options" where
  "create_like_options d = m_options d AND (OPT_IF_NOT_EXISTS OR OPT_OR_REPLACE)"

definition ddl_init :: "DDL_options_st \<Rightarrow> DDL_options_st" where
  "ddl_init d = d\<lparr>m_options := OPT_NONE\<rparr>"

definition ddl_init_to :: "Options \<Rightarrow> DDL_options_st \<Rightarrow> DDL_options_st" where
  "ddl_init_to options d = d\<lparr>m_options := options\<rparr>"

definition ddl_set :: "Options \<Rightarrow> DDL_options_st \<Rightarrow> DDL_options_st" where
  "ddl_set other d = d\<lparr>m_options := other\<rparr>"

definition ddl_set_to :: "DDL_options_st \<Rightarrow> DDL_options_st \<Rightarrow> DDL_options_st" where
  "ddl_set_to other d = d\<lparr>m_options := m_options other\<rparr>"

definition if_not_exists :: "DDL_options_st \<Rightarrow> bool" where
  "if_not_exists d \<longleftrightarrow> m_options d AND OPT_IF_NOT_EXISTS \<noteq> 0"

definition or_replace :: "DDL_options_st \<Rightarrow> bool" where
  "or_replace d \<longleftrightarrow> m_options d AND OPT_OR_REPLACE \<noteq> 0"

definition or_replace_slave_generated :: "DDL_options_st \<Rightarrow> bool" where
  "or_replace_slave_generated d \<longleftrightarrow> m_options d AND OPT_OR_REPLACE_SLAVE_GENERATED \<noteq> 0"

definition ddl_like :: "DDL_options_st \<Rightarrow> bool" where
  "ddl_like d \<longleftrightarrow> m_options d AND OPT_LIKE \<noteq> 0"

definition if_exists :: "DDL_options_st \<Rightarrow> bool" where
  "if_exists d \<longleftrightarrow> m_options d AND OPT_IF_EXISTS \<noteq> 0"

definition is_create_select :: "DDL_options_st \<Rightarrow> bool" where
  "is_create_select d \<longleftrightarrow> m_options d AND OPT_CREATE_SELECT \<noteq> 0"

definition ddl_add :: "Options \<Rightarrow> DDL_options_st \<Rightarrow> DDL_options_st" where
  "ddl_add other d = d\<lparr>m_options := m_options d OR other\<rparr>"

definition ddl_add_all :: "DDL_options_st \<Rightarrow> DDL_options_st \<Rightarrow> DDL_options_st" where
  "ddl_add_all other d = ddl_add (m_options other) d"

text \<open>The binary operator changes its left operand and returns a copy of it.\<close>

definition ddl_or :: "DDL_options_st \<Rightarrow> DDL_options_st \<Rightarrow> DDL_options_st \<times> DDL_options_st" where
  "ddl_or other d = (let d = ddl_add (m_options other) d in (d, d))"

definition ddl_or_assign :: "Options \<Rightarrow> DDL_options_st \<Rightarrow> DDL_options_st \<times> DDL_options_st" where
  "ddl_or_assign other d = (let d = ddl_add other d in (d, d))"

section \<open>Blocks and loops of stored programs\<close>

text \<open>An int of the parser is a word of 32 bits.\<close>

record Lex_spblock_st =
  hndlrs :: "32 word"
  vars :: "32 word"
  conds :: "32 word"
  curs :: "32 word"

definition spblock_init :: "Lex_spblock_st \<Rightarrow> Lex_spblock_st" where
  "spblock_init b = b\<lparr>vars := 0, conds := 0, hndlrs := 0, curs := 0\<rparr>"

definition init_using_vars :: "uint \<Rightarrow> Lex_spblock_st \<Rightarrow> Lex_spblock_st" where
  "init_using_vars nvars b = b\<lparr>vars := nvars, conds := 0, hndlrs := 0, curs := 0\<rparr>"

definition spblock_join :: "Lex_spblock_st \<Rightarrow> Lex_spblock_st \<Rightarrow> Lex_spblock_st \<Rightarrow> Lex_spblock_st" where
  "spblock_join b1 b2 b =
     b\<lparr>vars := vars b1 + vars b2, conds := conds b1 + conds b2, hndlrs := hndlrs b1 + hndlrs b2, curs := curs b1 + curs b2\<rparr>"

definition Lex_spblock_of :: "32 word \<Rightarrow> Lex_spblock_st" where
  "Lex_spblock_of handlers = \<lparr>hndlrs = handlers, vars = 0, conds = 0, curs = 0\<rparr>"

record 'e Lex_for_loop_bounds_st =
  m_index :: "'e option"
  m_target_bound :: "'e option"
  m_direction :: "8 word"
  m_implicit_cursor :: bool

definition is_for_loop_cursor :: "'e Lex_for_loop_bounds_st \<Rightarrow> bool" where
  "is_for_loop_cursor b \<longleftrightarrow> m_target_bound b = None"

definition Lex_for_loop_bounds_intrange :: "8 word \<Rightarrow> 'e option \<Rightarrow> 'e option \<Rightarrow> 'e Lex_for_loop_bounds_st" where
  "Lex_for_loop_bounds_intrange direction left_expr right_expr =
     \<lparr>m_index = (if 0 < sint direction then left_expr else right_expr),
      m_target_bound = (if 0 < sint direction then right_expr else left_expr),
      m_direction = direction, m_implicit_cursor = False\<rparr>"

record 'v Lex_for_loop_st =
  fl_index :: "'v option"
  fl_target_bound :: "'v option"
  fl_cursor_offset :: "32 word"
  fl_direction :: "8 word"
  fl_implicit_cursor :: bool

definition for_loop_init :: "'v Lex_for_loop_st \<Rightarrow> 'v Lex_for_loop_st" where
  "for_loop_init l = l\<lparr>fl_index := None, fl_target_bound := None, fl_direction := 0, fl_implicit_cursor := False\<rparr>"

definition for_loop_is_cursor :: "'v Lex_for_loop_st \<Rightarrow> bool" where
  "for_loop_is_cursor l \<longleftrightarrow> fl_target_bound l = None"

definition is_for_loop_explicit_cursor :: "'v Lex_for_loop_st \<Rightarrow> bool" where
  "is_for_loop_explicit_cursor l \<longleftrightarrow> for_loop_is_cursor l \<and> \<not> fl_implicit_cursor l"

datatype trim_spec = TRIM_LEADING | TRIM_TRAILING | TRIM_BOTH

record 'i Lex_trim_st =
  m_remove :: "'i option"
  m_source :: "'i option"
  m_spec :: trim_spec

definition trim_set :: "trim_spec \<Rightarrow> 'i option \<Rightarrow> 'i option \<Rightarrow> 'i Lex_trim_st \<Rightarrow> 'i Lex_trim_st" where
  "trim_set spec remove source t = t\<lparr>m_spec := spec, m_remove := remove, m_source := source\<rparr>"

definition trim_set_source :: "trim_spec \<Rightarrow> 'i option \<Rightarrow> 'i Lex_trim_st \<Rightarrow> 'i Lex_trim_st" where
  "trim_set_source spec source t = trim_set spec None source t"

record 'i Lex_substring_spec_st =
  m_subject :: "'i option"
  m_from :: "'i option"
  m_for :: "'i option"

definition substring_spec_init :: "'i option \<Rightarrow> 'i option \<Rightarrow> 'i option \<Rightarrow> 'i Lex_substring_spec_st" where
  "substring_spec_init subject from_item xfor = \<lparr>m_subject = subject, m_from = from_item, m_for = xfor\<rparr>"

record Lex_select_lock =
  defined_lock :: bool
  update_lock :: bool
  defined_timeout :: bool
  skip_locked :: bool
  timeout :: "32 word"

definition select_lock_empty :: "Lex_select_lock \<Rightarrow> Lex_select_lock" where
  "select_lock_empty l =
     l\<lparr>defined_lock := False, update_lock := False, defined_timeout := False, skip_locked := False, timeout := 0\<rparr>"

record 'i Lex_select_limit =
  explicit_limit :: bool
  limit_with_ties :: bool
  select_limit :: "'i option"
  offset_limit :: "'i option"

definition select_limit_clear :: "'i Lex_select_limit \<Rightarrow> 'i Lex_select_limit" where
  "select_limit_clear l = l\<lparr>explicit_limit := False, limit_with_ties := False, select_limit := None, offset_limit := None\<rparr>"

section \<open>The values of an interval\<close>

definition di_values :: "ulonglong \<Rightarrow> Discrete_interval \<Rightarrow> int set" where
  "di_values incr i = (\<lambda>k. uint (interval_min i) + k * uint incr) ` {0..<uint (interval_values i)}"

text \<open>An interval whose excluded bound is where the values go on.\<close>

definition di_ok :: "ulonglong \<Rightarrow> Discrete_interval \<Rightarrow> bool" where
  "di_ok incr i \<longleftrightarrow> uint (interval_max i) = uint (interval_min i) + uint (interval_values i) * uint incr"

lemma uint_ulonglong: "0 \<le> uint x" "uint x < 2 ^ 64" for x :: ulonglong
  using uint_lt2p [of x] by simp_all

lemma uint_max_of:
  fixes start val incr :: ulonglong
  assumes "uint start + uint val * uint incr < 2 ^ 64"
  shows "uint (start + val * incr) = uint start + uint val * uint incr"
proof -
  have "uint val * uint incr < 2 ^ 64" using assms uint_ulonglong(1) [of start] by linarith
  then have m: "uint (val * incr) = uint val * uint incr"
    by (simp add: uint_word_ariths take_bit_int_eq_self)
  show ?thesis using assms by (simp add: uint_plus_if' m)
qed

lemma di_ok_of:
  assumes "val \<noteq> ULONGLONG_MAX" "uint start + uint val * uint incr < 2 ^ 64"
  shows "di_ok incr (Discrete_interval_of start val incr)"
  using assms by (simp add: di_ok_def Discrete_interval_of_def di_replace_def uint_max_of)

lemma arith_progression_append:
  fixes a d v w :: int
  assumes "0 \<le> v" "0 \<le> w"
  shows "(\<lambda>k. a + k * d) ` {0..<v + w} = (\<lambda>k. a + k * d) ` {0..<v} \<union> (\<lambda>k. (a + v * d) + k * d) ` {0..<w}"
proof -
  have "{0..<v + w} = {0..<v} \<union> (\<lambda>k. v + k) ` {0..<w}" using assms by (auto simp: image_iff intro: bexI [of _ "_ - v"])
  then have "(\<lambda>k. a + k * d) ` {0..<v + w} = (\<lambda>k. a + k * d) ` {0..<v} \<union> (\<lambda>k. a + (v + k) * d) ` {0..<w}"
    by (simp only: image_Un image_image)
  also have "(\<lambda>k. a + (v + k) * d) = (\<lambda>k. (a + v * d) + k * d)" by (simp add: algebra_simps)
  finally show ?thesis .
qed

section \<open>The list of intervals\<close>

fun di_chain :: "(nat \<Rightarrow> Discrete_interval) \<Rightarrow> nat \<Rightarrow> nat list \<Rightarrow> bool" where
  "di_chain h a [] \<longleftrightarrow> a = 0"
| "di_chain h a (n # ns) \<longleftrightarrow> a = n \<and> n \<noteq> 0 \<and> di_chain h (di_next (h n)) ns"

interpretation intervals: node_chain "\<lambda>h n. di_next (h n)" 0 di_chain
  by unfold_locales simp_all

text \<open>Writing the bounds of intervals, as merging does, leaves a list of intervals as it is.\<close>

lemma di_chain_merge:
  assumes "di_chain h a ns"
  shows "di_chain (h(k := snd (merge_if_contiguous start val incr (h k)))) a ns"
  by (rule intervals.transfer [OF assms]) (simp add: merge_if_contiguous_def)

lemma delete_from_chain: "di_chain h a ns \<Longrightarrow> delete_from h a = Some ns"
proof (induction ns arbitrary: a)
  case Nil
  then show ?case by (subst delete_from.simps) simp
next
  case (Cons n ns)
  then show ?case by (subst delete_from.simps) simp
qed

lemma get_next_chain:
  assumes "di_chain h (dil_current l) ns"
  shows "fst (dil_get_next h l) = (case ns of [] \<Rightarrow> 0 | n # _ \<Rightarrow> n) \<and> di_chain h (dil_current (snd (dil_get_next h l))) (tl ns)"
  using assms by (cases ns) (auto simp: dil_get_next_def)

lemma swap_swaps: "dil_swap l d = (copy_shallow d l, copy_shallow l d)"
  by (simp add: dil_swap_def Let_def set_members_def copy_shallow_def)

section \<open>Option flags\<close>

lemmas ddl_flag_defs = if_not_exists_def or_replace_def or_replace_slave_generated_def ddl_like_def if_exists_def
  is_create_select_def

lemmas ddl_option_defs = OPT_NONE_def OPT_IF_NOT_EXISTS_def OPT_LIKE_def OPT_OR_REPLACE_def OPT_OR_REPLACE_SLAVE_GENERATED_def
  OPT_IF_EXISTS_def OPT_CREATE_SELECT_def

lemma and_or_nonzero: "(x OR y) AND z \<noteq> 0 \<longleftrightarrow> x AND z \<noteq> 0 \<or> y AND z \<noteq> 0" for x y z :: uint
  by (simp add: bit.conj_disj_distrib2 or_eq_0_iff)

lemma ddl_add_flags:
  "if_not_exists (ddl_add opt d) \<longleftrightarrow> if_not_exists d \<or> opt AND OPT_IF_NOT_EXISTS \<noteq> 0"
  "or_replace (ddl_add opt d) \<longleftrightarrow> or_replace d \<or> opt AND OPT_OR_REPLACE \<noteq> 0"
  "if_exists (ddl_add opt d) \<longleftrightarrow> if_exists d \<or> opt AND OPT_IF_EXISTS \<noteq> 0"
  "ddl_like (ddl_add opt d) \<longleftrightarrow> ddl_like d \<or> opt AND OPT_LIKE \<noteq> 0"
  "is_create_select (ddl_add opt d) \<longleftrightarrow> is_create_select d \<or> opt AND OPT_CREATE_SELECT \<noteq> 0"
  by (simp_all add: ddl_flag_defs ddl_add_def and_or_nonzero)

section \<open>Property\<close>

text \<open>
  Automatic values that continue an interval are merged into it: the merged interval has
  exactly the values of both and its bound is again where the values go on. Values that do not
  continue it leave the interval as it is and are reported.
\<close>

theorem merge_if_contiguous_union:
  assumes "di_ok incr i" "incr \<noteq> 0" "val \<noteq> ULONGLONG_MAX" "uint start + uint val * uint incr < 2 ^ 64"
    and "merge_if_contiguous start val incr i = (r, j)"
  shows "(r \<longleftrightarrow> interval_max i \<noteq> start) \<and> (r \<longrightarrow> j = i) \<and>
    (\<not> r \<longrightarrow> di_ok incr j \<and> di_values incr j = di_values incr i \<union> di_values incr (Discrete_interval_of start val incr))"
proof (cases "interval_max i = start")
  case False
  then show ?thesis using assms(5) by (auto simp: merge_if_contiguous_def)
next
  case True
  then have j: "j = i\<lparr>interval_values := interval_values i + val, interval_max := start + val * incr\<rparr>" and r: "\<not> r"
    using assms(3,5) by (auto simp: merge_if_contiguous_def)
  have st: "uint start = uint (interval_min i) + uint (interval_values i) * uint incr" using assms(1) True by (simp add: di_ok_def)
  have incr: "1 \<le> uint incr" using assms(2) uint_ulonglong(1) [of incr] by (metis int_one_le_iff_zero_less order_le_less uint_0_iff)
  have sum: "uint (interval_min i) + (uint (interval_values i) + uint val) * uint incr < 2 ^ 64"
    using assms(4) st by (simp add: algebra_simps)
  have "uint (interval_values i) + uint val \<le> (uint (interval_values i) + uint val) * uint incr"
    using mult_left_mono [OF incr, of "uint (interval_values i) + uint val"] by simp
  then have "uint (interval_values i) + uint val < 2 ^ 64"
    using sum uint_ulonglong(1) [of "interval_min i"] by linarith
  then have vs: "uint (interval_values i + val) = uint (interval_values i) + uint val" by (simp add: uint_plus_if')
  have "di_ok incr j" using assms(4) st by (simp add: di_ok_def j vs uint_max_of distrib_right)
  moreover have "di_values incr j = di_values incr i \<union> di_values incr (Discrete_interval_of start val incr)"
    using arith_progression_append [of "uint (interval_values i)" "uint val" "uint (interval_min i)" "uint incr"]
    by (simp add: di_values_def j vs Discrete_interval_of_def di_replace_def st uint_ulonglong)
  ultimately show ?thesis using r True by simp
qed

theorem merge_if_contiguous_union_witness:
  "di_values 1 (snd (merge_if_contiguous 3 3 1 (Discrete_interval_of 1 2 1))) =
     di_values 1 (Discrete_interval_of 1 2 1) \<union> di_values 1 (Discrete_interval_of 3 3 1)"
proof -
  have ok: "di_ok 1 (Discrete_interval_of 1 2 1)" by (rule di_ok_of) (simp_all add: ULONGLONG_MAX_def)
  have "\<not> fst (merge_if_contiguous 3 3 1 (Discrete_interval_of 1 2 1))"
    by (simp add: merge_if_contiguous_def Discrete_interval_of_def di_replace_def ULONGLONG_MAX_def)
  then show ?thesis
    using merge_if_contiguous_union [OF ok _ _ _ prod.collapse [symmetric], of 3 3] by (simp add: ULONGLONG_MAX_def)
qed

end
