(* ===== verification/Sel_Arg.thy ===== *)
theory Sel_Arg
  imports Byte_Memory
begin

text \<open>
  The ranges of the optimizer: \<open>SEL_ARG\<close> of \<open>opt_range.h\<close>, an interval of values of one key part, and
  \<open>QUICK_RANGE\<close>, the interval of keys that is read in the end. An end point is a pointer to a value
  and flags that say whether the value itself belongs to the range and whether there is a bound at
  all. The comparison of end points is declared only; its contract says that it compares positions
  in the order of the values.
\<close>

section \<open>Flags\<close>

definition NO_MIN_RANGE :: "'a::len word" where "NO_MIN_RANGE = 1"
definition NO_MAX_RANGE :: "'a::len word" where "NO_MAX_RANGE = 2"
definition NEAR_MIN :: "'a::len word" where "NEAR_MIN = 4"
definition NEAR_MAX :: "'a::len word" where "NEAR_MAX = 8"
definition EQ_RANGE :: "'a::len word" where "EQ_RANGE = 32"
definition GEOM_FLAG :: "'a::len word" where "GEOM_FLAG = 128"

lemmas range_flags = NO_MIN_RANGE_def NO_MAX_RANGE_def NEAR_MIN_def NEAR_MAX_def EQ_RANGE_def GEOM_FLAG_def

section \<open>SEL_ARG\<close>

datatype leaf_color = BLACK | RED
datatype sel_type = IMPOSSIBLE | MAYBE | MAYBE_KEY | KEY_RANGE

text \<open>Pointers are addresses with 0 for null; \<open>field\<close> is the address of the column, \<open>min_value\<close> and
  \<open>max_value\<close> point into the byte memory, the links into a heap of \<open>SEL_ARG\<close>s.\<close>

record SEL_ARG =
  min_flag :: uchar
  max_flag :: uchar
  maybe_flag :: uchar
  part :: uchar
  maybe_null :: uchar
  max_part_no :: uint16
  elements :: uint32
  use_count :: uint32
  field :: nat
  min_value :: nat
  max_value :: nat
  left_child :: nat
  right_child :: nat
  next_arg :: nat
  prev_arg :: nat
  parent_arg :: nat
  next_key_part :: nat
  color :: leaf_color
  sel_type :: sel_type
  weight :: uint

text \<open>\<open>sel_cmp\<close>, \<open>Field::key_cmp\<close> and the constructor, which may fail to allocate, are declared only.\<close>

record sel_functions =
  sel_cmp :: "nat \<Rightarrow> nat \<Rightarrow> nat \<Rightarrow> uchar \<Rightarrow> uchar \<Rightarrow> int"
  key_cmp :: "nat \<Rightarrow> nat \<Rightarrow> nat \<Rightarrow> int"
  new_sel_arg :: "nat \<Rightarrow> uchar \<Rightarrow> nat \<Rightarrow> nat \<Rightarrow> uchar \<Rightarrow> uchar \<Rightarrow> uchar \<Rightarrow> SEL_ARG option"

text \<open>The constructor from a type leaves the members it does not mention as they are in memory.\<close>

definition sel_arg_of_type :: "sel_type \<Rightarrow> SEL_ARG \<Rightarrow> SEL_ARG" where
  "sel_arg_of_type type_arg a = a
     \<lparr>min_flag := 0, max_part_no := 0, elements := 1, use_count := 1, left_child := 0, right_child := 0,
      next_key_part := 0, color := BLACK, sel_type := type_arg, weight := 1\<rparr>"

definition cmp_min_to_min :: "sel_functions \<Rightarrow> SEL_ARG \<Rightarrow> SEL_ARG \<Rightarrow> int" where
  "cmp_min_to_min F a arg = sel_cmp F (field a) (min_value a) (min_value arg) (min_flag a) (min_flag arg)"

definition cmp_min_to_max :: "sel_functions \<Rightarrow> SEL_ARG \<Rightarrow> SEL_ARG \<Rightarrow> int" where
  "cmp_min_to_max F a arg = sel_cmp F (field a) (min_value a) (max_value arg) (min_flag a) (max_flag arg)"

definition cmp_max_to_max :: "sel_functions \<Rightarrow> SEL_ARG \<Rightarrow> SEL_ARG \<Rightarrow> int" where
  "cmp_max_to_max F a arg = sel_cmp F (field a) (max_value a) (max_value arg) (max_flag a) (max_flag arg)"

definition cmp_max_to_min :: "sel_functions \<Rightarrow> SEL_ARG \<Rightarrow> SEL_ARG \<Rightarrow> int" where
  "cmp_max_to_min F a arg = sel_cmp F (field a) (max_value a) (min_value arg) (max_flag a) (min_flag arg)"

definition is_same :: "sel_functions \<Rightarrow> SEL_ARG \<Rightarrow> SEL_ARG \<Rightarrow> bool" where
  "is_same F a arg =
     (if sel_type a \<noteq> sel_type arg \<or> part a \<noteq> part arg then False
      else if sel_type a \<noteq> KEY_RANGE then True
      else cmp_min_to_min F a arg = 0 \<and> cmp_max_to_max F a arg = 0)"

text \<open>The loop of \<open>all_same\<close> over two interval lists in the heap.\<close>

partial_function (option) same_loop :: "sel_functions \<Rightarrow> (nat \<Rightarrow> SEL_ARG) \<Rightarrow> nat \<Rightarrow> nat \<Rightarrow> bool option" where
  "same_loop F h cur_arg cmp_arg =
     (if cur_arg \<noteq> 0 \<and> cmp_arg \<noteq> 0 \<and> is_same F (h cur_arg) (h cmp_arg)
      then same_loop F h (next_arg (h cur_arg)) (next_arg (h cmp_arg))
      else Some (cur_arg = 0 \<and> cmp_arg = 0))"

text \<open>\<open>first\<close> is declared only.\<close>

definition all_same :: "sel_functions \<Rightarrow> (nat \<Rightarrow> nat) \<Rightarrow> (nat \<Rightarrow> SEL_ARG) \<Rightarrow> nat \<Rightarrow> nat \<Rightarrow> bool option" where
  "all_same F first h this arg =
     (if sel_type (h this) \<noteq> sel_type (h arg) \<or> part (h this) \<noteq> part (h arg) then Some False
      else if sel_type (h this) \<noteq> KEY_RANGE then Some True
      else if arg = this then Some True
      else same_loop F h (first this) (first arg))"

definition merge_flags :: "SEL_ARG \<Rightarrow> SEL_ARG \<Rightarrow> SEL_ARG" where
  "merge_flags a arg = a\<lparr>maybe_flag := maybe_flag a OR maybe_flag arg\<rparr>"

definition maybe_smaller :: "SEL_ARG \<Rightarrow> SEL_ARG" where
  "maybe_smaller a = a\<lparr>maybe_flag := 1\<rparr>"

definition is_null_interval :: "memory \<Rightarrow> SEL_ARG \<Rightarrow> bool" where
  "is_null_interval m a \<longleftrightarrow> maybe_null a \<noteq> 0 \<and> m (max_value a) = 1"

definition clone_and :: "sel_functions \<Rightarrow> SEL_ARG \<Rightarrow> SEL_ARG \<Rightarrow> SEL_ARG option" where
  "clone_and F a arg =
     (let (new_min, flag_min) = (if cmp_min_to_min F a arg \<ge> 0 then (min_value a, min_flag a) else (min_value arg, min_flag arg));
          (new_max, flag_max) = (if cmp_max_to_max F a arg \<le> 0 then (max_value a, max_flag a) else (max_value arg, max_flag arg))
      in new_sel_arg F (field a) (part a) new_min new_max flag_min flag_max
           (of_bool (maybe_flag a \<noteq> 0 \<and> maybe_flag arg \<noteq> 0)))"

definition clone_first :: "sel_functions \<Rightarrow> SEL_ARG \<Rightarrow> SEL_ARG \<Rightarrow> SEL_ARG option" where
  "clone_first F a arg =
     new_sel_arg F (field a) (part a) (min_value a) (min_value arg) (min_flag a)
       (if min_flag arg AND NEAR_MIN \<noteq> 0 then 0 else NEAR_MAX) (maybe_flag a OR maybe_flag arg)"

definition clone_last :: "sel_functions \<Rightarrow> SEL_ARG \<Rightarrow> SEL_ARG \<Rightarrow> SEL_ARG option" where
  "clone_last F a arg =
     new_sel_arg F (field a) (part a) (min_value a) (max_value arg) (min_flag a) (max_flag arg)
       (maybe_flag a OR maybe_flag arg)"

text \<open>\<open>copy_min\<close> and \<open>copy_max\<close> report a full range by the flags of the maximum alone.\<close>

definition both_open :: "uchar \<Rightarrow> bool" where
  "both_open f \<longleftrightarrow> f AND (NO_MAX_RANGE OR NO_MIN_RANGE) = NO_MAX_RANGE OR NO_MIN_RANGE"

definition copy_min :: "sel_functions \<Rightarrow> SEL_ARG \<Rightarrow> SEL_ARG \<Rightarrow> bool \<times> SEL_ARG" where
  "copy_min F a arg =
     (let less = cmp_min_to_min F a arg > 0;
          a = (if less then a\<lparr>min_value := min_value arg, min_flag := min_flag arg\<rparr> else a)
      in if less \<and> both_open (max_flag a) then (True, a) else (False, merge_flags a arg))"

definition copy_max :: "sel_functions \<Rightarrow> SEL_ARG \<Rightarrow> SEL_ARG \<Rightarrow> bool \<times> SEL_ARG" where
  "copy_max F a arg =
     (let more = cmp_max_to_max F a arg \<le> 0;
          a = (if more then a\<lparr>max_value := max_value arg, max_flag := max_flag arg\<rparr> else a)
      in if more \<and> both_open (max_flag a) then (True, a) else (False, merge_flags a arg))"

definition copy_min_to_min :: "SEL_ARG \<Rightarrow> SEL_ARG \<Rightarrow> SEL_ARG" where
  "copy_min_to_min a arg = a\<lparr>min_value := min_value arg, min_flag := min_flag arg\<rparr>"

definition copy_min_to_max :: "SEL_ARG \<Rightarrow> SEL_ARG \<Rightarrow> SEL_ARG" where
  "copy_min_to_max a arg =
     a\<lparr>max_value := min_value arg, max_flag := (if min_flag arg AND NEAR_MIN \<noteq> 0 then 0 else NEAR_MAX)\<rparr>"

definition copy_max_to_min :: "SEL_ARG \<Rightarrow> SEL_ARG \<Rightarrow> SEL_ARG" where
  "copy_max_to_min a arg =
     a\<lparr>min_value := max_value arg, min_flag := (if max_flag arg AND NEAR_MAX \<noteq> 0 then 0 else NEAR_MIN)\<rparr>"

definition simple_key :: "SEL_ARG \<Rightarrow> bool" where
  "simple_key a \<longleftrightarrow> next_key_part a = 0 \<and> elements a = 1"

definition is_singlepoint :: "sel_functions \<Rightarrow> memory \<Rightarrow> SEL_ARG \<Rightarrow> bool" where
  "is_singlepoint F m a =
     (if min_flag a \<noteq> 0 \<or> max_flag a \<noteq> 0 then False
      else let min_val = min_value a; max_val = max_value a
           in if maybe_null a \<noteq> 0
              then if m min_val \<noteq> m max_val then False
                   else if m min_val \<noteq> 0 then True
                   else key_cmp F (field a) (min_val + 1) (max_val + 1) = 0
              else key_cmp F (field a) min_val max_val = 0)"

section \<open>Positions and ranges\<close>

datatype 'v point = Minus_inf | Near 'v int | Plus_inf

instantiation point :: (linorder) linorder
begin

fun less_eq_point :: "'a point \<Rightarrow> 'a point \<Rightarrow> bool" where
  "less_eq_point Minus_inf q = True"
| "less_eq_point (Near v i) Minus_inf = False"
| "less_eq_point (Near v i) (Near w j) = (v < w \<or> v = w \<and> i \<le> j)"
| "less_eq_point (Near v i) Plus_inf = True"
| "less_eq_point Plus_inf Minus_inf = False"
| "less_eq_point Plus_inf (Near w j) = False"
| "less_eq_point Plus_inf Plus_inf = True"

definition less_point :: "'a point \<Rightarrow> 'a point \<Rightarrow> bool" where
  "less_point p q \<longleftrightarrow> p \<le> q \<and> \<not> q \<le> p"

instance
proof
  fix p q r :: "'a point"
  show "p < q \<longleftrightarrow> p \<le> q \<and> \<not> q \<le> p" by (rule less_point_def)
  show "p \<le> p" by (cases p) auto
  show "p \<le> q \<Longrightarrow> q \<le> r \<Longrightarrow> p \<le> r" by (cases p; cases q; cases r) auto
  show "p \<le> q \<Longrightarrow> q \<le> p \<Longrightarrow> p = q" by (cases p; cases q) auto
  show "p \<le> q \<or> q \<le> p" by (cases p; cases q) auto
qed

end

text \<open>A bound that is not included lies just behind its value when it is a minimum, just before it when it
  is a maximum.\<close>

definition point_of :: "(nat \<Rightarrow> 'v) \<Rightarrow> nat \<Rightarrow> uchar \<Rightarrow> 'v point" where
  "point_of val p f =
     (if f AND NO_MIN_RANGE \<noteq> 0 then Minus_inf
      else if f AND NO_MAX_RANGE \<noteq> 0 then Plus_inf
      else Near (val p) (if f AND NEAR_MIN \<noteq> 0 then 1 else if f AND NEAR_MAX \<noteq> 0 then -1 else 0))"

definition min_point :: "(nat \<Rightarrow> 'v) \<Rightarrow> SEL_ARG \<Rightarrow> 'v point" where
  "min_point val a = point_of val (min_value a) (min_flag a)"

definition max_point :: "(nat \<Rightarrow> 'v) \<Rightarrow> SEL_ARG \<Rightarrow> 'v point" where
  "max_point val a = point_of val (max_value a) (max_flag a)"

definition range_of :: "(nat \<Rightarrow> 'v::linorder) \<Rightarrow> SEL_ARG \<Rightarrow> 'v set" where
  "range_of val a = {x. min_point val a \<le> Near x 0 \<and> Near x 0 \<le> max_point val a}"

text \<open>Flags of an end point, of a minimum and of a maximum.\<close>

definition flag_ok :: "uchar \<Rightarrow> bool" where
  "flag_ok f \<longleftrightarrow> \<not> (f AND NO_MIN_RANGE \<noteq> 0 \<and> f AND NO_MAX_RANGE \<noteq> 0) \<and> \<not> (f AND NEAR_MIN \<noteq> 0 \<and> f AND NEAR_MAX \<noteq> 0)"

definition flags_ok :: "SEL_ARG \<Rightarrow> bool" where
  "flags_ok a \<longleftrightarrow> min_flag a AND NO_MAX_RANGE = 0 \<and> min_flag a AND NEAR_MAX = 0 \<and>
     max_flag a AND NO_MIN_RANGE = 0 \<and> max_flag a AND NEAR_MIN = 0"

text \<open>The contract: \<open>val\<close> gives the value a pointer stands for, with NULL as a value, too.\<close>

definition sel_functions_ok :: "(nat \<Rightarrow> 'v::linorder) \<Rightarrow> nat \<Rightarrow> sel_functions \<Rightarrow> bool" where
  "sel_functions_ok val fld F \<longleftrightarrow>
     (\<forall>p q f g. flag_ok f \<longrightarrow> flag_ok g \<longrightarrow>
        (sel_cmp F fld p q f g < 0 \<longleftrightarrow> point_of val p f < point_of val q g) \<and>
        (sel_cmp F fld p q f g = 0 \<longleftrightarrow> point_of val p f = point_of val q g)) \<and>
     (\<forall>pt mn mx f g mb a. new_sel_arg F fld pt mn mx f g mb = Some a \<longrightarrow>
        field a = fld \<and> part a = pt \<and> min_value a = mn \<and> max_value a = mx \<and> min_flag a = f \<and> max_flag a = g \<and> maybe_flag a = mb)"

lemma sel_cmp_sign:
  assumes "sel_functions_ok val fld F" "flag_ok f" "flag_ok g"
  shows "sel_cmp F fld p q f g < 0 \<longleftrightarrow> point_of val p f < point_of val q g"
    "sel_cmp F fld p q f g = 0 \<longleftrightarrow> point_of val p f = point_of val q g"
    "sel_cmp F fld p q f g \<le> 0 \<longleftrightarrow> point_of val p f \<le> point_of val q g"
    "sel_cmp F fld p q f g > 0 \<longleftrightarrow> point_of val q g < point_of val p f"
    "sel_cmp F fld p q f g \<ge> 0 \<longleftrightarrow> point_of val q g \<le> point_of val p f"
proof -
  show l: "sel_cmp F fld p q f g < 0 \<longleftrightarrow> point_of val p f < point_of val q g"
    and e: "sel_cmp F fld p q f g = 0 \<longleftrightarrow> point_of val p f = point_of val q g"
    using assms unfolding sel_functions_ok_def by blast+
  show "sel_cmp F fld p q f g \<ge> 0 \<longleftrightarrow> point_of val q g \<le> point_of val p f" using l by (meson not_less)
  show le: "sel_cmp F fld p q f g \<le> 0 \<longleftrightarrow> point_of val p f \<le> point_of val q g" using l e by (simp only: le_less)
  show "sel_cmp F fld p q f g > 0 \<longleftrightarrow> point_of val q g < point_of val p f" using le by (meson not_less)
qed

lemma flags_okD: "flags_ok a \<Longrightarrow> flag_ok (min_flag a)" "flags_ok a \<Longrightarrow> flag_ok (max_flag a)"
  by (simp_all add: flags_ok_def flag_ok_def)

lemma cmp_points:
  assumes "sel_functions_ok val (field a) F" "flags_ok a" "flags_ok b"
  shows "cmp_min_to_min F a b \<ge> 0 \<longleftrightarrow> min_point val b \<le> min_point val a"
    "cmp_min_to_min F a b > 0 \<longleftrightarrow> min_point val b < min_point val a"
    "cmp_min_to_min F a b = 0 \<longleftrightarrow> min_point val a = min_point val b"
    "cmp_max_to_max F a b \<le> 0 \<longleftrightarrow> max_point val a \<le> max_point val b"
    "cmp_max_to_max F a b = 0 \<longleftrightarrow> max_point val a = max_point val b"
    "cmp_min_to_max F a b \<le> 0 \<longleftrightarrow> min_point val a \<le> max_point val b"
    "cmp_max_to_min F a b < 0 \<longleftrightarrow> max_point val a < min_point val b"
  unfolding cmp_min_to_min_def cmp_max_to_max_def cmp_min_to_max_def cmp_max_to_min_def min_point_def max_point_def
  by (rule sel_cmp_sign [OF assms(1) flags_okD(1) [OF assms(2)] flags_okD(1) [OF assms(3)]]
    sel_cmp_sign [OF assms(1) flags_okD(2) [OF assms(2)] flags_okD(2) [OF assms(3)]]
    sel_cmp_sign [OF assms(1) flags_okD(1) [OF assms(2)] flags_okD(2) [OF assms(3)]]
    sel_cmp_sign [OF assms(1) flags_okD(2) [OF assms(2)] flags_okD(1) [OF assms(3)]])+

text \<open>Just behind and just before a bound.\<close>

lemma point_before:
  assumes "flag_ok f" "f AND NO_MIN_RANGE = 0" "f AND NO_MAX_RANGE = 0" "f AND NEAR_MAX = 0"
  shows "Near x 0 \<le> point_of val p (if f AND NEAR_MIN \<noteq> 0 then 0 else NEAR_MAX) \<longleftrightarrow> \<not> point_of val p f \<le> Near x 0"
  using assms by (auto simp: point_of_def range_flags)

lemma point_behind:
  assumes "flag_ok f" "f AND NO_MIN_RANGE = 0" "f AND NO_MAX_RANGE = 0" "f AND NEAR_MIN = 0"
  shows "point_of val p (if f AND NEAR_MAX \<noteq> 0 then 0 else NEAR_MIN) \<le> Near x 0 \<longleftrightarrow> \<not> Near x 0 \<le> point_of val p f"
  using assms by (auto simp: point_of_def range_flags)

section \<open>Storing keys\<close>

definition bzero :: "memory \<Rightarrow> nat \<Rightarrow> nat \<Rightarrow> memory" where
  "bzero m p n = (\<lambda>x. if p \<le> x \<and> x < p + n then 0 else m x)"

text \<open>\<open>store_min\<close> and \<open>store_max\<close> write one value at the position \<open>*min_key\<close> and move it on; they give the
  number of values written. The length of a key part is at least one byte.\<close>

definition store_min :: "SEL_ARG \<Rightarrow> nat \<Rightarrow> uint \<Rightarrow> nat \<times> memory \<Rightarrow> nat \<times> nat \<times> memory" where
  "store_min a len min_key_flag s =
     (let (p, m) = s
      in if min_flag a AND GEOM_FLAG \<noteq> 0 \<or>
            min_flag a AND NO_MIN_RANGE = 0 \<and> min_key_flag AND (NO_MIN_RANGE OR NEAR_MIN) = 0
         then let m = (if maybe_null a \<noteq> 0 \<and> m (min_value a) \<noteq> 0 then bzero (m(p := 1)) (p + 1) (len - 1)
                       else memcpy m p (min_value a) len)
              in (1, p + len, m)
         else (0, p, m))"

definition store_max :: "SEL_ARG \<Rightarrow> nat \<Rightarrow> uint \<Rightarrow> nat \<times> memory \<Rightarrow> nat \<times> nat \<times> memory" where
  "store_max a len max_key_flag s =
     (let (p, m) = s
      in if max_flag a AND NO_MAX_RANGE = 0 \<and> max_key_flag AND (NO_MAX_RANGE OR NEAR_MAX) = 0
         then let m = (if maybe_null a \<noteq> 0 \<and> m (max_value a) \<noteq> 0 then bzero (m(p := 1)) (p + 1) (len - 1)
                       else memcpy m p (max_value a) len)
              in (1, p + len, m)
         else (0, p, m))"

text \<open>\<open>lens\<close> gives the stored length of each key part. The result is the number of values, the position
  with the memory, and the flags.\<close>

partial_function (option) store_min_key :: "(nat \<Rightarrow> nat) \<Rightarrow> (uchar \<Rightarrow> nat) \<Rightarrow> (nat \<Rightarrow> SEL_ARG) \<Rightarrow> uint \<Rightarrow> nat \<Rightarrow>
    nat \<times> memory \<Rightarrow> uint \<Rightarrow> (nat \<times> (nat \<times> memory) \<times> uint) option" where
  "store_min_key first lens h last_part this s range_key_flag =
     (let key_tree = h (first this);
          (res, s) = store_min key_tree (lens (part key_tree)) range_key_flag s
      in if res = 0 then Some (0, s, range_key_flag)
         else let range_key_flag = range_key_flag OR ucast (min_flag key_tree);
                  nxt = next_key_part key_tree
              in if nxt \<noteq> 0 \<and> sel_type (h nxt) = KEY_RANGE \<and> ucast (part key_tree) \<noteq> last_part \<and>
                    unat (part (h nxt)) = unat (part key_tree) + 1 \<and>
                    range_key_flag AND (NO_MIN_RANGE OR NEAR_MIN) = 0
                 then Option.bind (store_min_key first lens h last_part nxt s range_key_flag)
                        (\<lambda>(n, s, f). Some (res + n, s, f))
                 else Some (res, s, range_key_flag))"

partial_function (option) store_max_key :: "(nat \<Rightarrow> nat) \<Rightarrow> (uchar \<Rightarrow> nat) \<Rightarrow> (nat \<Rightarrow> SEL_ARG) \<Rightarrow> uint \<Rightarrow> nat \<Rightarrow>
    nat \<times> memory \<Rightarrow> uint \<Rightarrow> (nat \<times> (nat \<times> memory) \<times> uint) option" where
  "store_max_key pick_last lens h last_part this s range_key_flag =
     (let key_tree = h (pick_last this);
          (res, s) = store_max key_tree (lens (part key_tree)) range_key_flag s
      in if res = 0 then Some (0, s, range_key_flag)
         else let range_key_flag = range_key_flag OR ucast (max_flag key_tree);
                  nxt = next_key_part key_tree
              in if nxt \<noteq> 0 \<and> sel_type (h nxt) = KEY_RANGE \<and> ucast (part key_tree) \<noteq> last_part \<and>
                    unat (part (h nxt)) = unat (part key_tree) + 1 \<and>
                    range_key_flag AND (NO_MAX_RANGE OR NEAR_MAX) = 0
                 then Option.bind (store_max_key pick_last lens h last_part nxt s range_key_flag)
                        (\<lambda>(n, s, f). Some (res + n, s, f))
                 else Some (res, s, range_key_flag))"

text \<open>The image of a value, and the values that a chain of key parts contributes: up to the first that has
  no bound, and including the first whose bound is open.\<close>

definition value_image :: "memory \<Rightarrow> SEL_ARG \<Rightarrow> nat \<Rightarrow> nat \<Rightarrow> uchar list" where
  "value_image m a v len = (if maybe_null a \<noteq> 0 \<and> m v \<noteq> 0 then 1 # replicate (len - 1) 0 else map m [v..<v + len])"

lemma write_image:
  assumes "0 < len"
  shows "(if maybe_null a \<noteq> 0 \<and> m v \<noteq> 0 then bzero (m(p := 1)) (p + 1) (len - 1) else memcpy m p v len)
    = write_bytes m p (value_image m a v len)"
  using assms by (intro ext) (auto simp: write_bytes_def value_image_def bzero_def memcpy_def nth_Cons')

text \<open>The nodes that the links lead through, one per key part.\<close>

inductive part_chain :: "(nat \<Rightarrow> nat) \<Rightarrow> (nat \<Rightarrow> SEL_ARG) \<Rightarrow> uint \<Rightarrow> nat \<Rightarrow> SEL_ARG list \<Rightarrow> bool" for pick h last_part where
  Last: "a = h (pick n) \<Longrightarrow>
     next_key_part a = 0 \<or> sel_type (h (next_key_part a)) \<noteq> KEY_RANGE \<or> ucast (part a) = last_part \<or>
       unat (part (h (next_key_part a))) \<noteq> unat (part a) + 1 \<Longrightarrow> part_chain pick h last_part n [a]"
| More: "a = h (pick n) \<Longrightarrow> next_key_part a \<noteq> 0 \<Longrightarrow> sel_type (h (next_key_part a)) = KEY_RANGE \<Longrightarrow> ucast (part a) \<noteq> last_part \<Longrightarrow>
     unat (part (h (next_key_part a))) = unat (part a) + 1 \<Longrightarrow> part_chain pick h last_part (next_key_part a) as \<Longrightarrow>
     part_chain pick h last_part n (a # as)"

locale key_storing =
  fixes val_ptr :: "SEL_ARG \<Rightarrow> nat" and flg :: "SEL_ARG \<Rightarrow> uchar" and stop :: uint
    and storable :: "SEL_ARG \<Rightarrow> uint \<Rightarrow> bool"
    and store_keys :: "(nat \<Rightarrow> nat) \<Rightarrow> (uchar \<Rightarrow> nat) \<Rightarrow> (nat \<Rightarrow> SEL_ARG) \<Rightarrow> uint \<Rightarrow> nat \<Rightarrow> nat \<times> memory \<Rightarrow> uint \<Rightarrow>
      (nat \<times> (nat \<times> memory) \<times> uint) option"
  assumes keys: "\<And>pick lens h last_part n p m f. 0 < lens (part (h (pick n))) \<Longrightarrow>
    store_keys pick lens h last_part n (p, m) f =
      (let a = h (pick n); s = (p + lens (part a), write_bytes m p (value_image m a (val_ptr a) (lens (part a))));
           g = f OR ucast (flg a); nxt = next_key_part a
       in if \<not> storable a f then Some (0, (p, m), f)
          else if nxt \<noteq> 0 \<and> sel_type (h nxt) = KEY_RANGE \<and> ucast (part a) \<noteq> last_part \<and>
              unat (part (h nxt)) = unat (part a) + 1 \<and> g AND stop = 0
          then map_option (\<lambda>(n, s, f). (1 + n, s, f)) (store_keys pick lens h last_part nxt s g)
          else Some (1, s, g))"
begin

fun stored :: "SEL_ARG list \<Rightarrow> uint \<Rightarrow> SEL_ARG list" where
  "stored [] f = []"
| "stored (a # as) f =
     (if storable a f then a # (if (f OR ucast (flg a)) AND stop = 0 then stored as (f OR ucast (flg a)) else []) else [])"

text \<open>With the flags at hand closed, the walk stores the leading values that have a bound, up to and including
  the first of them whose bound is not included.\<close>

lemma stored_prefix:
  assumes "\<forall>a \<in> set as. \<forall>g. g AND stop = 0 \<longrightarrow> (storable a g \<longleftrightarrow> bounded a)"
    and "\<forall>a \<in> set as. bounded a \<longrightarrow> (ucast (flg a) AND stop = 0 \<longleftrightarrow> included a)" and "f AND stop = 0"
  shows "stored as f = (let bs = takeWhile bounded as in take (Suc (length (takeWhile included bs))) bs)"
  using assms
proof (induction as arbitrary: f)
  case (Cons a as)
  have "(f OR ucast (flg a)) AND stop = (f AND stop) OR (ucast (flg a) AND stop)"
    by (simp add: bit.conj_disj_distrib2)
  then have "(f OR ucast (flg a)) AND stop = ucast (flg a) AND stop" using Cons.prems(3) by simp
  with Cons show ?case by (simp add: Let_def)
qed simp

definition key_of :: "memory \<Rightarrow> (uchar \<Rightarrow> nat) \<Rightarrow> SEL_ARG list \<Rightarrow> uchar list" where
  "key_of m lens as = concat (map (\<lambda>a. value_image m a (val_ptr a) (lens (part a))) as)"

lemma key_of_simps: "key_of m lens [] = []"
  "key_of m lens (a # as) = value_image m a (val_ptr a) (lens (part a)) @ key_of m lens as"
  by (simp_all add: key_of_def)

lemma image_length: "0 < len \<Longrightarrow> length (value_image m a v len) = len"
  by (simp add: value_image_def)

lemma store_keys_chain:
  assumes "part_chain pick h last_part n as" "\<forall>a \<in> set as. 0 < lens (part a) \<and> val_ptr a + lens (part a) \<le> p"
  shows "\<exists>f'. store_keys pick lens h last_part n (p, m) f =
    Some (length (stored as f), (p + length (key_of m lens (stored as f)), write_bytes m p (key_of m lens (stored as f))), f') \<and>
    f' = fold (\<lambda>a g. g OR ucast (flg a)) (stored as f) f"
  using assms
proof (induction arbitrary: p m f rule: part_chain.induct)
  case (Last a n)
  then show ?case by (auto simp: keys Let_def key_of_simps image_length)
next
  case (More a n as)
  let ?len = "lens (part a)" and ?g = "f OR ucast (flg a)"
  let ?img = "value_image m a (val_ptr a) ?len"
  let ?m = "write_bytes m p ?img"
  have len: "0 < ?len" and below: "\<forall>b \<in> set as. 0 < lens (part b) \<and> val_ptr b + lens (part b) \<le> p" using More.prems by auto
  have "value_image ?m b (val_ptr b) (lens (part b)) = value_image m b (val_ptr b) (lens (part b))" if "b \<in> set as" for b
    using below that by (auto simp: value_image_def write_bytes_def)
  moreover have "set (stored as g) \<subseteq> set as" for g by (induction as arbitrary: g) auto
  ultimately have key: "key_of ?m lens (stored as ?g) = key_of m lens (stored as ?g)"
    unfolding key_of_def by (intro arg_cong [of _ _ concat] map_cong) auto
  show ?case
  proof (cases "storable a f \<and> ?g AND stop = 0")
    case True
    have "\<forall>b \<in> set as. 0 < lens (part b) \<and> val_ptr b + lens (part b) \<le> p + ?len" using below by (auto intro: trans_le_add1)
    from More.IH [OF this, of ?m ?g]
    show ?thesis using True More.hyps(2-5) len write_bytes_append [of m p ?img "key_of m lens (stored as ?g)"]
      by (simp add: keys Let_def key key_of_simps image_length add.assoc More.hyps(1) [symmetric])
  next
    case False
    then show ?thesis using More.hyps(2-5) len
      by (auto simp: keys Let_def key_of_simps image_length More.hyps(1) [symmetric])
  qed
qed

end

definition min_storable :: "SEL_ARG \<Rightarrow> uint \<Rightarrow> bool" where
  "min_storable a f \<longleftrightarrow> min_flag a AND GEOM_FLAG \<noteq> 0 \<or> min_flag a AND NO_MIN_RANGE = 0 \<and> f AND (NO_MIN_RANGE OR NEAR_MIN) = 0"

definition max_storable :: "SEL_ARG \<Rightarrow> uint \<Rightarrow> bool" where
  "max_storable a f \<longleftrightarrow> max_flag a AND NO_MAX_RANGE = 0 \<and> f AND (NO_MAX_RANGE OR NEAR_MAX) = 0"

lemma store_min_eq:
  assumes "0 < len"
  shows "store_min a len f (p, m) =
    (if min_storable a f then (1, p + len, write_bytes m p (value_image m a (min_value a) len)) else (0, p, m))"
  using write_image [OF assms, of a m "min_value a" p] by (simp add: store_min_def min_storable_def)

interpretation mins: key_storing min_value min_flag "NO_MIN_RANGE OR NEAR_MIN" min_storable store_min_key
proof
  show "store_min_key pick lens h last_part n (p, m) f =
      (let a = h (pick n); s = (p + lens (part a), write_bytes m p (value_image m a (min_value a) (lens (part a))));
           g = f OR ucast (min_flag a); nxt = next_key_part a
       in if \<not> min_storable a f then Some (0, (p, m), f)
          else if nxt \<noteq> 0 \<and> sel_type (h nxt) = KEY_RANGE \<and> ucast (part a) \<noteq> last_part \<and>
              unat (part (h nxt)) = unat (part a) + 1 \<and> g AND (NO_MIN_RANGE OR NEAR_MIN) = 0
          then map_option (\<lambda>(n, s, f). (1 + n, s, f)) (store_min_key pick lens h last_part nxt s g)
          else Some (1, s, g))" if "0 < lens (part (h (pick n)))" for pick lens h last_part n p m f
    by (subst store_min_key.simps)
      (simp add: store_min_eq [OF that] Let_def map_conv_bind_option comp_def case_prod_unfold)
qed

lemma store_max_eq:
  assumes "0 < len"
  shows "store_max a len f (p, m) =
    (if max_storable a f then (1, p + len, write_bytes m p (value_image m a (max_value a) len)) else (0, p, m))"
  using write_image [OF assms, of a m "max_value a" p] by (simp add: store_max_def max_storable_def)

interpretation maxs: key_storing max_value max_flag "NO_MAX_RANGE OR NEAR_MAX" max_storable store_max_key
proof
  show "store_max_key pick lens h last_part n (p, m) f =
      (let a = h (pick n); s = (p + lens (part a), write_bytes m p (value_image m a (max_value a) (lens (part a))));
           g = f OR ucast (max_flag a); nxt = next_key_part a
       in if \<not> max_storable a f then Some (0, (p, m), f)
          else if nxt \<noteq> 0 \<and> sel_type (h nxt) = KEY_RANGE \<and> ucast (part a) \<noteq> last_part \<and>
              unat (part (h nxt)) = unat (part a) + 1 \<and> g AND (NO_MAX_RANGE OR NEAR_MAX) = 0
          then map_option (\<lambda>(n, s, f). (1 + n, s, f)) (store_max_key pick lens h last_part nxt s g)
          else Some (1, s, g))" if "0 < lens (part (h (pick n)))" for pick lens h last_part n p m f
    by (subst store_max_key.simps)
      (simp add: store_max_eq [OF that] Let_def map_conv_bind_option comp_def case_prod_unfold)
qed

section \<open>QUICK_RANGE\<close>

datatype ha_rkey_function = HA_READ_KEY_EXACT | HA_READ_KEY_OR_NEXT | HA_READ_KEY_OR_PREV | HA_READ_AFTER_KEY
  | HA_READ_BEFORE_KEY | HA_READ_PREFIX | HA_READ_PREFIX_LAST | HA_READ_PREFIX_LAST_OR_PREV | HA_READ_MBR_CONTAIN
  | HA_READ_MBR_INTERSECT | HA_READ_MBR_WITHIN | HA_READ_MBR_DISJOINT | HA_READ_MBR_EQUAL

record key_range =
  kr_key :: nat
  kr_length :: uint
  kr_keypart_map :: uint32
  kr_flag :: ha_rkey_function

record QUICK_RANGE =
  min_key :: nat
  max_key :: nat
  min_length :: uint16
  max_length :: uint16
  qr_flag :: uint16
  min_keypart_map :: uint32
  max_keypart_map :: uint32

text \<open>The keys are copied by \<open>memdup\<close>, which gives their new addresses.\<close>

definition quick_range_new :: "(nat \<Rightarrow> uint \<Rightarrow> nat) \<Rightarrow> nat \<Rightarrow> uint \<Rightarrow> uint32 \<Rightarrow> nat \<Rightarrow> uint \<Rightarrow> uint32 \<Rightarrow> uint \<Rightarrow> QUICK_RANGE" where
  "quick_range_new memdup min_key_arg min_length_arg min_map max_key_arg max_length_arg max_map flag_arg =
     \<lparr>min_key = memdup min_key_arg (min_length_arg + 1), max_key = memdup max_key_arg (max_length_arg + 1),
      min_length = ucast min_length_arg, max_length = ucast max_length_arg, qr_flag = ucast flag_arg,
      min_keypart_map = min_map, max_keypart_map = max_map\<rparr>"

definition make_min_endpoint :: "QUICK_RANGE \<Rightarrow> key_range" where
  "make_min_endpoint q =
     \<lparr>kr_key = min_key q, kr_length = ucast (min_length q), kr_keypart_map = min_keypart_map q,
      kr_flag = (if qr_flag q AND NEAR_MIN \<noteq> 0 then HA_READ_AFTER_KEY
                 else if qr_flag q AND EQ_RANGE \<noteq> 0 then HA_READ_KEY_EXACT else HA_READ_KEY_OR_NEXT)\<rparr>"

definition make_max_endpoint :: "QUICK_RANGE \<Rightarrow> key_range" where
  "make_max_endpoint q =
     \<lparr>kr_key = max_key q, kr_length = ucast (max_length q), kr_keypart_map = max_keypart_map q,
      kr_flag = (if qr_flag q AND NEAR_MAX \<noteq> 0 then HA_READ_BEFORE_KEY else HA_READ_AFTER_KEY)\<rparr>"

definition min_endpoint_prefix :: "QUICK_RANGE \<Rightarrow> uint \<Rightarrow> uint32 \<Rightarrow> key_range" where
  "min_endpoint_prefix q prefix_length keypart_map =
     (let kr = make_min_endpoint q
      in kr\<lparr>kr_length := min (kr_length kr) prefix_length, kr_keypart_map := kr_keypart_map kr AND keypart_map\<rparr>)"

definition max_endpoint_prefix :: "QUICK_RANGE \<Rightarrow> uint \<Rightarrow> uint32 \<Rightarrow> key_range" where
  "max_endpoint_prefix q prefix_length keypart_map =
     (let kr = make_max_endpoint q
      in kr\<lparr>kr_length := min (kr_length kr) prefix_length, kr_keypart_map := kr_keypart_map kr AND keypart_map\<rparr>)"

section \<open>Facts on ranges\<close>

lemma copies_fields:
  "min_point val (snd (copy_max F a b)) = min_point val a" "field (snd (copy_min F a b)) = field a"
  "max_point val (snd (copy_min F a b)) = max_point val a" "max_flag (snd (copy_min F a b)) = max_flag a"
  by (simp_all add: copy_max_def copy_min_def Let_def merge_flags_def min_point_def max_point_def)

lemma copy_min_point:
  assumes "sel_functions_ok val (field a) F" "flags_ok a" "flags_ok b"
  shows "min_point val (snd (copy_min F a b)) = min (min_point val a) (min_point val b)" "flags_ok (snd (copy_min F a b))"
proof -
  have m: "cmp_min_to_min F a b > 0 \<longleftrightarrow> min_point val b < min_point val a" by (rule cmp_points(2) [OF assms])
  show "flags_ok (snd (copy_min F a b))" using assms(2,3) by (auto simp: copy_min_def Let_def merge_flags_def flags_ok_def)
  have "min_point val (snd (copy_min F a b)) = (if cmp_min_to_min F a b > 0 then min_point val b else min_point val a)"
    by (simp add: copy_min_def Let_def merge_flags_def min_point_def)
  then show "min_point val (snd (copy_min F a b)) = min (min_point val a) (min_point val b)"
    unfolding m by (auto simp: min_def not_le)
qed

lemma copy_max_point:
  assumes "sel_functions_ok val (field a) F" "flags_ok a" "flags_ok b"
  shows "max_point val (snd (copy_max F a b)) = max (max_point val a) (max_point val b)"
proof -
  have m: "cmp_max_to_max F a b \<le> 0 \<longleftrightarrow> max_point val a \<le> max_point val b" by (rule cmp_points(4) [OF assms])
  have "max_point val (snd (copy_max F a b)) = (if cmp_max_to_max F a b \<le> 0 then max_point val b else max_point val a)"
    by (simp add: copy_max_def Let_def merge_flags_def max_point_def)
  then show ?thesis unfolding m by (simp add: max_def)
qed

text \<open>The union of two ranges with a common bound or more.\<close>

definition merged :: "sel_functions \<Rightarrow> SEL_ARG \<Rightarrow> SEL_ARG \<Rightarrow> SEL_ARG" where
  "merged F a b = snd (copy_max F (snd (copy_min F a b)) b)"

lemma merged_points:
  assumes "sel_functions_ok val (field a) F" "flags_ok a" "flags_ok b"
  shows "min_point val (merged F a b) = min (min_point val a) (min_point val b)"
    "max_point val (merged F a b) = max (max_point val a) (max_point val b)"
  using copy_min_point [OF assms] copy_max_point [of val "snd (copy_min F a b)" F b] assms
  by (simp_all add: merged_def copies_fields)

text \<open>A full range is never reported: the test looks for the flag of an open minimum in the maximum.\<close>

lemma full_range_not_reported:
  assumes "flags_ok a" "flags_ok b"
  shows "\<not> fst (copy_min F a b)" "\<not> fst (copy_max F a b)"
proof -
  have "\<not> both_open f" if "f AND NO_MIN_RANGE = 0" for f
  proof
    assume "both_open f"
    then have "bit (f AND (NO_MAX_RANGE OR NO_MIN_RANGE)) 0" by (simp add: both_open_def range_flags)
    then have "bit (f AND NO_MIN_RANGE) 0" by (simp add: bit_and_iff range_flags)
    then show False using that by simp
  qed
  then show "\<not> fst (copy_min F a b)" "\<not> fst (copy_max F a b)"
    using assms by (auto simp: flags_ok_def copy_min_def copy_max_def Let_def)
qed

lemma new_sel_arg_range:
  assumes "sel_functions_ok val (field a) F" "new_sel_arg F (field a) pt mn mx f g mb = Some c"
  shows "min_point val c = point_of val mn f" "max_point val c = point_of val mx g"
proof -
  have "min_value c = mn \<and> max_value c = mx \<and> min_flag c = f \<and> max_flag c = g"
    using assms unfolding sel_functions_ok_def by blast
  then show "min_point val c = point_of val mn f" "max_point val c = point_of val mx g"
    by (simp_all add: min_point_def max_point_def)
qed

lemma clone_and_range:
  assumes "sel_functions_ok val (field a) F" "flags_ok a" "flags_ok b" "clone_and F a b = Some c"
  shows "range_of val c = range_of val a \<inter> range_of val b"
proof -
  have "min_point val c = (if cmp_min_to_min F a b \<ge> 0 then min_point val a else min_point val b)"
    "max_point val c = (if cmp_max_to_max F a b \<le> 0 then max_point val a else max_point val b)"
    using assms(4) new_sel_arg_range [OF assms(1)]
    by (auto simp: clone_and_def Let_def min_point_def max_point_def split: if_splits)
  then show ?thesis
    using cmp_points(1,4) [OF assms(1-3)] by (auto simp: range_of_def)
qed

lemma before_range:
  assumes "flags_ok b" "min_flag b AND NO_MIN_RANGE = 0"
  shows "range_of val (copy_min_to_max a b) = {x. min_point val a \<le> Near x 0 \<and> \<not> min_point val b \<le> Near x 0}"
proof -
  have f: "flag_ok (min_flag b)" "min_flag b AND NO_MAX_RANGE = 0" "min_flag b AND NEAR_MAX = 0"
    using assms(1) by (auto simp: flags_ok_def flag_ok_def)
  show ?thesis using point_before [OF f(1) assms(2) f(2,3), of _ val "min_value b"]
    by (simp add: range_of_def copy_min_to_max_def max_point_def min_point_def split del: if_split)
qed

lemma behind_range:
  assumes "flags_ok b" "max_flag b AND NO_MAX_RANGE = 0"
  shows "range_of val (copy_max_to_min a b) = {x. \<not> Near x 0 \<le> max_point val b \<and> Near x 0 \<le> max_point val a}"
proof -
  have f: "flag_ok (max_flag b)" "max_flag b AND NO_MIN_RANGE = 0" "max_flag b AND NEAR_MIN = 0"
    using assms(1) by (auto simp: flags_ok_def flag_ok_def)
  show ?thesis using point_behind [OF f(1,2) assms(2) f(3), of val "max_value b"]
    by (simp add: range_of_def copy_max_to_min_def max_point_def min_point_def split del: if_split)
qed

lemma clone_first_range:
  assumes "sel_functions_ok val (field a) F" "clone_first F a b = Some c"
  shows "range_of val c = range_of val (copy_min_to_max a b)"
  using new_sel_arg_range [OF assms(1) assms(2) [unfolded clone_first_def]]
  by (simp add: range_of_def copy_min_to_max_def min_point_def max_point_def)

lemma clone_last_range:
  assumes "sel_functions_ok val (field a) F" "clone_last F a b = Some c"
  shows "range_of val c = {x. min_point val a \<le> Near x 0 \<and> Near x 0 \<le> max_point val b}"
  using new_sel_arg_range [OF assms(1) assms(2) [unfolded clone_last_def]]
  by (simp add: range_of_def min_point_def max_point_def)

section \<open>Properties\<close>

text \<open>
  C34. The ranges of the optimizer form an algebra of sets of values. With end points that are included,
  excluded or missing: \<open>clone_and\<close> gives the intersection; \<open>copy_min\<close> followed by \<open>copy_max\<close> gives the
  union of ranges that meet; what remains of a range without another is what \<open>copy_min_to_max\<close> and
  \<open>copy_max_to_min\<close> leave on either side; \<open>clone_first\<close> is the part before the other range, and
  \<open>clone_last\<close> reaches from one minimum to the other maximum; and two ranges of one type and key part are the
  same exactly if their bounds are.
\<close>

theorem ranges_are_sets:
  assumes "sel_functions_ok val (field a) F" "flags_ok a" "flags_ok b"
  shows "(\<forall>c. clone_and F a b = Some c \<longrightarrow> range_of val c = range_of val a \<inter> range_of val b) \<and>
    (min_point val b \<le> max_point val a \<longrightarrow> min_point val a \<le> max_point val b \<longrightarrow>
      range_of val (merged F a b) = range_of val a \<union> range_of val b) \<and>
    (min_flag b AND NO_MIN_RANGE = 0 \<longrightarrow> max_flag b AND NO_MAX_RANGE = 0 \<longrightarrow>
      range_of val a - range_of val b =
        range_of val a \<inter> range_of val (copy_min_to_max a b) \<union> range_of val a \<inter> range_of val (copy_max_to_min a b)) \<and>
    (\<forall>c. min_flag b AND NO_MIN_RANGE = 0 \<longrightarrow> clone_first F a b = Some c \<longrightarrow>
      range_of val c = {x. min_point val a \<le> Near x 0 \<and> \<not> min_point val b \<le> Near x 0}) \<and>
    (\<forall>c. clone_last F a b = Some c \<longrightarrow> range_of val c = {x. min_point val a \<le> Near x 0 \<and> Near x 0 \<le> max_point val b}) \<and>
    (is_same F a b \<longleftrightarrow> sel_type a = sel_type b \<and> part a = part b \<and>
      (sel_type a = KEY_RANGE \<longrightarrow> min_point val a = min_point val b \<and> max_point val a = max_point val b))"
proof (intro conjI allI impI)
  show "range_of val c = range_of val a \<inter> range_of val b" if "clone_and F a b = Some c" for c
    using clone_and_range [OF assms that] .
  show "range_of val (merged F a b) = range_of val a \<union> range_of val b"
    if "min_point val b \<le> max_point val a" "min_point val a \<le> max_point val b"
    using that merged_points [OF assms] by (auto simp: range_of_def min_le_iff_disj le_max_iff_disj)
  show "range_of val a - range_of val b =
        range_of val a \<inter> range_of val (copy_min_to_max a b) \<union> range_of val a \<inter> range_of val (copy_max_to_min a b)"
    if "min_flag b AND NO_MIN_RANGE = 0" "max_flag b AND NO_MAX_RANGE = 0"
    unfolding before_range [OF assms(3) that(1)] behind_range [OF assms(3) that(2)] by (auto simp: range_of_def)
  show "range_of val c = {x. min_point val a \<le> Near x 0 \<and> \<not> min_point val b \<le> Near x 0}"
    if "min_flag b AND NO_MIN_RANGE = 0" "clone_first F a b = Some c" for c
    using clone_first_range [OF assms(1) that(2)] before_range [OF assms(3) that(1)] by simp
  show "range_of val c = {x. min_point val a \<le> Near x 0 \<and> Near x 0 \<le> max_point val b}" if "clone_last F a b = Some c" for c
    using clone_last_range [OF assms(1) that] .
  show "is_same F a b \<longleftrightarrow> sel_type a = sel_type b \<and> part a = part b \<and>
      (sel_type a = KEY_RANGE \<longrightarrow> min_point val a = min_point val b \<and> max_point val a = max_point val b)"
    using cmp_points(3,5) [OF assms] by (auto simp: is_same_def)
qed

text \<open>The functions that an engine with numbers as values could have.\<close>

definition number_functions :: "(nat \<Rightarrow> int) \<Rightarrow> SEL_ARG \<Rightarrow> sel_functions" where
  "number_functions val z =
     \<lparr>sel_cmp = (\<lambda>fld p q f g. if point_of val p f < point_of val q g then -1 else of_bool (point_of val p f \<noteq> point_of val q g)),
      key_cmp = (\<lambda>fld p q. val p - val q),
      new_sel_arg = (\<lambda>fld pt mn mx f g mb.
        Some (z\<lparr>field := fld, part := pt, min_value := mn, max_value := mx, min_flag := f, max_flag := g, maybe_flag := mb\<rparr>))\<rparr>"

lemma number_functions_ok: "sel_functions_ok val fld (number_functions val z)"
  by (auto simp: sel_functions_ok_def number_functions_def)

definition some_range :: "nat \<Rightarrow> uchar \<Rightarrow> nat \<Rightarrow> uchar \<Rightarrow> SEL_ARG" where
  "some_range mn f mx g =
     \<lparr>min_flag = f, max_flag = g, maybe_flag = 0, part = 0, maybe_null = 0, max_part_no = 1, elements = 1, use_count = 1,
      field = 1, min_value = mn, max_value = mx, left_child = 0, right_child = 0, next_arg = 0, prev_arg = 0,
      parent_arg = 0, next_key_part = 0, color = BLACK, sel_type = KEY_RANGE, weight = 1\<rparr>"

text \<open>\<open>x > 3\<close> and \<open>x <= 8\<close>.\<close>

lemma ranges_are_sets_witness:
  "let a = some_range 3 NEAR_MIN 0 NO_MAX_RANGE; b = some_range 0 NO_MIN_RANGE 8 0; F = number_functions int a
   in \<exists>c. clone_and F a b = Some c \<and> range_of int c = range_of int a \<inter> range_of int b"
proof -
  let ?a = "some_range 3 NEAR_MIN 0 NO_MAX_RANGE" and ?b = "some_range 0 NO_MIN_RANGE 8 0"
  have "flags_ok ?a" "flags_ok ?b" by (simp_all add: flags_ok_def some_range_def range_flags)
  moreover have "\<exists>c. clone_and (number_functions int ?a) ?a ?b = Some c"
    by (simp add: clone_and_def number_functions_def Let_def split_def)
  ultimately show ?thesis
    using ranges_are_sets [OF number_functions_ok [of int "field ?a" ?a], of ?b] by auto
qed

text \<open>The values stored, by the flags of the nodes of the chain.\<close>

definition stored_bounds :: "(SEL_ARG \<Rightarrow> uchar) \<Rightarrow> uchar \<Rightarrow> uchar \<Rightarrow> SEL_ARG list \<Rightarrow> SEL_ARG list" where
  "stored_bounds flg none near as =
     (let bs = takeWhile (\<lambda>a. flg a AND none = 0) as
      in take (Suc (length (takeWhile (\<lambda>a. flg a AND near = 0) bs))) bs)"

lemma range_flag_bits:
  "w AND NO_MIN_RANGE = 0 \<longleftrightarrow> \<not> bit w 0" "w AND NO_MAX_RANGE = 0 \<longleftrightarrow> \<not> bit w 1"
  "w AND NEAR_MIN = 0 \<longleftrightarrow> \<not> bit w 2" "w AND NEAR_MAX = 0 \<longleftrightarrow> \<not> bit w 3" for w :: "'a::len word"
  using and_exp_eq_0_iff_not_bit [of w 0] and_exp_eq_0_iff_not_bit [of w 1]
    and_exp_eq_0_iff_not_bit [of w 2] and_exp_eq_0_iff_not_bit [of w 3]
  by (simp_all only: range_flags power_0 power_one_right) simp_all

lemma and_two_flags: "w AND (f OR g) = 0 \<longleftrightarrow> w AND f = 0 \<and> w AND g = 0" for w :: "'a::len word"
  by (simp add: bit.conj_disj_distrib or_eq_0_iff)

lemma stop_flags:
  "(ucast w :: uint) AND (NO_MIN_RANGE OR NEAR_MIN) = 0 \<longleftrightarrow> w AND NO_MIN_RANGE = 0 \<and> w AND NEAR_MIN = 0"
  "(ucast w :: uint) AND (NO_MAX_RANGE OR NEAR_MAX) = 0 \<longleftrightarrow> w AND NO_MAX_RANGE = 0 \<and> w AND NEAR_MAX = 0"
  for w :: uchar
  by (auto simp: and_two_flags range_flag_bits bit_ucast_iff)

lemma mins_stored:
  "\<forall>a \<in> set as. min_flag a AND GEOM_FLAG = 0 \<Longrightarrow> f AND (NO_MIN_RANGE OR NEAR_MIN) = 0 \<Longrightarrow>
    mins.stored as f = stored_bounds min_flag NO_MIN_RANGE NEAR_MIN as"
  unfolding stored_bounds_def by (rule mins.stored_prefix) (auto simp: min_storable_def stop_flags)

lemma maxs_stored:
  "f AND (NO_MAX_RANGE OR NEAR_MAX) = 0 \<Longrightarrow>
    maxs.stored as f = stored_bounds max_flag NO_MAX_RANGE NEAR_MAX as"
  unfolding stored_bounds_def by (rule maxs.stored_prefix) (auto simp: max_storable_def stop_flags)

text \<open>
  C35. Storing the keys of a range over several key parts ends and writes what it should. Along the chain of
  key parts, \<open>store_min_key\<close> and \<open>store_max_key\<close> return the number of the values stored, they write exactly the
  images of these values behind one another (a NULL as a one and zeros) and leave every other byte, the position
  moves behind the last of them, and the flags collect those of the values. Starting with flags that are closed,
  the values stored are those before the first key part without a bound, up to and including the first of them
  whose bound is not included, after which the walk stops (for the minimum, without geometry flags).
\<close>

theorem range_keys_stored:
  assumes "part_chain first h last_part n as" "\<forall>a \<in> set as. 0 < lens (part a) \<and> min_value a + lens (part a) \<le> p"
    and "part_chain pick_last h last_part n bs" "\<forall>b \<in> set bs. 0 < lens (part b) \<and> max_value b + lens (part b) \<le> q"
  shows "store_min_key first lens h last_part n (p, m) f =
      (let st = mins.stored as f; key = mins.key_of m lens st
       in Some (length st, (p + length key, write_bytes m p key), fold (\<lambda>a g. g OR ucast (min_flag a)) st f)) \<and>
    store_max_key pick_last lens h last_part n (q, m) f =
      (let st = maxs.stored bs f; key = maxs.key_of m lens st
       in Some (length st, (q + length key, write_bytes m q key), fold (\<lambda>a g. g OR ucast (max_flag a)) st f)) \<and>
    ((\<forall>a \<in> set as. min_flag a AND GEOM_FLAG = 0) \<and> f AND (NO_MIN_RANGE OR NEAR_MIN) = 0 \<longrightarrow>
       mins.stored as f = stored_bounds min_flag NO_MIN_RANGE NEAR_MIN as) \<and>
    (f AND (NO_MAX_RANGE OR NEAR_MAX) = 0 \<longrightarrow>
       maxs.stored bs f = stored_bounds max_flag NO_MAX_RANGE NEAR_MAX bs)"
  using mins.store_keys_chain [OF assms(1,2), of m f] maxs.store_keys_chain [OF assms(3,4), of m f]
    mins_stored [of as f] maxs_stored [of f bs]
  by (simp add: Let_def)

text \<open>\<open>a = 7 and b > 9\<close> over two key parts of one byte each: two values, then the flag of \<open>b\<close>.\<close>

definition two_parts :: "nat \<Rightarrow> SEL_ARG" where
  "two_parts n =
     (if n = 1 then (some_range 0 0 0 0)\<lparr>next_key_part := 2\<rparr>
      else (some_range 1 NEAR_MIN 0 NO_MAX_RANGE)\<lparr>part := 1\<rparr>)"

lemma two_parts_chain: "part_chain id two_parts 99 1 [two_parts 1, two_parts 2]"
proof -
  have "part_chain id two_parts 99 2 [two_parts 2]"
    by (rule part_chain.Last) (simp_all add: two_parts_def some_range_def)
  moreover have "two_parts 1 = two_parts (id 1)" "next_key_part (two_parts 1) = 2" by (simp_all add: two_parts_def)
  ultimately show ?thesis
    using part_chain.More [of "two_parts 1" two_parts id 1 99 "[two_parts 2]"] by (simp add: two_parts_def some_range_def)
qed

lemma two_parts_stored: "mins.stored [two_parts 1, two_parts 2] 0 = [two_parts 1, two_parts 2]"
    "maxs.stored [two_parts 1, two_parts 2] 0 = [two_parts 1]"
  unfolding mins.stored.simps maxs.stored.simps
  by (simp_all add: two_parts_def some_range_def min_storable_def max_storable_def range_flags)

lemma range_keys_stored_witness:
  "(let m = (\<lambda>x. if x = 0 then 7 else if x = 1 then 9 else 0)
    in store_min_key id (\<lambda>_. 1) two_parts 99 1 (5, m) 0 = Some (2, (7, write_bytes m 5 [7, 9]), NEAR_MIN) \<and>
       store_max_key id (\<lambda>_. 1) two_parts 99 1 (5, m) 0 = Some (1, (6, write_bytes m 5 [7]), 0))"
proof -
  have "\<forall>a \<in> set [two_parts 1, two_parts 2]. 0 < (1::nat) \<and> min_value a + 1 \<le> (5::nat)"
    "\<forall>a \<in> set [two_parts 1, two_parts 2]. 0 < (1::nat) \<and> max_value a + 1 \<le> (5::nat)"
    by (simp_all add: two_parts_def some_range_def)
  note stored = range_keys_stored [OF two_parts_chain this(1) two_parts_chain this(2),
      of "\<lambda>x. if x = 0 then 7 else if x = 1 then 9 else 0" 0]
  show ?thesis
    using stored unfolding two_parts_stored
    by (simp add: Let_def mins.key_of_def maxs.key_of_def two_parts_def some_range_def range_flags value_image_def)
qed

end
