(* ===== verification/Lex_Stream.thy ===== *)
theory Lex_Stream
  imports Byte_Memory
begin

text \<open>
  The character stream of the SQL lexer: \<open>Lex_input_stream\<close> of \<open>sql_lex.h\<close>. The raw query and its
  pre-processed copy are two areas of the byte memory; what is read while echo is on is copied from the one to
  the other, so that comments can be left out.
\<close>

section \<open>The stream\<close>

datatype enum_comment_state = NO_COMMENT | PRESERVE_COMMENT | DISCARD_COMMENT

datatype my_lex_states = MY_LEX_START | MY_LEX_CHAR | MY_LEX_IDENT | MY_LEX_IDENT_SEP | MY_LEX_IDENT_START
  | MY_LEX_REAL | MY_LEX_HEX_NUMBER | MY_LEX_BIN_NUMBER | MY_LEX_CMP_OP | MY_LEX_LONG_CMP_OP | MY_LEX_STRING
  | MY_LEX_COMMENT | MY_LEX_END | MY_LEX_OPERATOR_OR_IDENT | MY_LEX_NUMBER_IDENT | MY_LEX_INT_OR_REAL
  | MY_LEX_REAL_OR_POINT | MY_LEX_BOOL | MY_LEX_EOL | MY_LEX_ESCAPE | MY_LEX_LONG_COMMENT
  | MY_LEX_END_LONG_COMMENT | MY_LEX_SEMICOLON | MY_LEX_SET_VAR | MY_LEX_USER_END | MY_LEX_HOSTNAME | MY_LEX_SKIP
  | MY_LEX_USER_VARIABLE_DELIMITER | MY_LEX_SYSTEM_VAR | MY_LEX_IDENT_OR_KEYWORD | MY_LEX_IDENT_OR_HEX
  | MY_LEX_IDENT_OR_BIN | MY_LEX_IDENT_OR_NCHAR | MY_LEX_STRING_OR_DELIMITER | MY_LEX_MINUS_OR_COMMENT
  | MY_LEX_PLACEHOLDER | MY_LEX_COMMA

text \<open>Pointers are addresses.\<close>

record lex_stream =
  lookahead_token :: int
  m_ptr :: nat
  m_tok_start :: nat
  m_tok_end :: nat
  m_end_of_query :: nat
  m_tok_start_prev :: nat
  m_buf :: nat
  m_buf_length :: nat
  m_echo :: bool
  m_echo_saved :: bool
  m_cpp_buf :: nat
  m_cpp_ptr :: nat
  m_cpp_tok_start :: nat
  m_cpp_tok_start_prev :: nat
  m_cpp_tok_end :: nat
  m_body_utf8 :: nat
  m_body_utf8_ptr :: nat
  m_cpp_utf8_processed_ptr :: nat
  next_state :: my_lex_states
  found_semicolon :: nat
  ignore_space :: bool
  stmt_prepare_mode :: bool
  multi_statements :: bool
  yylineno :: uint
  in_comment :: enum_comment_state
  in_comment_saved :: enum_comment_state
  m_cpp_text_start :: nat
  m_cpp_text_end :: nat

definition set_echo :: "bool \<Rightarrow> lex_stream \<Rightarrow> lex_stream" where
  "set_echo echo s = s\<lparr>m_echo := echo\<rparr>"

definition save_in_comment_state :: "lex_stream \<Rightarrow> lex_stream" where
  "save_in_comment_state s = s\<lparr>m_echo_saved := m_echo s, in_comment_saved := in_comment s\<rparr>"

definition restore_in_comment_state :: "lex_stream \<Rightarrow> lex_stream" where
  "restore_in_comment_state s = s\<lparr>m_echo := m_echo_saved s, in_comment := in_comment_saved s\<rparr>"

definition skip_binary :: "nat \<Rightarrow> lex_stream \<times> memory \<Rightarrow> lex_stream \<times> memory" where
  "skip_binary n = (\<lambda>(s, m).
     let (s, m) = (if m_echo s then (s\<lparr>m_cpp_ptr := m_cpp_ptr s + n\<rparr>, memcpy m (m_cpp_ptr s) (m_ptr s) n) else (s, m))
     in (s\<lparr>m_ptr := m_ptr s + n\<rparr>, m))"

definition yyGet :: "lex_stream \<times> memory \<Rightarrow> uchar \<times> lex_stream \<times> memory" where
  "yyGet = (\<lambda>(s, m).
     let c = m (m_ptr s); s = s\<lparr>m_ptr := m_ptr s + 1\<rparr>
     in if m_echo s then (c, s\<lparr>m_cpp_ptr := m_cpp_ptr s + 1\<rparr>, m(m_cpp_ptr s := c)) else (c, s, m))"

definition yyGetLast :: "lex_stream \<times> memory \<Rightarrow> uchar" where
  "yyGetLast = (\<lambda>(s, m). m (m_ptr s - 1))"

definition yyPeek :: "lex_stream \<times> memory \<Rightarrow> uchar" where
  "yyPeek = (\<lambda>(s, m). m (m_ptr s))"

definition yyPeekn :: "int \<Rightarrow> lex_stream \<times> memory \<Rightarrow> uchar" where
  "yyPeekn n = (\<lambda>(s, m). m (nat (int (m_ptr s) + n)))"

definition yyUnget :: "lex_stream \<Rightarrow> lex_stream" where
  "yyUnget s =
     (let s = s\<lparr>m_ptr := m_ptr s - 1\<rparr> in if m_echo s then s\<lparr>m_cpp_ptr := m_cpp_ptr s - 1\<rparr> else s)"

definition yySkip :: "lex_stream \<times> memory \<Rightarrow> lex_stream \<times> memory" where
  "yySkip = (\<lambda>(s, m).
     if m_echo s
     then (s\<lparr>m_cpp_ptr := m_cpp_ptr s + 1, m_ptr := m_ptr s + 1\<rparr>, m(m_cpp_ptr s := m (m_ptr s)))
     else (s\<lparr>m_ptr := m_ptr s + 1\<rparr>, m))"

definition yySkipn :: "nat \<Rightarrow> lex_stream \<times> memory \<Rightarrow> lex_stream \<times> memory" where
  "yySkipn n = (\<lambda>(s, m).
     let (s, m) = (if m_echo s then (s\<lparr>m_cpp_ptr := m_cpp_ptr s + n\<rparr>, memcpy m (m_cpp_ptr s) (m_ptr s) n) else (s, m))
     in (s\<lparr>m_ptr := m_ptr s + n\<rparr>, m))"

definition yyUnput :: "uchar \<Rightarrow> lex_stream \<times> memory \<Rightarrow> nat \<times> lex_stream \<times> memory" where
  "yyUnput ch = (\<lambda>(s, m).
     let s = s\<lparr>m_ptr := m_ptr s - 1\<rparr>; m = m(m_ptr s := ch);
         s = (if m_echo s then s\<lparr>m_cpp_ptr := m_cpp_ptr s - 1\<rparr> else s)
     in (m_ptr s, s, m))"

definition eof_n :: "int \<Rightarrow> lex_stream \<Rightarrow> bool" where
  "eof_n n s \<longleftrightarrow> int (m_ptr s) + n \<ge> int (m_end_of_query s)"

definition start_token :: "lex_stream \<Rightarrow> lex_stream" where
  "start_token s = s
     \<lparr>m_tok_start_prev := m_tok_start s, m_tok_start := m_ptr s, m_tok_end := m_ptr s,
      m_cpp_tok_start_prev := m_cpp_tok_start s, m_cpp_tok_start := m_cpp_ptr s, m_cpp_tok_end := m_cpp_ptr s\<rparr>"

definition restart_token :: "lex_stream \<Rightarrow> lex_stream" where
  "restart_token s = s\<lparr>m_tok_start := m_ptr s, m_cpp_tok_start := m_cpp_ptr s\<rparr>"

definition yyLength :: "lex_stream \<Rightarrow> uint" where
  "yyLength s = of_int (int (m_ptr s) - int (m_tok_start s) - 1)"

definition has_lookahead :: "lex_stream \<Rightarrow> bool" where
  "has_lookahead s \<longleftrightarrow> lookahead_token s \<ge> 0"

definition eof :: "lex_stream \<Rightarrow> bool" where
  "eof s \<longleftrightarrow> m_ptr s \<ge> m_end_of_query s"

definition get_buf :: "lex_stream \<Rightarrow> nat" where "get_buf s = m_buf s"
definition get_cpp_buf :: "lex_stream \<Rightarrow> nat" where "get_cpp_buf s = m_cpp_buf s"
definition get_end_of_query :: "lex_stream \<Rightarrow> nat" where "get_end_of_query s = m_end_of_query s"

definition get_tok_start :: "lex_stream \<Rightarrow> nat" where
  "get_tok_start s = (if has_lookahead s then m_tok_start_prev s else m_tok_start s)"

definition set_cpp_tok_start :: "nat \<Rightarrow> lex_stream \<Rightarrow> lex_stream" where
  "set_cpp_tok_start pos s = s\<lparr>m_cpp_tok_start := pos\<rparr>"

definition get_tok_end :: "lex_stream \<Rightarrow> nat" where "get_tok_end s = m_tok_end s"
definition get_ptr :: "lex_stream \<Rightarrow> nat" where "get_ptr s = m_ptr s"

definition get_cpp_tok_start :: "lex_stream \<Rightarrow> nat" where
  "get_cpp_tok_start s = (if has_lookahead s then m_cpp_tok_start_prev s else m_cpp_tok_start s)"

definition get_cpp_tok_end :: "lex_stream \<Rightarrow> nat" where "get_cpp_tok_end s = m_cpp_tok_end s"

text \<open>The character class is looked up in the table \<open>m_ctype\<close> of \<open>system_charset_info\<close>.\<close>

definition MY_SPC :: uchar where "MY_SPC = 8"

definition my_isspace :: "(nat \<Rightarrow> uchar) \<Rightarrow> uchar \<Rightarrow> bool" where
  "my_isspace m_ctype c \<longleftrightarrow> m_ctype (1 + unat c) AND MY_SPC \<noteq> 0"

fun rtrim_loop :: "(nat \<Rightarrow> uchar) \<Rightarrow> memory \<Rightarrow> nat \<Rightarrow> nat \<Rightarrow> nat" where
  "rtrim_loop m_ctype m buf p =
     (if p > buf \<and> my_isspace m_ctype (m (p - 1)) then rtrim_loop m_ctype m buf (p - 1) else p)"

declare rtrim_loop.simps [simp del]

definition get_cpp_tok_end_rtrim :: "(nat \<Rightarrow> uchar) \<Rightarrow> lex_stream \<times> memory \<Rightarrow> nat" where
  "get_cpp_tok_end_rtrim m_ctype = (\<lambda>(s, m). rtrim_loop m_ctype m (m_cpp_buf s) (m_cpp_tok_end s))"

definition get_cpp_ptr :: "lex_stream \<Rightarrow> nat" where "get_cpp_ptr s = m_cpp_ptr s"

definition get_cpp_ptr_rtrim :: "(nat \<Rightarrow> uchar) \<Rightarrow> lex_stream \<times> memory \<Rightarrow> nat" where
  "get_cpp_ptr_rtrim m_ctype = (\<lambda>(s, m). rtrim_loop m_ctype m (m_cpp_buf s) (m_cpp_ptr s))"

definition get_body_utf8_str :: "lex_stream \<Rightarrow> nat" where "get_body_utf8_str s = m_body_utf8 s"
definition get_body_utf8_length :: "lex_stream \<Rightarrow> nat" where "get_body_utf8_length s = m_body_utf8_ptr s - m_body_utf8 s"

section \<open>The specification: a text with marks\<close>

text \<open>One mark for every character read so far: whether it was echoed. A token starts at a number of
  characters read.\<close>

record lexer =
  query :: "uchar list"
  marks :: "bool list"
  echo :: bool
  echo_saved :: bool
  token :: nat

definition echoed :: "uchar list \<Rightarrow> bool list \<Rightarrow> uchar list" where
  "echoed t bs = map fst (filter snd (zip t bs))"

lemma echoed_append: "echoed t (bs @ cs) = echoed t bs @ echoed (drop (length bs) t) cs"
proof -
  have "zip (take (length bs) t) bs = zip t bs" by (metis take_zip length_zip min.cobounded2 order_refl take_all)
  then show ?thesis by (simp add: echoed_def zip_append2)
qed

lemma echoed_replicate: "n \<le> length t \<Longrightarrow> echoed t (replicate n e) = (if e then take n t else [])"
proof (induction n arbitrary: t)
  case 0
  then show ?case by (simp add: echoed_def)
next
  case (Suc n)
  then show ?case by (cases t) (auto simp: echoed_def)
qed

lemma echoed_update: "length bs \<le> i \<Longrightarrow> echoed (t[i := c]) bs = echoed t bs"
proof (induction bs arbitrary: t i)
  case Nil
  then show ?case by (simp add: echoed_def)
next
  case (Cons b bs)
  then show ?case by (cases t; cases i) (simp_all add: echoed_def)
qed

lemma echoed_length: "length (echoed t bs) \<le> length bs"
proof -
  have "length (filter snd (zip t bs)) \<le> length (zip t bs)" by (rule length_filter_le)
  then show ?thesis by (simp add: echoed_def)
qed

datatype lex_op = Get | Peek nat | Skip | Skipn nat | Skip_binary nat | Unget | Unput uchar | Set_echo bool
  | Save | Restore | Start_token | Restart_token

text \<open>What an operation needs: the characters it reads are there, and what is put back was read
  within the token and under the same echo mode.\<close>

fun op_ok :: "lex_op \<Rightarrow> lexer \<Rightarrow> bool" where
  "op_ok Get a = (length (marks a) < length (query a))"
| "op_ok (Peek n) a = (length (marks a) + n < length (query a))"
| "op_ok Skip a = (length (marks a) < length (query a))"
| "op_ok (Skipn n) a = (length (marks a) + n \<le> length (query a))"
| "op_ok (Skip_binary n) a = (length (marks a) + n \<le> length (query a))"
| "op_ok Unget a = (token a < length (marks a) \<and> last (marks a) = echo a)"
| "op_ok (Unput c) a = (token a < length (marks a) \<and> last (marks a) = echo a)"
| "op_ok _ a = True"

definition read_n :: "nat \<Rightarrow> lexer \<Rightarrow> lexer" where
  "read_n n a = a\<lparr>marks := marks a @ replicate n (echo a)\<rparr>"

fun lexer_do :: "lex_op \<Rightarrow> lexer \<Rightarrow> uchar list \<times> lexer" where
  "lexer_do Get a = ([query a ! length (marks a)], read_n 1 a)"
| "lexer_do (Peek n) a = ([query a ! (length (marks a) + n)], a)"
| "lexer_do Skip a = ([], read_n 1 a)"
| "lexer_do (Skipn n) a = ([], read_n n a)"
| "lexer_do (Skip_binary n) a = ([], read_n n a)"
| "lexer_do Unget a = ([], a\<lparr>marks := butlast (marks a)\<rparr>)"
| "lexer_do (Unput c) a = ([], a\<lparr>marks := butlast (marks a), query := (query a)[length (marks a) - 1 := c]\<rparr>)"
| "lexer_do (Set_echo e) a = ([], a\<lparr>echo := e\<rparr>)"
| "lexer_do Save a = ([], a\<lparr>echo_saved := echo a\<rparr>)"
| "lexer_do Restore a = ([], a\<lparr>echo := echo_saved a\<rparr>)"
| "lexer_do Start_token a = ([], a\<lparr>token := length (marks a)\<rparr>)"
| "lexer_do Restart_token a = ([], a\<lparr>token := length (marks a)\<rparr>)"

fun stream_do :: "lex_op \<Rightarrow> lex_stream \<times> memory \<Rightarrow> uchar list \<times> lex_stream \<times> memory" where
  "stream_do Get sm = (let (c, sm) = yyGet sm in ([c], sm))"
| "stream_do (Peek n) sm = ([yyPeekn (int n) sm], sm)"
| "stream_do Skip sm = ([], yySkip sm)"
| "stream_do (Skipn n) sm = ([], yySkipn n sm)"
| "stream_do (Skip_binary n) sm = ([], skip_binary n sm)"
| "stream_do Unget sm = ([], yyUnget (fst sm), snd sm)"
| "stream_do (Unput c) sm = ([], snd (yyUnput c sm))"
| "stream_do (Set_echo e) sm = ([], set_echo e (fst sm), snd sm)"
| "stream_do Save sm = ([], save_in_comment_state (fst sm), snd sm)"
| "stream_do Restore sm = ([], restore_in_comment_state (fst sm), snd sm)"
| "stream_do Start_token sm = ([], start_token (fst sm), snd sm)"
| "stream_do Restart_token sm = ([], restart_token (fst sm), snd sm)"

text \<open>The stream that stands for a text with marks. The buffer of the pre-processed query has the size of
  the raw one.\<close>

definition lexes :: "lexer \<Rightarrow> lex_stream \<times> memory \<Rightarrow> bool" where
  "lexes a = (\<lambda>(s, m).
     m_end_of_query s = m_buf s + length (query a) \<and> map m [m_buf s..<m_buf s + length (query a)] = query a \<and>
     length (marks a) \<le> length (query a) \<and> token a \<le> length (marks a) \<and>
     (m_buf s + length (query a) \<le> m_cpp_buf s \<or> m_cpp_buf s + length (query a) \<le> m_buf s) \<and>
     m_ptr s = m_buf s + length (marks a) \<and> m_cpp_ptr s = m_cpp_buf s + length (echoed (query a) (marks a)) \<and>
     map m [m_cpp_buf s..<m_cpp_ptr s] = echoed (query a) (marks a) \<and>
     m_echo s = echo a \<and> m_echo_saved s = echo_saved a \<and> m_tok_start s = m_buf s + token a \<and>
     m_cpp_tok_start s = m_cpp_buf s + length (echoed (query a) (take (token a) (marks a))))"

section \<open>Every operation keeps the correspondence\<close>

lemma area_eq: "map m [p..<p + n] = xs \<longleftrightarrow> length xs = n \<and> (\<forall>i < n. m (p + i) = xs ! i)"
  by (auto simp: list_eq_iff_nth_eq)

lemma lexes_alt: "lexes a (s, m) \<longleftrightarrow>
     m_end_of_query s = m_buf s + length (query a) \<and> (\<forall>i < length (query a). m (m_buf s + i) = query a ! i) \<and>
     length (marks a) \<le> length (query a) \<and> token a \<le> length (marks a) \<and>
     (m_buf s + length (query a) \<le> m_cpp_buf s \<or> m_cpp_buf s + length (query a) \<le> m_buf s) \<and>
     m_ptr s = m_buf s + length (marks a) \<and> m_cpp_ptr s = m_cpp_buf s + length (echoed (query a) (marks a)) \<and>
     (\<forall>i < length (echoed (query a) (marks a)). m (m_cpp_buf s + i) = echoed (query a) (marks a) ! i) \<and>
     m_echo s = echo a \<and> m_echo_saved s = echo_saved a \<and> m_tok_start s = m_buf s + token a \<and>
     m_cpp_tok_start s = m_cpp_buf s + length (echoed (query a) (take (token a) (marks a)))"
  using area_eq [of m "m_buf s" "length (query a)" "query a"]
    area_eq [of m "m_cpp_buf s" "length (echoed (query a) (marks a))" "echoed (query a) (marks a)"]
  by (auto simp: lexes_def)

lemma echoed_read:
  assumes "length bs + n \<le> length t"
  shows "echoed t (bs @ replicate n e) = echoed t bs @ (if e then take n (drop (length bs) t) else [])"
  using assms by (simp add: echoed_append echoed_replicate)

lemma lexes_read:
  assumes "lexes a (s, m)" "length (marks a) + n \<le> length (query a)"
  shows "lexes (read_n n a) (yySkipn n (s, m))"
proof (cases "echo a")
  case False
  then show ?thesis using assms echoed_read [OF assms(2), of "echo a"]
    by (auto simp: lexes_alt yySkipn_def read_n_def)
next
  case True
  let ?e = "echoed (query a) (marks a)" and ?m = "memcpy m (m_cpp_ptr s) (m_ptr s) n"
  have e: "echoed (query a) (marks a @ replicate n True) = ?e @ take n (drop (length (marks a)) (query a))"
    using echoed_read [OF assms(2), of True] by simp
  have l: "length ?e \<le> length (marks a)" by (rule echoed_length)
  note s = assms(1) [unfolded lexes_alt]
  have raw: "?m (m_buf s + i) = m (m_buf s + i)" if "i < length (query a)" for i
    using s l that assms(2) by (auto simp: memcpy_def)
  have cpp: "?m (m_cpp_buf s + i) = (?e @ take n (drop (length (marks a)) (query a))) ! i" if "i < length ?e + n" for i
  proof (cases "i < length ?e")
    case True
    then show ?thesis using s by (auto simp: memcpy_def nth_append)
  next
    case False
    define j where "j = i - length ?e"
    then have j: "i = length ?e + j" "j < n" using that False by auto
    then have "length (marks a) + j < length (query a)" using assms(2) by simp
    then have "m (m_buf s + (length (marks a) + j)) = query a ! (length (marks a) + j)" using s by blast
    moreover have "m_ptr s = m_buf s + length (marks a)" "m_cpp_ptr s = m_cpp_buf s + length ?e" using s by simp_all
    ultimately show ?thesis using j assms(2) by (simp add: memcpy_def nth_append add.assoc)
  qed
  show ?thesis using s True raw cpp assms(2) by (auto simp: lexes_alt yySkipn_def read_n_def e)
qed

lemma memcpy_1: "memcpy m d q 1 = m(d := m q)"
  by (rule ext) (auto simp: memcpy_def)

lemma readers_are_skips: "snd (yyGet sm) = yySkipn 1 sm" "yySkip sm = yySkipn 1 sm" "skip_binary n sm = yySkipn n sm"
  using memcpy_1 by (auto simp: yyGet_def yySkip_def yySkipn_def skip_binary_def split_def Let_def simp del: One_nat_def)

lemma echoed_snoc:
  assumes "length bs < length t"
  shows "echoed t (bs @ [e]) = echoed t bs @ (if e then [t ! length bs] else [])"
  using echoed_read [of bs 1 t e] assms by (simp add: take_Suc hd_drop_conv_nth)

lemma unread_mark:
  assumes "lexes a (s, m)" "token a < length (marks a)" "last (marks a) = echo a"
  obtains bs where "marks a = bs @ [echo a]" "length bs < length (query a)" "token a \<le> length bs"
proof (cases "marks a" rule: rev_cases)
  case Nil
  then show ?thesis using assms(2) by simp
next
  case (snoc bs e)
  then show ?thesis using assms that [of bs] by (simp add: lexes_alt)
qed

lemma lexes_unput:
  assumes "lexes a (s, m)" "op_ok (Unput c) a"
  shows "lexes (snd (lexer_do (Unput c) a)) (snd (yyUnput c (s, m)))"
proof -
  obtain bs where bs: "marks a = bs @ [echo a]" and len: "length bs < length (query a)" "token a \<le> length bs"
    using unread_mark [OF assms(1)] assms(2) by auto
  note s = assms(1) [unfolded lexes_alt]
  have e: "echoed ((query a)[length bs := c]) bs = echoed (query a) bs"
    "echoed ((query a)[length bs := c]) (take (token a) bs) = echoed (query a) (take (token a) bs)"
    by (rule echoed_update; simp)+
  have l: "length (echoed (query a) bs) \<le> length bs" by (rule echoed_length)
  have eb: "echoed (query a) (marks a) = echoed (query a) bs @ (if echo a then [query a ! length bs] else [])"
    unfolding bs using echoed_snoc [OF len(1)] .
  let ?m = "m(m_buf s + length bs := c)"
  have "snd (yyUnput c (s, m)) = (s\<lparr>m_ptr := m_buf s + length bs, m_cpp_ptr := m_cpp_buf s + length (echoed (query a) bs)\<rparr>, ?m)"
    using s eb bs by (cases "echo a") (simp_all add: yyUnput_def Let_def)
  moreover have "\<forall>i < length (query a). ?m (m_buf s + i) = (query a)[length bs := c] ! i"
    using s by (simp add: nth_list_update)
  moreover have "\<forall>i < length (echoed (query a) bs). ?m (m_cpp_buf s + i) = echoed (query a) bs ! i"
  proof (intro allI impI)
    fix i
    assume i: "i < length (echoed (query a) bs)"
    then have "m (m_cpp_buf s + i) = echoed (query a) (marks a) ! i" using s eb by simp
    then have "m (m_cpp_buf s + i) = echoed (query a) bs ! i" unfolding eb using i by (simp add: nth_append)
    moreover have "m_cpp_buf s + i \<noteq> m_buf s + length bs" using s i l len(1) by auto
    ultimately show "?m (m_cpp_buf s + i) = echoed (query a) bs ! i" by simp
  qed
  moreover have "take (token a) (marks a) = take (token a) bs" using bs len(2) by simp
  ultimately show ?thesis using s len bs by (simp add: lexes_alt e)
qed

lemma lexes_unget:
  assumes "lexes a (s, m)" "op_ok Unget a"
  shows "lexes (snd (lexer_do Unget a)) (yyUnget s, m)"
proof -
  obtain bs where bs: "marks a = bs @ [echo a]" and len: "length bs < length (query a)" "token a \<le> length bs"
    using unread_mark [OF assms(1)] assms(2) by auto
  note s = assms(1) [unfolded lexes_alt]
  have eb: "echoed (query a) (marks a) = echoed (query a) bs @ (if echo a then [query a ! length bs] else [])"
    unfolding bs using echoed_snoc [OF len(1)] .
  have "yyUnget s = s\<lparr>m_ptr := m_buf s + length bs, m_cpp_ptr := m_cpp_buf s + length (echoed (query a) bs)\<rparr>"
    using s eb bs by (cases "echo a") (simp_all add: yyUnget_def Let_def)
  moreover have "\<forall>i < length (echoed (query a) bs). m (m_cpp_buf s + i) = echoed (query a) bs ! i"
    using s unfolding eb by (simp add: nth_append)
  moreover have "take (token a) (marks a) = take (token a) bs" using bs len(2) by simp
  ultimately show ?thesis using s len bs by (simp add: lexes_alt)
qed

lemma lexes_step:
  assumes "lexes a sm" "op_ok p a"
  shows "fst (stream_do p sm) = fst (lexer_do p a) \<and> lexes (snd (lexer_do p a)) (snd (stream_do p sm))"
proof -
  obtain s m where sm: "sm = (s, m)" by (cases sm)
  note s = assms(1) [unfolded sm]
  show ?thesis
  proof (cases p)
    case Get
    then have "fst (yyGet (s, m)) = query a ! length (marks a)"
      using s assms(2) by (auto simp: lexes_alt yyGet_def Let_def)
    then show ?thesis using lexes_read [OF s, of 1] readers_are_skips(1) [of "(s, m)"] assms(2)
      by (simp add: sm Get split_def)
  next
    case (Peek n)
    then show ?thesis using s assms(2) by (auto simp: sm lexes_alt yyPeekn_def nat_int_add add.assoc)
  next
    case (Unput c)
    then show ?thesis using lexes_unput [OF s] assms(2) by (simp add: sm)
  next
    case Unget
    then show ?thesis using lexes_unget [OF s] assms(2) by (simp add: sm)
  qed (use s lexes_read [OF s] assms(2) in \<open>auto simp: sm readers_are_skips lexes_alt set_echo_def save_in_comment_state_def
      restore_in_comment_state_def start_token_def restart_token_def simp del: One_nat_def\<close>)
qed

section \<open>Sequences of operations\<close>

fun lexer_run :: "lex_op list \<Rightarrow> lexer \<Rightarrow> uchar list \<times> lexer" where
  "lexer_run [] a = ([], a)"
| "lexer_run (p # ps) a = (let (cs, a) = lexer_do p a; (ds, a) = lexer_run ps a in (cs @ ds, a))"

fun stream_run :: "lex_op list \<Rightarrow> lex_stream \<times> memory \<Rightarrow> uchar list \<times> lex_stream \<times> memory" where
  "stream_run [] sm = ([], sm)"
| "stream_run (p # ps) sm = (let (cs, sm) = stream_do p sm; (ds, sm) = stream_run ps sm in (cs @ ds, sm))"

fun ops_ok :: "lex_op list \<Rightarrow> lexer \<Rightarrow> bool" where
  "ops_ok [] a = True"
| "ops_ok (p # ps) a = (op_ok p a \<and> ops_ok ps (snd (lexer_do p a)))"

lemma lexes_run:
  assumes "lexes a sm" "ops_ok ps a"
  shows "fst (stream_run ps sm) = fst (lexer_run ps a) \<and> lexes (snd (lexer_run ps a)) (snd (stream_run ps sm))"
  using assms
proof (induction ps arbitrary: a sm)
  case (Cons p ps)
  have "fst (stream_do p sm) = fst (lexer_do p a)" "lexes (snd (lexer_do p a)) (snd (stream_do p sm))"
    using lexes_step [OF Cons.prems(1)] Cons.prems(2) by auto
  with Cons.IH [OF this(2)] Cons.prems(2) show ?case by (simp add: split_def Let_def)
qed simp

text \<open>Nothing but the two buffers is written.\<close>

definition outside :: "lex_stream \<Rightarrow> nat \<Rightarrow> bool" where
  "outside s x \<longleftrightarrow> \<not> (m_buf s \<le> x \<and> x < m_end_of_query s) \<and> \<not> (m_cpp_buf s \<le> x \<and> x < m_cpp_buf s + (m_end_of_query s - m_buf s))"

lemma step_frame:
  assumes "lexes a (s, m)" "op_ok p a" "stream_do p (s, m) = (cs, s', m')"
  shows "m_buf s' = m_buf s \<and> m_cpp_buf s' = m_cpp_buf s \<and> m_end_of_query s' = m_end_of_query s \<and> (outside s x \<longrightarrow> m' x = m x)"
proof -
  note s = assms(1) [unfolded lexes_alt]
  have "length (echoed (query a) (marks a)) \<le> length (marks a)" by (rule echoed_length)
  then have skip: "m_buf (fst (yySkipn n (s, m))) = m_buf s \<and> m_cpp_buf (fst (yySkipn n (s, m))) = m_cpp_buf s \<and>
      m_end_of_query (fst (yySkipn n (s, m))) = m_end_of_query s \<and>
      (outside s x \<longrightarrow> snd (yySkipn n (s, m)) x = m x)" if "length (marks a) + n \<le> length (query a)" for n
    using s that by (auto simp: yySkipn_def memcpy_def outside_def)
  have states: "m_buf (f s) = m_buf s \<and> m_cpp_buf (f s) = m_cpp_buf s \<and> m_end_of_query (f s) = m_end_of_query s"
    if "f \<in> {yyUnget, set_echo e, save_in_comment_state, restore_in_comment_state, start_token, restart_token}" for f e
    using that by (auto simp: yyUnget_def Let_def set_echo_def save_in_comment_state_def restore_in_comment_state_def
        start_token_def restart_token_def)
  show ?thesis
  proof (cases p)
    case Get
    then show ?thesis using skip [of 1] readers_are_skips(1) [of "(s, m)"] assms(2,3)
      by (auto simp: split_def Let_def prod_eq_iff)
  next
    case (Peek n)
    then show ?thesis using assms(3) by simp
  next
    case Skip
    then show ?thesis using skip [of 1] assms(2,3) by (simp add: readers_are_skips prod_eq_iff)
  next
    case (Skipn n)
    then show ?thesis using skip [of n] assms(2,3) by (simp add: prod_eq_iff)
  next
    case (Skip_binary n)
    then show ?thesis using skip [of n] assms(2,3) by (simp add: readers_are_skips prod_eq_iff)
  next
    case (Unput c)
    have "m_buf s' = m_buf s \<and> m_cpp_buf s' = m_cpp_buf s \<and> m_end_of_query s' = m_end_of_query s \<and> m' = m(m_ptr s - 1 := c)"
      using Unput assms(3) by (auto simp: yyUnput_def Let_def split: if_splits)
    moreover have "m_buf s \<le> m_ptr s - 1" "m_ptr s - 1 < m_end_of_query s" using s assms(2) Unput by auto
    ultimately show ?thesis by (auto simp: outside_def)
  next
    case (Set_echo e)
    then show ?thesis using states [of "set_echo e" e] assms(3) by auto
  qed (use states assms(3) in auto)
qed

lemma run_frame:
  assumes "lexes a (s, m)" "ops_ok ps a" "stream_run ps (s, m) = (cs, s', m')"
  shows "m_buf s' = m_buf s \<and> m_cpp_buf s' = m_cpp_buf s \<and> m_end_of_query s' = m_end_of_query s \<and> (outside s x \<longrightarrow> m' x = m x)"
  using assms
proof (induction ps arbitrary: a s m cs)
  case (Cons p ps)
  obtain ds s1 m1 where p: "stream_do p (s, m) = (ds, s1, m1)" by (metis prod_cases3)
  have 1: "m_buf s1 = m_buf s \<and> m_cpp_buf s1 = m_cpp_buf s \<and> m_end_of_query s1 = m_end_of_query s \<and> (outside s x \<longrightarrow> m1 x = m x)"
    using step_frame [OF Cons.prems(1) _ p] Cons.prems(2) by simp
  have "lexes (snd (lexer_do p a)) (s1, m1)" using lexes_step [OF Cons.prems(1), of p] Cons.prems(2) p by simp
  moreover obtain cs' where "stream_run ps (s1, m1) = (cs', s', m')" using Cons.prems(3) p by (auto simp: split_def Let_def prod_eq_iff)
  ultimately show ?case using Cons.IH [of "snd (lexer_do p a)" s1 m1 cs'] Cons.prems(2) 1 by (auto simp: outside_def)
qed simp

text \<open>Trailing spaces.\<close>

lemma rtrim_loop_spec:
  "map m [buf..<rtrim_loop ct m buf p] = rev (dropWhile (my_isspace ct) (rev (map m [buf..<p])))"
proof (induction ct m buf p rule: rtrim_loop.induct)
  case (1 ct m buf p)
  show ?case
  proof (cases "p > buf")
    case True
    then obtain q where q: "p = Suc q" "buf \<le> q" by (cases p) auto
    then show ?thesis using 1 by (subst rtrim_loop.simps) auto
  next
    case False
    then show ?thesis by (subst rtrim_loop.simps) simp
  qed
qed

section \<open>Properties\<close>

lemma token_texts:
  assumes "lexes a (s, m)"
  shows "map m [m_tok_start s..<m_ptr s] = drop (token a) (take (length (marks a)) (query a))"
    "map m [m_cpp_tok_start s..<m_cpp_ptr s] = echoed (drop (token a) (query a)) (drop (token a) (marks a))"
proof -
  note s = assms [unfolded lexes_def prod.case]
  have "m_ptr s = m_buf s + length (marks a)" "length (marks a) \<le> length (query a)" using s by simp_all
  then have "map m [m_buf s..<m_ptr s] = take (length (marks a)) (map m [m_buf s..<m_buf s + length (query a)])"
    by (simp add: take_map)
  also have "\<dots> = take (length (marks a)) (query a)" using s by simp
  finally have raw: "map m [m_buf s..<m_ptr s] = take (length (marks a)) (query a)" .
  have "map m [m_tok_start s..<m_ptr s] = drop (token a) (map m [m_buf s..<m_ptr s])"
    using s by (simp add: drop_map)
  then show "map m [m_tok_start s..<m_ptr s] = drop (token a) (take (length (marks a)) (query a))" unfolding raw .
  have e: "echoed (query a) (marks a)
      = echoed (query a) (take (token a) (marks a)) @ echoed (drop (token a) (query a)) (drop (token a) (marks a))"
    using echoed_append [of "query a" "take (token a) (marks a)" "drop (token a) (marks a)"] s by (simp add: min_absorb2)
  have "map m [m_cpp_tok_start s..<m_cpp_ptr s]
      = drop (length (echoed (query a) (take (token a) (marks a)))) (map m [m_cpp_buf s..<m_cpp_ptr s])"
    using s by (simp add: drop_map)
  also have "map m [m_cpp_buf s..<m_cpp_ptr s] = echoed (query a) (marks a)" using s by blast
  finally show "map m [m_cpp_tok_start s..<m_cpp_ptr s] = echoed (drop (token a) (query a)) (drop (token a) (marks a))"
    unfolding e by simp
qed

text \<open>
  C36. The stream of the lexer copies what it reads. After any sequence of reading, skipping, looking ahead,
  putting back, switching echo, saving and restoring it and starting tokens, in which only characters of the query
  are read and what is put back was read in the token under the same echo mode: the characters given are those of the
  query; the pre-processed buffer holds exactly the characters that were read while echo was on and never
  outgrows the query; the two token pointers delimit the raw text of the token and its copy; the stream is at
  its end exactly if all is read; the trimmed end cuts the trailing spaces; and nothing outside the two
  buffers is written.
\<close>

theorem lexer_copies_what_it_reads:
  assumes "lexes a (s, m)" "ops_ok ps a"
  shows "let (cs, s', m') = stream_run ps (s, m); (ds, a') = lexer_run ps a in
     cs = ds \<and> map m' [get_buf s'..<get_end_of_query s'] = query a' \<and>
     map m' [get_cpp_buf s'..<get_cpp_ptr s'] = echoed (query a') (marks a') \<and>
     get_cpp_ptr s' - get_cpp_buf s' \<le> get_ptr s' - get_buf s' \<and> get_ptr s' \<le> get_end_of_query s' \<and>
     (\<not> has_lookahead s' \<longrightarrow>
        map m' [get_tok_start s'..<get_ptr s'] = drop (token a') (take (length (marks a')) (query a')) \<and>
        map m' [get_cpp_tok_start s'..<get_cpp_ptr s'] = echoed (drop (token a') (query a')) (drop (token a') (marks a'))) \<and>
     (eof s' \<longleftrightarrow> length (marks a') = length (query a')) \<and>
     map m' [get_cpp_buf s'..<get_cpp_ptr_rtrim ct (s', m')]
       = rev (dropWhile (my_isspace ct) (rev (echoed (query a') (marks a')))) \<and>
     (\<forall>x. outside s x \<longrightarrow> m' x = m x)"
proof -
  obtain cs s' m' where r: "stream_run ps (s, m) = (cs, s', m')" by (metis prod_cases3)
  obtain ds a' where ra: "lexer_run ps a = (ds, a')" by (cases "lexer_run ps a")
  have 1: "cs = ds" "lexes a' (s', m')" using lexes_run [OF assms] r ra by simp_all
  note s = 1(2) [unfolded lexes_def prod.case]
  have tok: "\<not> has_lookahead s' \<longrightarrow>
      map m' [get_tok_start s'..<get_ptr s'] = drop (token a') (take (length (marks a')) (query a')) \<and>
      map m' [get_cpp_tok_start s'..<get_cpp_ptr s'] = echoed (drop (token a') (query a')) (drop (token a') (marks a'))"
    using token_texts [OF 1(2)] by (simp add: get_tok_start_def get_ptr_def get_cpp_tok_start_def get_cpp_ptr_def)
  have cpp: "map m' [m_cpp_buf s'..<m_cpp_ptr s'] = echoed (query a') (marks a')" using s by blast
  have len: "m_cpp_ptr s' - m_cpp_buf s' \<le> m_ptr s' - m_buf s'" "m_ptr s' \<le> m_end_of_query s'"
      "eof s' \<longleftrightarrow> length (marks a') = length (query a')"
    using s echoed_length [of "query a'" "marks a'"] by (auto simp: eof_def)
  have raw: "map m' [m_buf s'..<m_end_of_query s'] = query a'" using s by metis
  have rtrim: "map m' [get_cpp_buf s'..<get_cpp_ptr_rtrim ct (s', m')]
       = rev (dropWhile (my_isspace ct) (rev (echoed (query a') (marks a'))))"
    unfolding cpp [symmetric] by (simp add: get_cpp_buf_def get_cpp_ptr_rtrim_def rtrim_loop_spec)
  have "\<forall>x. outside s x \<longrightarrow> m' x = m x" using run_frame [OF assms r] by blast
  then show ?thesis
    using 1(1) tok cpp len raw rtrim
    unfolding r ra Let_def prod.case get_buf_def get_end_of_query_def get_cpp_buf_def get_cpp_ptr_def get_ptr_def by blast
qed

text \<open>The query \<open>1/*2*/3\<close>, whose comment is read without echo.\<close>

definition sample_query :: "uchar list" where "sample_query = [49, 47, 42, 50, 42, 47, 51]"

definition sample_stream :: lex_stream where
  "sample_stream =
     \<lparr>lookahead_token = -1, m_ptr = 0, m_tok_start = 0, m_tok_end = 0, m_end_of_query = 7, m_tok_start_prev = 0, m_buf = 0,
      m_buf_length = 7, m_echo = True, m_echo_saved = True, m_cpp_buf = 10, m_cpp_ptr = 10, m_cpp_tok_start = 10,
      m_cpp_tok_start_prev = 10, m_cpp_tok_end = 10, m_body_utf8 = 0, m_body_utf8_ptr = 0, m_cpp_utf8_processed_ptr = 10,
      next_state = MY_LEX_START, found_semicolon = 0, ignore_space = False, stmt_prepare_mode = False,
      multi_statements = False, yylineno = 1, in_comment = NO_COMMENT, in_comment_saved = NO_COMMENT,
      m_cpp_text_start = 0, m_cpp_text_end = 0\<rparr>"

lemma lexer_copies_what_it_reads_witness:
  "let a = \<lparr>query = sample_query, marks = [], echo = True, echo_saved = True, token = 0\<rparr>;
       m = (\<lambda>x. if x < 7 then sample_query ! x else 0);
       (cs, s', m') = stream_run [Get, Start_token, Save, Set_echo False, Skipn 5, Restore, Get] (sample_stream, m)
   in cs = [49, 51] \<and> map m' [get_cpp_buf s'..<get_cpp_ptr s'] = [49, 51] \<and> eof s'"
proof -
  let ?a = "\<lparr>query = sample_query, marks = [], echo = True, echo_saved = True, token = 0\<rparr>"
  let ?m = "\<lambda>x. if x < 7 then sample_query ! x else 0"
  let ?ps = "[Get, Start_token, Save, Set_echo False, Skipn 5, Restore, Get]"
  have "lexes ?a (sample_stream, ?m)"
    by (simp add: lexes_def sample_stream_def sample_query_def echoed_def upt_conv_Cons)
  moreover have "ops_ok ?ps ?a" by (simp add: read_n_def sample_query_def)
  moreover have "lexer_run ?ps ?a = ([49, 51], ?a\<lparr>marks := [True, False, False, False, False, False, True], token := 1\<rparr>)"
    by (simp add: read_n_def sample_query_def numeral_eq_Suc)
  ultimately show ?thesis
    using lexer_copies_what_it_reads [of ?a sample_stream ?m ?ps]
    by (simp add: split_def Let_def echoed_def sample_query_def)
qed

end
