(* ===== verification/Mdl_Keys.thy ===== *)
theory Mdl_Keys
  imports Byte_Codecs "HOL-Library.List_Lexorder"
begin

text \<open>
  Metadata locks of \<open>mdl.h\<close>: the key that names an object, a namespace byte followed by the names of database
  and object, each ended by a zero byte; requests, tickets and the context of a connection. The functions
  that grant locks are declared only.
\<close>

section \<open>Types and durations of locks\<close>

text \<open>The backup locks are numbers of the same type beyond those the enumeration names.\<close>

type_synonym enum_mdl_type = int

definition MDL_NOT_INITIALIZED :: enum_mdl_type where "MDL_NOT_INITIALIZED = -1"
definition MDL_INTENTION_EXCLUSIVE :: enum_mdl_type where "MDL_INTENTION_EXCLUSIVE = 0"
definition MDL_SHARED :: enum_mdl_type where "MDL_SHARED = 1"
definition MDL_SHARED_HIGH_PRIO :: enum_mdl_type where "MDL_SHARED_HIGH_PRIO = 2"
definition MDL_SHARED_READ :: enum_mdl_type where "MDL_SHARED_READ = 3"
definition MDL_SHARED_WRITE :: enum_mdl_type where "MDL_SHARED_WRITE = 4"
definition MDL_SHARED_UPGRADABLE :: enum_mdl_type where "MDL_SHARED_UPGRADABLE = 5"
definition MDL_SHARED_READ_ONLY :: enum_mdl_type where "MDL_SHARED_READ_ONLY = 6"
definition MDL_SHARED_NO_WRITE :: enum_mdl_type where "MDL_SHARED_NO_WRITE = 7"
definition MDL_SHARED_NO_READ_WRITE :: enum_mdl_type where "MDL_SHARED_NO_READ_WRITE = 8"
definition MDL_EXCLUSIVE :: enum_mdl_type where "MDL_EXCLUSIVE = 9"
definition MDL_TYPE_END :: enum_mdl_type where "MDL_TYPE_END = 10"

lemmas mdl_types = MDL_NOT_INITIALIZED_def MDL_INTENTION_EXCLUSIVE_def MDL_SHARED_def MDL_SHARED_HIGH_PRIO_def
  MDL_SHARED_READ_def MDL_SHARED_WRITE_def MDL_SHARED_UPGRADABLE_def MDL_SHARED_READ_ONLY_def MDL_SHARED_NO_WRITE_def
  MDL_SHARED_NO_READ_WRITE_def MDL_EXCLUSIVE_def MDL_TYPE_END_def

datatype enum_mdl_duration = MDL_STATEMENT | MDL_TRANSACTION | MDL_EXPLICIT | MDL_DURATION_END

section \<open>Keys\<close>

datatype enum_mdl_namespace = BACKUP | SCHEMA | TABLE | FUNCTION | PROCEDURE | PACKAGE_BODY | TRIGGER | EVENT | USER_LOCK
  | NAMESPACE_END

definition namespaces :: "enum_mdl_namespace list" where
  "namespaces = [BACKUP, SCHEMA, TABLE, FUNCTION, PROCEDURE, PACKAGE_BODY, TRIGGER, EVENT, USER_LOCK, NAMESPACE_END]"

fun namespace_code :: "enum_mdl_namespace \<Rightarrow> uchar" where
  "namespace_code BACKUP = 0" | "namespace_code SCHEMA = 1" | "namespace_code TABLE = 2" | "namespace_code FUNCTION = 3"
| "namespace_code PROCEDURE = 4" | "namespace_code PACKAGE_BODY = 5" | "namespace_code TRIGGER = 6"
| "namespace_code EVENT = 7" | "namespace_code USER_LOCK = 8" | "namespace_code NAMESPACE_END = 9"

definition NAME_CHAR_LEN :: nat where "NAME_CHAR_LEN = 64"
definition SYSTEM_CHARSET_MBMAXLEN :: nat where "SYSTEM_CHARSET_MBMAXLEN = 3"
definition NAME_LEN :: nat where "NAME_LEN = NAME_CHAR_LEN * SYSTEM_CHARSET_MBMAXLEN"
definition MAX_MDLKEY_LENGTH :: nat where "MAX_MDLKEY_LENGTH = 1 + NAME_LEN + 1 + NAME_LEN + 1"

text \<open>The buffer of a key starts at 0.\<close>

record MDL_key =
  m_length :: uint16
  m_db_name_length :: uint16
  m_hash_value :: uint32
  m_key_ptr :: memory

definition key_length :: "MDL_key \<Rightarrow> uint" where "key_length k = ucast (m_length k)"
definition key_db_name :: "MDL_key \<Rightarrow> nat" where "key_db_name k = 1"
definition db_name_length :: "MDL_key \<Rightarrow> uint" where "db_name_length k = ucast (m_db_name_length k)"
definition key_name :: "MDL_key \<Rightarrow> nat" where "key_name k = unat (m_db_name_length k) + 2"

definition name_length :: "MDL_key \<Rightarrow> uint" where
  "name_length k = ucast (m_length k) - ucast (m_db_name_length k) - 3"

definition mdl_namespace :: "MDL_key \<Rightarrow> enum_mdl_namespace" where
  "mdl_namespace k = namespaces ! unat (m_key_ptr k 0)"

text \<open>\<open>strmake\<close> writes a string into a memory and gives the end; \<open>my_hash_sort\<close> with the binary character set
  hashes bytes. Both are declared only. C strings are the bytes before their end.\<close>

record mdl_functions =
  strmake :: "memory \<Rightarrow> nat \<Rightarrow> uchar list \<Rightarrow> nat \<Rightarrow> memory \<times> nat"
  bin_hash_sort :: "uchar list \<Rightarrow> uint32"

definition mdl_key_init :: "mdl_functions \<Rightarrow> enum_mdl_namespace \<Rightarrow> uchar list \<Rightarrow> uchar list \<Rightarrow> MDL_key \<Rightarrow> MDL_key" where
  "mdl_key_init F mdl_namespace_arg db name_arg k =
     (let m = (m_key_ptr k)(0 := namespace_code mdl_namespace_arg);
          (m, db_end) = strmake F m 1 db NAME_LEN;
          k = k\<lparr>m_db_name_length := of_nat (db_end - 1)\<rparr>;
          (m, name_end) = strmake F m (unat (m_db_name_length k) + 2) name_arg NAME_LEN;
          k = k\<lparr>m_length := of_nat (name_end + 1)\<rparr>
      in k\<lparr>m_hash_value := bin_hash_sort F (area m 1 (unat (m_length k) - 1)), m_key_ptr := m\<rparr>)"

definition mdl_key_copy :: "MDL_key \<Rightarrow> MDL_key \<Rightarrow> MDL_key" where
  "mdl_key_copy rhs k = k
     \<lparr>m_key_ptr := write_bytes (m_key_ptr k) 0 (area (m_key_ptr rhs) 0 (unat (m_length rhs))),
      m_length := m_length rhs, m_db_name_length := m_db_name_length rhs, m_hash_value := m_hash_value rhs\<rparr>"

text \<open>\<open>memcmp\<close> of the C library, of which only the sign is defined.\<close>

definition memcmp :: "memory \<Rightarrow> memory \<Rightarrow> nat \<Rightarrow> int" where
  "memcmp m m' n = (if memcmp_less (area m 0 n) (area m' 0 n) then -1 else of_bool (memcmp_less (area m' 0 n) (area m 0 n)))"

definition key_is_equal :: "MDL_key \<Rightarrow> MDL_key \<Rightarrow> bool" where
  "key_is_equal k rhs \<longleftrightarrow> m_length k = m_length rhs \<and> memcmp (m_key_ptr k) (m_key_ptr rhs) (unat (m_length k)) = 0"

definition key_cmp_mdl :: "MDL_key \<Rightarrow> MDL_key \<Rightarrow> int" where
  "key_cmp_mdl k rhs = memcmp (m_key_ptr k) (m_key_ptr rhs) (unat (min (m_length k) (m_length rhs)))"

definition key_hash_value :: "MDL_key \<Rightarrow> uint32" where
  "key_hash_value k = m_hash_value k + ucast (m_key_ptr k 0)"

definition tc_hash_value :: "MDL_key \<Rightarrow> uint32" where
  "tc_hash_value k = m_hash_value k"

section \<open>Requests\<close>

record MDL_request =
  req_type :: enum_mdl_type
  req_duration :: enum_mdl_duration
  next_in_list :: nat
  prev_in_list :: nat
  req_ticket :: nat
  req_key :: MDL_key
  m_src_file :: nat
  m_src_line :: uint

definition set_type :: "enum_mdl_type \<Rightarrow> MDL_request \<Rightarrow> MDL_request" where
  "set_type type_arg r = r\<lparr>req_type := type_arg\<rparr>"

text \<open>The request moved to, and the one moved from.\<close>

definition move_from :: "MDL_request \<Rightarrow> MDL_request \<Rightarrow> MDL_request \<times> MDL_request" where
  "move_from r from =
     (r\<lparr>req_type := req_type from, req_duration := req_duration from, req_ticket := req_ticket from,
        next_in_list := next_in_list from, prev_in_list := prev_in_list from, req_key := mdl_key_copy (req_key from) (req_key r)\<rparr>,
      from\<lparr>req_ticket := 0\<rparr>)"

definition is_write_lock_request :: "MDL_request \<Rightarrow> bool" where
  "is_write_lock_request r \<longleftrightarrow> req_type r \<ge> MDL_SHARED_WRITE \<and> req_type r \<noteq> MDL_SHARED_READ_ONLY"

definition request_assign :: "MDL_request \<Rightarrow> MDL_request" where
  "request_assign r = r\<lparr>req_type := MDL_NOT_INITIALIZED, req_ticket := 0\<rparr>"

text \<open>The constructors work on what is in memory.\<close>

definition request_new :: "MDL_request \<Rightarrow> MDL_request" where
  "request_new r = r\<lparr>req_type := MDL_NOT_INITIALIZED, req_ticket := 0\<rparr>"

definition request_from :: "MDL_request \<Rightarrow> MDL_request \<Rightarrow> MDL_request" where
  "request_from rhs r = r
     \<lparr>req_type := req_type rhs, req_duration := req_duration rhs, req_ticket := 0, req_key := mdl_key_copy (req_key rhs) (req_key r)\<rparr>"

section \<open>Tickets and contexts\<close>

datatype enum_deadlock_weight = DEADLOCK_WEIGHT_FTWRL1 | DEADLOCK_WEIGHT_DML | DEADLOCK_WEIGHT_DDL
datatype enum_psi_status = PENDING | GRANTED | PRE_ACQUIRE_NOTIFY | POST_RELEASE_NOTIFY

record MDL_ticket =
  next_in_context :: nat
  prev_in_context :: nat
  m_type :: enum_mdl_type
  m_ctx :: nat
  m_lock :: nat
  m_psi :: nat

definition ticket_new :: "nat \<Rightarrow> enum_mdl_type \<Rightarrow> MDL_ticket \<Rightarrow> MDL_ticket" where
  "ticket_new ctx_arg type_arg t = t\<lparr>m_type := type_arg, m_ctx := ctx_arg, m_lock := 0, m_psi := 0\<rparr>"

definition get_ctx :: "MDL_ticket \<Rightarrow> nat" where "get_ctx t = m_ctx t"

definition is_upgradable_or_exclusive :: "MDL_ticket \<Rightarrow> bool" where
  "is_upgradable_or_exclusive t \<longleftrightarrow>
     m_type t = MDL_SHARED_UPGRADABLE \<or> m_type t = MDL_SHARED_NO_WRITE \<or> m_type t = MDL_SHARED_NO_READ_WRITE \<or>
     m_type t = MDL_EXCLUSIVE"

definition get_type :: "MDL_ticket \<Rightarrow> enum_mdl_type" where "get_type t = m_type t"
definition get_lock :: "MDL_ticket \<Rightarrow> nat" where "get_lock t = m_lock t"

record MDL_savepoint =
  m_stmt_ticket :: nat
  m_trans_ticket :: nat

datatype enum_wait_status = WAIT_EMPTY | WAIT_GRANTED | VICTIM | WAIT_TIMEOUT | KILLED

text \<open>The lists of tickets are given by their first elements.\<close>

record MDL_context =
  m_tickets :: "enum_mdl_duration \<Rightarrow> nat"
  m_owner :: nat
  m_needs_thr_lock_abort :: bool
  m_waiting_for :: nat
  m_deadlock_overweight :: uint

definition has_locks :: "MDL_context \<Rightarrow> bool" where
  "has_locks c \<longleftrightarrow> \<not> (m_tickets c MDL_STATEMENT = 0 \<and> m_tickets c MDL_TRANSACTION = 0 \<and> m_tickets c MDL_EXPLICIT = 0)"

definition has_explicit_locks :: "MDL_context \<Rightarrow> bool" where
  "has_explicit_locks c \<longleftrightarrow> m_tickets c MDL_EXPLICIT \<noteq> 0"

definition has_transactional_locks :: "MDL_context \<Rightarrow> bool" where
  "has_transactional_locks c \<longleftrightarrow> m_tickets c MDL_TRANSACTION \<noteq> 0"

definition mdl_savepoint :: "MDL_context \<Rightarrow> MDL_savepoint" where
  "mdl_savepoint c = \<lparr>m_stmt_ticket = m_tickets c MDL_STATEMENT, m_trans_ticket = m_tickets c MDL_TRANSACTION\<rparr>"

definition get_owner :: "MDL_context \<Rightarrow> nat" where "get_owner c = m_owner c"

text \<open>The weight of the edge waited for is given by a virtual function.\<close>

definition get_deadlock_weight :: "(nat \<Rightarrow> uint) \<Rightarrow> MDL_context \<Rightarrow> uint" where
  "get_deadlock_weight weight_of c = weight_of (m_waiting_for c) + m_deadlock_overweight c"

definition inc_deadlock_overweight :: "MDL_context \<Rightarrow> MDL_context" where
  "inc_deadlock_overweight c = c\<lparr>m_deadlock_overweight := m_deadlock_overweight c + 1\<rparr>"

definition context_init :: "nat \<Rightarrow> MDL_context \<Rightarrow> MDL_context" where
  "context_init arg c = c\<lparr>m_owner := arg\<rparr>"

definition set_needs_thr_lock_abort :: "bool \<Rightarrow> MDL_context \<Rightarrow> MDL_context" where
  "set_needs_thr_lock_abort needs c = c\<lparr>m_needs_thr_lock_abort := needs\<rparr>"

definition get_needs_thr_lock_abort :: "MDL_context \<Rightarrow> bool" where
  "get_needs_thr_lock_abort c = m_needs_thr_lock_abort c"

definition will_wait_for :: "nat \<Rightarrow> MDL_context \<Rightarrow> MDL_context" where
  "will_wait_for waiting_for_arg c = c\<lparr>m_waiting_for := waiting_for_arg\<rparr>"

definition done_waiting_for :: "MDL_context \<Rightarrow> MDL_context" where
  "done_waiting_for c = c\<lparr>m_waiting_for := 0\<rparr>"

section \<open>The bytes of a key\<close>

definition c_name :: "uchar list \<Rightarrow> bool" where
  "c_name s \<longleftrightarrow> 0 \<notin> set s \<and> length s \<le> NAME_LEN"

definition strmake_ok :: "mdl_functions \<Rightarrow> bool" where
  "strmake_ok F \<longleftrightarrow> (\<forall>m d s n. 0 \<notin> set s \<longrightarrow> strmake F m d s n = (write_bytes m d (take n s @ [0]), d + min n (length s)))"

definition key_bytes :: "enum_mdl_namespace \<Rightarrow> uchar list \<Rightarrow> uchar list \<Rightarrow> uchar list" where
  "key_bytes ns db name = namespace_code ns # db @ 0 # name @ [0]"

lemma area_nth: "area m p n ! i = m (p + i)" if "i < n"
  using that by (simp add: area_def)

lemma area_length [simp]: "length (area m p n) = n"
  by (simp add: area_def)

lemma area_prefix:
  assumes "n \<le> length bs"
  shows "area (write_bytes m p bs) p n = take n bs"
  using assms by (intro nth_equalityI) (simp_all add: area_nth write_bytes_def)

lemma small_16: "n < 65536 \<Longrightarrow> unat (of_nat n :: uint16) = n"
  by (simp add: unat_of_nat)

lemma key_init:
  fixes ns k
  assumes "strmake_ok F" "c_name db" "c_name name"
  defines "k' \<equiv> mdl_key_init F ns db name k"
  shows "m_key_ptr k' = write_bytes (m_key_ptr k) 0 (key_bytes ns db name)" "unat (m_length k') = length db + length name + 3"
    "unat (m_db_name_length k') = length db" "m_hash_value k' = bin_hash_sort F (db @ 0 # name @ [0])"
proof -
  have len: "length db \<le> 192" "length name \<le> 192"
    using assms(2,3) by (simp_all add: c_name_def NAME_LEN_def NAME_CHAR_LEN_def SYSTEM_CHARSET_MBMAXLEN_def)
  have sm: "strmake F m d db NAME_LEN = (write_bytes m d (db @ [0]), d + length db)"
    "strmake F m d name NAME_LEN = (write_bytes m d (name @ [0]), d + length name)" for m d
    using assms(1-3) by (simp_all add: strmake_ok_def c_name_def)
  let ?m = "write_bytes (write_bytes ((m_key_ptr k)(0 := namespace_code ns)) 1 (db @ [0])) (length db + 2) (name @ [0])"
  have m0: "(m_key_ptr k)(0 := namespace_code ns) = write_bytes (m_key_ptr k) 0 [namespace_code ns]"
    by (rule ext) (auto simp: write_bytes_def)
  have m: "?m = write_bytes (m_key_ptr k) 0 (key_bytes ns db name)"
    unfolding m0 using write_bytes_append [of "m_key_ptr k" 0 "[namespace_code ns]" "db @ [0]"]
      write_bytes_append [of "m_key_ptr k" 0 "namespace_code ns # db @ [0]" "name @ [0]"]
    by (simp add: key_bytes_def)
  let ?n = "length db + 2 + length name + 1"
  have n: "unat (of_nat ?n :: uint16) = length db + length name + 3" "unat (of_nat (length db) :: uint16) = length db"
    using len small_16 [of ?n] by (simp_all add: small_16 del: of_nat_add)
  have k': "k' = k\<lparr>m_db_name_length := of_nat (length db), m_length := of_nat ?n,
      m_hash_value := bin_hash_sort F (area ?m 1 (unat (of_nat ?n :: uint16) - 1)), m_key_ptr := ?m\<rparr>"
    using n(2) by (simp add: k'_def mdl_key_init_def Let_def sm del: of_nat_add of_nat_Suc)
  have "area (write_bytes (m_key_ptr k) 0 (key_bytes ns db name)) 1 (length db + length name + 2) = db @ 0 # name @ [0]"
    by (intro nth_equalityI) (simp_all add: area_nth write_bytes_def key_bytes_def)
  then show "m_key_ptr k' = write_bytes (m_key_ptr k) 0 (key_bytes ns db name)"
    "unat (m_length k') = length db + length name + 3" "unat (m_db_name_length k') = length db"
    "m_hash_value k' = bin_hash_sort F (db @ 0 # name @ [0])"
    using n unfolding k' m by (simp_all del: of_nat_add of_nat_Suc)
qed

text \<open>The order of keys is that of the triples: zero bytes end the names.\<close>

lemma memcmp_take: "memcmp_less (take (min (length xs) (length ys)) xs) (take (min (length xs) (length ys)) ys) = memcmp_less xs ys"
  by (induction xs ys rule: memcmp_less.induct) simp_all

lemma memcmp_names:
  assumes "0 \<notin> set xs" "0 \<notin> set ys"
  shows "memcmp_less (xs @ 0 # rs) (ys @ 0 # qs) \<longleftrightarrow> xs < ys \<or> xs = ys \<and> memcmp_less rs qs"
  using assms
proof (induction xs arbitrary: ys)
  case Nil
  then show ?case by (cases ys) (auto simp: word_neq_0_conv)
next
  case (Cons x xs)
  then show ?case by (cases ys) (auto simp: not_less word_neq_0_conv)
qed

definition triple_less :: "enum_mdl_namespace \<Rightarrow> uchar list \<Rightarrow> uchar list \<Rightarrow> enum_mdl_namespace \<Rightarrow> uchar list \<Rightarrow> uchar list \<Rightarrow> bool" where
  "triple_less ns db name ns' db' name' \<longleftrightarrow>
     namespace_code ns < namespace_code ns' \<or> ns = ns' \<and> (db < db' \<or> db = db' \<and> name < name')"

lemma namespace_code_inj: "namespace_code a = namespace_code b \<longleftrightarrow> a = b"
  by (cases a; cases b) simp_all

lemma key_bytes_less:
  assumes "c_name db" "c_name name" "c_name db'" "c_name name'"
  shows "memcmp_less (key_bytes ns db name) (key_bytes ns' db' name') \<longleftrightarrow> triple_less ns db name ns' db' name'"
  using assms memcmp_names [of db db'] memcmp_names [of name name' "[]" "[]"]
  by (auto simp: key_bytes_def c_name_def triple_less_def namespace_code_inj)

definition key_holds :: "MDL_key \<Rightarrow> enum_mdl_namespace \<Rightarrow> uchar list \<Rightarrow> uchar list \<Rightarrow> bool" where
  "key_holds k ns db name \<longleftrightarrow> area (m_key_ptr k) 0 (unat (m_length k)) = key_bytes ns db name \<and>
     unat (m_db_name_length k) = length db"

lemma key_holds_length: "key_holds k ns db name \<Longrightarrow> unat (m_length k) = length (key_bytes ns db name)"
  unfolding key_holds_def by (metis area_length)

lemma key_holds_prefix:
  assumes "key_holds k ns db name" "n \<le> unat (m_length k)"
  shows "area (m_key_ptr k) 0 n = take n (key_bytes ns db name)"
proof -
  have "area (m_key_ptr k) 0 n = take n (area (m_key_ptr k) 0 (unat (m_length k)))"
    using assms(2) by (simp add: area_def take_map)
  then show ?thesis using assms(1) by (simp add: key_holds_def)
qed

lemma key_cmp_triple:
  assumes "key_holds k ns db name" "key_holds k' ns' db' name'" "c_name db" "c_name name" "c_name db'" "c_name name'"
  shows "key_cmp_mdl k k' < 0 \<longleftrightarrow> triple_less ns db name ns' db' name'" "key_cmp_mdl k k' > 0 \<longleftrightarrow> triple_less ns' db' name' ns db name"
proof -
  let ?a = "key_bytes ns db name" and ?b = "key_bytes ns' db' name'" and ?n = "unat (min (m_length k) (m_length k'))"
  have n: "?n = min (length ?a) (length ?b)"
    using key_holds_length [OF assms(1)] key_holds_length [OF assms(2)] by (simp add: min_def word_le_nat_alt)
  have a: "area (m_key_ptr k) 0 ?n = take ?n ?a" "area (m_key_ptr k') 0 ?n = take ?n ?b"
    using key_holds_prefix [OF assms(1), of ?n] key_holds_prefix [OF assms(2), of ?n]
    by (simp_all add: min_def word_le_nat_alt)
  have "memcmp_less (take ?n ?a) (take ?n ?b) = memcmp_less ?a ?b" "memcmp_less (take ?n ?b) (take ?n ?a) = memcmp_less ?b ?a"
    unfolding n using memcmp_take [of ?a ?b] memcmp_take [of ?b ?a] by (simp_all add: min.commute)
  moreover have "\<not> (triple_less ns db name ns' db' name' \<and> triple_less ns' db' name' ns db name)"
    by (auto simp: triple_less_def)
  ultimately show "key_cmp_mdl k k' < 0 \<longleftrightarrow> triple_less ns db name ns' db' name'"
    "key_cmp_mdl k k' > 0 \<longleftrightarrow> triple_less ns' db' name' ns db name"
    using key_bytes_less assms(3-6) by (auto simp: key_cmp_mdl_def memcmp_def a)
qed

lemma triple_cases: "triple_less ns db name ns' db' name' \<or> triple_less ns' db' name' ns db name \<or> ns = ns' \<and> db = db' \<and> name = name'"
proof (cases "ns = ns'")
  case True
  then show ?thesis using less_linear [of db db'] less_linear [of name name'] unfolding triple_less_def by blast
next
  case False
  then show ?thesis using less_linear [of "namespace_code ns" "namespace_code ns'"] namespace_code_inj [of ns ns']
    unfolding triple_less_def by blast
qed

lemma triple_irrefl: "\<not> triple_less ns db name ns db name"
  by (simp add: triple_less_def)

lemma key_equal_triple:
  assumes "key_holds k ns db name" "key_holds k' ns' db' name'" "c_name db" "c_name name" "c_name db'" "c_name name'"
  shows "key_is_equal k k' \<longleftrightarrow> ns = ns' \<and> db = db' \<and> name = name'"
proof
  assume e: "key_is_equal k k'"
  then have "key_cmp_mdl k k' = 0" unfolding key_is_equal_def key_cmp_mdl_def by (metis min.idem)
  then show "ns = ns' \<and> db = db' \<and> name = name'"
    using key_cmp_triple [OF assms] triple_cases [of ns db name ns' db' name'] by auto
next
  assume "ns = ns' \<and> db = db' \<and> name = name'"
  then have "m_length k = m_length k'"
    using key_holds_length [OF assms(1)] key_holds_length [OF assms(2)] by (auto simp: word_unat_eq_iff)
  moreover have "\<not> key_cmp_mdl k k' < 0" "\<not> key_cmp_mdl k k' > 0"
    unfolding key_cmp_triple [OF assms] using \<open>ns = ns' \<and> db = db' \<and> name = name'\<close> triple_irrefl by auto
  ultimately show "key_is_equal k k'" by (simp add: key_is_equal_def key_cmp_mdl_def)
qed

lemma init_holds:
  assumes "strmake_ok F" "c_name db" "c_name name"
  shows "key_holds (mdl_key_init F ns db name k) ns db name"
proof -
  have "length (key_bytes ns db name) = length db + length name + 3" by (simp add: key_bytes_def)
  then show ?thesis using key_init [OF assms, of ns k] by (simp add: key_holds_def area_prefix)
qed

lemma copy_holds: "key_holds k ns db name \<Longrightarrow> key_holds (mdl_key_copy k r) ns db name"
  using key_holds_length [of k ns db name] by (simp add: key_holds_def mdl_key_copy_def area_prefix)

lemma holds_first: "key_holds k ns db name \<Longrightarrow> m_key_ptr k 0 = namespace_code ns"
  using area_nth [of 0 "unat (m_length k)" "m_key_ptr k" 0] key_holds_length [of k ns db name]
  by (simp add: key_holds_def key_bytes_def)

lemma holds_parts:
  assumes "key_holds k ns db name" "c_name db" "c_name name"
  shows "area (m_key_ptr k) (key_db_name k) (unat (db_name_length k) + 1) = db @ [0]"
    "area (m_key_ptr k) (key_name k) (unat (name_length k) + 1) = name @ [0]"
    "unat (key_length k) \<le> MAX_MDLKEY_LENGTH"
proof -
  have len: "length db \<le> 192" "length name \<le> 192"
    using assms(2,3) by (simp_all add: c_name_def NAME_LEN_def NAME_CHAR_LEN_def SYSTEM_CHARSET_MBMAXLEN_def)
  have l: "unat (m_length k) = length db + length name + 3" and d: "unat (m_db_name_length k) = length db"
    using key_holds_length [OF assms(1)] assms(1) by (simp_all add: key_bytes_def key_holds_def)
  have byte: "m_key_ptr k i = key_bytes ns db name ! i" if "i < length db + length name + 3" for i
    using assms(1) area_nth [of i "unat (m_length k)" "m_key_ptr k" 0] that l by (simp add: key_holds_def)
  have u: "unat (key_length k) = length db + length name + 3" "unat (db_name_length k) = length db"
    using l d len by (simp_all add: key_length_def db_name_length_def unsigned_ucast_eq take_bit_nat_eq_self)
  then have "key_length k = of_nat (length db + length name + 3)" "db_name_length k = of_nat (length db)"
    using len by (simp_all add: word_unat_eq_iff unat_of_nat take_bit_nat_eq_self del: of_nat_add)
  then have "name_length k = of_nat (length name)"
    by (simp add: name_length_def key_length_def db_name_length_def)
  then have n: "unat (name_length k) = length name" using len by (simp add: unat_of_nat)
  show "area (m_key_ptr k) (key_db_name k) (unat (db_name_length k) + 1) = db @ [0]"
    unfolding u(2) key_db_name_def
    by (intro nth_equalityI) (auto simp: area_nth byte key_bytes_def nth_append)
  show "area (m_key_ptr k) (key_name k) (unat (name_length k) + 1) = name @ [0]"
    unfolding n key_name_def d
    by (intro nth_equalityI) (auto simp: area_nth byte key_bytes_def nth_append)
  show "unat (key_length k) \<le> MAX_MDLKEY_LENGTH"
    using len unfolding u by (simp add: MAX_MDLKEY_LENGTH_def NAME_LEN_def NAME_CHAR_LEN_def SYSTEM_CHARSET_MBMAXLEN_def)
qed

section \<open>Properties\<close>

text \<open>
  C37. The key of a metadata lock stands for its object. For names of at most \<open>NAME_LEN\<close> bytes without a
  zero byte: namespace, database and name are read back from the key, both names ended by a zero byte, and it
  fits its buffer; two keys are equal exactly if all three parts are; \<open>cmp\<close> orders keys by namespace, then database,
  then name; equal keys have equal hash values; and a copied key is equal to the original, with the same hash
  value.
\<close>

theorem mdl_keys_name_objects:
  assumes "strmake_ok F" "c_name db" "c_name name" "c_name db'" "c_name name'"
  shows "let k = mdl_key_init F ns db name k0; k' = mdl_key_init F ns' db' name' k0'; c = mdl_key_copy k k1
     in mdl_namespace k = ns \<and> area (m_key_ptr k) (key_db_name k) (unat (db_name_length k) + 1) = db @ [0] \<and>
        area (m_key_ptr k) (key_name k) (unat (name_length k) + 1) = name @ [0] \<and> unat (key_length k) \<le> MAX_MDLKEY_LENGTH \<and>
        (key_is_equal k k' \<longleftrightarrow> ns = ns' \<and> db = db' \<and> name = name') \<and>
        (key_cmp_mdl k k' < 0 \<longleftrightarrow> triple_less ns db name ns' db' name') \<and>
        (key_cmp_mdl k k' > 0 \<longleftrightarrow> triple_less ns' db' name' ns db name) \<and>
        (key_is_equal k k' \<longrightarrow> key_hash_value k = key_hash_value k') \<and>
        key_is_equal c k \<and> key_hash_value c = key_hash_value k"
proof -
  let ?k = "mdl_key_init F ns db name k0" and ?k' = "mdl_key_init F ns' db' name' k0'"
  note h = init_holds [OF assms(1-3), of ns k0] and h' = init_holds [OF assms(1,4,5), of ns' k0']
  note c = copy_holds [OF h, of k1]
  have "namespaces ! unat (namespace_code ns) = ns" by (cases ns) (simp_all add: namespaces_def)
  then have "mdl_namespace ?k = ns" by (simp add: mdl_namespace_def holds_first [OF h])
  moreover have "key_hash_value ?k = key_hash_value ?k'" if "ns = ns' \<and> db = db' \<and> name = name'"
    using that holds_first [OF h] holds_first [OF h'] key_init(4) [OF assms(1-3)] by (simp add: key_hash_value_def)
  moreover have "key_hash_value (mdl_key_copy ?k k1) = key_hash_value ?k"
    using holds_first [OF h] holds_first [OF c] by (simp add: key_hash_value_def) (simp add: mdl_key_copy_def)
  moreover have "key_is_equal (mdl_key_copy ?k k1) ?k"
    using key_equal_triple [OF c h assms(2,3,2,3)] by simp
  ultimately show ?thesis
    using holds_parts [OF h assms(2,3)] key_equal_triple [OF h h' assms(2-5)] key_cmp_triple [OF h h' assms(2-5)]
    unfolding Let_def by blast
qed

definition sample_mdl :: mdl_functions where
  "sample_mdl =
     \<lparr>strmake = (\<lambda>m d s n. (write_bytes m d (take n s @ [0]), d + min n (length s))), bin_hash_sort = (\<lambda>bs. sum_list (map ucast bs))\<rparr>"

lemma mdl_keys_name_objects_witness:
  "let k0 = \<lparr>m_length = 0, m_db_name_length = 0, m_hash_value = 0, m_key_ptr = (\<lambda>_. 7)\<rparr>;
       k = mdl_key_init sample_mdl TABLE [118] [97, 98] k0; k' = mdl_key_init sample_mdl TABLE [118, 97] [98] k0
   in mdl_namespace k = TABLE \<and> \<not> key_is_equal k k' \<and> key_cmp_mdl k k' < 0"
proof -
  let ?k0 = "\<lparr>m_length = 0, m_db_name_length = 0, m_hash_value = 0, m_key_ptr = (\<lambda>_. 7)\<rparr>"
  have "strmake_ok sample_mdl" by (simp add: strmake_ok_def sample_mdl_def)
  moreover have "c_name [118]" "c_name [97, 98]" "c_name [118, 97]" "c_name [98]"
    by (simp_all add: c_name_def NAME_LEN_def NAME_CHAR_LEN_def SYSTEM_CHARSET_MBMAXLEN_def)
  moreover have "triple_less TABLE [118] [97, 98] TABLE [118, 97] [98]" by (simp add: triple_less_def)
  ultimately show ?thesis
    using mdl_keys_name_objects [of sample_mdl "[118]" "[97, 98]" "[118, 97]" "[98]" TABLE ?k0 TABLE ?k0 ?k0]
    by (simp add: Let_def)
qed

text \<open>The requests for locks that allow updates, among all types of locks on objects.\<close>

lemma write_requests:
  "is_write_lock_request r \<and> 0 \<le> req_type r \<and> req_type r < MDL_TYPE_END \<longleftrightarrow>
     req_type r \<in> {MDL_SHARED_WRITE, MDL_SHARED_UPGRADABLE, MDL_SHARED_NO_WRITE, MDL_SHARED_NO_READ_WRITE, MDL_EXCLUSIVE}"
  by (auto simp: is_write_lock_request_def mdl_types)

text \<open>An upgradable or exclusive ticket is one for a write request.\<close>

lemma upgradable_writes: "is_upgradable_or_exclusive t \<Longrightarrow> is_write_lock_request (r\<lparr>req_type := get_type t\<rparr>)"
  by (auto simp: is_upgradable_or_exclusive_def is_write_lock_request_def get_type_def mdl_types)

text \<open>A request that was moved holds the ticket alone, and names the same object.\<close>

lemma moved_request:
  assumes "key_holds (req_key from) ns db name"
  shows "key_holds (req_key (fst (move_from r from))) ns db name" "req_ticket (fst (move_from r from)) = req_ticket from"
    "req_ticket (snd (move_from r from)) = 0"
  using copy_holds [OF assms] by (simp_all add: move_from_def)

end
