(* ===== verification/Sort_Records.thy ===== *)
theory Sort_Records
  imports Byte_Codecs Sql_Arrays
begin

text \<open>
  The records that are sorted: \<open>sql_sort.h\<close>. A record is a sort key followed by the row reference or by
  additional fields; packed keys and packed additional fields begin with their length, so that records follow
  one another without gaps. \<open>Merge_chunk\<close> describes the buffers of the merge.
\<close>

section \<open>Merge_chunk\<close>

record st_sort_addon_field =
  addon_field :: nat
  addon_offset :: uint
  addon_null_offset :: uint
  addon_field_length :: uint
  addon_null_bit :: uchar

record BUFFPEK_COMPARE_CONTEXT =
  cmp_key_compare :: nat
  cmp_key_compare_arg :: nat

record Merge_chunk =
  m_current_key :: nat
  m_file_position :: ulonglong
  m_buffer_start :: nat
  m_buffer_end :: nat
  m_rowcount :: ulonglong
  m_mem_count :: ulonglong
  m_max_keys :: ulonglong

definition Merge_chunk_new :: Merge_chunk where
  "Merge_chunk_new = \<lparr>m_current_key = 0, m_file_position = 0, m_buffer_start = 0, m_buffer_end = 0, m_rowcount = 0,
     m_mem_count = 0, m_max_keys = 0\<rparr>"

definition file_position :: "Merge_chunk \<Rightarrow> ulonglong" where "file_position c = m_file_position c"

definition set_file_position :: "ulonglong \<Rightarrow> Merge_chunk \<Rightarrow> Merge_chunk" where
  "set_file_position val c = c\<lparr>m_file_position := val\<rparr>"

definition advance_file_position :: "ulonglong \<Rightarrow> Merge_chunk \<Rightarrow> Merge_chunk" where
  "advance_file_position val c = c\<lparr>m_file_position := m_file_position c + val\<rparr>"

definition buffer_start :: "Merge_chunk \<Rightarrow> nat" where "buffer_start c = m_buffer_start c"
definition buffer_end :: "Merge_chunk \<Rightarrow> nat" where "buffer_end c = m_buffer_end c"

definition set_buffer :: "nat \<Rightarrow> nat \<Rightarrow> Merge_chunk \<Rightarrow> Merge_chunk" where
  "set_buffer start finish c = c\<lparr>m_buffer_start := start, m_buffer_end := finish\<rparr>"

definition set_buffer_start :: "nat \<Rightarrow> Merge_chunk \<Rightarrow> Merge_chunk" where
  "set_buffer_start start c = c\<lparr>m_buffer_start := start\<rparr>"

definition set_buffer_end :: "nat \<Rightarrow> Merge_chunk \<Rightarrow> Merge_chunk" where
  "set_buffer_end finish c = c\<lparr>m_buffer_end := finish\<rparr>"

definition init_current_key :: "Merge_chunk \<Rightarrow> Merge_chunk" where
  "init_current_key c = c\<lparr>m_current_key := m_buffer_start c\<rparr>"

definition current_key :: "Merge_chunk \<Rightarrow> nat" where "current_key c = m_current_key c"

definition advance_current_key :: "uint \<Rightarrow> Merge_chunk \<Rightarrow> Merge_chunk" where
  "advance_current_key val c = c\<lparr>m_current_key := m_current_key c + unat val\<rparr>"

definition decrement_rowcount :: "ulonglong \<Rightarrow> Merge_chunk \<Rightarrow> Merge_chunk" where
  "decrement_rowcount val c = c\<lparr>m_rowcount := m_rowcount c - val\<rparr>"

definition set_rowcount :: "ulonglong \<Rightarrow> Merge_chunk \<Rightarrow> Merge_chunk" where "set_rowcount val c = c\<lparr>m_rowcount := val\<rparr>"
definition rowcount :: "Merge_chunk \<Rightarrow> ulonglong" where "rowcount c = m_rowcount c"
definition mem_count :: "Merge_chunk \<Rightarrow> ulonglong" where "mem_count c = m_mem_count c"
definition set_mem_count :: "ulonglong \<Rightarrow> Merge_chunk \<Rightarrow> Merge_chunk" where "set_mem_count val c = c\<lparr>m_mem_count := val\<rparr>"

definition decrement_mem_count :: "Merge_chunk \<Rightarrow> ulonglong \<times> Merge_chunk" where
  "decrement_mem_count c = (let n = m_mem_count c - 1 in (n, c\<lparr>m_mem_count := n\<rparr>))"

definition max_keys :: "Merge_chunk \<Rightarrow> ulonglong" where "max_keys c = m_max_keys c"
definition set_max_keys :: "ulonglong \<Rightarrow> Merge_chunk \<Rightarrow> Merge_chunk" where "set_max_keys val c = c\<lparr>m_max_keys := val\<rparr>"
definition buffer_size :: "Merge_chunk \<Rightarrow> size_t" where
  "buffer_size c = of_int (int (m_buffer_end c) - int (m_buffer_start c))"

text \<open>The space of a chunk that is no longer in use goes to an adjacent one.\<close>

definition merge_freed_buff :: "Merge_chunk \<Rightarrow> Merge_chunk \<Rightarrow> bool \<times> Merge_chunk" where
  "merge_freed_buff this mc =
     (if m_buffer_end mc = m_buffer_start this
      then (True, mc\<lparr>m_buffer_end := m_buffer_end this, m_max_keys := m_max_keys mc + m_max_keys this\<rparr>)
      else if m_buffer_start mc = m_buffer_end this
      then (True, mc\<lparr>m_buffer_start := m_buffer_start this, m_max_keys := m_max_keys mc + m_max_keys this\<rparr>)
      else (False, mc))"

definition space :: "Merge_chunk \<Rightarrow> nat set" where
  "space c = {m_buffer_start c..<m_buffer_end c}"

lemma freed_space_goes_on:
  assumes "m_buffer_start this \<le> m_buffer_end this" "m_buffer_start mc \<le> m_buffer_end mc" "merge_freed_buff this mc = (done, mc')"
  shows "if done then space mc' = space mc \<union> space this \<and> m_max_keys mc' = m_max_keys mc + m_max_keys this else mc' = mc"
  using assms by (auto simp: merge_freed_buff_def space_def split: if_splits)

section \<open>Additional fields\<close>

record Addon_fields =
  m_field_descriptors :: Bounds_checked_array
  m_addon_buf :: nat
  m_addon_buf_length :: uint
  addon_packed :: bool

definition Addon_fields_new :: "Bounds_checked_array \<Rightarrow> Addon_fields" where
  "Addon_fields_new arr = \<lparr>m_field_descriptors = arr, m_addon_buf = 0, m_addon_buf_length = 0, addon_packed = False\<rparr>"

definition addon_begin :: "Addon_fields \<Rightarrow> nat" where "addon_begin a = bca_array (m_field_descriptors a)"
definition addon_end :: "Addon_fields \<Rightarrow> nat" where "addon_end a = bca_end (m_field_descriptors a)"

text \<open>\<open>my_malloc\<close> gives an address, or 0.\<close>

definition allocate_addon_buf :: "(uint \<Rightarrow> nat) \<Rightarrow> uint \<Rightarrow> Addon_fields \<Rightarrow> nat \<times> Addon_fields" where
  "allocate_addon_buf my_malloc sz a =
     (let a = a\<lparr>m_addon_buf := my_malloc sz\<rparr>;
          a = (if m_addon_buf a \<noteq> 0 then a\<lparr>m_addon_buf_length := sz\<rparr> else a)
      in (m_addon_buf a, a))"

definition free_addon_buff :: "Addon_fields \<Rightarrow> Addon_fields" where
  "free_addon_buff a = a\<lparr>m_addon_buf := 0, m_addon_buf_length := 0\<rparr>"

definition get_addon_buf :: "Addon_fields \<Rightarrow> nat" where "get_addon_buf a = m_addon_buf a"
definition get_addon_buf_length :: "Addon_fields \<Rightarrow> uint" where "get_addon_buf_length a = m_addon_buf_length a"

definition set_using_packed_addons :: "bool \<Rightarrow> Addon_fields \<Rightarrow> Addon_fields" where
  "set_using_packed_addons val a = a\<lparr>addon_packed := val\<rparr>"

definition addons_packed :: "Addon_fields \<Rightarrow> bool" where "addons_packed a = addon_packed a"

definition can_pack_addon_fields :: "uint \<Rightarrow> bool" where
  "can_pack_addon_fields record_length \<longleftrightarrow> record_length \<le> 0xFFFF"

definition addon_size_of_length_field :: uint where "addon_size_of_length_field = 2"

definition read_addon_length :: "memory \<Rightarrow> nat \<Rightarrow> uint" where
  "read_addon_length m p = addon_size_of_length_field + ucast (uint2korr m p)"

definition store_addon_length :: "memory \<Rightarrow> nat \<Rightarrow> uint \<Rightarrow> memory" where
  "store_addon_length m p sz = int2store m p (sz - addon_size_of_length_field)"

section \<open>Sort keys\<close>

record Sort_keys = Bounds_checked_array +
  sk_packed :: bool
  size_of_packable_fields :: uint
  sort_length_with_original_values :: uint
  sort_length_with_memcmp_values :: uint
  parameters_computed :: bool

definition Sort_keys_new :: "nat \<Rightarrow> size_t \<Rightarrow> Sort_keys" where
  "Sort_keys_new arr n = \<lparr>bca_array = arr, bca_size = n, sk_packed = False, size_of_packable_fields = 0,
     sort_length_with_original_values = 0, sort_length_with_memcmp_values = 0, parameters_computed = False\<rparr>"

definition sortkeys_packed :: "Sort_keys \<Rightarrow> bool" where "sortkeys_packed k = sk_packed k"

definition set_using_packed_sortkeys :: "bool \<Rightarrow> Sort_keys \<Rightarrow> Sort_keys" where
  "set_using_packed_sortkeys val k = k\<lparr>sk_packed := val\<rparr>"

definition set_size_of_packable_fields :: "uint \<Rightarrow> Sort_keys \<Rightarrow> Sort_keys" where
  "set_size_of_packable_fields len k = k\<lparr>size_of_packable_fields := len\<rparr>"

definition get_size_of_packable_fields :: "Sort_keys \<Rightarrow> uint" where
  "get_size_of_packable_fields k = size_of_packable_fields k"

definition set_sort_length_with_original_values :: "uint \<Rightarrow> Sort_keys \<Rightarrow> Sort_keys" where
  "set_sort_length_with_original_values len k = k\<lparr>sort_length_with_original_values := len\<rparr>"

definition get_sort_length_with_original_values :: "Sort_keys \<Rightarrow> uint" where
  "get_sort_length_with_original_values k = sort_length_with_original_values k"

definition set_sort_length_with_memcmp_values :: "uint \<Rightarrow> Sort_keys \<Rightarrow> Sort_keys" where
  "set_sort_length_with_memcmp_values len k = k\<lparr>sort_length_with_memcmp_values := len\<rparr>"

definition get_sort_length_with_memcmp_values :: "Sort_keys \<Rightarrow> uint" where
  "get_sort_length_with_memcmp_values k = sort_length_with_memcmp_values k"

definition key_size_of_length_field :: uint where "key_size_of_length_field = 4"

definition store_sortkey_length :: "memory \<Rightarrow> nat \<Rightarrow> uint \<Rightarrow> memory" where
  "store_sortkey_length m p sz = int4store m p (sz - key_size_of_length_field)"

definition read_sortkey_length :: "memory \<Rightarrow> nat \<Rightarrow> uint" where
  "read_sortkey_length m p = key_size_of_length_field + uint4korr m p"

definition increment_size_of_packable_fields :: "uint \<Rightarrow> Sort_keys \<Rightarrow> Sort_keys" where
  "increment_size_of_packable_fields len k = k\<lparr>size_of_packable_fields := size_of_packable_fields k + len\<rparr>"

definition increment_original_sort_length :: "uint \<Rightarrow> Sort_keys \<Rightarrow> Sort_keys" where
  "increment_original_sort_length len k = k\<lparr>sort_length_with_original_values := sort_length_with_original_values k + len\<rparr>"

definition is_parameters_computed :: "Sort_keys \<Rightarrow> bool" where "is_parameters_computed k = parameters_computed k"

definition set_parameters_computed :: "bool \<Rightarrow> Sort_keys \<Rightarrow> Sort_keys" where
  "set_parameters_computed val k = k\<lparr>parameters_computed := val\<rparr>"

section \<open>Sort_param\<close>

text \<open>Pointers are addresses; the comparison and the temporary string are left out.\<close>

record Sort_param =
  rec_length :: uint
  sort_length :: uint
  ref_length :: uint
  addon_length :: uint
  res_length :: uint
  max_keys_per_buffer :: uint
  sp_min_dupl_count :: uint
  max_rows :: ulonglong
  sp_examined_rows :: ulonglong
  sort_form :: nat
  addon_fields :: nat
  sort_keys :: nat
  accepted_rows :: nat
  using_pq :: bool
  set_all_read_bits :: bool
  unique_buff :: nat
  not_killable :: bool
  m_packable_length :: uint
  m_using_packed_addons :: bool
  m_using_packed_sortkeys :: bool
  m_packed_format :: bool

definition using_packed_addons :: "Sort_param \<Rightarrow> bool" where "using_packed_addons s = m_using_packed_addons s"
definition using_packed_sortkeys :: "Sort_param \<Rightarrow> bool" where "using_packed_sortkeys s = m_using_packed_sortkeys s"
definition using_addon_fields :: "Sort_param \<Rightarrow> bool" where "using_addon_fields s \<longleftrightarrow> addon_fields s \<noteq> 0"

definition get_result_length :: "Sort_param \<Rightarrow> memory \<Rightarrow> nat \<Rightarrow> uint32" where
  "get_result_length s m plen = (if \<not> m_using_packed_addons s then res_length s else read_addon_length m plen)"

definition get_addon_length :: "Sort_param \<Rightarrow> memory \<Rightarrow> nat \<Rightarrow> uint32" where
  "get_addon_length s m plen = (if using_packed_addons s then read_addon_length m plen else addon_length s)"

definition get_sort_length :: "Sort_param \<Rightarrow> memory \<Rightarrow> nat \<Rightarrow> uint32" where
  "get_sort_length s m plen =
     (if using_packed_sortkeys s then read_sortkey_length m plen + (if using_addon_fields s then 0 else res_length s)
      else sort_length s)"

definition get_record_length :: "Sort_param \<Rightarrow> memory \<Rightarrow> nat \<Rightarrow> uint" where
  "get_record_length s m plen =
     (if m_packed_format s
      then let sort_len = get_sort_length s m plen in sort_len + get_addon_length s m (plen + unat sort_len)
      else rec_length s)"

definition get_rec_and_res_len :: "Sort_param \<Rightarrow> memory \<Rightarrow> nat \<Rightarrow> uint \<times> uint" where
  "get_rec_and_res_len s m record_start =
     (if m_packed_format s
      then let sort_len = get_sort_length s m record_start;
               addon_len = get_addon_length s m (record_start + unat sort_len)
           in (sort_len + addon_len, if using_addon_fields s then addon_len else res_length s)
      else (rec_length s, res_length s))"

text \<open>The comparison functions are declared only.\<close>

definition get_compare_function :: "nat \<Rightarrow> (uint \<Rightarrow> nat) \<Rightarrow> Sort_param \<Rightarrow> nat" where
  "get_compare_function packed_keys_compare ptr_compare s =
     (if using_packed_sortkeys s then packed_keys_compare else ptr_compare (sort_length s))"

definition get_compare_argument :: "nat \<Rightarrow> nat \<Rightarrow> Sort_param \<Rightarrow> nat" where
  "get_compare_argument this sort_len s = (if using_packed_sortkeys s then this else sort_len)"

definition is_packed_format :: "Sort_param \<Rightarrow> bool" where "is_packed_format s = m_packed_format s"

section \<open>Records one behind another\<close>

text \<open>The stored sizes of key and additional fields of a record, their lengths included; the parts that the
  record consists of; and the lengths that the writer stores.\<close>

definition sort_part :: "Sort_param \<Rightarrow> nat \<Rightarrow> nat" where
  "sort_part s k =
     (if using_packed_sortkeys s then k + (if using_addon_fields s then 0 else unat (res_length s)) else unat (sort_length s))"

definition addon_part :: "Sort_param \<Rightarrow> nat \<Rightarrow> nat" where
  "addon_part s a = (if using_packed_addons s then a else unat (addon_length s))"

definition sizes_ok :: "Sort_param \<Rightarrow> nat \<times> nat \<Rightarrow> bool" where
  "sizes_ok s = (\<lambda>(k, a). (using_packed_sortkeys s \<longrightarrow> 4 \<le> k) \<and> (using_packed_addons s \<longrightarrow> 2 \<le> a \<and> a \<le> 65537) \<and>
     sort_part s k + addon_part s a < 2 ^ 32)"

definition put_record :: "Sort_param \<Rightarrow> nat \<Rightarrow> nat \<times> nat \<Rightarrow> memory \<Rightarrow> memory" where
  "put_record s p = (\<lambda>(k, a) m.
     let m = (if using_packed_sortkeys s then store_sortkey_length m p (of_nat k) else m)
     in if using_packed_addons s then store_addon_length m (p + sort_part s k) (of_nat a) else m)"

fun put_records :: "Sort_param \<Rightarrow> nat \<Rightarrow> (nat \<times> nat) list \<Rightarrow> memory \<Rightarrow> memory" where
  "put_records s p [] m = m"
| "put_records s p ((k, a) # rs) m = put_records s (p + sort_part s k + addon_part s a) rs (put_record s p (k, a) m)"

fun walk :: "Sort_param \<Rightarrow> memory \<Rightarrow> nat \<Rightarrow> nat \<Rightarrow> (nat \<times> nat \<times> nat) list" where
  "walk s m 0 p = []"
| "walk s m (Suc n) p =
     (let (recl, resl) = get_rec_and_res_len s m p in (p, unat recl, unat resl) # walk s m n (p + unat recl))"

fun layout :: "Sort_param \<Rightarrow> nat \<Rightarrow> (nat \<times> nat) list \<Rightarrow> (nat \<times> nat \<times> nat) list" where
  "layout s p [] = []"
| "layout s p ((k, a) # rs) =
     (p, sort_part s k + addon_part s a, if using_addon_fields s then addon_part s a else unat (res_length s)) #
     layout s (p + sort_part s k + addon_part s a) rs"

lemma put_record_frame:
  assumes "sizes_ok s (k, a)"
  shows "agree_outside p (sort_part s k + addon_part s a) m (put_record s p (k, a) m)"
proof -
  have l: "using_packed_sortkeys s \<Longrightarrow> 4 \<le> sort_part s k" "using_packed_addons s \<Longrightarrow> 2 \<le> addon_part s a"
    using assms by (auto simp: sizes_ok_def sort_part_def addon_part_def)
  have 1: "agree_outside p 4 m (store_sortkey_length m p (of_nat k))" for m
    unfolding store_sortkey_length_def by (rule le4.store_frame)
  have 2: "agree_outside q 2 m (store_addon_length m q (of_nat a))" for m q
    unfolding store_addon_length_def by (rule le2.store_frame)
  show ?thesis using l 1 [of m] 2
    by (auto simp: put_record_def Let_def agree_outside_def)
qed

lemma put_records_frame:
  assumes "\<forall>r \<in> set rs. sizes_ok s r" "x < p"
  shows "put_records s p rs m x = m x"
  using assms
proof (induction s p rs m rule: put_records.induct)
  case (2 s p k a rs m)
  then have "put_record s p (k, a) m x = m x"
    using put_record_frame [of s k a p m] by (simp add: agree_outside_def)
  with 2 show ?case by simp
qed simp

text \<open>What is read of a record depends on its own bytes only.\<close>

lemma lengths_read:
  assumes "m_packed_format s" "sizes_ok s (k, a)" "\<forall>x < p + sort_part s k + addon_part s a. m' x = put_record s p (k, a) m x"
  shows "get_rec_and_res_len s m' p
    = (of_nat (sort_part s k + addon_part s a), if using_addon_fields s then of_nat (addon_part s a) else res_length s)"
proof -
  have small: "sort_part s k + addon_part s a < 2 ^ 32" using assms(2) by (simp add: sizes_ok_def)
  have key: "get_sort_length s m' p = of_nat (sort_part s k)"
  proof (cases "using_packed_sortkeys s")
    case True
    then have k: "4 \<le> k" "k \<le> sort_part s k" using assms(2) by (auto simp: sizes_ok_def sort_part_def)
    let ?m = "store_sortkey_length m p (of_nat k)"
    have "uint4korr m' p = uint4korr (put_record s p (k, a) m) p"
      using assms(3) k by (intro le4.load_local) auto
    also have "\<dots> = of_nat k - 4"
    proof (cases "using_packed_addons s")
      case True
      have "agree_outside (p + sort_part s k) 2 (int4store m p (of_nat k - 4)) (put_record s p (k, a) m)"
        using \<open>using_packed_sortkeys s\<close> True le2.store_frame
        by (simp add: put_record_def store_sortkey_length_def store_addon_length_def key_size_of_length_field_def)
      then show ?thesis using k by (intro le4.load_store_other [where q = "p + sort_part s k" and n = 2]) auto
    next
      case False
      then show ?thesis using \<open>using_packed_sortkeys s\<close> le4.load_store [of m p "of_nat k - 4"]
        by (simp add: put_record_def store_sortkey_length_def key_size_of_length_field_def)
    qed
    finally show ?thesis using True
      by (simp add: get_sort_length_def read_sortkey_length_def key_size_of_length_field_def sort_part_def)
  next
    case False
    then show ?thesis by (simp add: get_sort_length_def sort_part_def)
  qed
  have u: "unat (of_nat (sort_part s k) :: uint) = sort_part s k" using small by (simp add: unat_of_nat take_bit_nat_eq_self)
  have addon: "get_addon_length s m' (p + sort_part s k) = of_nat (addon_part s a)"
  proof (cases "using_packed_addons s")
    case True
    then have a: "2 \<le> a" "a \<le> 65537" "a = addon_part s a" using assms(2) by (auto simp: sizes_ok_def addon_part_def)
    let ?m = "if using_packed_sortkeys s then store_sortkey_length m p (of_nat k) else m"
    have "uint2korr m' (p + sort_part s k) = uint2korr (put_record s p (k, a) m) (p + sort_part s k)"
      using assms(3) a by (intro le2.load_local) auto
    also have "\<dots> = ucast (of_nat a - 2 :: uint)"
      using True le2.load_store [of ?m "p + sort_part s k" "of_nat a - 2"]
      by (simp add: put_record_def Let_def store_addon_length_def addon_size_of_length_field_def)
    also have "(of_nat a - 2 :: uint) = of_nat (a - 2)" using a by (simp add: of_nat_diff)
    finally have "unat (uint2korr m' (p + sort_part s k)) = a - 2"
      using a by (simp add: unsigned_ucast_eq unat_of_nat take_bit_nat_eq_self del: of_nat_diff)
    then have "ucast (uint2korr m' (p + sort_part s k)) = (of_nat (a - 2) :: uint)"
      using a by (simp add: word_unat_eq_iff unsigned_ucast_eq unat_of_nat take_bit_nat_eq_self del: of_nat_diff)
    then show ?thesis using True a
      by (simp add: get_addon_length_def read_addon_length_def addon_size_of_length_field_def of_nat_diff)
  next
    case False
    then show ?thesis by (simp add: get_addon_length_def addon_part_def)
  qed
  show ?thesis using assms(1) by (simp add: get_rec_and_res_len_def Let_def key u addon)
qed

lemma walk_records:
  assumes "m_packed_format s" "\<forall>r \<in> set rs. sizes_ok s r"
  shows "walk s (put_records s p rs m) (length rs) p = layout s p rs"
  using assms
proof (induction s p rs m rule: put_records.induct)
  case (2 s p k a rs m)
  have ok: "sizes_ok s (k, a)" and small: "sort_part s k + addon_part s a < 2 ^ 32"
    using 2 by (simp_all add: sizes_ok_def)
  let ?m' = "put_records s p ((k, a) # rs) m"
  have "\<forall>x < p + sort_part s k + addon_part s a. ?m' x = put_record s p (k, a) m x"
    using put_records_frame [of rs s] 2 by simp
  note read = lengths_read [OF 2(2) ok this]
  have u: "unat (of_nat (sort_part s k + addon_part s a) :: uint) = sort_part s k + addon_part s a"
    "unat (of_nat (addon_part s a) :: uint) = addon_part s a"
    using small by (simp_all add: unat_of_nat take_bit_nat_eq_self del: of_nat_add)
  have "walk s (put_records s (p + sort_part s k + addon_part s a) rs (put_record s p (k, a) m)) (length rs)
      (p + sort_part s k + addon_part s a) = layout s (p + sort_part s k + addon_part s a) rs"
    using 2 by simp
  then show ?case using read u by (simp add: Let_def add.assoc del: of_nat_add)
qed simp

section \<open>Properties\<close>

text \<open>
  C38. Packed records delimit themselves. Records whose lengths are stored one behind another, in any mix of packed and
  fixed keys and packed, fixed or no additional fields, are found again by walking with the lengths read: each
  at its place, with its length and the length of its result, and \<open>get_record_length\<close> agrees. Storing the lengths
  changes nothing before the first record.
\<close>

theorem sort_records_delimit:
  assumes "m_packed_format s" "\<forall>r \<in> set rs. sizes_ok s r"
  shows "walk s (put_records s p rs m) (length rs) p = layout s p rs \<and>
    (\<forall>x < p. put_records s p rs m x = m x) \<and>
    (\<forall>q m. get_record_length s m q = fst (get_rec_and_res_len s m q)) \<and>
    (using_packed_addons s \<longrightarrow> using_addon_fields s \<longrightarrow>
      (\<forall>q m. snd (get_rec_and_res_len s m q) = get_result_length s m (q + unat (get_sort_length s m q))))"
  using walk_records [OF assms] put_records_frame [OF assms(2)] assms(1)
  by (simp add: get_record_length_def get_rec_and_res_len_def Let_def get_result_length_def get_addon_length_def using_packed_addons_def)

definition sample_param :: Sort_param where
  "sample_param =
     \<lparr>rec_length = 0, sort_length = 0, ref_length = 0, addon_length = 0, res_length = 8, max_keys_per_buffer = 0, sp_min_dupl_count = 0,
      max_rows = 0, sp_examined_rows = 0, sort_form = 0, addon_fields = 1, sort_keys = 1, accepted_rows = 0, using_pq = False,
      set_all_read_bits = False, unique_buff = 0, not_killable = False, m_packable_length = 0,
      m_using_packed_addons = True, m_using_packed_sortkeys = True, m_packed_format = True\<rparr>"

lemma sort_records_delimit_witness:
  "walk sample_param (put_records sample_param 100 [(10, 5), (7, 300)] (\<lambda>_. 0)) 2 100 = [(100, 15, 5), (115, 307, 300)]"
proof -
  have "m_packed_format sample_param" "\<forall>r \<in> set [(10, 5), (7, 300)]. sizes_ok sample_param r"
    by (simp_all add: sample_param_def sizes_ok_def sort_part_def addon_part_def using_packed_sortkeys_def
        using_packed_addons_def using_addon_fields_def)
  from sort_records_delimit [OF this, of 100 "\<lambda>_. 0"] show ?thesis
    by (simp add: numeral_eq_Suc sample_param_def sort_part_def addon_part_def using_packed_sortkeys_def
        using_packed_addons_def using_addon_fields_def del: walk.simps put_records.simps)
qed

end
