(* ===== verification/Filesort_Buffers.thy ===== *)
theory Filesort_Buffers
  imports Sort_Records
begin

text \<open>
  The buffer that records are sorted in: \<open>Filesort_buffer\<close> of \<open>filesort_utils.h\<close>, in which records grow from
  the left and the pointers to them from the right, and \<open>SORT_INFO\<close> and \<open>Filesort\<close> of \<open>filesort.h\<close>, which
  use it.
\<close>

section \<open>Filesort_buffer\<close>

text \<open>Pointers to records are kept in a memory of eight-byte slots, by address.\<close>

type_synonym slots = "nat \<Rightarrow> nat"

record Filesort_buffer =
  m_next_rec_ptr :: nat
  m_rawmem :: nat
  m_record_pointers :: nat
  m_sort_keys :: nat
  m_num_records :: uint
  m_record_length :: uint
  m_sort_length :: uint
  m_size_in_bytes :: size_t
  m_idx :: int

definition Filesort_buffer_new :: Filesort_buffer where
  "Filesort_buffer_new = \<lparr>m_next_rec_ptr = 0, m_rawmem = 0, m_record_pointers = 0, m_sort_keys = 0, m_num_records = 0,
     m_record_length = 0, m_sort_length = 0, m_size_in_bytes = 0, m_idx = 0\<rparr>"

definition slot :: "nat \<Rightarrow> int \<Rightarrow> nat" where
  "slot p i = nat (int p + 8 * i)"

definition get_sort_keys :: "Filesort_buffer \<Rightarrow> nat" where
  "get_sort_keys b = (if m_idx b = 0 then 0 else slot (m_record_pointers b) (1 - m_idx b))"

text \<open>The loop that swaps the two ends.\<close>

function reverse_loop :: "nat \<Rightarrow> int \<Rightarrow> int \<Rightarrow> slots \<Rightarrow> slots" where
  "reverse_loop keys n ix m =
     (if ix \<le> n div 2
      then let tmp = m (slot keys (n - ix)); m = m(slot keys (n - ix) := m (slot keys ix)); m = m(slot keys ix := tmp)
           in reverse_loop keys n (ix + 1) m
      else m)"
  by auto
termination by (relation "measure (\<lambda>(keys, n, ix, m). nat (n div 2 + 1 - ix))") auto

declare reverse_loop.simps [simp del]

definition reverse_record_pointers :: "Filesort_buffer \<Rightarrow> slots \<Rightarrow> slots" where
  "reverse_record_pointers b m = (if m_idx b < 2 then m else reverse_loop (get_sort_keys b) (m_idx b - 1) 0 m)"

definition init_next_record_pointer :: "Filesort_buffer \<Rightarrow> Filesort_buffer" where
  "init_next_record_pointer b = b\<lparr>m_idx := 0, m_next_rec_ptr := m_rawmem b, m_sort_keys := 0\<rparr>"

definition space_used_for_data :: "Filesort_buffer \<Rightarrow> size_t" where
  "space_used_for_data b = (if m_next_rec_ptr b \<noteq> 0 then of_int (int (m_next_rec_ptr b) - int (m_rawmem b)) else 0)"

definition spaceleft :: "Filesort_buffer \<Rightarrow> size_t" where
  "spaceleft b = m_size_in_bytes b - (of_int (int (m_next_rec_ptr b) - int (m_rawmem b)) + of_int (m_idx b) * 8)"

definition isfull :: "Filesort_buffer \<Rightarrow> bool" where
  "isfull b = (if m_idx b < int (unat (m_num_records b)) then False else spaceleft b < ucast (m_record_length b) + 8)"

definition get_next_record_pointer :: "Filesort_buffer \<Rightarrow> slots \<Rightarrow> nat \<times> Filesort_buffer \<times> slots" where
  "get_next_record_pointer b m =
     (let retval = m_next_rec_ptr b; m = m(slot (m_record_pointers b) (- m_idx b) := m_next_rec_ptr b);
          b = b\<lparr>m_idx := m_idx b + 1\<rparr>; b = b\<lparr>m_next_rec_ptr := m_next_rec_ptr b + unat (m_record_length b)\<rparr>
      in (retval, b, m))"

definition adjust_next_record_pointer :: "uint \<Rightarrow> Filesort_buffer \<Rightarrow> Filesort_buffer" where
  "adjust_next_record_pointer val b = b\<lparr>m_next_rec_ptr := m_next_rec_ptr b - unat (m_record_length b - val)\<rparr>"

function fill_pointers :: "Filesort_buffer \<Rightarrow> slots \<Rightarrow> Filesort_buffer \<times> slots" where
  "fill_pointers b m =
     (if m_idx b < int (unat (m_num_records b)) then let (_, b, m) = get_next_record_pointer b m in fill_pointers b m else (b, m))"
  by auto
termination by (relation "measure (\<lambda>(b, m). nat (int (unat (m_num_records b)) - m_idx b))")
    (auto simp: get_next_record_pointer_def Let_def)

declare fill_pointers.simps [simp del]

definition init_record_pointers :: "Filesort_buffer \<Rightarrow> slots \<Rightarrow> Filesort_buffer \<times> slots" where
  "init_record_pointers b m =
     (let (b, m) = fill_pointers (init_next_record_pointer b) m in (b, reverse_record_pointers b m))"

definition sort_buffer_size :: "Filesort_buffer \<Rightarrow> size_t" where "sort_buffer_size b = m_size_in_bytes b"
definition is_allocated :: "Filesort_buffer \<Rightarrow> bool" where "is_allocated b \<longleftrightarrow> m_rawmem b \<noteq> 0"
definition fb_reset :: "Filesort_buffer \<Rightarrow> Filesort_buffer" where "fb_reset b = b\<lparr>m_rawmem := 0\<rparr>"

definition get_sorted_record :: "Filesort_buffer \<Rightarrow> slots \<Rightarrow> uint \<Rightarrow> nat" where
  "get_sorted_record b m ix = m (slot (m_sort_keys b) (int (unat ix)))"

definition get_raw_buf :: "Filesort_buffer \<Rightarrow> Bounds_checked_array" where
  "get_raw_buf b = \<lparr>bca_array = m_rawmem b, bca_size = m_size_in_bytes b\<rparr>"

definition fb_get_sort_length :: "Filesort_buffer \<Rightarrow> uint" where "fb_get_sort_length b = m_sort_length b"
definition fb_set_sort_length :: "uint \<Rightarrow> Filesort_buffer \<Rightarrow> Filesort_buffer" where
  "fb_set_sort_length val b = b\<lparr>m_sort_length := val\<rparr>"

section \<open>Records from the left, pointers from the right\<close>

text \<open>A record of actual length \<open>len\<close> is inserted.\<close>

definition insert_record :: "uint \<Rightarrow> Filesort_buffer \<times> slots \<Rightarrow> Filesort_buffer \<times> slots" where
  "insert_record len = (\<lambda>(b, m). let (_, b, m) = get_next_record_pointer b m in (adjust_next_record_pointer len b, m))"

fun insert_records :: "uint list \<Rightarrow> Filesort_buffer \<times> slots \<Rightarrow> Filesort_buffer \<times> slots" where
  "insert_records [] s = s"
| "insert_records (len # ls) s = insert_records ls (insert_record len s)"

fun inserts_ok :: "uint list \<Rightarrow> Filesort_buffer \<times> slots \<Rightarrow> bool" where
  "inserts_ok [] s = True"
| "inserts_ok (len # ls) s = (\<not> isfull (fst s) \<and> len \<le> m_record_length (fst s) \<and> inserts_ok ls (insert_record len s))"

text \<open>What the allocation promises: the last slot is at the end, and there is room for the records and
  their pointers.\<close>

definition allocated :: "Filesort_buffer \<Rightarrow> bool" where
  "allocated b \<longleftrightarrow> m_rawmem b \<noteq> 0 \<and> m_record_pointers b + 8 = m_rawmem b + unat (m_size_in_bytes b) \<and>
     unat (m_num_records b) * (unat (m_record_length b) + 8) \<le> unat (m_size_in_bytes b)"

fun starts :: "nat \<Rightarrow> uint list \<Rightarrow> nat list" where
  "starts p [] = []"
| "starts p (len # ls) = p # starts (p + unat len) ls"

definition data_size :: "uint list \<Rightarrow> nat" where
  "data_size ls = sum_list (map unat ls)"

lemma data_size_simps [simp]: "data_size [] = 0" "data_size (len # ls) = unat len + data_size ls" "data_size (ks @ ls) = data_size ks + data_size ls"
  by (simp_all add: data_size_def)

lemma starts_append: "starts p (ks @ ls) = starts p ks @ starts (p + data_size ks) ls"
  by (induction ks arbitrary: p) (simp_all add: add.assoc)

lemma starts_length [simp]: "length (starts p ls) = length ls"
  by (induction ls arbitrary: p) simp_all

definition holds_records :: "uint list \<Rightarrow> Filesort_buffer \<times> slots \<Rightarrow> bool" where
  "holds_records ls = (\<lambda>(b, m). allocated b \<and> m_idx b = int (length ls) \<and> m_next_rec_ptr b = m_rawmem b + data_size ls \<and>
     data_size ls + 8 * length ls \<le> unat (m_size_in_bytes b) \<and> (\<forall>l \<in> set ls. l \<le> m_record_length b) \<and>
     (\<forall>i < length ls. m (slot (m_record_pointers b) (- int i)) = starts (m_rawmem b) ls ! i))"

lemma data_size_le: "\<forall>l \<in> set ls. l \<le> r \<Longrightarrow> data_size ls \<le> length ls * unat r"
  by (induction ls) (auto simp: word_le_nat_alt)

lemma spaceleft_exact:
  assumes "holds_records ls (b, m)"
  shows "unat (spaceleft b) = unat (m_size_in_bytes b) - (data_size ls + 8 * length ls)"
proof -
  have "spaceleft b = m_size_in_bytes b - of_nat (data_size ls + 8 * length ls)"
    using assms by (simp add: holds_records_def spaceleft_def)
  moreover have "data_size ls + 8 * length ls \<le> unat (m_size_in_bytes b)" using assms by (simp add: holds_records_def)
  moreover have "unat (m_size_in_bytes b) < 2 ^ 64" using unsigned_less [of "m_size_in_bytes b", where 'a = nat] by simp
  ultimately show ?thesis by (simp add: unat_sub_if' unat_of_nat del: of_nat_add of_nat_mult)
qed

lemma slot_down: "8 * i \<le> p \<Longrightarrow> slot p (- int i) = p - 8 * i"
  by (simp add: slot_def nat_diff_distrib')

lemma room_for_one_more:
  assumes "holds_records ls (b, m)" "\<not> isfull b"
  shows "data_size ls + 8 * length ls + unat (m_record_length b) + 8 \<le> unat (m_size_in_bytes b)"
proof (cases "length ls < unat (m_num_records b)")
  case True
  let ?r = "unat (m_record_length b)"
  have "data_size ls \<le> length ls * ?r" using assms(1) by (intro data_size_le) (simp add: holds_records_def)
  then have "data_size ls + 8 * length ls + ?r + 8 \<le> Suc (length ls) * (?r + 8)" by (simp add: algebra_simps)
  also have "\<dots> \<le> unat (m_num_records b) * (?r + 8)" using True by (intro mult_le_mono1) simp
  also have "\<dots> \<le> unat (m_size_in_bytes b)" using assms(1) by (simp add: holds_records_def allocated_def)
  finally show ?thesis .
next
  case False
  have r: "unat (ucast (m_record_length b) + 8 :: size_t) = unat (m_record_length b) + 8"
    using unsigned_less [of "m_record_length b", where 'a = nat]
    by (simp add: unat_word_ariths unsigned_ucast_eq take_bit_nat_eq_self)
  have "m_idx b = int (length ls)" using assms(1) by (simp add: holds_records_def)
  then have "\<not> m_idx b < int (unat (m_num_records b))" using False by (simp only: of_nat_less_iff not_False_eq_True)
  then have "isfull b \<longleftrightarrow> spaceleft b < ucast (m_record_length b) + 8" unfolding isfull_def by (rule if_not_P)
  then have "\<not> spaceleft b < ucast (m_record_length b) + 8" using assms(2) by simp
  then have "unat (m_record_length b) + 8 \<le> unat (m_size_in_bytes b) - (data_size ls + 8 * length ls)"
    using r spaceleft_exact [OF assms(1)] by (simp add: word_less_nat_alt)
  moreover have "0 < unat (m_record_length b) + 8" by simp
  ultimately show ?thesis by linarith
qed

lemma insert_step:
  assumes "holds_records ls (b, m)" "\<not> isfull b" "len \<le> m_record_length b"
  shows "holds_records (ls @ [len]) (insert_record len (b, m))"
proof -
  let ?p = "m_record_pointers b" and ?n = "length ls"
  note h = assms(1) [unfolded holds_records_def prod.case]
  have room: "data_size ls + 8 * ?n + unat (m_record_length b) + 8 \<le> unat (m_size_in_bytes b)"
    by (rule room_for_one_more [OF assms(1,2)])
  have "?p + 8 = m_rawmem b + unat (m_size_in_bytes b)" using h by (simp add: allocated_def)
  then have p: "8 * ?n \<le> ?p" using room by linarith
  let ?m = "m(slot ?p (- int ?n) := m_rawmem b + data_size ls)"
  have sub: "unat (m_record_length b - len) = unat (m_record_length b) - unat len" "unat len \<le> unat (m_record_length b)"
    using assms(3) by (simp_all add: unat_sub_if' word_le_nat_alt)
  have ins: "insert_record len (b, m) =
      (b\<lparr>m_idx := int (Suc ?n), m_next_rec_ptr := m_rawmem b + data_size (ls @ [len])\<rparr>, ?m)"
    using h sub by (simp add: insert_record_def get_next_record_pointer_def adjust_next_record_pointer_def Let_def)
  have slots: "?m (slot ?p (- int i)) = starts (m_rawmem b) (ls @ [len]) ! i" if "i < Suc ?n" for i
  proof (cases "i = ?n")
    case True
    then show ?thesis by (simp add: starts_append nth_append)
  next
    case False
    then have "i < ?n" using that by simp
    then have "slot ?p (- int i) \<noteq> slot ?p (- int ?n)" using p by (simp add: slot_down)
    then show ?thesis using \<open>i < ?n\<close> h by (simp add: starts_append nth_append)
  qed
  have "data_size (ls @ [len]) + 8 * length (ls @ [len]) \<le> unat (m_size_in_bytes b)" using room sub(2) by simp
  then show ?thesis using h slots assms(3) unfolding ins holds_records_def by (simp add: allocated_def)
qed

lemma insert_steps:
  assumes "holds_records ks (b, m)" "inserts_ok ls (b, m)"
  shows "holds_records (ks @ ls) (insert_records ls (b, m))"
  using assms
proof (induction ls arbitrary: ks b m)
  case (Cons len ls)
  obtain b' m' where i: "insert_record len (b, m) = (b', m')" by (cases "insert_record len (b, m)")
  have "holds_records (ks @ [len]) (b', m')" using insert_step [OF Cons.prems(1), of len] Cons.prems(2) i by simp
  from Cons.IH [OF this] Cons.prems(2) i show ?case by simp
qed simp

lemma fresh_buffer:
  assumes "allocated b"
  shows "holds_records [] (init_next_record_pointer b, m)"
  using assms by (simp add: holds_records_def init_next_record_pointer_def allocated_def)

text \<open>The slots in the order of \<open>get_sort_keys\<close>, and the loop that reverses them.\<close>

definition keys_list :: "nat \<Rightarrow> nat \<Rightarrow> slots \<Rightarrow> nat list" where
  "keys_list p n m = map (\<lambda>i. m (slot p (int i))) [0..<n]"

lemma slot_inj: "slot p (int i) = slot p (int j) \<longleftrightarrow> i = j"
  by (auto simp: slot_def)

lemma reverse_loop_spec:
  assumes "ix \<le> k div 2 + 1" "length xs = Suc k"
    and "\<And>i. i \<le> k \<Longrightarrow> m (slot p (int i)) = (if i < ix \<or> k - i < ix then rev xs ! i else xs ! i)"
  shows "keys_list p (Suc k) (reverse_loop p (int k) (int ix) m) = rev xs"
  using assms
proof (induction "k div 2 + 1 - ix" arbitrary: ix m)
  case 0
  then have ix: "ix = k div 2 + 1" by simp
  have "reverse_loop p (int k) (int ix) m = m"
    unfolding ix by (subst reverse_loop.simps) (simp add: zdiv_int)
  moreover have "m (slot p (int i)) = rev xs ! i" if "i \<le> k" for i
  proof -
    have "i < ix \<or> k - i < ix" unfolding ix by linarith
    then show ?thesis using 0(4) [OF that] by simp
  qed
  ultimately show ?case using assms(2) by (intro nth_equalityI) (simp_all add: keys_list_def less_Suc_eq_le del: upt_Suc)
next
  case (Suc d)
  have ix: "ix \<le> k div 2" using Suc(2) by linarith
  then have k: "ix \<le> k" "ix \<le> k - ix" by linarith+
  have d: "int k - int ix = int (k - ix)" using k by (simp add: of_nat_diff)
  let ?m = "m(slot p (int (k - ix)) := m (slot p (int ix)), slot p (int ix) := m (slot p (int (k - ix))))"
  have "int ix \<le> int k div 2" using ix by linarith
  then have "reverse_loop p (int k) (int ix) m = reverse_loop p (int k) (int ix + 1) ?m"
    by (subst reverse_loop.simps) (simp only: if_True Let_def d)
  moreover have "int ix + 1 = int (Suc ix)" by simp
  ultimately have "reverse_loop p (int k) (int ix) m = reverse_loop p (int k) (int (Suc ix)) ?m" by (simp only:)
  moreover have "?m (slot p (int i)) = (if i < Suc ix \<or> k - i < Suc ix then rev xs ! i else xs ! i)" if i: "i \<le> k" for i
  proof -
    have 1: "m (slot p (int ix)) = xs ! ix" "m (slot p (int (k - ix))) = xs ! (k - ix)"
      using Suc(5) [of ix] Suc(5) [of "k - ix"] k by auto
    have 2: "rev xs ! ix = xs ! (k - ix)" "rev xs ! (k - ix) = xs ! ix" using Suc(4) k by (simp_all add: rev_nth)
    consider "i = ix" | "i = k - ix" "i \<noteq> ix" | "i \<noteq> ix" "i \<noteq> k - ix" by blast
    then show ?thesis
    proof cases
      case 1
      then show ?thesis using \<open>m (slot p (int (k - ix))) = xs ! (k - ix)\<close> 2 by simp
    next
      case 2
      then show ?thesis using \<open>m (slot p (int ix)) = xs ! ix\<close> \<open>rev xs ! (k - ix) = xs ! ix\<close> k by (simp add: slot_inj)
    next
      case 3
      then have "(i < Suc ix \<or> k - i < Suc ix) = (i < ix \<or> k - i < ix)" using i by linarith
      then show ?thesis using 3 Suc(5) [OF i] by (simp add: slot_inj)
    qed
  qed
  ultimately show ?case using Suc(1) [of "Suc ix" ?m] Suc(2,4) ix by simp
qed

text \<open>From the left, the slots give the records in the reverse order of insertion.\<close>

lemma keys_reversed:
  assumes "holds_records ls (b, m)" "ls \<noteq> []"
  shows "keys_list (get_sort_keys b) (length ls) m = rev (starts (m_rawmem b) ls)"
proof (intro nth_equalityI)
  fix i
  assume "i < length (keys_list (get_sort_keys b) (length ls) m)"
  then have i: "i < length ls" by (simp add: keys_list_def)
  let ?n = "length ls" and ?p = "m_record_pointers b"
  note h = assms(1) [unfolded holds_records_def prod.case]
  have "?p + 8 = m_rawmem b + unat (m_size_in_bytes b)" using h by (simp add: allocated_def)
  moreover have "8 * ?n \<le> unat (m_size_in_bytes b)" using h by linarith
  moreover have "0 < m_rawmem b" using h by (simp add: allocated_def)
  ultimately have p: "8 * ?n \<le> ?p + 8" by linarith
  have "int (slot ?p (1 - int ?n)) = int ?p + 8 * (1 - int ?n)" using p by (simp add: slot_def)
  then have "slot (get_sort_keys b) (int i) = slot ?p (- int (?n - 1 - i))"
    using h i assms(2) by (simp add: get_sort_keys_def slot_def of_nat_diff algebra_simps)
  moreover have "\<forall>i < ?n. m (slot ?p (- int i)) = starts (m_rawmem b) ls ! i" using h by blast
  moreover have "?n - 1 - i < ?n" using i by simp
  ultimately have "m (slot (get_sort_keys b) (int i)) = starts (m_rawmem b) ls ! (?n - 1 - i)" by metis
  then show "keys_list (get_sort_keys b) ?n m ! i = rev (starts (m_rawmem b) ls) ! i"
    using i by (simp add: keys_list_def rev_nth)
qed (simp add: keys_list_def)

lemma reverse_pointers:
  assumes "holds_records ls (b, m)" "ls \<noteq> []"
  shows "keys_list (get_sort_keys b) (length ls) (reverse_record_pointers b m) = starts (m_rawmem b) ls"
proof -
  have idx: "m_idx b = int (length ls)" using assms(1) by (simp add: holds_records_def)
  obtain k where k: "length ls = Suc k" using assms(2) by (cases ls) auto
  show ?thesis
  proof (cases k)
    case 0
    then obtain l where "ls = [l]" using k by (cases ls) auto
    then show ?thesis using keys_reversed [OF assms] idx k 0 by (simp add: reverse_record_pointers_def)
  next
    case (Suc j)
    let ?xs = "rev (starts (m_rawmem b) ls)" and ?p = "get_sort_keys b"
    have "m (slot ?p (int i)) = ?xs ! i" if "i \<le> k" for i
      using keys_reversed [OF assms] that k by (simp add: keys_list_def list_eq_iff_nth_eq del: upt_Suc)
    then have "keys_list ?p (Suc k) (reverse_loop ?p (int k) (int 0) m) = rev ?xs"
      by (intro reverse_loop_spec) (simp_all add: k)
    then show ?thesis using idx k Suc by (simp add: reverse_record_pointers_def)
  qed
qed

lemma insert_records_keeps:
  "m_rawmem (fst (insert_records ls s)) = m_rawmem (fst s) \<and>
   m_record_pointers (fst (insert_records ls s)) = m_record_pointers (fst s) \<and>
   m_size_in_bytes (fst (insert_records ls s)) = m_size_in_bytes (fst s) \<and>
   m_record_length (fst (insert_records ls s)) = m_record_length (fst s)"
proof (induction ls arbitrary: s)
  case (Cons len ls)
  have "m_rawmem (fst (insert_record len s)) = m_rawmem (fst s) \<and>
      m_record_pointers (fst (insert_record len s)) = m_record_pointers (fst s) \<and>
      m_size_in_bytes (fst (insert_record len s)) = m_size_in_bytes (fst s) \<and>
      m_record_length (fst (insert_record len s)) = m_record_length (fst s)"
    by (simp add: insert_record_def get_next_record_pointer_def adjust_next_record_pointer_def Let_def split_def)
  then show ?case using Cons [of "insert_record len s"] by simp
qed simp

text \<open>Filling all pointers inserts as many records of full length.\<close>

lemma fill_step:
  assumes "m_idx b < int (unat (m_num_records b))"
  shows "fill_pointers b m = fill_pointers (fst (insert_record (m_record_length b) (b, m))) (snd (insert_record (m_record_length b) (b, m)))"
  using assms
  by (subst fill_pointers.simps)
    (simp add: insert_record_def get_next_record_pointer_def adjust_next_record_pointer_def Let_def)

lemma insert_keeps_num:
  "m_num_records (fst (insert_record len s)) = m_num_records (fst s)" "m_record_length (fst (insert_record len s)) = m_record_length (fst s)"
  "m_rawmem (fst (insert_record len s)) = m_rawmem (fst s)"
  by (simp_all add: insert_record_def get_next_record_pointer_def adjust_next_record_pointer_def Let_def split_def)

lemma fill_pointers_spec:
  assumes "holds_records ls (b, m)" "length ls + d = unat (m_num_records b)"
  shows "holds_records (ls @ replicate d (m_record_length b)) (fill_pointers b m) \<and> m_rawmem (fst (fill_pointers b m)) = m_rawmem b"
  using assms
proof (induction d arbitrary: ls b m)
  case 0
  then have "m_idx b = int (length ls)" "length ls = unat (m_num_records b)" by (simp_all add: holds_records_def)
  then have "\<not> m_idx b < int (unat (m_num_records b))" by (simp only: order_less_irrefl not_False_eq_True)
  then have "fill_pointers b m = (b, m)" by (subst fill_pointers.simps) (simp only: if_False)
  then show ?case using 0 by simp
next
  case (Suc d)
  let ?r = "m_record_length b"
  obtain b' m' where i: "insert_record ?r (b, m) = (b', m')" by (cases "insert_record ?r (b, m)")
  have "m_idx b = int (length ls)" "length ls < unat (m_num_records b)" using Suc.prems by (simp_all add: holds_records_def)
  then have idx: "m_idx b < int (unat (m_num_records b))" by (simp only: of_nat_less_iff)
  then have "\<not> isfull b" unfolding isfull_def by (simp only: if_True not_False_eq_True)
  then have "holds_records (ls @ [?r]) (b', m')" using insert_step [OF Suc.prems(1), of ?r] i by simp
  moreover have keep: "m_num_records b' = m_num_records b" "m_record_length b' = ?r" "m_rawmem b' = m_rawmem b"
    using insert_keeps_num [of ?r "(b, m)"] i by simp_all
  ultimately show ?case using Suc.IH [of "ls @ [?r]" b' m'] Suc.prems(2) fill_step [OF idx, of m] i by simp
qed

lemma starts_replicate: "starts p (replicate n r) = map (\<lambda>i. p + i * unat r) [0..<n]"
proof (induction n arbitrary: p)
  case (Suc n)
  have "map (\<lambda>i. p + i * unat r) [0..<Suc n] = p # map (\<lambda>i. p + Suc i * unat r) [0..<n]"
    by (simp add: map_upt_Suc del: upt_Suc)
  then show ?case using Suc [of "p + unat r"] by (simp add: add.assoc)
qed simp

lemma init_pointers:
  assumes "allocated b" "m_num_records b \<noteq> 0"
  shows "let (b', m') = init_record_pointers b m
     in keys_list (get_sort_keys b') (unat (m_num_records b)) m'
          = map (\<lambda>i. m_rawmem b + i * unat (m_record_length b)) [0..<unat (m_num_records b)]"
proof -
  let ?b = "init_next_record_pointer b" and ?ls = "replicate (unat (m_num_records b)) (m_record_length b)"
  have keep: "m_num_records ?b = m_num_records b" "m_record_length ?b = m_record_length b" "m_rawmem ?b = m_rawmem b"
    by (simp_all add: init_next_record_pointer_def)
  obtain b' m' where f: "fill_pointers ?b m = (b', m')" by (cases "fill_pointers ?b m")
  have h: "holds_records ?ls (b', m')" "m_rawmem b' = m_rawmem b"
    using fill_pointers_spec [OF fresh_buffer [OF assms(1), of m], of "unat (m_num_records b)"] f keep by simp_all
  have "?ls \<noteq> []" using assms(2) by (simp add: unat_eq_0)
  from reverse_pointers [OF h(1) this] show ?thesis
    by (simp add: init_record_pointers_def f h(2) starts_replicate)
qed

section \<open>SORT_INFO and Filesort\<close>

record SORT_INFO =
  filesort_buffer :: Filesort_buffer
  buffpek_str :: nat
  si_addon_fields :: nat
  record_pointers :: nat
  si_sort_keys :: nat
  sorted_result_in_fsbuf :: bool
  return_rows :: ulonglong
  si_examined_rows :: ulonglong
  found_rows :: ulonglong

definition SORT_INFO_new :: "SORT_INFO \<Rightarrow> SORT_INFO" where
  "SORT_INFO_new s = s
     \<lparr>filesort_buffer := Filesort_buffer_new, si_addon_fields := 0, record_pointers := 0, si_sort_keys := 0, sorted_result_in_fsbuf := False,
      buffpek_str := 0\<rparr>"

text \<open>\<open>free_data\<close> closes the file and frees what the members point to; the buffer itself is freed by a declared
  function.\<close>

definition si_reset :: "(SORT_INFO \<Rightarrow> SORT_INFO) \<Rightarrow> SORT_INFO \<Rightarrow> SORT_INFO" where
  "si_reset free_data s = (free_data s)\<lparr>record_pointers := 0, buffpek_str := 0, si_addon_fields := 0, sorted_result_in_fsbuf := False\<rparr>"

definition si_get_sort_keys :: "SORT_INFO \<Rightarrow> nat" where "si_get_sort_keys s = get_sort_keys (filesort_buffer s)"

definition si_get_sorted_record :: "SORT_INFO \<Rightarrow> slots \<Rightarrow> uint \<Rightarrow> nat" where
  "si_get_sorted_record s m ix = get_sorted_record (filesort_buffer s) m ix"

definition si_isfull :: "SORT_INFO \<Rightarrow> bool" where "si_isfull s = isfull (filesort_buffer s)"

definition si_init_record_pointers :: "SORT_INFO \<Rightarrow> slots \<Rightarrow> SORT_INFO \<times> slots" where
  "si_init_record_pointers s m = (let (b, m) = init_record_pointers (filesort_buffer s) m in (s\<lparr>filesort_buffer := b\<rparr>, m))"

definition si_init_next_record_pointer :: "SORT_INFO \<Rightarrow> SORT_INFO" where
  "si_init_next_record_pointer s = s\<lparr>filesort_buffer := init_next_record_pointer (filesort_buffer s)\<rparr>"

definition si_get_next_record_pointer :: "SORT_INFO \<Rightarrow> slots \<Rightarrow> nat \<times> SORT_INFO \<times> slots" where
  "si_get_next_record_pointer s m =
     (let (p, b, m) = get_next_record_pointer (filesort_buffer s) m in (p, s\<lparr>filesort_buffer := b\<rparr>, m))"

definition si_adjust_next_record_pointer :: "uint \<Rightarrow> SORT_INFO \<Rightarrow> SORT_INFO" where
  "si_adjust_next_record_pointer val s = s\<lparr>filesort_buffer := adjust_next_record_pointer val (filesort_buffer s)\<rparr>"

definition si_get_raw_buf :: "SORT_INFO \<Rightarrow> Bounds_checked_array" where "si_get_raw_buf s = get_raw_buf (filesort_buffer s)"
definition si_sort_buffer_size :: "SORT_INFO \<Rightarrow> size_t" where "si_sort_buffer_size s = sort_buffer_size (filesort_buffer s)"
definition si_is_allocated :: "SORT_INFO \<Rightarrow> bool" where "si_is_allocated s = is_allocated (filesort_buffer s)"

definition si_set_sort_length :: "uint \<Rightarrow> SORT_INFO \<Rightarrow> SORT_INFO" where
  "si_set_sort_length val s = s\<lparr>filesort_buffer := fb_set_sort_length val (filesort_buffer s)\<rparr>"

definition si_get_sort_length :: "SORT_INFO \<Rightarrow> uint" where "si_get_sort_length s = fb_get_sort_length (filesort_buffer s)"

definition has_filesort_result_in_memory :: "SORT_INFO \<Rightarrow> bool" where
  "has_filesort_result_in_memory s \<longleftrightarrow> record_pointers s \<noteq> 0 \<or> sorted_result_in_fsbuf s"

definition si_using_addon_fields :: "SORT_INFO \<Rightarrow> bool" where "si_using_addon_fields s \<longleftrightarrow> si_addon_fields s \<noteq> 0"

record Filesort =
  fs_order :: nat
  fs_limit :: ulonglong
  fs_sortorder :: nat
  fs_accepted_rows :: nat
  fs_select :: nat
  own_select :: bool
  fs_using_pq :: bool
  sort_positions :: bool
  fs_set_all_read_bits :: bool
  fs_tracker :: nat
  fs_sort_keys :: nat
  fs_unpack :: nat

text \<open>Two members are left as they are in memory.\<close>

definition Filesort_new :: "nat \<Rightarrow> ulonglong \<Rightarrow> bool \<Rightarrow> nat \<Rightarrow> Filesort \<Rightarrow> Filesort" where
  "Filesort_new order_arg limit_arg sort_positions_arg select_arg f = f
     \<lparr>fs_order := order_arg, fs_limit := limit_arg, fs_sortorder := 0, fs_accepted_rows := 0, fs_select := select_arg, own_select := False,
      fs_using_pq := False, sort_positions := sort_positions_arg, fs_set_all_read_bits := False, fs_sort_keys := 0, fs_unpack := 0\<rparr>"

section \<open>Properties\<close>

text \<open>
  C39. The sort buffer is filled from both ends without overlap. After any number of records of at most the
  record length, each inserted while the buffer was not full: every record lies right behind the one before it; the slots hold
  the pointers in the reverse order, and \<open>reverse_record_pointers\<close> puts them in the order of insertion; the space
  used and left is exact; the data end before the lowest slot; and a buffer that is not full has room for one more record
  with its pointer. \<open>init_record_pointers\<close> gives the places of all fixed-size records in order.
\<close>

theorem sort_buffer_two_ended:
  assumes "allocated b" "inserts_ok ls (init_next_record_pointer b, m)"
  shows "(let (b', m') = insert_records ls (init_next_record_pointer b, m); n = length ls
     in (\<forall>i < n. m' (slot (m_record_pointers b') (- int i)) = starts (m_rawmem b) ls ! i) \<and>
        (ls \<noteq> [] \<longrightarrow> keys_list (get_sort_keys b') n m' = rev (starts (m_rawmem b) ls) \<and>
           keys_list (get_sort_keys b') n (reverse_record_pointers b' m') = starts (m_rawmem b) ls) \<and>
        unat (space_used_for_data b') = data_size ls \<and> unat (spaceleft b') = unat (m_size_in_bytes b) - (data_size ls + 8 * n) \<and>
        m_rawmem b + data_size ls + 8 * n \<le> m_record_pointers b' + 8 \<and>
        (\<not> isfull b' \<longrightarrow> data_size ls + 8 * n + unat (m_record_length b) + 8 \<le> unat (m_size_in_bytes b))) \<and>
    (m_num_records b \<noteq> 0 \<longrightarrow> (let (b', m') = init_record_pointers b m
     in keys_list (get_sort_keys b') (unat (m_num_records b)) m'
          = map (\<lambda>i. m_rawmem b + i * unat (m_record_length b)) [0..<unat (m_num_records b)]))"
proof -
  obtain b' m' where r: "insert_records ls (init_next_record_pointer b, m) = (b', m')"
    by (cases "insert_records ls (init_next_record_pointer b, m)")
  have h: "holds_records ls (b', m')" using insert_steps [OF fresh_buffer [OF assms(1), of m] assms(2)] r by simp
  have keep: "m_rawmem b' = m_rawmem b" "m_size_in_bytes b' = m_size_in_bytes b" "m_record_length b' = m_record_length b"
    using insert_records_keeps [of ls "(init_next_record_pointer b, m)"] r by (simp_all add: init_next_record_pointer_def)
  have d: "data_size ls + 8 * length ls \<le> unat (m_size_in_bytes b')" "m_next_rec_ptr b' = m_rawmem b' + data_size ls"
    "m_record_pointers b' + 8 = m_rawmem b' + unat (m_size_in_bytes b')" "m_rawmem b' \<noteq> 0"
    using h by (simp_all add: holds_records_def allocated_def)
  have "unat (m_size_in_bytes b') < 2 ^ 64" using unsigned_less [of "m_size_in_bytes b'", where 'a = nat] by simp
  then have used: "unat (space_used_for_data b') = data_size ls"
    using d by (simp add: space_used_for_data_def unat_of_nat)
  have "\<forall>i < length ls. m' (slot (m_record_pointers b') (- int i)) = starts (m_rawmem b') ls ! i"
    using h unfolding holds_records_def prod.case by blast
  moreover have "m_rawmem b + data_size ls + 8 * length ls \<le> m_record_pointers b' + 8" using d keep by simp
  ultimately show ?thesis
    using used spaceleft_exact [OF h] keys_reversed [OF h] reverse_pointers [OF h] room_for_one_more [OF h] init_pointers [OF assms(1), of m]
    unfolding r keep Let_def prod.case by blast
qed

text \<open>A buffer for three records of at most ten bytes, which takes four of six.\<close>

definition sample_buffer :: Filesort_buffer where
  "sample_buffer = \<lparr>m_next_rec_ptr = 0, m_rawmem = 1000, m_record_pointers = 1052, m_sort_keys = 0, m_num_records = 3,
     m_record_length = 10, m_sort_length = 4, m_size_in_bytes = 60, m_idx = 0\<rparr>"

lemma sort_buffer_two_ended_witness:
  "let (b, m) = insert_records [6, 4, 6, 6] (init_next_record_pointer sample_buffer, \<lambda>_. 0)
   in keys_list (get_sort_keys b) 4 m = [1016, 1010, 1006, 1000] \<and> unat (spaceleft b) = 6"
proof -
  have "allocated sample_buffer" by (simp add: allocated_def sample_buffer_def)
  moreover have "inserts_ok [6, 4, 6, 6] (init_next_record_pointer sample_buffer, \<lambda>_. 0)"
    by (simp add: sample_buffer_def init_next_record_pointer_def isfull_def spaceleft_def insert_record_def get_next_record_pointer_def
        adjust_next_record_pointer_def Let_def)
  moreover have len: "length [6, 4, 6, 6 :: uint] = 4" by simp
  moreover have "starts (m_rawmem sample_buffer) [6, 4, 6, 6] = [1000, 1006, 1010, 1016]" "data_size [6, 4, 6, 6] = 22"
    "unat (m_size_in_bytes sample_buffer) = 60"
    by (simp_all add: sample_buffer_def data_size_def)
  ultimately show ?thesis
    using sort_buffer_two_ended [of sample_buffer "[6, 4, 6, 6]" "\<lambda>_. 0"]
    unfolding split_def Let_def len by (simp del: insert_records.simps inserts_ok.simps)
qed

end
