(* ===== verification/Handler_Scans.thy ===== *)
theory Handler_Scans
  imports Byte_Memory
begin

text \<open>
  What \<open>handler.h\<close> does around a storage engine: the engines that take part in a transaction, with the flags
  that forbid a safe rollback, and the states of a scan, which open and close the engine's own scans. The
  engine is a record of functions on a state of its own.
\<close>

section \<open>Transactions\<close>

record THD_TRANS =
  no_2pc :: bool
  ha_list :: nat
  modified_non_trans_table :: bool
  m_unsafe_rollback_flags :: uint

definition trans_reset :: "THD_TRANS \<Rightarrow> THD_TRANS" where
  "trans_reset t = t\<lparr>no_2pc := False, modified_non_trans_table := False, m_unsafe_rollback_flags := 0\<rparr>"

definition trans_is_empty :: "THD_TRANS \<Rightarrow> bool" where "trans_is_empty t \<longleftrightarrow> ha_list t = 0"

definition MODIFIED_NON_TRANS_TABLE :: uint where "MODIFIED_NON_TRANS_TABLE = 1"
definition CREATED_TEMP_TABLE :: uint where "CREATED_TEMP_TABLE = 2"
definition DROPPED_TEMP_TABLE :: uint where "DROPPED_TEMP_TABLE = 4"
definition DID_WAIT :: uint where "DID_WAIT = 8"
definition DID_DDL :: uint where "DID_DDL = 0x10"
definition EXECUTED_TABLE_ADMIN_CMD :: uint where "EXECUTED_TABLE_ADMIN_CMD = 0x20"

lemmas unsafe_statement_types = MODIFIED_NON_TRANS_TABLE_def CREATED_TEMP_TABLE_def DROPPED_TEMP_TABLE_def DID_WAIT_def
  DID_DDL_def EXECUTED_TABLE_ADMIN_CMD_def

definition mark_modified_non_trans_temp_table :: "THD_TRANS \<Rightarrow> THD_TRANS" where
  "mark_modified_non_trans_temp_table t = t\<lparr>m_unsafe_rollback_flags := m_unsafe_rollback_flags t OR MODIFIED_NON_TRANS_TABLE\<rparr>"

definition has_modified_non_trans_temp_table :: "THD_TRANS \<Rightarrow> bool" where
  "has_modified_non_trans_temp_table t \<longleftrightarrow> m_unsafe_rollback_flags t AND MODIFIED_NON_TRANS_TABLE \<noteq> 0"

definition mark_executed_table_admin_cmd :: "THD_TRANS \<Rightarrow> THD_TRANS" where
  "mark_executed_table_admin_cmd t = t\<lparr>m_unsafe_rollback_flags := m_unsafe_rollback_flags t OR EXECUTED_TABLE_ADMIN_CMD\<rparr>"

definition trans_executed_admin_cmd :: "THD_TRANS \<Rightarrow> bool" where
  "trans_executed_admin_cmd t \<longleftrightarrow> m_unsafe_rollback_flags t AND EXECUTED_TABLE_ADMIN_CMD \<noteq> 0"

definition mark_created_temp_table :: "THD_TRANS \<Rightarrow> THD_TRANS" where
  "mark_created_temp_table t = t\<lparr>m_unsafe_rollback_flags := m_unsafe_rollback_flags t OR CREATED_TEMP_TABLE\<rparr>"

definition mark_dropped_temp_table :: "THD_TRANS \<Rightarrow> THD_TRANS" where
  "mark_dropped_temp_table t = t\<lparr>m_unsafe_rollback_flags := m_unsafe_rollback_flags t OR DROPPED_TEMP_TABLE\<rparr>"

definition has_created_dropped_temp_table :: "THD_TRANS \<Rightarrow> bool" where
  "has_created_dropped_temp_table t \<longleftrightarrow> m_unsafe_rollback_flags t AND (CREATED_TEMP_TABLE OR DROPPED_TEMP_TABLE) \<noteq> 0"

definition mark_trans_did_wait :: "THD_TRANS \<Rightarrow> THD_TRANS" where
  "mark_trans_did_wait t = t\<lparr>m_unsafe_rollback_flags := m_unsafe_rollback_flags t OR DID_WAIT\<rparr>"

definition trans_did_wait :: "THD_TRANS \<Rightarrow> bool" where
  "trans_did_wait t \<longleftrightarrow> m_unsafe_rollback_flags t AND DID_WAIT \<noteq> 0"

definition mark_trans_did_ddl :: "THD_TRANS \<Rightarrow> THD_TRANS" where
  "mark_trans_did_ddl t = t\<lparr>m_unsafe_rollback_flags := m_unsafe_rollback_flags t OR DID_DDL\<rparr>"

definition trans_did_ddl :: "THD_TRANS \<Rightarrow> bool" where
  "trans_did_ddl t \<longleftrightarrow> m_unsafe_rollback_flags t AND DID_DDL \<noteq> 0"

text \<open>The informations on engines live in a heap; failing assertions give \<open>None\<close>.\<close>

record Ha_trx_info =
  m_next :: nat
  m_ht :: nat
  m_flags :: uchar

type_synonym infos = "nat \<Rightarrow> Ha_trx_info"

definition TRX_READ_ONLY :: uchar where "TRX_READ_ONLY = 0"
definition TRX_READ_WRITE :: uchar where "TRX_READ_WRITE = 1"

definition trx_info_reset :: "nat \<Rightarrow> infos \<Rightarrow> infos" where
  "trx_info_reset this h = h(this := (h this)\<lparr>m_next := 0, m_ht := 0, m_flags := 0\<rparr>)"

definition register_ha :: "nat \<Rightarrow> nat \<Rightarrow> THD_TRANS \<Rightarrow> infos \<Rightarrow> (THD_TRANS \<times> infos) option" where
  "register_ha this ht_arg tr h =
     (if m_flags (h this) = 0 \<and> m_ht (h this) = 0 \<and> m_next (h this) = 0
      then Some (tr\<lparr>ha_list := this\<rparr>, h(this := \<lparr>m_next = ha_list tr, m_ht = ht_arg, m_flags = TRX_READ_ONLY\<rparr>))
      else None)"

definition is_started :: "infos \<Rightarrow> nat \<Rightarrow> bool" where "is_started h this \<longleftrightarrow> m_ht (h this) \<noteq> 0"

definition set_trx_read_write :: "nat \<Rightarrow> infos \<Rightarrow> infos option" where
  "set_trx_read_write this h =
     (if is_started h this then Some (h(this := (h this)\<lparr>m_flags := m_flags (h this) OR TRX_READ_WRITE\<rparr>)) else None)"

definition info_is_trx_read_write :: "nat \<Rightarrow> infos \<Rightarrow> bool option" where
  "info_is_trx_read_write this h = (if is_started h this then Some (m_flags (h this) AND TRX_READ_WRITE \<noteq> 0) else None)"

definition coalesce_trx_with :: "nat \<Rightarrow> nat \<Rightarrow> infos \<Rightarrow> infos option" where
  "coalesce_trx_with this stmt_trx h =
     (if is_started h this
      then Option.bind (info_is_trx_read_write stmt_trx h) (\<lambda>rw. if rw then set_trx_read_write this h else Some h)
      else None)"

definition info_next :: "nat \<Rightarrow> infos \<Rightarrow> nat option" where
  "info_next this h = (if is_started h this then Some (m_next (h this)) else None)"

definition info_ht :: "nat \<Rightarrow> infos \<Rightarrow> nat option" where
  "info_ht this h = (if is_started h this then Some (m_ht (h this)) else None)"

partial_function (option) read_write_loop :: "infos \<Rightarrow> nat \<Rightarrow> bool option" where
  "read_write_loop h ha_info =
     (if ha_info = 0 then Some False
      else Option.bind (info_is_trx_read_write ha_info h)
        (\<lambda>rw. if rw then Some True else Option.bind (info_next ha_info h) (read_write_loop h)))"

definition trans_is_trx_read_write :: "infos \<Rightarrow> THD_TRANS \<Rightarrow> bool option" where
  "trans_is_trx_read_write h t = read_write_loop h (ha_list t)"

section \<open>Scans\<close>

datatype init_stat = NONE | INDEX | RND

record handler =
  end_range :: nat
  active_index :: uint
  inited :: init_stat
  pre_inited :: init_stat

definition MAX_INDEXES :: uint where "MAX_INDEXES = 64"
definition MAX_KEY :: uint where "MAX_KEY = MAX_INDEXES"

text \<open>The virtual functions of an engine: they give an error number, 0 for success.\<close>

record 'e scan_engine =
  index_init :: "uint \<Rightarrow> bool \<Rightarrow> 'e \<Rightarrow> int \<times> 'e"
  index_end :: "'e \<Rightarrow> int \<times> 'e"
  rnd_init :: "bool \<Rightarrow> 'e \<Rightarrow> int \<times> 'e"
  rnd_end :: "'e \<Rightarrow> int \<times> 'e"
  pre_index_init :: "uint \<Rightarrow> bool \<Rightarrow> 'e \<Rightarrow> int \<times> 'e"
  pre_index_end :: "'e \<Rightarrow> int \<times> 'e"
  pre_rnd_init :: "bool \<Rightarrow> 'e \<Rightarrow> int \<times> 'e"
  pre_rnd_end :: "'e \<Rightarrow> int \<times> 'e"

definition ha_index_init :: "'e scan_engine \<Rightarrow> uint \<Rightarrow> bool \<Rightarrow> handler \<times> 'e \<Rightarrow> (int \<times> handler \<times> 'e) option" where
  "ha_index_init E idx srt = (\<lambda>(h, e).
     if inited h = NONE
     then let (result, e) = index_init E idx srt e
          in Some (result, if result = 0 then h\<lparr>inited := INDEX, active_index := idx, end_range := 0\<rparr> else h, e)
     else None)"

definition ha_index_end :: "'e scan_engine \<Rightarrow> handler \<times> 'e \<Rightarrow> (int \<times> handler \<times> 'e) option" where
  "ha_index_end E = (\<lambda>(h, e).
     if inited h = INDEX
     then let (result, e) = index_end E e in Some (result, h\<lparr>inited := NONE, active_index := MAX_KEY, end_range := 0\<rparr>, e)
     else None)"

definition ha_rnd_init :: "'e scan_engine \<Rightarrow> bool \<Rightarrow> handler \<times> 'e \<Rightarrow> (int \<times> handler \<times> 'e) option" where
  "ha_rnd_init E scan = (\<lambda>(h, e).
     if inited h = NONE \<or> (inited h = RND \<and> scan)
     then let (result, e) = rnd_init E scan e
          in Some (result, h\<lparr>inited := (if result \<noteq> 0 then NONE else RND), end_range := 0\<rparr>, e)
     else None)"

definition ha_rnd_end :: "'e scan_engine \<Rightarrow> handler \<times> 'e \<Rightarrow> (int \<times> handler \<times> 'e) option" where
  "ha_rnd_end E = (\<lambda>(h, e).
     if inited h = RND then let (result, e) = rnd_end E e in Some (result, h\<lparr>inited := NONE, end_range := 0\<rparr>, e) else None)"

definition ha_index_or_rnd_end :: "'e scan_engine \<Rightarrow> handler \<times> 'e \<Rightarrow> (int \<times> handler \<times> 'e) option" where
  "ha_index_or_rnd_end E = (\<lambda>(h, e).
     if inited h = INDEX then ha_index_end E (h, e) else if inited h = RND then ha_rnd_end E (h, e) else Some (0, h, e))"

definition ha_pre_rnd_init :: "'e scan_engine \<Rightarrow> bool \<Rightarrow> handler \<times> 'e \<Rightarrow> (int \<times> handler \<times> 'e) option" where
  "ha_pre_rnd_init E scan = (\<lambda>(h, e).
     if pre_inited h = NONE \<or> (pre_inited h = RND \<and> scan)
     then let (result, e) = pre_rnd_init E scan e in Some (result, h\<lparr>pre_inited := (if result \<noteq> 0 then NONE else RND)\<rparr>, e)
     else None)"

definition ha_pre_rnd_end :: "'e scan_engine \<Rightarrow> handler \<times> 'e \<Rightarrow> (int \<times> handler \<times> 'e) option" where
  "ha_pre_rnd_end E = (\<lambda>(h, e).
     if pre_inited h = RND then let (result, e) = pre_rnd_end E e in Some (result, h\<lparr>pre_inited := NONE\<rparr>, e) else None)"

definition ha_pre_index_init :: "'e scan_engine \<Rightarrow> uint \<Rightarrow> bool \<Rightarrow> handler \<times> 'e \<Rightarrow> (int \<times> handler \<times> 'e) option" where
  "ha_pre_index_init E idx srt = (\<lambda>(h, e).
     if pre_inited h = NONE
     then let (result, e) = pre_index_init E idx srt e in Some (result, if result = 0 then h\<lparr>pre_inited := INDEX\<rparr> else h, e)
     else None)"

definition ha_pre_index_end :: "'e scan_engine \<Rightarrow> handler \<times> 'e \<Rightarrow> (int \<times> handler \<times> 'e) option" where
  "ha_pre_index_end E = (\<lambda>(h, e).
     if pre_inited h = INDEX then let (result, e) = pre_index_end E e in Some (result, h\<lparr>pre_inited := NONE\<rparr>, e) else None)"

definition ha_pre_index_or_rnd_end :: "'e scan_engine \<Rightarrow> handler \<times> 'e \<Rightarrow> (int \<times> handler \<times> 'e) option" where
  "ha_pre_index_or_rnd_end E = (\<lambda>(h, e).
     if pre_inited h = INDEX then ha_pre_index_end E (h, e)
     else if pre_inited h = RND then ha_pre_rnd_end E (h, e) else Some (0, h, e))"

section \<open>The engines of a transaction\<close>

fun engines :: "infos \<Rightarrow> nat \<Rightarrow> nat list \<Rightarrow> bool" where
  "engines h p [] \<longleftrightarrow> p = 0"
| "engines h p (a # as) \<longleftrightarrow> p = a \<and> a \<noteq> 0 \<and> is_started h a \<and> engines h (m_next (h a)) as"

definition read_write :: "infos \<Rightarrow> nat \<Rightarrow> bool" where
  "read_write h a \<longleftrightarrow> m_flags (h a) AND TRX_READ_WRITE \<noteq> 0"

lemma read_write_loop_spec: "engines h p as \<Longrightarrow> read_write_loop h p = Some (\<exists>a \<in> set as. read_write h a)"
proof (induction as arbitrary: p)
  case Nil
  then show ?case by (subst read_write_loop.simps) simp
next
  case (Cons a as)
  then show ?case by (subst read_write_loop.simps) (auto simp: info_is_trx_read_write_def info_next_def read_write_def)
qed

lemma engines_cong: "engines h p as \<Longrightarrow> \<forall>a \<in> set as. m_next (h' a) = m_next (h a) \<and> m_ht (h' a) = m_ht (h a) \<Longrightarrow> engines h' p as"
  by (induction as arbitrary: p) (auto simp: is_started_def)

text \<open>An engine that is registered comes first, is read-only, and leaves the others as they are; marking one as
  read-write marks the transaction.\<close>

lemma register_first:
  assumes "engines h (ha_list t) as" "this \<notin> set as" "this \<noteq> 0" "ht \<noteq> 0" "register_ha this ht t h = Some (t', h')"
  shows "engines h' (ha_list t') (this # as) \<and> trans_is_trx_read_write h' t' = trans_is_trx_read_write h t"
proof -
  have h': "h' = h(this := \<lparr>m_next = ha_list t, m_ht = ht, m_flags = TRX_READ_ONLY\<rparr>)" "ha_list t' = this"
    using assms(5) by (auto simp: register_ha_def split: if_splits)
  have "engines h' (ha_list t) as" by (rule engines_cong [OF assms(1)]) (use assms(2) h' in auto)
  then have e: "engines h' (ha_list t') (this # as)" using h' assms(3,4) by (simp add: is_started_def)
  have "(\<exists>a \<in> set (this # as). read_write h' a) = (\<exists>a \<in> set as. read_write h a)"
  proof -
    have "\<not> read_write h' this" using h' by (simp add: read_write_def TRX_READ_ONLY_def)
    moreover have "read_write h' a = read_write h a" if "a \<in> set as" for a
      using h' assms(2) that by (auto simp: read_write_def)
    ultimately show ?thesis by auto
  qed
  then show ?thesis using e read_write_loop_spec [OF e] read_write_loop_spec [OF assms(1)]
    by (simp add: trans_is_trx_read_write_def)
qed

lemma mark_read_write:
  assumes "engines h (ha_list t) as" "set_trx_read_write this h = Some h'"
  shows "engines h' (ha_list t) as \<and> trans_is_trx_read_write h' t = Some (this \<in> set as \<or> (\<exists>a \<in> set as. read_write h a))"
proof -
  have h': "h' = h(this := (h this)\<lparr>m_flags := m_flags (h this) OR TRX_READ_WRITE\<rparr>)"
    using assms(2) by (simp add: set_trx_read_write_def split: if_splits)
  have e: "engines h' (ha_list t) as" by (rule engines_cong [OF assms(1)]) (simp add: h')
  have "bit ((m_flags (h this) OR TRX_READ_WRITE) AND TRX_READ_WRITE) 0"
    by (simp add: TRX_READ_WRITE_def bit_and_iff bit_or_iff)
  then have "read_write h' this" unfolding read_write_def h' by auto
  then have "(\<exists>a \<in> set as. read_write h' a) = (this \<in> set as \<or> (\<exists>a \<in> set as. read_write h a))"
    by (auto simp: read_write_def h')
  then show ?thesis using e read_write_loop_spec [OF e] by (simp add: trans_is_trx_read_write_def)
qed

text \<open>A mark sets its own flag and no other.\<close>

lemma marks_are_separate:
  "has_modified_non_trans_temp_table (mark_trans_did_wait t) = has_modified_non_trans_temp_table t"
  "trans_did_wait (mark_trans_did_wait t)" "trans_did_ddl (mark_trans_did_wait t) = trans_did_ddl t"
  "trans_did_ddl (mark_trans_did_ddl t)" "trans_did_wait (mark_trans_did_ddl t) = trans_did_wait t"
  "has_created_dropped_temp_table (mark_created_temp_table t)" "has_created_dropped_temp_table (mark_dropped_temp_table t)"
  "has_created_dropped_temp_table (mark_executed_table_admin_cmd t) = has_created_dropped_temp_table t"
  by (simp_all add: has_modified_non_trans_temp_table_def mark_trans_did_wait_def trans_did_wait_def trans_did_ddl_def
      mark_trans_did_ddl_def has_created_dropped_temp_table_def mark_created_temp_table_def mark_dropped_temp_table_def
      mark_executed_table_admin_cmd_def unsafe_statement_types bit.conj_disj_distrib2 or_eq_0_iff)

section \<open>Scans are opened and closed in pairs\<close>

datatype scan_op = Index_init uint bool | Index_end | Rnd_init bool | Rnd_end | Index_or_rnd_end
  | Pre_index_init uint bool | Pre_index_end | Pre_rnd_init bool | Pre_rnd_end | Pre_index_or_rnd_end

fun scan_do :: "'e scan_engine \<Rightarrow> scan_op \<Rightarrow> handler \<times> 'e \<Rightarrow> (int \<times> handler \<times> 'e) option" where
  "scan_do E (Index_init idx srt) = ha_index_init E idx srt"
| "scan_do E Index_end = ha_index_end E"
| "scan_do E (Rnd_init scan) = ha_rnd_init E scan"
| "scan_do E Rnd_end = ha_rnd_end E"
| "scan_do E Index_or_rnd_end = ha_index_or_rnd_end E"
| "scan_do E (Pre_index_init idx srt) = ha_pre_index_init E idx srt"
| "scan_do E Pre_index_end = ha_pre_index_end E"
| "scan_do E (Pre_rnd_init scan) = ha_pre_rnd_init E scan"
| "scan_do E Pre_rnd_end = ha_pre_rnd_end E"
| "scan_do E Pre_index_or_rnd_end = ha_pre_index_or_rnd_end E"

fun scan_run :: "'e scan_engine \<Rightarrow> scan_op list \<Rightarrow> handler \<times> 'e \<Rightarrow> (int list \<times> handler \<times> 'e) option" where
  "scan_run E [] s = Some ([], s)"
| "scan_run E (p # ps) s =
     (case scan_do E p s of None \<Rightarrow> None
      | Some (r, s) \<Rightarrow> map_option (\<lambda>(rs, s). (r # rs, s)) (scan_run E ps s))"

text \<open>The calls that reach the engine, with their results, are recorded by an engine around the engine.\<close>

datatype engine_call = Call scan_op int

type_synonym 'e recorded = "'e \<times> engine_call list"

definition record_call :: "scan_op \<Rightarrow> ('e \<Rightarrow> int \<times> 'e) \<Rightarrow> 'e recorded \<Rightarrow> int \<times> 'e recorded" where
  "record_call p f = (\<lambda>(e, cs). let (r, e) = f e in (r, e, cs @ [Call p r]))"

definition recording :: "'e scan_engine \<Rightarrow> 'e recorded scan_engine" where
  "recording E =
     \<lparr>index_init = (\<lambda>idx srt. record_call (Index_init idx srt) (index_init E idx srt)), index_end = record_call Index_end (index_end E),
      rnd_init = (\<lambda>scan. record_call (Rnd_init scan) (rnd_init E scan)), rnd_end = record_call Rnd_end (rnd_end E),
      pre_index_init = (\<lambda>idx srt. record_call (Pre_index_init idx srt) (pre_index_init E idx srt)),
      pre_index_end = record_call Pre_index_end (pre_index_end E),
      pre_rnd_init = (\<lambda>scan. record_call (Pre_rnd_init scan) (pre_rnd_init E scan)), pre_rnd_end = record_call Pre_rnd_end (pre_rnd_end E)\<rparr>"

text \<open>The protocol that an engine relies on: a scan is begun only when none is open, except that a full scan may begin
  anew; a scan that failed to begin is not open; and only an open scan of the same kind is ended. The
  scan that reads ahead has states of its own.\<close>

fun protocol :: "init_stat \<times> init_stat \<Rightarrow> engine_call \<Rightarrow> (init_stat \<times> init_stat) option" where
  "protocol (i, p) (Call (Index_init idx srt) r) = (if i = NONE then Some (if r = 0 then INDEX else NONE, p) else None)"
| "protocol (i, p) (Call Index_end r) = (if i = INDEX then Some (NONE, p) else None)"
| "protocol (i, p) (Call (Rnd_init scan) r) =
     (if i = NONE \<or> i = RND \<and> scan then Some (if r = 0 then RND else NONE, p) else None)"
| "protocol (i, p) (Call Rnd_end r) = (if i = RND then Some (NONE, p) else None)"
| "protocol (i, p) (Call (Pre_index_init idx srt) r) = (if p = NONE then Some (i, if r = 0 then INDEX else NONE) else None)"
| "protocol (i, p) (Call Pre_index_end r) = (if p = INDEX then Some (i, NONE) else None)"
| "protocol (i, p) (Call (Pre_rnd_init scan) r) =
     (if p = NONE \<or> p = RND \<and> scan then Some (i, if r = 0 then RND else NONE) else None)"
| "protocol (i, p) (Call Pre_rnd_end r) = (if p = RND then Some (i, NONE) else None)"
| "protocol _ _ = None"

fun protocols :: "init_stat \<times> init_stat \<Rightarrow> engine_call list \<Rightarrow> (init_stat \<times> init_stat) option" where
  "protocols s [] = Some s"
| "protocols s (c # cs) = Option.bind (protocol s c) (\<lambda>s. protocols s cs)"

lemma protocols_append: "protocols s (cs @ ds) = Option.bind (protocols s cs) (\<lambda>s. protocols s ds)"
  by (induction cs arbitrary: s) simp_all

definition states :: "handler \<Rightarrow> init_stat \<times> init_stat" where
  "states h = (inited h, pre_inited h)"

lemmas scan_defs = ha_index_init_def ha_index_end_def ha_rnd_init_def ha_rnd_end_def ha_index_or_rnd_end_def
  ha_pre_rnd_init_def ha_pre_rnd_end_def ha_pre_index_init_def ha_pre_index_end_def ha_pre_index_or_rnd_end_def

lemma scan_step:
  assumes "scan_do (recording E) p (h, e, cs) = Some (r, h', e', cs')"
  shows "scan_do E p (h, e) = Some (r, h', e') \<and> (\<exists>ds. cs' = cs @ ds \<and> protocols (states h) ds = Some (states h') \<and>
    (\<forall>c \<in> set ds. \<exists>q. c = Call q r))"
  using assms
  by (cases p) (auto simp: scan_defs recording_def record_call_def states_def Let_def split: if_splits prod.splits)

lemma scan_steps:
  assumes "scan_run (recording E) ps (h, e, cs) = Some (rs, h', e', cs')"
  shows "scan_run E ps (h, e) = Some (rs, h', e') \<and> (\<exists>ds. cs' = cs @ ds \<and> protocols (states h) ds = Some (states h'))"
  using assms
proof (induction ps arbitrary: h e cs rs)
  case (Cons p ps)
  obtain r h1 e1 cs1 where 1: "scan_do (recording E) p (h, e, cs) = Some (r, h1, e1, cs1)"
    using Cons.prems by (auto split: option.splits)
  then obtain rs1 where 2: "scan_run (recording E) ps (h1, e1, cs1) = Some (rs1, h', e', cs')" "rs = r # rs1"
    using Cons.prems by auto
  obtain ds ds1 where "cs1 = cs @ ds" "protocols (states h) ds = Some (states h1)"
    "cs' = cs1 @ ds1" "protocols (states h1) ds1 = Some (states h')"
    using scan_step [OF 1] Cons.IH [OF 2(1)] by blast
  moreover have "scan_run E (p # ps) (h, e) = Some (rs, h', e')" using scan_step [OF 1] Cons.IH [OF 2(1)] 2(2) by simp
  ultimately show ?case by (auto simp: protocols_append)
qed simp

text \<open>While an index scan is open, the active index is the one it began on; no end of a range is kept from an
  earlier scan.\<close>

lemma index_scan_opened:
  assumes "ha_index_init E idx srt (h, e) = Some (0, h', e')"
  shows "inited h' = INDEX \<and> active_index h' = idx \<and> end_range h' = 0"
  using assms by (auto simp: ha_index_init_def Let_def split: if_splits prod.splits)

lemma end_always_possible: "\<exists>r h' e'. ha_index_or_rnd_end E (h, e) = Some (r, h', e') \<and> inited h' = NONE \<and> pre_inited h' = pre_inited h"
  by (cases "inited h") (auto simp: scan_defs Let_def split: prod.splits)

lemma pre_end_always_possible: "\<exists>r h' e'. ha_pre_index_or_rnd_end E (h, e) = Some (r, h', e') \<and> pre_inited h' = NONE \<and> inited h' = inited h"
  by (cases "pre_inited h") (auto simp: scan_defs Let_def split: prod.splits)

section \<open>Properties\<close>

text \<open>
  C40. The scans of a storage engine are opened and closed in pairs. Whatever the engine answers, errors included:
  after any sequence of calls on a fresh handler in which no assertion fails, the calls that have reached the engine follow its
  protocol, and the state of the handler is the one the protocol gives, for the scan and for reading ahead; the engine
  sees nothing of the recording; and \<open>ha_index_or_rnd_end\<close> is possible in every state and leaves no scan open,
  as does its counterpart for reading ahead.
\<close>

theorem scans_in_pairs:
  assumes "inited h = NONE" "pre_inited h = NONE" "scan_run (recording E) ps (h, e, []) = Some (rs, h', e', cs)"
  shows "protocols (NONE, NONE) cs = Some (inited h', pre_inited h') \<and> scan_run E ps (h, e) = Some (rs, h', e') \<and>
    (\<exists>r h2 e2. ha_index_or_rnd_end E (h', e') = Some (r, h2, e2) \<and> inited h2 = NONE \<and> pre_inited h2 = pre_inited h') \<and>
    (\<exists>r h2 e2. ha_pre_index_or_rnd_end E (h', e') = Some (r, h2, e2) \<and> pre_inited h2 = NONE \<and> inited h2 = inited h')"
  using scan_steps [OF assms(3)] assms(1,2) end_always_possible [of E h' e'] pre_end_always_possible [of E h' e']
  by (simp add: states_def)

text \<open>An engine whose index scans fail on index 7.\<close>

definition sample_engine :: "unit scan_engine" where
  "sample_engine =
     \<lparr>index_init = (\<lambda>idx srt e. (if idx = 7 then 120 else 0, e)), index_end = (\<lambda>e. (0, e)), rnd_init = (\<lambda>scan e. (0, e)),
      rnd_end = (\<lambda>e. (0, e)), pre_index_init = (\<lambda>idx srt e. (0, e)), pre_index_end = (\<lambda>e. (0, e)),
      pre_rnd_init = (\<lambda>scan e. (0, e)), pre_rnd_end = (\<lambda>e. (0, e))\<rparr>"

lemma scans_in_pairs_witness:
  "\<exists>rs h' e'. scan_run sample_engine [Index_init 7 True, Rnd_init True, Pre_rnd_init False, Rnd_init True, Index_or_rnd_end]
      (\<lparr>end_range = 0, active_index = MAX_KEY, inited = NONE, pre_inited = NONE\<rparr>, ()) = Some (rs, h', e') \<and>
    rs = [120, 0, 0, 0, 0] \<and> inited h' = NONE \<and> pre_inited h' = RND"
proof -
  let ?h = "\<lparr>end_range = 0, active_index = MAX_KEY, inited = NONE, pre_inited = NONE\<rparr>"
  let ?ps = "[Index_init 7 True, Rnd_init True, Pre_rnd_init False, Rnd_init True, Index_or_rnd_end]"
  have "scan_run (recording sample_engine) ?ps (?h, (), []) =
      Some ([120, 0, 0, 0, 0], \<lparr>end_range = 0, active_index = MAX_KEY, inited = NONE, pre_inited = RND\<rparr>, (),
        [Call (Index_init 7 True) 120, Call (Rnd_init True) 0, Call (Pre_rnd_init False) 0, Call (Rnd_init True) 0, Call Rnd_end 0])"
    by (simp add: scan_defs recording_def record_call_def sample_engine_def)
  from scans_in_pairs [OF _ _ this] show ?thesis by simp
qed

end
