(* ===== verification/Spec2Isabelle.thy ===== *)
theory Spec2Isabelle
  imports Voting_Administration Sql_Bitmap Byte_Codecs Privilege_Rights Sql_Numbers Sql_Bubble_Sort Sql_Ilist
    Sql_Plist Hash_Filo Bounded_Queue Thread_Cache Json_Trace Diagnostics_Area Sql_Arrays Sql_String Lifo_Buffer Sql_Structs Sql_Modes Sql_State_Lookup
    Sel_Arg Lex_Stream Mdl_Keys Filesort_Buffers Handler_Scans
begin

text \<open>
  \<^bold>\<open>A verification development for the online voting system\<close>

  The repository holds a Java console program, \<open>src/com/dsu/onlinevoting/OnlineVotingApp.java\<close>, the
  MariaDB 10.6 server it runs on with its headers under
  \<open>mariadb/mariadb-10.6.14-winx64/include/mysql/server\<close>, a JDBC driver, start scripts and
  documents. The development has two halves: the program with the database it keeps, and the
  algorithms that the server headers define inline.

  \<^bold>\<open>1. The voting program\<close>

  A run of the program reads lines from the terminal, prints lines and sends SQL statements over
  one JDBC connection. Four roles (administrator, field officer, voter, candidate) have a menu
  each; accounts, applications, ballots and forum posts live in five tables.

  \<^item> \<open>Voting_Prelude\<close>, \<open>Java_Text\<close>, \<open>Latin1_Collation\<close>, \<open>Sha256\<close>: shared lemmas and integer
    types; \<open>String.trim\<close>, \<open>toUpperCase\<close> and \<open>Integer.parseInt\<close>; the collation of
    \<open>share/charsets/latin1.xml\<close> that decides when two names are equal; password hashing.
  \<^item> \<open>Voting_Schema\<close>: the rows of the five tables as records, \<open>AUTO_INCREMENT\<close>, UNIQUE and FOREIGN
    KEY checks, SQL errors as values. The locales \<open>auto_table\<close> and \<open>unique_table\<close> state what an
    insert into a table with such keys promises; \<open>Voting_Invariant\<close> interprets them on all tables.
  \<^item> \<open>Voting_Sql\<close>: one definition per SQL text of the program. \<open>Voting_Invariant\<close> has the integrity
    invariant \<open>db_ok\<close> and that every statement keeps it; \<open>Voting_Results\<close> the refinement of the
    results query to a tally.
  \<^item> \<open>Voting_Console\<close>: the world of a run, its input and output, the database, and a script of
    events that says what other clients do between two statements and which statements fail; the
    program monad \<open>io\<close> over it.
  \<^item> \<open>Voting_App\<close>, \<open>Voting_Menus\<close>: every method of the program as such a program, with all prompts,
    messages, early returns and exception branches; the menus and \<open>main\<close>.
  \<^item> \<open>Voting_Sessions\<close>, \<open>Voting_Safety\<close>: locales for what a session of each role may do, and their
    interpretations. \<open>Voting_Properties\<close>, \<open>Voting_Guarantees\<close>, \<open>Voting_Administration\<close>: the
    properties (one person one vote under all interference, ballots are permanent, what
    \<open>castVote\<close> requires and does, confinement of roles, the tally, registration and login,
    decisions, setup, the forum, the main loop).

  \<^bold>\<open>2. The server headers\<close>

  \<^item> \<open>My_Bit\<close>, \<open>Bit_Count\<close> (\<open>my_bit.h\<close>): the parallel bit count equals the number of set
    bits; logarithm and rounding to powers of two.
  \<^item> \<open>Sql_Bitmap\<close> (\<open>sql_bitmap.h\<close>): key bitmaps of any width refine finite sets; the
    iterator; prefixes.
  \<^item> \<open>Byte_Memory\<close>, \<open>Byte_Order\<close>, \<open>Byte_Codecs\<close> (\<open>byte_order_generic*.h\<close>, \<open>myisampack.h\<close>,
    \<open>big_endian.h\<close>, \<open>little_endian.h\<close>, \<open>my_byteorder.h\<close>): loads and stores of all widths
    on a byte memory, through the locales \<open>byte_codec\<close>, \<open>two_fields\<close> and \<open>float_codec\<close>.
  \<^item> \<open>Privilege\<close>, \<open>Privilege_Rights\<close> (\<open>privilege.h\<close>): privilege sets and their compact form
    in the grant tables, through the locale \<open>rights_encoding\<close>.
  \<^item> \<open>Sql_Numbers\<close> (\<open>sql_type_int.h\<close>, \<open>sql_limit.h\<close>): integers that may be null (locale
    \<open>null_strict\<close>) or of run-time signedness; LIMIT and OFFSET.
  \<^item> \<open>Node_Chains\<close>, \<open>Sql_List\<close>, \<open>Sql_Bubble_Sort\<close>, \<open>Sql_Ilist\<close> (\<open>sql_list.h\<close>): linked
    lists on explicit heaps with pointers to pointers; the locale \<open>node_chain\<close> has what the lists
    share. Lists refine sequences, sorting sorts, the doubly linked list keeps its back pointers.
  \<^item> \<open>Sized_Ilist\<close> (\<open>ilist.h\<close>), \<open>Sql_Plist\<close> (\<open>sql_plist.h\<close>): the other two intrusive lists, a ring
    through a sentinel and a list with policies for counting and for the last slot, with iterators;
    both refine sequences.
  \<^item> \<open>Hash_Filo\<close> (\<open>hash_filo.h\<close>): a cache that refines the list of its elements by last use.
  \<^item> \<open>Bounded_Queue\<close> (\<open>bounded_queue.h\<close>, \<open>queues.h\<close>): the queue of a sort with LIMIT keeps the best.
  \<^item> \<open>Thread_Cache\<close> (\<open>thread_cache.h\<close>): parked threads, queued connections and flushes as a step
    relation at the granularity of the mutex; accounting, no lost wake-up, flushes end.
  \<^item> \<open>Sql_Arrays\<close> (\<open>span.h\<close>, \<open>sql_array.h\<close>, \<open>mem_root_array.h\<close>): views and the growing array with
    failing allocation.
  \<^item> \<open>Sql_String\<close> (\<open>sql_string.h\<close>): the string buffer over the byte memory, with its growth.
  \<^item> \<open>Lifo_Buffer\<close> (\<open>sql_lifo_buffer.h\<close>): key buffers that grow from either end are stacks.
  \<^item> \<open>Json_Trace\<close> (\<open>my_json_writer.h\<close>): the scopes of the optimizer trace write well-formed documents;
    the output respects its limit.
  \<^item> \<open>Sql_Structs\<close> (\<open>structs.h\<close>): intervals of AUTO_INCREMENT values, options and parser
    structures.
  \<^item> \<open>Sql_Modes\<close> (\<open>sql_basic_types.h\<close>, \<open>sql_mode.h\<close>, \<open>my_time.h\<close>, \<open>mysql_time.h\<close>): flag words
    and truncation of times.
  \<^item> \<open>Sql_States\<close>, \<open>Sql_State_Lookup\<close> (\<open>sql_state.h\<close>, \<open>handler_state.h\<close>, \<open>my_handler_errors.h\<close>,
    \<open>my_base.h\<close>, \<open>mysqld_error.h\<close>): error numbers, SQLSTATEs and messages.

  \<^item> \<open>Sql_Conditions\<close>, \<open>Diagnostics_Area\<close> (\<open>sql_error.h\<close>): classes of SQLSTATEs and of the errors of the
    server's table; conditions; the stack of warning informations on the lists of \<open>Sql_Plist\<close>.
  \<^item> \<open>Sel_Arg\<close> (\<open>opt_range.h\<close>): ranges of the optimizer as sets of values, with bounds that are
    included, excluded or missing; the keys of a range over several key parts, through the locale
    \<open>key_storing\<close>.
  \<^item> \<open>Lex_Stream\<close> (\<open>sql_lex.h\<close>): the character stream of the lexer copies what it reads under echo.
  \<^item> \<open>Mdl_Keys\<close> (\<open>mdl.h\<close>): the keys of metadata locks stand for namespace, database and name.
  \<^item> \<open>Sort_Records\<close>, \<open>Filesort_Buffers\<close> (\<open>sql_sort.h\<close>, \<open>filesort_utils.h\<close>, \<open>filesort.h\<close>): sort
    records delimit themselves; the sort buffer is filled from both ends without overlap.
  \<^item> \<open>Handler_Scans\<close> (\<open>handler.h\<close>): the flags and engines of a transaction; the states of a scan
    around an engine open and close the engine's scans in pairs.

  \<^bold>\<open>3. Conventions\<close>

  Machine integers are words of their width on this platform (64-bit Windows: \<open>long\<close> has 32 bits,
  \<open>size_t\<close> 64), so that overflow is part of the model; a signed number is its word read with
  \<open>sint\<close>. Java \<open>int\<close> is checked where text is parsed. Pointers are numbers or small datatypes with
  the null pointer among them; code that dereferences null, and assertions that fail, give
  \<open>None\<close> where the operation can reach them. Loops over heaps that may be cyclic are
  \<open>partial_function (option)\<close>, and their theorems prove that a result exists; the menu loops
  recurse on the remaining input, of which every round consumes a line, and \<open>main_loop_while_true\<close>
  shows that this is the loop of the source, choice by choice, and that it ends on every input.
  \<open>castVote_requires\<close> names the databases the statements of one call find by \<open>seen k w\<close>, which follows
  the script of events. No fuel is used.

  Code outside the repository's sources is a parameter with a named hypothesis:
  the table of \<open>my_reverse_bits\<close> (\<open>reverse_table_ok\<close>), \<open>alloc_root\<close> (\<open>alloc_ok\<close>), \<open>realloc_raw\<close>
  (\<open>realloc_ok\<close>), \<open>log_10_int\<close> (\<open>powers_of_ten\<close>), comparison functions (\<open>comparator\<close>, \<open>key_order\<close>),
  appending to a \<open>String\<close> (\<open>append_ok\<close>), the hash table under the cache (\<open>hash_ok\<close>), the heap under the bounded queue (\<open>queue_ok\<close>), the declared functions of \<open>Warning_info\<close>
  (\<open>wi_functions_ok\<close>), the comparison and the constructor of \<open>SEL_ARG\<close> (\<open>sel_functions_ok\<close>), \<open>strmake\<close>
  (\<open>strmake_ok\<close>), what allocating a sort buffer leaves (\<open>allocated\<close>) and the
  address \<open>new\<close> returns. The hypotheses are satisfied by the instances in the witnesses.

  \<^bold>\<open>4. Not modelled\<close>

  The server and the driver are binaries: of their behaviour the development has the tables,
  keys, statement atomicity and errors that the program relies on. Most of the server headers
  only declare classes whose code is not part of the repository (\<open>sql_class.h\<close>, \<open>item.h\<close>,
  \<open>field.h\<close> and others), and the client library headers are not used by
  the program. Of the headers that are modelled, left out are: \<open>Bitmap::print\<close>, which shifts by
  the width of the word and more; the typed wrappers \<open>List<T>\<close>, \<open>I_List<T>\<close> and \<open>String\<close>, which
  cast or add a character set to each call; \<open>Dynamic_array\<close>, which wraps functions of the C
  library of the server; debug output; plain records of statistics and keys; the red-black tree of
  ranges, the tokens of the lexer, the granting of locks and the merge of sorted files, which are
  declared only. Scripts and
  documents have no logic.

  \<^bold>\<open>5. Where the development goes on\<close>

  Further headers with inline algorithms: \<open>sql_type.h\<close> (seconds with fractions), \<open>rowid_filter.h\<close>, \<open>multi_range_read.h\<close>.
\<close>

end
